(* ===== verification/Prelude.thy ===== *)
theory Prelude
  imports Main "HOL-Library.Word" "HOL-Library.Char_ord" "HOL-Library.List_Lexorder"
begin

text \<open>
  Shared vocabulary of the development: machine integers and time, the string comparisons
  of the C++ sources, the ordered containers \<open>std::map\<close> and \<open>std::set\<close> as the sources
  use them, and the lemma collections the component theories add to.

  Time points and durations are integers counting nanoseconds (the resolution of
  \<open>std::chrono::steady_clock\<close> on the supported compilers); \<open>ms\<close> converts the
  millisecond literals of the sources.
\<close>

section \<open>Machine integers and time\<close>

type_synonym u32 = "32 word"
type_synonym u64 = "64 word"

type_synonym time_ns = int

definition ms :: "int \<Rightarrow> time_ns" where
  "ms n = n * 1000000"

lemma ms_simps [simp]:
  "ms 0 = 0"
  "ms a < ms b \<longleftrightarrow> a < b"
  "ms a \<le> ms b \<longleftrightarrow> a \<le> b"
  "ms a = ms b \<longleftrightarrow> a = b"
  by (auto simp: ms_def)

lemma ms_pos [simp]: "0 < ms n \<longleftrightarrow> 0 < n" "0 \<le> ms n \<longleftrightarrow> 0 \<le> n"
  by (auto simp: ms_def)

section \<open>Strings\<close>

text \<open>
  \<open>std::tolower\<close> on an unsigned char in the C locale, and \<open>boost::iequals\<close> in the classic
  locale: only the ASCII letters differ from themselves.
\<close>

definition tolower :: "char \<Rightarrow> char" where
  "tolower c = (let n = (of_char c :: nat)
                in if 65 \<le> n \<and> n \<le> 90 then char_of (n + 32) else c)"

definition lower :: "string \<Rightarrow> string" where
  "lower s = map tolower s"

definition iequals :: "string \<Rightarrow> string \<Rightarrow> bool" where
  "iequals a b \<longleftrightarrow> lower a = lower b"

lemma iequals_refl [simp]: "iequals a a"
  by (simp add: iequals_def)

lemma iequals_sym: "iequals a b \<Longrightarrow> iequals b a"
  by (simp add: iequals_def)

lemma iequals_trans: "iequals a b \<Longrightarrow> iequals b c \<Longrightarrow> iequals a c"
  by (simp add: iequals_def)

lemma lower_Nil [simp]: "lower [] = []" "lower s = [] \<longleftrightarrow> s = []"
  by (auto simp: lower_def)

lemma length_lower [simp]: "length (lower s) = length s"
  by (simp add: lower_def)

lemma iequals_Nil [simp]: "iequals [] b \<longleftrightarrow> b = []" "iequals a [] \<longleftrightarrow> a = []"
  by (simp_all add: iequals_def lower_def)

lemma tolower_idem [simp]: "tolower (tolower c) = tolower c"
proof (cases "65 \<le> (of_char c :: nat) \<and> (of_char c :: nat) \<le> 90")
  case True
  then have "(of_char (tolower c) :: nat) = of_char c + 32"
    by (simp add: tolower_def Let_def)
  with True show ?thesis
    by (auto simp: tolower_def [of "tolower c"] Let_def)
next
  case False
  then show ?thesis by (auto simp: tolower_def Let_def)
qed

lemma lower_idem [simp]: "lower (lower s) = lower s"
  by (simp add: lower_def)

text \<open>\<open>std::isspace\<close> in the C locale: space, tab, newline, vertical tab, form feed, return.\<close>

definition isspace :: "char \<Rightarrow> bool" where
  "isspace c \<longleftrightarrow> (let n = (of_char c :: nat) in n = 32 \<or> (9 \<le> n \<and> n \<le> 13))"

lemma isspace_tolower [simp]: "isspace (tolower c) = isspace c"
proof (cases "65 \<le> (of_char c :: nat) \<and> (of_char c :: nat) \<le> 90")
  case True
  then have "(of_char (tolower c) :: nat) = of_char c + 32"
    by (simp add: tolower_def Let_def)
  with True show ?thesis by (simp add: isspace_def Let_def)
next
  case False
  then show ?thesis by (auto simp: tolower_def Let_def)
qed

section \<open>Ordered containers\<close>

text \<open>
  \<open>std::map<std::string, V>\<close> as an association list in strictly ascending key order, the
  order in which the code iterates over it. \<open>smap_wf\<close> is the container's own invariant.
\<close>

type_synonym 'v smap = "(string \<times> 'v) list"

definition smap_wf :: "'v smap \<Rightarrow> bool" where
  "smap_wf m \<longleftrightarrow> sorted_wrt (<) (map fst m)"

text \<open>\<open>emplace\<close> keeps an existing entry; \<open>operator[] =\<close> replaces it.\<close>

fun smap_emplace :: "string \<Rightarrow> 'v \<Rightarrow> 'v smap \<Rightarrow> 'v smap" where
  "smap_emplace k v [] = [(k, v)]"
| "smap_emplace k v ((k', v') # m) =
     (if k < k' then (k, v) # (k', v') # m
      else if k = k' then (k', v') # m
      else (k', v') # smap_emplace k v m)"

fun smap_set :: "string \<Rightarrow> 'v \<Rightarrow> 'v smap \<Rightarrow> 'v smap" where
  "smap_set k v [] = [(k, v)]"
| "smap_set k v ((k', v') # m) =
     (if k < k' then (k, v) # (k', v') # m
      else if k = k' then (k, v) # m
      else (k', v') # smap_set k v m)"

text \<open>The erase loops of the sources: keep the entries whose key satisfies the predicate.\<close>

definition smap_retain :: "(string \<Rightarrow> bool) \<Rightarrow> 'v smap \<Rightarrow> 'v smap" where
  "smap_retain p m = filter (\<lambda>kv. p (fst kv)) m"

definition smap_keys :: "'v smap \<Rightarrow> string set" where
  "smap_keys m = fst ` set m"

lemma smap_wf_Nil [simp, intro]: "smap_wf []"
  by (simp add: smap_wf_def)

lemma smap_wf_Cons: "smap_wf ((k, v) # m) \<longleftrightarrow> (\<forall>k' \<in> smap_keys m. k < k') \<and> smap_wf m"
  by (auto simp: smap_wf_def smap_keys_def)

lemma smap_keys_simps [simp]:
  "smap_keys [] = {}"
  "smap_keys ((k, v) # m) = insert k (smap_keys m)"
  by (simp_all add: smap_keys_def)

lemma smap_keys_emplace [simp]: "smap_keys (smap_emplace k v m) = insert k (smap_keys m)"
  by (induction k v m rule: smap_emplace.induct) auto

lemma smap_keys_set [simp]: "smap_keys (smap_set k v m) = insert k (smap_keys m)"
  by (induction k v m rule: smap_set.induct) auto

lemma smap_wf_emplace [intro]: "smap_wf m \<Longrightarrow> smap_wf (smap_emplace k v m)"
  by (induction k v m rule: smap_emplace.induct) (auto simp: smap_wf_Cons)

lemma smap_wf_set [intro]: "smap_wf m \<Longrightarrow> smap_wf (smap_set k v m)"
  by (induction k v m rule: smap_set.induct) (auto simp: smap_wf_Cons)

lemma smap_keys_retain [simp]: "smap_keys (smap_retain p m) = {k \<in> smap_keys m. p k}"
  by (auto simp: smap_retain_def smap_keys_def)

lemma smap_wf_retain [intro]: "smap_wf m \<Longrightarrow> smap_wf (smap_retain p m)"
  by (induction m) (auto simp: smap_retain_def smap_wf_Cons smap_keys_def)

lemma smap_retain_all: "(\<And>k. k \<in> smap_keys m \<Longrightarrow> p k) \<Longrightarrow> smap_retain p m = m"
  by (auto simp: smap_retain_def smap_keys_def filter_id_conv)

text \<open>Appending in ascending order is how a parser rebuilds a map from its own serialization.\<close>

lemma smap_emplace_snoc:
  "smap_wf m \<Longrightarrow> (\<And>k'. k' \<in> smap_keys m \<Longrightarrow> k' < k) \<Longrightarrow> smap_emplace k v m = m @ [(k, v)]"
proof (induction m)
  case Nil
  then show ?case by simp
next
  case (Cons kv m)
  obtain k' v' where kv: "kv = (k', v')" by (cases kv)
  from Cons.prems kv have "k' < k" by simp
  moreover from Cons have "smap_emplace k v m = m @ [(k, v)]"
    by (simp add: kv smap_wf_Cons)
  ultimately show ?case using kv by (auto simp: not_less_iff_gr_or_eq)
qed

lemma smap_set_snoc:
  "smap_wf m \<Longrightarrow> (\<And>k'. k' \<in> smap_keys m \<Longrightarrow> k' < k) \<Longrightarrow> smap_set k v m = m @ [(k, v)]"
proof (induction m)
  case Nil
  then show ?case by simp
next
  case (Cons kv m)
  obtain k' v' where kv: "kv = (k', v')" by (cases kv)
  from Cons.prems kv have "k' < k" by simp
  moreover from Cons have "smap_set k v m = m @ [(k, v)]"
    by (simp add: kv smap_wf_Cons)
  ultimately show ?case using kv by (auto simp: not_less_iff_gr_or_eq)
qed

section \<open>Lists\<close>

text \<open>The loops that drop the elements of every group and the groups left empty.\<close>

definition filter_groups :: "('a \<Rightarrow> bool) \<Rightarrow> 'a list list \<Rightarrow> 'a list list" where
  "filter_groups p gs = filter (\<lambda>g. g \<noteq> []) (map (filter p) gs)"

lemma set_filter_groups [simp]:
  "set (concat (filter_groups p gs)) = {x \<in> set (concat gs). p x}"
  by (auto simp: filter_groups_def filter_empty_conv)

lemma filter_groups_nonempty: "g \<in> set (filter_groups p gs) \<Longrightarrow> g \<noteq> []"
  by (simp add: filter_groups_def)

lemma filter_groups_all:
  "(\<And>x. x \<in> set (concat gs) \<Longrightarrow> p x) \<Longrightarrow> (\<And>g. g \<in> set gs \<Longrightarrow> g \<noteq> []) \<Longrightarrow> filter_groups p gs = gs"
proof (induction gs)
  case Nil
  then show ?case by (simp add: filter_groups_def)
next
  case (Cons g gs)
  then have "filter p g = g" "g \<noteq> []" "filter_groups p gs = gs"
    by (auto simp: filter_id_conv)
  then show ?case by (simp add: filter_groups_def)
qed

lemma filter_groups_Nil_iff: "filter_groups p gs = [] \<longleftrightarrow> (\<forall>x \<in> set (concat gs). \<not> p x)"
  by (auto simp: filter_groups_def filter_empty_conv)

end
