(* ===== verification/Helper_Types.thy ===== *)
theory Helper_Types
  imports Prelude
begin

text \<open>
  The data of the display helper (\<open>src/platform/windows/display_helper_v2/types.h\<close>, with the
  outcome types of \<open>operations.h\<close> and the snapshot type of \<open>snapshot_codec.h\<close>). Records and
  datatypes keep the order of the source; a record's fields carry a prefix that names the
  struct. The \<open>display_device\<close> structs come from libdisplaydevice, which is not part of the
  repository: the records below hold exactly the members the sources read or write.
\<close>

section \<open>Enumerations\<close>

datatype apply_action =
  Action_Apply | Action_Revert | Action_Disarm | Action_ExportGolden
| Action_SnapshotCurrent | Action_Reset | Action_Ping | Action_Stop

datatype apply_status =
  Status_Ok | Status_HelperUnavailable | Status_InvalidRequest | Status_VerificationFailed
| Status_NeedsVirtualDisplayReset | Status_Retryable | Status_Fatal

datatype snapshot_tier = Tier_Current | Tier_Previous | Tier_Golden

datatype policy_decision =
  Policy_Proceed | Policy_Retry | Policy_ResetVirtualDisplay | Policy_SkipToNextTier

datatype sm_state =
  Waiting | InProgress | Verification | Recovery | RecoveryValidation | EventLoop
| VirtualDisplayMonitoring

datatype display_event = DisplayChange | PowerResume | DeviceArrival | DeviceRemoval

datatype helper_event = HeartbeatTimeout

section \<open>The members of the libdisplaydevice structs the sources use\<close>

type_synonym device_id = string
type_synonym topology = "device_id list list"

datatype hdr_state = Hdr_Disabled | Hdr_Enabled

datatype device_preparation = VerifyOnly | EnsureActive | EnsurePrimary | EnsureOnlyDisplay

record resolution =
  res_width :: u32
  res_height :: u32

record rational =
  rat_numerator :: u32
  rat_denominator :: u32

record point =
  pt_x :: int
  pt_y :: int

record display_mode =
  mode_resolution :: resolution
  mode_refresh_rate :: rational

text \<open>\<open>FloatingPoint\<close> is a variant of a double (kept as its bit pattern) and a rational.\<close>

datatype floating_point = Fp_Double u64 | Fp_Rational rational

record single_display_configuration =
  cfg_device_id :: device_id
  cfg_device_prep :: device_preparation
  cfg_resolution :: "resolution option"
  cfg_refresh_rate :: "floating_point option"
  cfg_hdr_state :: "hdr_state option"

record snapshot =
  snap_topology :: topology
  snap_modes :: "display_mode smap"
  snap_hdr_states :: "(hdr_state option) smap"
  snap_primary_device :: device_id
  snap_origins :: "point smap"

definition empty_snapshot :: snapshot where
  "empty_snapshot = \<lparr>snap_topology = [], snap_modes = [], snap_hdr_states = [],
                      snap_primary_device = [], snap_origins = []\<rparr>"

record enumerated_device =
  dev_device_id :: device_id
  dev_display_name :: string
  dev_friendly_name :: string
  dev_edid_manufacturer :: "string option"
  dev_has_info :: bool

section \<open>Requests and commands\<close>

datatype device_target_kind = Kind_None | Kind_ExplicitDevice | Kind_DefaultPrimaryGroup

record activation_target =
  tgt_kind :: device_target_kind
  tgt_acceptable :: "device_id set"

definition no_target :: activation_target where
  "no_target = \<lparr>tgt_kind = Kind_None, tgt_acceptable = {}\<rparr>"

record resolved_target =
  rt_kind :: device_target_kind
  rt_representative :: device_id
  rt_duplicates :: "device_id set"

record apply_topology_plan =
  plan_topology :: topology
  plan_target :: activation_target

record apply_request =
  ar_configuration :: "single_display_configuration option"
  ar_topology :: "topology option"
  ar_monitor_positions :: "(device_id \<times> point) list"
  ar_refresh_rate_overrides :: "(device_id \<times> (u32 \<times> u32)) list"
  ar_hdr_blank :: bool
  ar_prefer_golden_first :: bool
  ar_restore_on_disconnect :: bool
  ar_omit_final_initial_hdr_reapply :: bool
  ar_virtual_layout :: "string option"
  ar_snapshot_exclusions :: "string list option"
  ar_request_id :: u64

definition default_apply_request :: apply_request where
  "default_apply_request =
     \<lparr>ar_configuration = None, ar_topology = None, ar_monitor_positions = [],
      ar_refresh_rate_overrides = [], ar_hdr_blank = False, ar_prefer_golden_first = False,
      ar_restore_on_disconnect = True, ar_omit_final_initial_hdr_reapply = False,
      ar_virtual_layout = None, ar_snapshot_exclusions = None, ar_request_id = 0\<rparr>"

record snapshot_command_payload =
  scp_exclude_devices :: "string list"
  scp_update_exclusions :: bool

record apply_command =
  ac_request :: apply_request
  ac_generation :: u64
  ac_connection_epoch :: u64

record revert_command =
  rc_generation :: u64
  rc_connection_epoch :: u64
  rc_prefer_golden_if_current_missing :: bool
  rc_always_restore_from_golden :: "bool option"
  rc_immediate :: bool
  rc_from_disconnect :: bool

definition default_revert_command :: revert_command where
  "default_revert_command =
     \<lparr>rc_generation = 0, rc_connection_epoch = 0, rc_prefer_golden_if_current_missing = True,
      rc_always_restore_from_golden = None, rc_immediate = False, rc_from_disconnect = False\<rparr>"

record disarm_command =
  dc_generation :: u64
  dc_connection_epoch :: u64

record export_golden_command =
  eg_payload :: snapshot_command_payload
  eg_generation :: u64
  eg_connection_epoch :: u64

record snapshot_current_command =
  sc_payload :: snapshot_command_payload
  sc_generation :: u64
  sc_connection_epoch :: u64
  sc_request_id :: u64

record refresh_rate_command =
  rr_device_id :: device_id
  rr_numerator :: u32
  rr_denominator :: u32
  rr_generation :: u64
  rr_connection_epoch :: u64
  rr_request_id :: u64

record reset_command =
  rs_generation :: u64
  rs_connection_epoch :: u64

record ping_command =
  pg_generation :: u64
  pg_connection_epoch :: u64

record stop_command =
  st_generation :: u64
  st_connection_epoch :: u64

section \<open>Completions and events\<close>

record apply_completed =
  acd_status :: apply_status
  acd_expected_topology :: "topology option"
  acd_resolved_target :: "resolved_target option"
  acd_virtual_display_requested :: bool
  acd_display_may_have_changed :: bool
  acd_durable_recovery_armed :: bool
  acd_staged_state_prepared :: bool
  acd_generation :: u64

datatype verification_purpose = Initial | Stabilization | TransientDisconnect

record verification_completed =
  vcd_success :: bool
  vcd_purpose :: verification_purpose
  vcd_generation :: u64

record reset_completed =
  rcd_success :: bool
  rcd_generation :: u64

record refresh_rate_completed =
  rrd_success :: bool
  rrd_device_id :: device_id
  rrd_numerator :: u32
  rrd_denominator :: u32
  rrd_generation :: u64
  rrd_connection_epoch :: u64
  rrd_request_id :: u64

record recovery_completed =
  rvd_success :: bool
  rvd_snapshot :: "snapshot option"
  rvd_display_may_have_changed :: bool
  rvd_staged_state_reset_attempted :: bool
  rvd_staged_state_reset_succeeded :: bool
  rvd_generation :: u64

record recovery_validation_completed =
  rvv_success :: bool
  rvv_generation :: u64

record display_event_message =
  dem_event :: display_event
  dem_generation :: u64

record helper_event_message =
  hem_event :: helper_event
  hem_generation :: u64
  hem_connection_epoch :: u64

text \<open>The \<open>std::variant\<close> of all messages the state machine handles, in the source's order.\<close>

datatype message =
  M_Apply apply_command
| M_Revert revert_command
| M_Disarm disarm_command
| M_ExportGolden export_golden_command
| M_SnapshotCurrent snapshot_current_command
| M_RefreshRate refresh_rate_command
| M_Reset reset_command
| M_Ping ping_command
| M_Stop stop_command
| M_ApplyCompleted apply_completed
| M_VerificationCompleted verification_completed
| M_ResetCompleted reset_completed
| M_RefreshRateCompleted refresh_rate_completed
| M_RecoveryCompleted recovery_completed
| M_RecoveryValidationCompleted recovery_validation_completed
| M_DisplayEvent display_event_message
| M_HelperEvent helper_event_message

section \<open>Outcomes of the worker operations\<close>

record apply_outcome =
  ao_status :: apply_status
  ao_expected_topology :: "topology option"
  ao_resolved_target :: "resolved_target option"
  ao_virtual_display_requested :: bool
  ao_display_may_have_changed :: bool
  ao_durable_recovery_armed :: bool
  ao_staged_state_prepared :: bool

definition default_apply_outcome :: apply_outcome where
  "default_apply_outcome =
     \<lparr>ao_status = Status_Fatal, ao_expected_topology = None, ao_resolved_target = None,
      ao_virtual_display_requested = False, ao_display_may_have_changed = False,
      ao_durable_recovery_armed = False, ao_staged_state_prepared = False\<rparr>"

record recovery_outcome =
  ro_success :: bool
  ro_snapshot :: "snapshot option"
  ro_display_may_have_changed :: bool
  ro_staged_state_reset_attempted :: bool
  ro_staged_state_reset_succeeded :: bool

definition default_recovery_outcome :: recovery_outcome where
  "default_recovery_outcome =
     \<lparr>ro_success = False, ro_snapshot = None, ro_display_may_have_changed = False,
      ro_staged_state_reset_attempted = False, ro_staged_state_reset_succeeded = False\<rparr>"

type_synonym layout_rotation_map = "int smap"

record parsed_snapshot =
  ps_snapshot :: snapshot
  ps_version :: int
  ps_has_layout_data :: bool
  ps_layout_rotations :: layout_rotation_map

definition kSnapshotLayoutVersionLatest :: int where
  "kSnapshotLayoutVersionLatest = 2"

definition default_parsed_snapshot :: parsed_snapshot where
  "default_parsed_snapshot =
     \<lparr>ps_snapshot = empty_snapshot, ps_version = 1, ps_has_layout_data = False,
      ps_layout_rotations = []\<rparr>"

section \<open>The restore-engine flags shared by the state machine and the recovery worker\<close>

record restore_state =
  rst_always_restore_from_golden :: bool
  rst_prefer_golden_if_current_missing :: bool
  rst_restore_on_disconnect :: bool
  rst_restore_attempted_unconfirmed :: bool
  rst_golden_pending_session_fallbacks :: nat
  rst_last_session_restore_success_ms :: int
  rst_exclusions :: "string list"

definition initial_restore_state :: restore_state where
  "initial_restore_state =
     \<lparr>rst_always_restore_from_golden = False, rst_prefer_golden_if_current_missing = True,
      rst_restore_on_disconnect = True, rst_restore_attempted_unconfirmed = False,
      rst_golden_pending_session_fallbacks = 0, rst_last_session_restore_success_ms = 0,
      rst_exclusions = []\<rparr>"

definition set_exclusions :: "string list \<Rightarrow> restore_state \<Rightarrow> restore_state" where
  "set_exclusions ex r = r\<lparr>rst_exclusions := ex\<rparr>"

definition reset_request_progress :: "restore_state \<Rightarrow> restore_state" where
  "reset_request_progress r =
     r\<lparr>rst_restore_attempted_unconfirmed := False, rst_golden_pending_session_fallbacks := 0\<rparr>"

end
