(* ===== verification/Snapshot_Codec.thy ===== *)
theory Snapshot_Codec
  imports Helper_Types "HOL-Library.Multiset"
begin

text \<open>
  The pure snapshot logic of \<open>snapshot_codec.cpp\<close>: the case-insensitive string helpers, device id
  and rotation normalisation, the canonical topology and the strict snapshot comparison, device
  classification, and the save-side and load-side filters. Log statements and the reject reason
  text that only feeds them are left out, except the reason \<open>filter_snapshot_for_save\<close> returns.
  The on-disk text format is in the theory \<open>Snapshot_Text\<close>.
\<close>

named_theorems codec_defs \<open>definitions of the codec's helpers\<close>

section \<open>String helpers\<close>

definition ascii_lower :: "string \<Rightarrow> string" where
  "ascii_lower s = map (\<lambda>ch. let n = (of_char ch :: nat)
                             in if 65 \<le> n \<and> n \<le> 90 then char_of (n - 65 + 97) else ch) s"

definition contains_ci :: "string \<Rightarrow> string \<Rightarrow> bool" where
  "contains_ci haystack needle =
     (if needle = [] then True
      else if length haystack < length needle then False
      else list_ex (\<lambda>i. list_all (\<lambda>j. tolower (haystack ! (i + j)) = tolower (needle ! j))
                                 [0..<length needle])
                   [0..<Suc (length haystack - length needle)])"

definition equals_ci :: "string \<Rightarrow> string \<Rightarrow> bool" where
  "equals_ci lhs rhs \<longleftrightarrow> length lhs = length rhs \<and> contains_ci lhs rhs"

definition trim_space :: "string \<Rightarrow> string" where
  "trim_space s = rev (dropWhile isspace (rev (dropWhile isspace s)))"

definition normalize_device_id :: "device_id \<Rightarrow> device_id" where
  "normalize_device_id d = lower (trim_space d)"

lemma ascii_lower_eq_lower: "ascii_lower s = lower s"
  by (auto simp: ascii_lower_def lower_def tolower_def Let_def)

lemma equals_ci_iequals: "equals_ci a b \<longleftrightarrow> iequals a b"
proof
  assume e: "equals_ci a b"
  then have len: "length a = length b" by (simp add: equals_ci_def)
  have "tolower (a ! j) = tolower (b ! j)" if "j < length b" for j
    using e that by (cases "b = []") (auto simp: equals_ci_def contains_ci_def list_all_iff)
  with len show "iequals a b"
    by (auto simp: iequals_def lower_def intro: nth_equalityI)
next
  assume e: "iequals a b"
  then have len: "length a = length b" by (metis iequals_def length_lower)
  have "tolower (a ! j) = tolower (b ! j)" if "j < length b" for j
    using e that len by (metis iequals_def lower_def nth_map)
  with len show "equals_ci a b"
    by (auto simp: equals_ci_def contains_ci_def list_all_iff)
qed

lemma dropWhile_isspace_tolower:
  "dropWhile isspace (map tolower s) = map tolower (dropWhile isspace s)"
  by (simp add: dropWhile_map comp_def)

lemma trim_space_lower: "trim_space (lower s) = lower (trim_space s)"
proof -
  have "rev (map tolower xs) = map tolower (rev xs)" for xs by (simp add: rev_map)
  then show ?thesis by (simp add: trim_space_def dropWhile_isspace_tolower lower_def)
qed

lemma dropWhile_idem: "dropWhile p (dropWhile p xs) = dropWhile p xs"
  by (induction xs) auto

lemma hd_dropWhile_rev:
  assumes "dropWhile p xs = xs"
  shows "dropWhile p (rev (dropWhile p (rev xs))) = rev (dropWhile p (rev xs))"
proof (cases xs)
  case Nil
  then show ?thesis by simp
next
  case (Cons x ys)
  with assms have x: "\<not> p x" by (metis dropWhile.simps(2) length_dropWhile_le length_Cons not_less_eq_eq)
  then have "rev (dropWhile p (rev xs)) = x # rev (dropWhile p (rev ys))"
    by (simp add: Cons dropWhile_append)
  with x show ?thesis by simp
qed

lemma trim_space_idem: "trim_space (trim_space s) = trim_space s"
  using hd_dropWhile_rev [OF dropWhile_idem, of isspace s]
  by (simp add: trim_space_def dropWhile_idem)

lemma normalize_device_id_idem [simp]:
  "normalize_device_id (normalize_device_id d) = normalize_device_id d"
  by (simp add: normalize_device_id_def trim_space_lower trim_space_idem)

section \<open>Rotations\<close>

text \<open>The C++ remainder has the sign of the dividend.\<close>

definition c_rem :: "int \<Rightarrow> int \<Rightarrow> int" where
  "c_rem a b = sgn a * (\<bar>a\<bar> mod \<bar>b\<bar>)"

definition normalize_rotation_degrees :: "int \<Rightarrow> int option" where
  "normalize_rotation_degrees degrees =
     (let normalized = c_rem degrees 360;
          normalized = (if normalized < 0 then normalized + 360 else normalized)
      in if normalized \<in> {0, 90, 180, 270} then Some normalized else None)"

lemma normalize_rotation_degrees_eq:
  "normalize_rotation_degrees d =
     (if d mod 360 \<in> {0, 90, 180, 270} then Some (d mod 360) else None)"
proof -
  have "(if c_rem d 360 < 0 then c_rem d 360 + 360 else c_rem d 360) = d mod 360"
  proof (cases "0 \<le> d")
    case True
    then show ?thesis
      by (cases "d = 0") (simp_all add: c_rem_def not_less)
  next
    case False
    then have "c_rem d 360 = - ((- d) mod 360)" by (simp add: c_rem_def)
    then show ?thesis by (auto simp: zmod_zminus1_eq_if)
  qed
  then show ?thesis by (simp add: normalize_rotation_degrees_def Let_def)
qed

section \<open>Topology and snapshot comparison\<close>

definition flatten_topology_device_ids :: "topology \<Rightarrow> device_id list" where
  "flatten_topology_device_ids t = remdups_adj (sort (filter (\<lambda>d. d \<noteq> []) (concat t)))"

definition topology_device_set :: "topology \<Rightarrow> device_id set" where
  "topology_device_set t = set (concat t)"

definition snapshot_device_set :: "snapshot \<Rightarrow> device_id set" where
  "snapshot_device_set s =
     (let out = set (concat (snap_topology s))
      in if out = {} then smap_keys (snap_modes s) else out)"

definition canonical_topology :: "topology \<Rightarrow> topology" where
  "canonical_topology t = sort (map sort t)"

definition equal_snapshots_strict :: "snapshot \<Rightarrow> snapshot \<Rightarrow> bool" where
  "equal_snapshots_strict a b =
     (if canonical_topology (snap_topology a) \<noteq> canonical_topology (snap_topology b) then False
      else if \<not> (snap_modes a = snap_modes b \<and> snap_hdr_states a = snap_hdr_states b \<and>
                 snap_primary_device a = snap_primary_device b) then False
      else if snap_origins a \<noteq> [] \<and> snap_origins b \<noteq> [] then snap_origins a = snap_origins b
      else True)"

lemma set_flatten_topology_device_ids:
  "set (flatten_topology_device_ids t) = topology_device_set t - {[]}"
  by (auto simp: flatten_topology_device_ids_def topology_device_set_def)

lemma distinct_remdups_adj_sorted: "sorted xs \<Longrightarrow> distinct (remdups_adj xs)"
  by (induction xs rule: remdups_adj.induct) auto

lemma sorted_distinct_flatten:
  "sorted (flatten_topology_device_ids t) \<and> distinct (flatten_topology_device_ids t)"
  by (simp add: flatten_topology_device_ids_def sorted_remdups_adj distinct_remdups_adj_sorted)

text \<open>
  Two topologies have the same canonical form exactly when one becomes the other by reordering
  the groups and the members of each group.
\<close>

lemma sort_eq_iff_mset: "sort xs = sort ys \<longleftrightarrow> mset xs = mset ys"
  by (metis mset_sort properties_for_sort sorted_sort)

lemma canonical_topology_eq_iff:
  "canonical_topology a = canonical_topology b \<longleftrightarrow>
   image_mset mset (mset a) = image_mset mset (mset b)"
proof -
  have "canonical_topology a = canonical_topology b \<longleftrightarrow>
        image_mset sort (mset a) = image_mset sort (mset b)"
    by (simp add: canonical_topology_def sort_eq_iff_mset)
  also have "\<dots> \<longleftrightarrow> image_mset mset (mset a) = image_mset mset (mset b)"
  proof
    assume "image_mset sort (mset a) = image_mset sort (mset b)"
    then have "image_mset mset (image_mset sort (mset a)) = image_mset mset (image_mset sort (mset b))"
      by simp
    then show "image_mset mset (mset a) = image_mset mset (mset b)"
      by (simp add: image_mset.compositionality comp_def)
  next
    assume "image_mset mset (mset a) = image_mset mset (mset b)"
    then have "image_mset sorted_list_of_multiset (image_mset mset (mset a)) =
               image_mset sorted_list_of_multiset (image_mset mset (mset b))"
      by simp
    then show "image_mset sort (mset a) = image_mset sort (mset b)"
      by (simp add: image_mset.compositionality comp_def sorted_list_of_multiset_mset)
  qed
  finally show ?thesis .
qed

lemma equal_snapshots_strict_refl [simp]: "equal_snapshots_strict a a"
  by (simp add: equal_snapshots_strict_def)

lemma equal_snapshots_strict_sym: "equal_snapshots_strict a b = equal_snapshots_strict b a"
  by (auto simp: equal_snapshots_strict_def)

section \<open>Device classification\<close>

definition is_virtual_display_device :: "enumerated_device \<Rightarrow> bool" where
  "is_virtual_display_device d =
     (if contains_ci (dev_device_id d) ''SunshineVirtualDisplay'' \<or>
         contains_ci (dev_device_id d) ''Sunshine Virtual Display'' \<or>
         contains_ci (dev_display_name d) ''SunshineVirtualDisplay'' \<or>
         contains_ci (dev_display_name d) ''Sunshine Virtual Display'' \<or>
         contains_ci (dev_friendly_name d) ''SunshineVirtualDisplay'' \<or>
         contains_ci (dev_friendly_name d) ''Sunshine Virtual Display'' then True
      else if equals_ci (dev_friendly_name d) ''Sunshine Virtual Display Driver'' then True
      else case dev_edid_manufacturer d of
             None \<Rightarrow> False
           | Some m \<Rightarrow> equals_ci m ''SDD'' \<or> equals_ci m ''SMK'')"

definition is_active_display_device :: "enumerated_device \<Rightarrow> bool" where
  "is_active_display_device d \<longleftrightarrow> dev_has_info d \<or> dev_display_name d \<noteq> []"

text \<open>The id both filters use for a device: its device id, or its display name without one.\<close>

definition dev_id :: "enumerated_device \<Rightarrow> device_id" where
  "dev_id d = (if dev_device_id d = [] then dev_display_name d else dev_device_id d)"

section \<open>Save-side filter\<close>

definition is_excluded :: "device_id list \<Rightarrow> device_id \<Rightarrow> bool" where
  "is_excluded exclusions d \<longleftrightarrow> normalize_device_id d \<in> set (map normalize_device_id exclusions)"

definition valid_device_ids :: "enumerated_device list \<Rightarrow> device_id set" where
  "valid_device_ids devices =
     set (map dev_id (filter (\<lambda>d. \<not> is_virtual_display_device d \<and> dev_display_name d \<noteq> [] \<and>
                                  dev_id d \<noteq> []) devices))"

definition retain_devices :: "device_id set \<Rightarrow> snapshot \<Rightarrow> snapshot" where
  "retain_devices valid s =
     s\<lparr>snap_topology := filter_groups (\<lambda>d. d \<in> valid) (snap_topology s),
       snap_modes := smap_retain (\<lambda>d. d \<in> valid) (snap_modes s),
       snap_hdr_states := smap_retain (\<lambda>d. d \<in> valid) (snap_hdr_states s),
       snap_origins := smap_retain (\<lambda>d. d \<in> valid) (snap_origins s),
       snap_primary_device := (if snap_primary_device s \<in> valid then snap_primary_device s else [])\<rparr>"

lemma concat_filter_groups: "concat (filter_groups p gs) = filter p (concat gs)"
  by (induction gs) (auto simp: filter_groups_def)

text \<open>\<open>Inl\<close> carries the reject reason, \<open>Inr\<close> the filtered snapshot.\<close>

definition filter_snapshot_for_save ::
  "snapshot \<Rightarrow> enumerated_device list \<Rightarrow> device_id list \<Rightarrow> string + snapshot" where
  "filter_snapshot_for_save s devices exclusions =
     (if snap_modes s = [] then Inl ''mode set is empty''
      else let valid = valid_device_ids devices;
               allowed = (if exclusions \<noteq> [] then {d \<in> valid. \<not> is_excluded exclusions d} else valid)
           in if exclusions \<noteq> [] \<and> allowed = {} then Inl ''all devices are excluded''
              else if filter_groups (\<lambda>d. d \<in> allowed) (snap_topology s) = []
              then Inl ''no devices with valid display_name''
              else Inr (retain_devices allowed s))"

definition save_allowed :: "enumerated_device list \<Rightarrow> device_id list \<Rightarrow> device_id set" where
  "save_allowed devices exclusions = {d \<in> valid_device_ids devices. \<not> is_excluded exclusions d}"

lemma filter_snapshot_for_save_Inr:
  assumes "filter_snapshot_for_save s devices exclusions = Inr s'"
  shows "s' = retain_devices (save_allowed devices exclusions) s"
    and "filter_groups (\<lambda>d. d \<in> save_allowed devices exclusions) (snap_topology s) \<noteq> []"
proof -
  have [simp]: "save_allowed devices [] = valid_device_ids devices"
    by (simp add: save_allowed_def is_excluded_def)
  have [simp]: "{d \<in> valid_device_ids devices. \<not> is_excluded exclusions d} =
      save_allowed devices exclusions"
    by (simp add: save_allowed_def)
  show "s' = retain_devices (save_allowed devices exclusions) s"
    and "filter_groups (\<lambda>d. d \<in> save_allowed devices exclusions) (snap_topology s) \<noteq> []"
    using assms
    by (cases "exclusions = []"; auto simp: filter_snapshot_for_save_def Let_def split: if_splits)+
qed

lemma save_allowed_iff:
  "d \<in> save_allowed devices exclusions \<longleftrightarrow>
     (\<exists>e \<in> set devices. dev_id e = d \<and> d \<noteq> [] \<and> \<not> is_virtual_display_device e \<and>
        dev_display_name e \<noteq> []) \<and> \<not> is_excluded exclusions d"
  by (auto simp: save_allowed_def valid_device_ids_def)

text \<open>All ids a snapshot refers to.\<close>

definition snapshot_ids :: "snapshot \<Rightarrow> device_id set" where
  "snapshot_ids s = set (concat (snap_topology s)) \<union> smap_keys (snap_modes s) \<union>
     smap_keys (snap_hdr_states s) \<union> smap_keys (snap_origins s) \<union> ({snap_primary_device s} - {[]})"

lemma snapshot_ids_retain: "snapshot_ids (retain_devices valid s) \<subseteq> valid"
  by (auto simp: snapshot_ids_def retain_devices_def simp del: set_concat)

section \<open>Load-side filter\<close>

definition loaded_valid_norm :: "enumerated_device list \<Rightarrow> device_id set \<Rightarrow> device_id set" where
  "loaded_valid_norm devices exclusions_norm =
     set (map (\<lambda>d. normalize_device_id (dev_id d))
       (filter (\<lambda>d. dev_id d \<noteq> [] \<and> \<not> is_virtual_display_device d \<and>
                    normalize_device_id (dev_id d) \<notin> exclusions_norm) devices))"

definition loaded_virtual_norm :: "enumerated_device list \<Rightarrow> device_id set" where
  "loaded_virtual_norm devices =
     set (map (\<lambda>d. normalize_device_id (dev_id d))
       (filter (\<lambda>d. dev_id d \<noteq> [] \<and> is_virtual_display_device d \<and> is_active_display_device d)
               devices))"

definition retain_loaded :: "(device_id \<Rightarrow> bool) \<Rightarrow> parsed_snapshot \<Rightarrow> parsed_snapshot" where
  "retain_loaded allowed p =
     (let s = ps_snapshot p;
          s' = s\<lparr>snap_topology := filter_groups allowed (snap_topology s),
                 snap_modes := smap_retain allowed (snap_modes s),
                 snap_hdr_states := smap_retain allowed (snap_hdr_states s),
                 snap_origins := smap_retain allowed (snap_origins s),
                 snap_primary_device :=
                   (if snap_primary_device s \<noteq> [] \<and> \<not> allowed (snap_primary_device s)
                    then [] else snap_primary_device s)\<rparr>;
          layouts = smap_retain allowed (ps_layout_rotations p)
      in p\<lparr>ps_snapshot := s', ps_layout_rotations := layouts,
           ps_has_layout_data := (if layouts = [] then False else ps_has_layout_data p)\<rparr>)"

definition filter_loaded_snapshot ::
  "parsed_snapshot \<Rightarrow> enumerated_device list \<Rightarrow> device_id list \<Rightarrow> parsed_snapshot option" where
  "filter_loaded_snapshot p devices exclusions =
     (let topo = snap_topology (ps_snapshot p);
          exclusions_norm = set (map normalize_device_id exclusions);
          valid = loaded_valid_norm devices exclusions_norm;
          virtual = loaded_virtual_norm devices;
          allowed = (\<lambda>d. normalize_device_id d \<in> valid \<and> normalize_device_id d \<notin> exclusions_norm)
      in if virtual \<noteq> {} \<and> list_ex (\<lambda>d. normalize_device_id d \<in> virtual) (concat topo) then None
         else if valid = {} then None
         else if list_ex (\<lambda>d. normalize_device_id d \<notin> exclusions_norm \<and>
                             normalize_device_id d \<notin> valid) (concat topo) then None
         else if filter_groups allowed topo = [] then None
         else Some (retain_loaded allowed p))"

definition present_device :: "enumerated_device list \<Rightarrow> device_id \<Rightarrow> bool" where
  "present_device devices d \<longleftrightarrow>
     (\<exists>e \<in> set devices. dev_id e \<noteq> [] \<and> \<not> is_virtual_display_device e \<and>
        normalize_device_id (dev_id e) = normalize_device_id d)"

definition load_allowed :: "enumerated_device list \<Rightarrow> device_id list \<Rightarrow> device_id \<Rightarrow> bool" where
  "load_allowed devices exclusions d \<longleftrightarrow> present_device devices d \<and> \<not> is_excluded exclusions d"

lemma loaded_valid_norm_iff:
  "n \<in> loaded_valid_norm devices exclusions_norm \<longleftrightarrow> n \<notin> exclusions_norm \<and>
     (\<exists>e \<in> set devices. dev_id e \<noteq> [] \<and> \<not> is_virtual_display_device e \<and>
        normalize_device_id (dev_id e) = n)"
  by (auto simp: loaded_valid_norm_def)

lemma load_allowed_eq:
  "(normalize_device_id d \<in> loaded_valid_norm devices (set (map normalize_device_id exclusions)) \<and>
    normalize_device_id d \<notin> set (map normalize_device_id exclusions)) = load_allowed devices exclusions d"
  by (auto simp: load_allowed_def present_device_def loaded_valid_norm_iff is_excluded_def)

lemma filter_loaded_snapshot_Some:
  assumes "filter_loaded_snapshot p devices exclusions = Some q"
  shows "q = retain_loaded (load_allowed devices exclusions) p"
    and "\<And>d. d \<in> set (concat (snap_topology (ps_snapshot p))) \<Longrightarrow>
           is_excluded exclusions d \<or> present_device devices d"
    and "filter_groups (load_allowed devices exclusions) (snap_topology (ps_snapshot p)) \<noteq> []"
proof -
  show "q = retain_loaded (load_allowed devices exclusions) p"
    and "filter_groups (load_allowed devices exclusions) (snap_topology (ps_snapshot p)) \<noteq> []"
    using assms
    by (auto simp only: filter_loaded_snapshot_def Let_def load_allowed_eq option.inject
          option.distinct not_False_eq_True split: if_splits)
  fix d assume "d \<in> set (concat (snap_topology (ps_snapshot p)))"
  then show "is_excluded exclusions d \<or> present_device devices d"
    using assms
    by (force simp: filter_loaded_snapshot_def Let_def list_ex_iff is_excluded_def
          present_device_def loaded_valid_norm_iff split: if_splits)
qed

section \<open>Properties\<close>

text \<open>
  C38: \<open>equal_snapshots_strict\<close> holds exactly when the topologies agree up to the order of the
  groups and of the members of each group, the modes, the HDR states and the primary device agree,
  and the origins agree or one of the two snapshots has none.
\<close>

theorem equal_snapshots_strict_iff:
  "equal_snapshots_strict a b \<longleftrightarrow>
     image_mset mset (mset (snap_topology a)) = image_mset mset (mset (snap_topology b)) \<and>
     snap_modes a = snap_modes b \<and> snap_hdr_states a = snap_hdr_states b \<and>
     snap_primary_device a = snap_primary_device b \<and>
     (snap_origins a = [] \<or> snap_origins b = [] \<or> snap_origins a = snap_origins b)"
  by (auto simp: equal_snapshots_strict_def canonical_topology_eq_iff)

text \<open>
  C35: A snapshot that \<open>filter_snapshot_for_save\<close> lets through refers only to physical displays of
  the enumeration that have a display name and are not excluded, keeps every one of those the
  captured snapshot had, in the captured order, and has a nonempty topology without empty groups.
\<close>

theorem saved_snapshot_sound:
  assumes "filter_snapshot_for_save s devices exclusions = Inr s'"
  shows "(\<forall>d \<in> snapshot_ids s'. \<not> is_excluded exclusions d \<and>
            (\<exists>e \<in> set devices. dev_id e = d \<and> \<not> is_virtual_display_device e \<and>
                dev_display_name e \<noteq> [])) \<and>
         concat (snap_topology s') =
           filter (\<lambda>d. d \<in> save_allowed devices exclusions) (concat (snap_topology s)) \<and>
         smap_keys (snap_modes s') = smap_keys (snap_modes s) \<inter> save_allowed devices exclusions \<and>
         snap_topology s' \<noteq> [] \<and> [] \<notin> set (snap_topology s')"
proof -
  let ?a = "save_allowed devices exclusions"
  have s': "s' = retain_devices ?a s" "filter_groups (\<lambda>d. d \<in> ?a) (snap_topology s) \<noteq> []"
    using filter_snapshot_for_save_Inr [OF assms] by simp_all
  have ids: "\<forall>d \<in> snapshot_ids s'. d \<in> ?a"
    using snapshot_ids_retain s'(1) by auto
  have "snap_topology s' = filter_groups (\<lambda>d. d \<in> ?a) (snap_topology s)"
    "smap_keys (snap_modes s') = smap_keys (snap_modes s) \<inter> ?a"
    by (auto simp: s'(1) retain_devices_def)
  then show ?thesis
    using s'(2) ids filter_groups_nonempty [of "[]"] concat_filter_groups
    by (metis save_allowed_iff)
qed

text \<open>
  C36: A snapshot that \<open>filter_loaded_snapshot\<close> accepts is a complete baseline: it holds exactly
  the displays of the stored topology that are not excluded, every one of them is a physical
  display present in the current enumeration, at least one remains, and no id of a mode, HDR
  state, origin or primary device refers to any other display.
\<close>

theorem loaded_baseline_is_complete:
  assumes "filter_loaded_snapshot p devices exclusions = Some q"
  shows "set (concat (snap_topology (ps_snapshot q))) =
           {d \<in> set (concat (snap_topology (ps_snapshot p))). \<not> is_excluded exclusions d} \<and>
         snap_topology (ps_snapshot q) \<noteq> [] \<and>
         (\<forall>d \<in> snapshot_ids (ps_snapshot q). present_device devices d \<and> \<not> is_excluded exclusions d)"
proof -
  note q = filter_loaded_snapshot_Some [OF assms]
  have "set (concat (snap_topology (ps_snapshot q))) =
      {d \<in> set (concat (snap_topology (ps_snapshot p))). load_allowed devices exclusions d}"
    by (simp add: q(1) retain_loaded_def Let_def del: set_concat)
  also have "\<dots> = {d \<in> set (concat (snap_topology (ps_snapshot p))). \<not> is_excluded exclusions d}"
    using q(2) by (auto simp: load_allowed_def simp del: set_concat)
  finally have 1: "set (concat (snap_topology (ps_snapshot q))) =
      {d \<in> set (concat (snap_topology (ps_snapshot p))). \<not> is_excluded exclusions d}" .
  have 2: "snap_topology (ps_snapshot q) \<noteq> []"
    using q(3) by (simp add: q(1) retain_loaded_def Let_def)
  have "load_allowed devices exclusions d" if "d \<in> snapshot_ids (ps_snapshot q)" for d
    using that
    by (auto simp: q(1) retain_loaded_def Let_def snapshot_ids_def simp del: set_concat split: if_splits)
  with 1 2 show ?thesis by (auto simp: load_allowed_def)
qed

definition unambiguous_ids :: "enumerated_device list \<Rightarrow> bool" where
  "unambiguous_ids devices \<longleftrightarrow>
     (\<forall>e \<in> set devices. \<forall>e' \<in> set devices.
        normalize_device_id (dev_id e) = normalize_device_id (dev_id e') \<longrightarrow>
        is_virtual_display_device e = is_virtual_display_device e')"

lemma retain_loaded_id:
  assumes "\<And>d. d \<in> snapshot_ids s \<Longrightarrow> allowed d" "[] \<notin> set (snap_topology s)"
  shows "ps_snapshot (retain_loaded allowed (default_parsed_snapshot\<lparr>ps_snapshot := s\<rparr>)) = s"
proof -
  have "filter_groups allowed (snap_topology s) = snap_topology s"
    using assms by (intro filter_groups_all) (auto simp: snapshot_ids_def simp del: set_concat)
  moreover have "smap_retain allowed (snap_modes s) = snap_modes s"
    "smap_retain allowed (snap_hdr_states s) = snap_hdr_states s"
    "smap_retain allowed (snap_origins s) = snap_origins s"
    using assms by (auto intro!: smap_retain_all simp: snapshot_ids_def)
  moreover have "snap_primary_device s = [] \<or> allowed (snap_primary_device s)"
    using assms by (auto simp: snapshot_ids_def)
  ultimately show ?thesis
    by (auto simp: retain_loaded_def Let_def default_parsed_snapshot_def)
qed

text \<open>
  C37: What the save-side filter accepts the load-side filter gives back unchanged, with the same
  enumeration and exclusions, provided no virtual display has the normalised id of a physical one.
\<close>

theorem saved_snapshot_loads_unchanged:
  assumes save: "filter_snapshot_for_save s devices exclusions = Inr s'"
    and unambiguous: "unambiguous_ids devices"
  shows "map_option ps_snapshot
           (filter_loaded_snapshot (default_parsed_snapshot\<lparr>ps_snapshot := s'\<rparr>) devices exclusions) =
         Some s'"
proof -
  let ?p = "default_parsed_snapshot\<lparr>ps_snapshot := s'\<rparr>"
  let ?ex = "set (map normalize_device_id exclusions)"
  have allowed: "d \<in> save_allowed devices exclusions" if "d \<in> snapshot_ids s'" for d
    using filter_snapshot_for_save_Inr(1) [OF save] snapshot_ids_retain that by auto
  have load: "load_allowed devices exclusions d" if "d \<in> snapshot_ids s'" for d
    using allowed [OF that] by (auto simp: save_allowed_iff load_allowed_def present_device_def)
  have topo: "snap_topology s' \<noteq> []" "[] \<notin> set (snap_topology s')"
    using filter_snapshot_for_save_Inr [OF save] filter_groups_nonempty
    by (auto simp: retain_devices_def)
  have ids: "d \<in> snapshot_ids s'" if "d \<in> set (concat (snap_topology s'))" for d
    using that by (simp add: snapshot_ids_def)
  have not_virtual: "normalize_device_id d \<notin> loaded_virtual_norm devices"
    if mem: "d \<in> snapshot_ids s'" for d
  proof
    assume "normalize_device_id d \<in> loaded_virtual_norm devices"
    then obtain v where v: "v \<in> set devices" "is_virtual_display_device v"
      "normalize_device_id (dev_id v) = normalize_device_id d"
      by (auto simp: loaded_virtual_norm_def)
    obtain e where "e \<in> set devices" "dev_id e = d" "\<not> is_virtual_display_device e"
      using allowed [OF mem] by (auto simp: save_allowed_iff)
    with v unambiguous show False unfolding unambiguous_ids_def by metis
  qed
  have norm: "normalize_device_id d \<in> loaded_valid_norm devices ?ex"
    if "d \<in> snapshot_ids s'" for d
    using load [OF that] load_allowed_eq by metis
  have groups: "filter_groups (load_allowed devices exclusions) (snap_topology s') = snap_topology s'"
    using load ids topo(2) by (intro filter_groups_all) auto
  have some: "concat (snap_topology s') \<noteq> []" using topo by (cases "snap_topology s'") auto
  then have valid: "loaded_valid_norm devices ?ex \<noteq> {}"
    using norm ids by (metis empty_iff hd_in_set)
  have "filter_loaded_snapshot ?p devices exclusions =
        Some (retain_loaded (load_allowed devices exclusions) ?p)"
  proof -
    have "\<not> list_ex (\<lambda>d. normalize_device_id d \<in> loaded_virtual_norm devices) (concat (snap_topology s'))"
      unfolding list_ex_iff using not_virtual [OF ids] by blast
    moreover have "\<not> list_ex (\<lambda>d. normalize_device_id d \<notin> ?ex \<and>
        normalize_device_id d \<notin> loaded_valid_norm devices ?ex) (concat (snap_topology s'))"
      unfolding list_ex_iff using norm [OF ids] by blast
    moreover have "filter_groups (load_allowed devices exclusions) (snap_topology s') \<noteq> []"
      using groups topo(1) by simp
    moreover have "ps_snapshot ?p = s'" by simp
    ultimately show ?thesis
      using valid unfolding filter_loaded_snapshot_def Let_def load_allowed_eq
      by (simp only: if_False simp_thms)
  qed
  then show ?thesis using retain_loaded_id [OF load topo(2)] by simp
qed

definition physical :: "string \<Rightarrow> string \<Rightarrow> enumerated_device" where
  "physical i n = \<lparr>dev_device_id = i, dev_display_name = n, dev_friendly_name = ''Monitor'',
                   dev_edid_manufacturer = Some ''DEL'', dev_has_info = True\<rparr>"

definition sunshine_vdd :: "string \<Rightarrow> enumerated_device" where
  "sunshine_vdd i = \<lparr>dev_device_id = i, dev_display_name = ''DISPLAY9'', dev_friendly_name = ''VDD'',
                     dev_edid_manufacturer = Some ''SMK'', dev_has_info = True\<rparr>"

definition captured_ab :: snapshot where
  "captured_ab =
     \<lparr>snap_topology = [[''A'', ''V''], [''B'']],
      snap_modes = [(''A'', \<lparr>mode_resolution = \<lparr>res_width = 1920, res_height = 1080\<rparr>,
                             mode_refresh_rate = \<lparr>rat_numerator = 60, rat_denominator = 1\<rparr>\<rparr>)],
      snap_hdr_states = [(''V'', None)], snap_primary_device = ''V'',
      snap_origins = [(''B'', \<lparr>pt_x = 1920, pt_y = 0\<rparr>)]\<rparr>"

definition saved_a :: snapshot where
  "saved_a = captured_ab\<lparr>snap_topology := [[''A'']], snap_hdr_states := [],
                         snap_primary_device := [], snap_origins := []\<rparr>"

definition devices_avb :: "enumerated_device list" where
  "devices_avb = [physical ''A'' ''DISPLAY1'', sunshine_vdd ''V'', physical ''B'' ''DISPLAY2'']"

lemma save_captured_ab: "filter_snapshot_for_save captured_ab devices_avb ['' b ''] = Inr saved_a"
  by code_simp

lemma load_captured_ab:
  "filter_loaded_snapshot (default_parsed_snapshot\<lparr>ps_snapshot := saved_a\<rparr>) devices_avb [''B''] =
     Some (default_parsed_snapshot\<lparr>ps_snapshot := saved_a\<rparr>)"
  by code_simp

lemma unambiguous_avb: "unambiguous_ids devices_avb"
  by code_simp

theorem saved_snapshot_sound_witness:
  "snapshot_ids saved_a \<subseteq> {d. \<not> is_excluded ['' b ''] d} \<and>
   snapshot_ids saved_a \<subseteq> dev_id ` {e \<in> set devices_avb. \<not> is_virtual_display_device e} \<and>
   concat (snap_topology saved_a) = [''A'']"
  using saved_snapshot_sound [OF save_captured_ab]
  by (intro conjI subsetI) (fastforce, fastforce, simp add: saved_a_def)

theorem loaded_baseline_is_complete_witness:
  "set (concat (snap_topology saved_a)) = {d \<in> set (concat (snap_topology saved_a)). \<not> is_excluded [''B''] d}"
  using loaded_baseline_is_complete [OF load_captured_ab] by (simp del: set_concat)

theorem saved_snapshot_loads_unchanged_witness:
  "map_option ps_snapshot
     (filter_loaded_snapshot (default_parsed_snapshot\<lparr>ps_snapshot := saved_a\<rparr>) devices_avb ['' b '']) =
   Some saved_a"
  by (rule saved_snapshot_loads_unchanged [OF save_captured_ab unambiguous_avb])

end
