(* ===== verification/Snapshot_Text.thy ===== *)
theory Snapshot_Text
  imports Snapshot_Codec
begin

text \<open>
  The on-disk text of a snapshot (\<open>snapshot_codec.cpp\<close>: \<open>serialize_snapshot\<close>,
  \<open>parse_snapshot_text\<close> and its field parsers, \<open>signature\<close>). A position \<open>i\<close> of a parser is the
  suffix of the text that starts at it, so \<open>data.find(c, i)\<close> is a \<open>dropWhile\<close> and
  \<open>substr(q1, q2 - q1)\<close> a \<open>takeWhile\<close>. \<open>None\<close> is an exception that leaves the parser
  (\<open>std::stoul\<close> and \<open>std::stoi\<close> throw). The version and the layouts are read through the
  nlohmann JSON parser, which is a parameter.
\<close>

section \<open>Numbers\<close>

definition digit_char :: "nat \<Rightarrow> char" where
  "digit_char d = char_of (48 + d)"

definition is_digit :: "char \<Rightarrow> bool" where
  "is_digit c \<longleftrightarrow> (let n = (of_char c :: nat) in 48 \<le> n \<and> n \<le> 57)"

definition digit_val :: "char \<Rightarrow> nat" where
  "digit_val c = of_char c - 48"

text \<open>\<open>std::to_string\<close> on unsigned and signed integers.\<close>

fun dec_of_nat :: "nat \<Rightarrow> string" where
  "dec_of_nat n = (if n < 10 then [digit_char n]
                   else dec_of_nat (n div 10) @ [digit_char (n mod 10)])"

declare dec_of_nat.simps [simp del]

definition dec_of_int :: "int \<Rightarrow> string" where
  "dec_of_int z = (if z < 0 then CHR ''-'' # dec_of_nat (nat (- z)) else dec_of_nat (nat z))"

definition dec_of_u32 :: "u32 \<Rightarrow> string" where
  "dec_of_u32 w = dec_of_nat (unat w)"

definition nat_of_dec :: "string \<Rightarrow> nat" where
  "nat_of_dec s = foldl (\<lambda>n c. n * 10 + digit_val c) 0 s"

text \<open>
  The common part of \<open>strtoul\<close> and \<open>strtol\<close> in base 10: leading white space, a sign, the digits
  (\<open>None\<close> without any). \<open>long\<close> has 32 bits on Windows.
\<close>

definition scan_number :: "string \<Rightarrow> (bool \<times> nat) option" where
  "scan_number s =
     (let s = dropWhile isspace s;
          (neg, s) = (case s of
              [] \<Rightarrow> (False, s)
            | c # r \<Rightarrow> if c = CHR ''-'' then (True, r) else if c = CHR ''+'' then (False, r) else (False, s));
          ds = takeWhile is_digit s
      in if ds = [] then None else Some (neg, nat_of_dec ds))"

definition stoul :: "string \<Rightarrow> u32 option" where
  "stoul s = (case scan_number s of
      None \<Rightarrow> None
    | Some (neg, n) \<Rightarrow> if 2 ^ 32 \<le> n then None
                       else Some (if neg then - of_nat n else of_nat n))"

definition stoi :: "string \<Rightarrow> int option" where
  "stoi s = (case scan_number s of
      None \<Rightarrow> None
    | Some (neg, n) \<Rightarrow> (let z = (if neg then - int n else int n)
                       in if z < - (2 ^ 31) \<or> 2 ^ 31 \<le> z then None else Some z))"

section \<open>The field parsers\<close>

definition skip_until :: "char list \<Rightarrow> string \<Rightarrow> string" where
  "skip_until stops s = dropWhile (\<lambda>c. c \<notin> set stops) s"

text \<open>\<open>find\<close> of a substring and of a character: the suffix at the match.\<close>

fun find_sub :: "string \<Rightarrow> string \<Rightarrow> string option" where
  "find_sub k [] = (if k = [] then Some [] else None)"
| "find_sub k (c # s) = (if take (length k) (c # s) = k then Some (c # s) else find_sub k s)"

definition find_chr :: "char \<Rightarrow> string \<Rightarrow> string option" where
  "find_chr c s = (case skip_until [c] s of [] \<Rightarrow> None | r # rs \<Rightarrow> Some (r # rs))"

definition quote :: char where
  "quote = CHR 0x22"

definition quoted :: "string \<Rightarrow> string" where
  "quoted s = quote # s @ [quote]"

definition find_str_section :: "string \<Rightarrow> string \<Rightarrow> string" where
  "find_str_section data key =
     (case find_sub (quoted key) data of
        None \<Rightarrow> []
      | Some p \<Rightarrow> (case find_chr (CHR '':'') p of None \<Rightarrow> [] | Some q \<Rightarrow> tl q))"

definition parse_primary_field :: "string \<Rightarrow> device_id option" where
  "parse_primary_field prim =
     (case find_chr quote prim of
        None \<Rightarrow> None
      | Some q1 \<Rightarrow> (case find_chr quote (tl q1) of
            None \<Rightarrow> None
          | Some q2 \<Rightarrow> Some (takeWhile (\<lambda>c. c \<noteq> quote) (tl q1))))"

lemma length_skip_until: "length (skip_until st s) \<le> length s"
  by (simp add: skip_until_def length_dropWhile_le)

lemma find_chr_length: "find_chr c s = Some r \<Longrightarrow> r \<noteq> [] \<and> length r \<le> length s"
  using length_skip_until [of "[c]" s]
  by (cases "skip_until [c] s") (auto simp: find_chr_def)

declare find_sub.simps(2) [simp del]

text \<open>The inner loop of \<open>parse_topology_field\<close>: the ids of one group and the position it stops at.\<close>

function parse_group :: "string \<Rightarrow> device_id list \<times> string" where
  "parse_group s =
     (case skip_until [quote, CHR '']''] s of
        [] \<Rightarrow> ([], [])
      | c # r \<Rightarrow>
          if c = CHR '']'' then ([], c # r)
          else (case find_chr quote r of
                 None \<Rightarrow> ([], c # r)
               | Some q2 \<Rightarrow> let (ids, t) = parse_group (tl q2)
                            in (takeWhile (\<lambda>c. c \<noteq> quote) r # ids, t)))"
  by pat_completeness auto
termination
proof (relation "measure length", simp)
  fix s c r q2
  assume "skip_until [quote, CHR '']''] s = c # r" "find_chr quote r = Some q2"
  then have "length (c # r) \<le> length s" "q2 \<noteq> []" "length q2 \<le> length r"
    using length_skip_until [of "[quote, CHR '']'']" s] find_chr_length by auto
  then show "(tl q2, s) \<in> measure length" by simp
qed

declare parse_group.simps [simp del]

lemma parse_group_length: "length (snd (parse_group s)) \<le> length s"
proof (induction s rule: parse_group.induct)
  case (1 s)
  show ?case
  proof (cases "skip_until [quote, CHR '']''] s")
    case Nil
    then show ?thesis by (simp add: parse_group.simps [of s])
  next
    case (Cons c r)
    then have len: "Suc (length r) \<le> length s"
      using length_skip_until [of "[quote, CHR '']'']" s] by simp
    show ?thesis
    proof (cases "c = CHR '']'' \<or> find_chr quote r = None")
      case True
      then show ?thesis using Cons len by (auto simp: parse_group.simps [of s])
    next
      case False
      then obtain q2 where q2: "find_chr quote r = Some q2" by auto
      then have "length q2 \<le> length r" by (simp add: find_chr_length)
      moreover have "length (snd (parse_group (tl q2))) \<le> length (tl q2)"
        using "1.IH" Cons False q2 by simp
      ultimately have "length (snd (parse_group (tl q2))) \<le> length s"
        using len by simp
      then show ?thesis
        using Cons False q2
        by (cases "parse_group (tl q2)") (simp add: parse_group.simps [of s])
    qed
  qed
qed

function parse_groups :: "string \<Rightarrow> topology" where
  "parse_groups s =
     (case skip_until [CHR ''['', CHR '']''] s of
        [] \<Rightarrow> []
      | c # r \<Rightarrow>
          if c = CHR '']'' then []
          else let (grp, t) = parse_group r
               in grp # parse_groups (tl (skip_until [CHR '']''] t)))"
  by pat_completeness auto
termination
proof (relation "measure length", simp)
  fix s c r x grp t
  assume "skip_until [CHR ''['', CHR '']''] s = c # r" "x = parse_group r" "(grp, t) = x"
  then have "length (c # r) \<le> length s" "length t \<le> length r"
    using length_skip_until [of "[CHR ''['', CHR '']'']" s] parse_group_length [of r]
    by (metis, metis snd_conv)
  then show "(tl (skip_until [CHR '']''] t), s) \<in> measure length"
    using length_skip_until [of "[CHR '']'']" t] by simp
qed

declare parse_groups.simps [simp del]

definition parse_topology_field :: "string \<Rightarrow> topology" where
  "parse_topology_field topo_s =
     (case find_chr (CHR ''['') topo_s of None \<Rightarrow> [] | Some s \<Rightarrow> parse_groups (tl s))"

definition parse_num_field :: "string \<Rightarrow> string \<Rightarrow> u32 option" where
  "parse_num_field obj key =
     (case find_sub key obj of
        None \<Rightarrow> Some 0
      | Some p \<Rightarrow> (case find_chr (CHR '':'') p of None \<Rightarrow> Some 0 | Some q \<Rightarrow> stoul (tl q)))"

definition parse_signed_num_field :: "string \<Rightarrow> string \<Rightarrow> int option" where
  "parse_signed_num_field obj key =
     (case find_sub key obj of
        None \<Rightarrow> Some 0
      | Some p \<Rightarrow> (case find_chr (CHR '':'') p of None \<Rightarrow> Some 0 | Some q \<Rightarrow> stoi (tl q)))"

definition parse_mode :: "string \<Rightarrow> display_mode option" where
  "parse_mode obj =
     (case parse_num_field obj (quoted ''w'') of None \<Rightarrow> None | Some w \<Rightarrow>
      case parse_num_field obj (quoted ''h'') of None \<Rightarrow> None | Some h \<Rightarrow>
      case parse_num_field obj (quoted ''num'') of None \<Rightarrow> None | Some n \<Rightarrow>
      case parse_num_field obj (quoted ''den'') of None \<Rightarrow> None | Some d \<Rightarrow>
      Some \<lparr>mode_resolution = \<lparr>res_width = w, res_height = h\<rparr>,
            mode_refresh_rate = \<lparr>rat_numerator = n, rat_denominator = d\<rparr>\<rparr>)"

definition parse_point :: "string \<Rightarrow> point option" where
  "parse_point obj =
     (case parse_signed_num_field obj (quoted ''x'') of None \<Rightarrow> None | Some x \<Rightarrow>
      case parse_signed_num_field obj (quoted ''y'') of None \<Rightarrow> None | Some y \<Rightarrow>
      Some \<lparr>pt_x = x, pt_y = y\<rparr>)"

text \<open>
  The loop \<open>parse_modes_field\<close> and \<open>parse_origins_field\<close> share: a quoted id, the text from the
  next brace to its closing brace, and an \<open>emplace\<close> of what the object's fields say.
\<close>

function parse_entries :: "(string \<Rightarrow> 'v option) \<Rightarrow> 'v smap \<Rightarrow> string \<Rightarrow> 'v smap option" where
  "parse_entries f acc s =
     (case skip_until [quote, CHR ''}''] s of
        [] \<Rightarrow> Some acc
      | c # r \<Rightarrow>
          if c = CHR ''}'' then Some acc
          else case find_chr quote r of None \<Rightarrow> Some acc | Some q2 \<Rightarrow>
               case find_chr (CHR ''{'') q2 of None \<Rightarrow> Some acc | Some b \<Rightarrow>
               case find_chr (CHR ''}'') b of None \<Rightarrow> Some acc | Some e \<Rightarrow>
               case f (takeWhile (\<lambda>c. c \<noteq> CHR ''}'') b) of None \<Rightarrow> None | Some v \<Rightarrow>
               parse_entries f (smap_emplace (takeWhile (\<lambda>c. c \<noteq> quote) r) v acc) (tl e))"
  by pat_completeness auto
termination
proof (relation "measure (\<lambda>(f, acc, s). length s)", simp)
  fix f :: "string \<Rightarrow> 'v option" and acc s c r q2 b e v
  assume "skip_until [quote, CHR ''}''] s = c # r" "find_chr quote r = Some q2"
    "find_chr (CHR ''{'') q2 = Some b" "find_chr (CHR ''}'') b = Some e"
  then have "length (c # r) \<le> length s" "length q2 \<le> length r" "length b \<le> length q2"
    "length e \<le> length b" "e \<noteq> []"
    using length_skip_until [of "[quote, CHR ''}'']" s] find_chr_length by metis+
  then show "((f, smap_emplace (takeWhile (\<lambda>c. c \<noteq> quote) r) v acc, tl e), f, acc, s)
      \<in> measure (\<lambda>(f, acc, s). length s)"
    by simp
qed

declare parse_entries.simps [simp del]

definition parse_modes_field :: "string \<Rightarrow> display_mode smap option" where
  "parse_modes_field modes_s =
     (case find_chr (CHR ''{'') modes_s of
        None \<Rightarrow> Some [] | Some s \<Rightarrow> parse_entries parse_mode [] (tl s))"

definition parse_origins_field :: "string \<Rightarrow> point smap option" where
  "parse_origins_field origins_s =
     (case find_chr (CHR ''{'') origins_s of
        None \<Rightarrow> Some [] | Some s \<Rightarrow> parse_entries parse_point [] (tl s))"

text \<open>The value of an HDR entry, from the position behind the colon.\<close>

definition parse_hdr_value :: "string \<Rightarrow> hdr_state option" where
  "parse_hdr_value s =
     (if take 2 s = ''on'' then Some Hdr_Enabled
      else if take 3 s = ''off'' then Some Hdr_Disabled else None)"

function parse_hdr_entries :: "(hdr_state option) smap \<Rightarrow> string \<Rightarrow> (hdr_state option) smap" where
  "parse_hdr_entries acc s =
     (case skip_until [quote, CHR ''}''] s of
        [] \<Rightarrow> acc
      | c # r \<Rightarrow>
          if c = CHR ''}'' then acc
          else case find_chr quote r of None \<Rightarrow> acc | Some q2 \<Rightarrow>
               case find_chr (CHR '':'') q2 of None \<Rightarrow> acc | Some p \<Rightarrow>
               let v = dropWhile (\<lambda>c. c = CHR '' '' \<or> c = quote) (tl p);
                   acc = smap_emplace (takeWhile (\<lambda>c. c \<noteq> quote) r) (parse_hdr_value v) acc;
                   rest = skip_until [CHR '','', CHR ''}''] v
               in parse_hdr_entries acc
                    (case rest of [] \<Rightarrow> [] | c' # t \<Rightarrow> if c' = CHR '','' then t else c' # t))"
  by pat_completeness auto
termination
proof (relation "measure (\<lambda>(acc, s). length s)", simp)
  fix acc s c r q2 p v acc' rest
  assume a: "skip_until [quote, CHR ''}''] s = c # r" "find_chr quote r = Some q2"
    "find_chr (CHR '':'') q2 = Some p"
    and v: "v = dropWhile (\<lambda>c. c = CHR '' '' \<or> c = quote) (tl p)"
    and rest: "rest = skip_until [CHR '','', CHR ''}''] v"
  from a have l: "length (c # r) \<le> length s" "length q2 \<le> length r" "length p \<le> length q2" "p \<noteq> []"
    using length_skip_until [of "[quote, CHR ''}'']" s] find_chr_length by metis+
  have "length v \<le> length (tl p)" "length rest \<le> length v"
    by (simp_all only: v rest length_dropWhile_le length_skip_until)
  with l have "length rest < length s" by simp
  then show "((acc', case rest of [] \<Rightarrow> [] | c' # t \<Rightarrow> if c' = CHR '','' then t else c' # t), acc, s)
      \<in> measure (\<lambda>(acc, s). length s)"
    by (auto split: list.splits)
qed

declare parse_hdr_entries.simps [simp del]

definition parse_hdr_field :: "string \<Rightarrow> (hdr_state option) smap" where
  "parse_hdr_field hdr_s =
     (case find_chr (CHR ''{'') hdr_s of None \<Rightarrow> [] | Some s \<Rightarrow> parse_hdr_entries [] (tl s))"

section \<open>Serialization\<close>

definition nl :: char where
  "nl = CHR 0x0A"

text \<open>The loops that append the elements with a comma between any two of them.\<close>

fun comma_join :: "string list \<Rightarrow> string" where
  "comma_join [] = []"
| "comma_join [x] = x"
| "comma_join (x # y # xs) = x @ CHR '','' # comma_join (y # xs)"

definition serialize_group :: "device_id list \<Rightarrow> string" where
  "serialize_group g = CHR ''['' # comma_join (map quoted g) @ [CHR '']'']"

definition serialize_entry :: "('v \<Rightarrow> string) \<Rightarrow> device_id \<times> 'v \<Rightarrow> string" where
  "serialize_entry body kv = nl # ''    '' @ quoted (fst kv) @ '': '' @ body (snd kv)"

definition mode_body :: "display_mode \<Rightarrow> string" where
  "mode_body m =
     ''{ '' @ quoted ''w'' @ '': '' @ dec_of_u32 (res_width (mode_resolution m)) @
     '', '' @ quoted ''h'' @ '': '' @ dec_of_u32 (res_height (mode_resolution m)) @
     '', '' @ quoted ''num'' @ '': '' @ dec_of_u32 (rat_numerator (mode_refresh_rate m)) @
     '', '' @ quoted ''den'' @ '': '' @ dec_of_u32 (rat_denominator (mode_refresh_rate m)) @ '' }''"

definition hdr_body :: "hdr_state option \<Rightarrow> string" where
  "hdr_body h = (case h of None \<Rightarrow> ''null''
                 | Some Hdr_Enabled \<Rightarrow> quoted ''on'' | Some Hdr_Disabled \<Rightarrow> quoted ''off'')"

definition point_body :: "point \<Rightarrow> string" where
  "point_body p = ''{ '' @ quoted ''x'' @ '': '' @ dec_of_int (pt_x p) @
                  '', '' @ quoted ''y'' @ '': '' @ dec_of_int (pt_y p) @ '' }''"

definition rotation_body :: "int \<Rightarrow> string" where
  "rotation_body r = ''{ '' @ quoted ''rotation'' @ '': '' @ dec_of_int r @ '' }''"

definition serialize_snapshot :: "snapshot \<Rightarrow> layout_rotation_map \<Rightarrow> string" where
  "serialize_snapshot snap layouts =
     CHR ''{'' # nl # ''  '' @ quoted ''snapshot_version'' @ '': '' @
     dec_of_int kSnapshotLayoutVersionLatest @ '','' @ nl # ''  '' @
     quoted ''topology'' @ '': ['' @ comma_join (map serialize_group (snap_topology snap)) @
     ''],'' @ nl # ''  '' @ quoted ''modes'' @ '': {'' @
     comma_join (map (serialize_entry mode_body) (snap_modes snap)) @ nl # ''  },'' @ nl # ''  '' @
     quoted ''hdr'' @ '': {'' @
     comma_join (map (serialize_entry hdr_body) (snap_hdr_states snap)) @ nl # ''  },'' @ nl # ''  '' @
     quoted ''primary'' @ '': '' @ quoted (snap_primary_device snap) @ '','' @ nl # ''  '' @
     quoted ''origins'' @ '': {'' @
     comma_join (map (serialize_entry point_body) (snap_origins snap)) @ nl # ''  },'' @ nl # ''  '' @
     quoted ''layouts'' @ '': {'' @
     comma_join (map (serialize_entry rotation_body) layouts) @ nl # ''  }'' @ nl # ''}''"

section \<open>Parsing\<close>

text \<open>
  The values of the nlohmann JSON library the sources inspect. Integers are the 64-bit value the
  library holds; \<open>get<int>()\<close> truncates it to 32 bits.
\<close>

datatype json = J_Int int | J_Bool bool | J_String string | J_Array "json list" | J_Object "json smap" | J_Other

definition json_get_int :: "int \<Rightarrow> int" where
  "json_get_int v = signed_take_bit 31 v"

fun parse_layout_rotation_value :: "json \<Rightarrow> int option" where
  "parse_layout_rotation_value (J_Int v) = normalize_rotation_degrees (json_get_int v)"
| "parse_layout_rotation_value (J_String s) =
     (let rotation_name = ascii_lower s
      in if rotation_name = ''landscape'' then Some 0
         else if rotation_name = ''portrait'' then Some 90
         else if rotation_name = ''landscape_flipped'' \<or> rotation_name = ''landscape_inverted''
         then Some 180
         else if rotation_name = ''portrait_flipped'' \<or> rotation_name = ''portrait_inverted''
         then Some 270 else None)"
| "parse_layout_rotation_value (J_Object m) =
     (case map_of (map (\<lambda>(k, v). (k, parse_layout_rotation_value v)) m) ''rotation'' of
        Some r \<Rightarrow> r
      | None \<Rightarrow> None)"
| "parse_layout_rotation_value (J_Bool b) = None"
| "parse_layout_rotation_value (J_Array vs) = None"
| "parse_layout_rotation_value J_Other = None"

definition parse_layouts_field :: "json smap \<Rightarrow> layout_rotation_map \<times> bool" where
  "parse_layouts_field root =
     (case map_of root ''layouts'' of
        Some (J_Object m) \<Rightarrow>
          (foldl (\<lambda>acc (k, v). if k = [] then acc
                               else case parse_layout_rotation_value v of
                                      None \<Rightarrow> acc | Some r \<Rightarrow> smap_set k r acc) [] m, True)
      | _ \<Rightarrow> ([], False))"

text \<open>\<open>json_parse\<close> is \<open>nlohmann::json::parse\<close> without exceptions, \<open>None\<close> a discarded value.\<close>

definition parse_snapshot_text :: "(string \<Rightarrow> json option) \<Rightarrow> string \<Rightarrow> parsed_snapshot option" where
  "parse_snapshot_text json_parse data =
     (let loaded = (case json_parse data of
            Some (J_Object j) \<Rightarrow>
              (let p = (case map_of j ''snapshot_version'' of
                          Some (J_Int v) \<Rightarrow>
                            default_parsed_snapshot\<lparr>ps_version := max 1 (json_get_int v)\<rparr>
                        | _ \<Rightarrow> default_parsed_snapshot);
                   (layouts, has_layout_data) = parse_layouts_field j
               in p\<lparr>ps_layout_rotations := layouts, ps_has_layout_data := has_layout_data\<rparr>)
          | _ \<Rightarrow> default_parsed_snapshot);
          prim = find_str_section data ''primary'';
          topo_s = find_str_section data ''topology'';
          modes_s = find_str_section data ''modes'';
          hdr_s = find_str_section data ''hdr'';
          s = empty_snapshot;
          s = (case parse_primary_field prim of None \<Rightarrow> s | Some d \<Rightarrow> s\<lparr>snap_primary_device := d\<rparr>);
          s = s\<lparr>snap_topology := parse_topology_field topo_s\<rparr>
      in case parse_modes_field modes_s of
           None \<Rightarrow> None
         | Some modes \<Rightarrow>
             (let s = s\<lparr>snap_modes := modes\<rparr>;
                  s = s\<lparr>snap_hdr_states := parse_hdr_field hdr_s\<rparr>;
                  origins_s = find_str_section data ''origins''
              in case parse_origins_field origins_s of
                   None \<Rightarrow> None
                 | Some origins \<Rightarrow> Some (loaded\<lparr>ps_snapshot := s\<lparr>snap_origins := origins\<rparr>\<rparr>)))"

definition snapshot_text_has_restore_payload :: "string \<Rightarrow> bool" where
  "snapshot_text_has_restore_payload data =
     (let topology = parse_topology_field (find_str_section data ''topology'')
      in case parse_modes_field (find_str_section data ''modes'') of
           None \<Rightarrow> False
         | Some modes \<Rightarrow> topology \<noteq> [] \<and> modes \<noteq> [])"

section \<open>Signature\<close>

definition signature_mode :: "device_id \<times> display_mode \<Rightarrow> string" where
  "signature_mode kv =
     fst kv @ ''='' @ dec_of_u32 (res_width (mode_resolution (snd kv))) @ ''x'' @
     dec_of_u32 (res_height (mode_resolution (snd kv))) @ ''@'' @
     dec_of_u32 (rat_numerator (mode_refresh_rate (snd kv))) @ ''/'' @
     dec_of_u32 (rat_denominator (mode_refresh_rate (snd kv))) @ '';''"

definition signature_hdr :: "device_id \<times> hdr_state option \<Rightarrow> string" where
  "signature_hdr kv =
     fst kv @ ''='' @ (case snd kv of None \<Rightarrow> ''unknown''
                       | Some Hdr_Enabled \<Rightarrow> ''on'' | Some Hdr_Disabled \<Rightarrow> ''off'') @ '';''"

definition signature_origin :: "device_id \<times> point \<Rightarrow> string" where
  "signature_origin kv =
     fst kv @ ''='' @ dec_of_int (pt_x (snd kv)) @ '','' @ dec_of_int (pt_y (snd kv)) @ '';''"

definition signature :: "snapshot \<Rightarrow> string" where
  "signature snap =
     ''T:'' @ concat (map (\<lambda>g. ''['' @ concat (map (\<lambda>d. d @ '','') g) @ '']'')
                          (canonical_topology (snap_topology snap))) @
     '';M:'' @ concat (map signature_mode (snap_modes snap)) @
     '';H:'' @ concat (map signature_hdr (snap_hdr_states snap)) @
     '';P:'' @ snap_primary_device snap @
     '';O:'' @ concat (map signature_origin (snap_origins snap))"

section \<open>Reading numbers back\<close>

lemma of_char_digit: "d < 10 \<Longrightarrow> (of_char (digit_char d) :: nat) = 48 + d"
  by (simp add: digit_char_def)

lemma digit_char_simps [simp]:
  "d < 10 \<Longrightarrow> is_digit (digit_char d)"
  "d < 10 \<Longrightarrow> digit_val (digit_char d) = d"
  by (simp_all add: is_digit_def digit_val_def of_char_digit)

lemma dec_of_nat_digits: "\<forall>c \<in> set (dec_of_nat n). is_digit c" "dec_of_nat n \<noteq> []"
  by (induction n rule: dec_of_nat.induct; subst dec_of_nat.simps; simp)+

lemma nat_of_dec_snoc: "nat_of_dec (s @ [c]) = nat_of_dec s * 10 + digit_val c"
  by (simp add: nat_of_dec_def)

lemma nat_of_dec_of_nat [simp]: "nat_of_dec (dec_of_nat n) = n"
proof (induction n rule: dec_of_nat.induct)
  case (1 n)
  show ?case
  proof (cases "n < 10")
    case True
    then show ?thesis by (simp add: dec_of_nat.simps [of n] nat_of_dec_def)
  next
    case False
    then show ?thesis
      using 1 by (simp add: dec_of_nat.simps [of n] nat_of_dec_snoc)
  qed
qed

text \<open>What a serialized number is followed by: no character that could extend it.\<close>

definition ends_number :: "string \<Rightarrow> bool" where
  "ends_number r \<longleftrightarrow> (case r of [] \<Rightarrow> True | c # _ \<Rightarrow> \<not> is_digit c)"

lemma is_digit_not_space: "is_digit c \<Longrightarrow> \<not> isspace c \<and> c \<noteq> CHR ''-'' \<and> c \<noteq> CHR ''+''"
  by (auto simp: is_digit_def isspace_def Let_def)

lemma takeWhile_digits:
  "\<forall>c \<in> set ds. is_digit c \<Longrightarrow> ends_number r \<Longrightarrow> takeWhile is_digit (ds @ r) = ds"
  by (cases r) (simp_all add: ends_number_def)

lemma scan_number_digits:
  assumes "ends_number r"
  shows "scan_number ('' '' @ dec_of_nat n @ r) = Some (False, n)"
    and "scan_number ('' -'' @ dec_of_nat n @ r) = Some (True, n)"
proof -
  obtain c ds where c: "dec_of_nat n = c # ds" using dec_of_nat_digits(2) [of n] by (meson neq_Nil_conv)
  with dec_of_nat_digits(1) [of n] have d: "is_digit c" by simp
  have tw: "takeWhile is_digit (c # ds @ r) = dec_of_nat n"
    using takeWhile_digits [OF dec_of_nat_digits(1) assms, of n] c by simp
  have sp: "isspace (CHR '' '')" "\<not> isspace (CHR ''-'')" by (simp_all add: isspace_def)
  show "scan_number ('' '' @ dec_of_nat n @ r) = Some (False, n)"
    using d sp tw is_digit_not_space [OF d] by (simp add: scan_number_def c) (simp flip: c)
  show "scan_number ('' -'' @ dec_of_nat n @ r) = Some (True, n)"
    using d sp tw by (simp add: scan_number_def c) (simp flip: c)
qed

lemma stoul_dec_of_u32 [simp]:
  "ends_number r \<Longrightarrow> stoul (CHR '' '' # dec_of_u32 w @ r) = Some w"
  using scan_number_digits(1) [of r "unat w"] unsigned_less [of w, where ?'a = nat]
  by (simp add: stoul_def dec_of_u32_def)

definition int32 :: "int \<Rightarrow> bool" where
  "int32 z \<longleftrightarrow> - (2 ^ 31) \<le> z \<and> z < 2 ^ 31"

lemma stoi_dec_of_int [simp]:
  "int32 z \<Longrightarrow> ends_number r \<Longrightarrow> stoi (CHR '' '' # dec_of_int z @ r) = Some z"
  using scan_number_digits [of r "nat z"] scan_number_digits [of r "nat (- z)"]
  by (auto simp: stoi_def dec_of_int_def int32_def Let_def)

section \<open>Finding a section key\<close>

text \<open>
  \<open>skips k t\<close>: outside its quotes \<open>t\<close> holds anything but quotes, and behind each closing quote
  comes a character that is not in \<open>k\<close>, and no quoted part is \<open>k\<close>. Then the text \<open>t\<close> has no
  occurrence of the quoted key.
\<close>

inductive skips :: "string \<Rightarrow> string \<Rightarrow> bool" for k where
  skips_Nil: "skips k []"
| skips_char: "c \<noteq> quote \<Longrightarrow> skips k t \<Longrightarrow> skips k (c # t)"
| skips_quoted: "quote \<notin> set x \<Longrightarrow> x \<noteq> k \<Longrightarrow> c \<notin> set k \<Longrightarrow> skips k (c # t) \<Longrightarrow>
    skips k (quoted x @ c # t)"

lemma skips_append: "skips k a \<Longrightarrow> skips k b \<Longrightarrow> skips k (a @ b)"
  by (induction a rule: skips.induct) (auto intro: skips.intros)

lemma skips_quote_free: "quote \<notin> set t \<Longrightarrow> skips k t"
  by (induction t) (auto intro: skips.intros)

lemma take_prefix_eq: "take (length k) s = k \<longleftrightarrow> (\<exists>r. s = k @ r)"
  by (metis append_eq_conv_conj append_take_drop_id)

lemma find_sub_here [simp]: "find_sub k (k @ r) = Some (k @ r)"
proof (cases "k @ r")
  case Nil
  then show ?thesis by simp
next
  case (Cons c s)
  then have "take (length k) (c # s) = k" by (metis take_prefix_eq)
  with Cons show ?thesis by (simp add: find_sub.simps(2))
qed

lemma find_sub_char: "c \<noteq> quote \<Longrightarrow> find_sub (quoted k) (c # t) = find_sub (quoted k) t"
  by (simp add: find_sub.simps(2) quoted_def)

lemma find_sub_chars:
  "quote \<notin> set t \<Longrightarrow> find_sub (quoted k) (t @ r) = find_sub (quoted k) r"
  by (induction t) (auto simp: find_sub_char)

lemma find_sub_quoted_other:
  assumes "quote \<notin> set x" "quote \<notin> set k" "x \<noteq> k" "k \<noteq> []" "c \<notin> set k"
  shows "find_sub (quoted k) (quoted x @ c # t) = find_sub (quoted k) (c # t)"
proof -
  have "\<not> (\<exists>r. quoted x @ c # t = quoted k @ r)"
  proof
    assume "\<exists>r. quoted x @ c # t = quoted k @ r"
    then obtain r where "x @ quote # c # t = k @ quote # r" by (auto simp: quoted_def)
    then have "takeWhile (\<lambda>c. c \<noteq> quote) (x @ quote # c # t) = takeWhile (\<lambda>c. c \<noteq> quote) (k @ quote # r)"
      by simp
    moreover have "takeWhile (\<lambda>c. c \<noteq> quote) (y @ quote # r) = y" if "quote \<notin> set y" for y r
      using that by (induction y) auto
    ultimately have "x = k" using assms(1,2) by simp
    with assms(3) show False by simp
  qed
  then have "take (length (quoted k)) (quoted x @ c # t) \<noteq> quoted k"
    by (simp only: take_prefix_eq simp_thms)
  then have "find_sub (quoted k) (quoted x @ c # t) = find_sub (quoted k) (x @ [quote] @ c # t)"
    using find_sub.simps(2) [of "quoted k" quote "x @ [quote] @ c # t"]
    by (simp add: quoted_def)
  also have "\<dots> = find_sub (quoted k) (quote # c # t)"
    using assms(1) by (simp add: find_sub_chars)
  also have "\<dots> = find_sub (quoted k) (c # t)"
    using assms(4,5) by (cases k) (auto simp: quoted_def find_sub.simps(2))
  finally show ?thesis .
qed

lemma find_sub_skips:
  assumes "skips k a" "quote \<notin> set k" "k \<noteq> []"
  shows "find_sub (quoted k) (a @ quoted k @ r) = Some (quoted k @ r)"
  using assms(1)
proof (induction a rule: skips.induct)
  case skips_Nil
  then show ?case by simp
next
  case (skips_char c t)
  then show ?case by (simp add: find_sub_char)
next
  case (skips_quoted x c t)
  then show ?case
    using find_sub_quoted_other [of x k c "t @ quoted k @ r"] assms by simp
qed

lemma find_chr_skip: "c \<notin> set t \<Longrightarrow> find_chr c (t @ c # r) = Some (c # r)"
  by (induction t) (auto simp: find_chr_def skip_until_def)

lemma find_str_section_skips:
  assumes "skips k a" "quote \<notin> set k" "k \<noteq> []" "CHR '':'' \<notin> set k"
  shows "find_str_section (a @ quoted k @ CHR '':'' # r) k = r"
proof -
  have "CHR '':'' \<notin> set (quoted k)" using assms(4) by (simp add: quoted_def quote_def)
  then show ?thesis
    using find_sub_skips [OF assms(1-3), of "CHR '':'' # r"] find_chr_skip [of "CHR '':''" "quoted k" r]
    by (simp add: find_str_section_def)
qed

section \<open>Reading sections back\<close>

lemma quote_not_punctuation [simp]:
  "quote \<noteq> CHR ''[''" "quote \<noteq> CHR '']''" "quote \<noteq> CHR ''{''" "quote \<noteq> CHR ''}''"
  "quote \<noteq> CHR '',''" "quote \<noteq> CHR '':''" "quote \<noteq> CHR '' ''" "quote \<noteq> nl"
  "nl \<noteq> CHR ''[''" "nl \<noteq> CHR '']''" "nl \<noteq> CHR ''{''" "nl \<noteq> CHR ''}''"
  "nl \<noteq> CHR '',''" "nl \<noteq> CHR '':''" "nl \<noteq> CHR '' ''"
  by (simp_all add: quote_def nl_def)

lemmas punctuation_neq [simp] = quote_not_punctuation [symmetric]

lemma skip_until_simps [simp]:
  "skip_until st [] = []"
  "c \<in> set st \<Longrightarrow> skip_until st (c # s) = c # s"
  "c \<notin> set st \<Longrightarrow> skip_until st (c # s) = skip_until st s"
  by (simp_all add: skip_until_def)

lemma find_chr_simps [simp]:
  "find_chr c (c # s) = Some (c # s)"
  "c \<noteq> c' \<Longrightarrow> find_chr c (c' # s) = find_chr c s"
  by (simp_all add: find_chr_def)

lemma find_chr_append: "c \<notin> set t \<Longrightarrow> find_chr c (t @ r) = find_chr c r"
  by (induction t) auto

lemma takeWhile_until: "c \<notin> set x \<Longrightarrow> takeWhile (\<lambda>c'. c' \<noteq> c) (x @ c # r) = x"
  by (induction x) auto

lemma parse_group_comma: "parse_group (CHR '','' # s) = parse_group s"
  by (simp add: parse_group.simps [of "CHR '','' # s"] parse_group.simps [of s])

lemma parse_group_quoted:
  assumes "quote \<notin> set x"
  shows "parse_group (quoted x @ r) = (x # fst (parse_group r), snd (parse_group r))"
  unfolding quoted_def
  by (subst parse_group.simps)
    (use assms in \<open>simp add: find_chr_append takeWhile_until split_beta\<close>)

definition quote_free :: "string list \<Rightarrow> bool" where
  "quote_free ids \<longleftrightarrow> (\<forall>x \<in> set ids. quote \<notin> set x)"

lemma quote_free_simps [simp]:
  "quote_free []"
  "quote_free (x # xs) \<longleftrightarrow> quote \<notin> set x \<and> quote_free xs"
  by (simp_all add: quote_free_def)

lemma parse_group_join:
  "quote_free g \<Longrightarrow> parse_group (comma_join (map quoted g) @ CHR '']'' # r) = (g, CHR '']'' # r)"
proof (induction g rule: induct_list012)
  case 1
  then show ?case by (simp add: parse_group.simps)
next
  case (2 x)
  then show ?case by (simp add: parse_group_quoted parse_group.simps [of "CHR '']'' # r"])
next
  case (3 x y zs)
  then show ?case by (simp add: parse_group_quoted parse_group_comma)
qed

lemma parse_groups_comma: "parse_groups (CHR '','' # s) = parse_groups s"
  by (simp add: parse_groups.simps [of "CHR '','' # s"] parse_groups.simps [of s])

lemma parse_groups_group:
  "quote_free g \<Longrightarrow> parse_groups (serialize_group g @ r) = g # parse_groups r"
  unfolding serialize_group_def by (subst parse_groups.simps) (simp add: parse_group_join)

lemma parse_groups_join:
  "\<forall>g \<in> set gs. quote_free g \<Longrightarrow>
   parse_groups (comma_join (map serialize_group gs) @ CHR '']'' # r) = gs"
proof (induction gs rule: induct_list012)
  case 1
  then show ?case by (simp add: parse_groups.simps)
next
  case (2 x)
  then show ?case by (simp add: parse_groups_group parse_groups.simps [of "CHR '']'' # r"])
next
  case (3 x y zs)
  then show ?case by (simp add: parse_groups_group parse_groups_comma)
qed

text \<open>An object body: it opens with a brace, closes with its only closing brace, and is read back.\<close>

definition body_ok :: "('v \<Rightarrow> string) \<Rightarrow> (string \<Rightarrow> 'v option) \<Rightarrow> 'v \<Rightarrow> bool" where
  "body_ok body f v \<longleftrightarrow> (\<exists>b. body v = CHR ''{'' # b @ ''}'' \<and> CHR ''}'' \<notin> set b \<and>
     f (CHR ''{'' # b) = Some v)"

lemma parse_entries_skip:
  "c \<noteq> quote \<Longrightarrow> c \<noteq> CHR ''}'' \<Longrightarrow> parse_entries f acc (c # s) = parse_entries f acc s"
  by (simp add: parse_entries.simps [of f acc "c # s"] parse_entries.simps [of f acc s])

lemma parse_entries_stop: "parse_entries f acc (CHR ''}'' # s) = Some acc"
  by (simp add: parse_entries.simps)

lemma parse_entries_entry:
  assumes "quote \<notin> set k" "body_ok body f v"
  shows "parse_entries f acc (serialize_entry body (k, v) @ r) = parse_entries f (smap_emplace k v acc) r"
proof -
  obtain b where b: "body v = CHR ''{'' # b @ ''}''" "CHR ''}'' \<notin> set b" "f (CHR ''{'' # b) = Some v"
    using assms(2) by (auto simp: body_ok_def)
  have "parse_entries f acc (serialize_entry body (k, v) @ r) =
        parse_entries f acc (quote # k @ quote # '': {'' @ b @ CHR ''}'' # r)"
    by (simp add: serialize_entry_def b(1) parse_entries_skip quoted_def)
  also have "\<dots> = parse_entries f (smap_emplace k v acc) r"
    using assms(1) b
    by (subst parse_entries.simps) (simp add: find_chr_append takeWhile_until)
  finally show ?thesis .
qed

lemma smap_wf_append_Cons:
  assumes "smap_wf (acc @ (k, v) # m)"
  shows "smap_emplace k v acc = acc @ [(k, v)]"
  using assms by (intro smap_emplace_snoc) (auto simp: smap_wf_def sorted_wrt_append smap_keys_def)

lemma parse_entries_join:
  "\<forall>kv \<in> set kvs. quote \<notin> set (fst kv) \<and> body_ok body f (snd kv) \<Longrightarrow> smap_wf (acc @ kvs) \<Longrightarrow>
   parse_entries f acc (comma_join (map (serialize_entry body) kvs) @ nl # ''  }'' @ r) =
     Some (acc @ kvs)"
proof (induction kvs arbitrary: acc)
  case Nil
  then show ?case by (simp add: parse_entries_skip parse_entries_stop)
next
  case (Cons kv kvs)
  obtain k v where kv: "kv = (k, v)" by (cases kv)
  have em: "smap_emplace k v acc = acc @ [(k, v)]"
    using Cons.prems(2) kv by (intro smap_wf_append_Cons [of acc k v kvs]) simp
  have IH: "parse_entries f (acc @ [(k, v)])
      (comma_join (map (serialize_entry body) kvs) @ nl # ''  }'' @ r) = Some (acc @ (k, v) # kvs)"
    using Cons.IH [of "acc @ [(k, v)]"] Cons.prems kv by simp
  have e: "parse_entries f acc (serialize_entry body (k, v) @ s) =
           parse_entries f (acc @ [(k, v)]) s" for s
    using parse_entries_entry [of k body f v acc s] Cons.prems(1) kv em by simp
  show ?case
    using IH by (cases kvs) (simp_all add: kv e parse_entries_skip)
qed

lemma parse_hdr_skip:
  "c \<noteq> quote \<Longrightarrow> c \<noteq> CHR ''}'' \<Longrightarrow> parse_hdr_entries acc (c # s) = parse_hdr_entries acc s"
  by (simp add: parse_hdr_entries.simps [of acc "c # s"] parse_hdr_entries.simps [of acc s])

lemma parse_hdr_stop: "parse_hdr_entries acc (CHR ''}'' # s) = acc"
  by (simp add: parse_hdr_entries.simps)

lemma parse_hdr_step:
  assumes "quote \<notin> set k"
  shows "parse_hdr_entries acc (quote # k @ quote # CHR '':'' # s) =
    (let v = dropWhile (\<lambda>c. c = CHR '' '' \<or> c = quote) s;
         rest = skip_until [CHR '','', CHR ''}''] v
     in parse_hdr_entries (smap_emplace k (parse_hdr_value v) acc)
          (case rest of [] \<Rightarrow> [] | c' # t \<Rightarrow> if c' = CHR '','' then t else c' # t))"
  by (subst parse_hdr_entries.simps)
    (use assms in \<open>simp add: find_chr_append takeWhile_until Let_def\<close>)

lemma hdr_value_read:
  assumes "CHR '','' = c \<or> nl = c"
  shows "parse_hdr_value (dropWhile (\<lambda>c. c = CHR '' '' \<or> c = quote) (CHR '' '' # hdr_body v @ c # t)) = v"
    and "skip_until [CHR '','', CHR ''}'']
          (dropWhile (\<lambda>c. c = CHR '' '' \<or> c = quote) (CHR '' '' # hdr_body v @ c # t)) =
         skip_until [CHR '','', CHR ''}''] (c # t)"
  using assms
  by (cases v rule: option.exhaust; auto simp: hdr_body_def quoted_def quote_def parse_hdr_value_def
        split: hdr_state.split)+

lemma parse_hdr_entry:
  assumes "quote \<notin> set k"
  shows "parse_hdr_entries acc (serialize_entry hdr_body (k, v) @ CHR '','' # r) =
         parse_hdr_entries (smap_emplace k v acc) r"
    and "parse_hdr_entries acc (serialize_entry hdr_body (k, v) @ nl # ''  }'' @ r) =
         smap_emplace k v acc"
proof -
  have e: "parse_hdr_entries acc (serialize_entry hdr_body (k, v) @ t) =
        parse_hdr_entries acc (quote # k @ quote # CHR '':'' # CHR '' '' # hdr_body v @ t)" for t
    by (simp add: serialize_entry_def parse_hdr_skip quoted_def)
  show "parse_hdr_entries acc (serialize_entry hdr_body (k, v) @ CHR '','' # r) =
         parse_hdr_entries (smap_emplace k v acc) r"
    by (simp only: e parse_hdr_step [OF assms] hdr_value_read [OF disjI1 [OF refl]] Let_def) simp
  show "parse_hdr_entries acc (serialize_entry hdr_body (k, v) @ nl # ''  }'' @ r) =
         smap_emplace k v acc"
    by (simp only: e parse_hdr_step [OF assms] hdr_value_read [OF disjI2 [OF refl]] Let_def)
      (simp add: parse_hdr_stop)
qed

lemma parse_hdr_join:
  "\<forall>kv \<in> set kvs. quote \<notin> set (fst kv) \<Longrightarrow> smap_wf (acc @ kvs) \<Longrightarrow>
   parse_hdr_entries acc (comma_join (map (serialize_entry hdr_body) kvs) @ nl # ''  }'' @ r) =
     acc @ kvs"
proof (induction kvs arbitrary: acc)
  case Nil
  then show ?case by (simp add: parse_hdr_skip parse_hdr_stop)
next
  case (Cons kv kvs)
  obtain k v where kv: "kv = (k, v)" by (cases kv)
  have em: "smap_emplace k v acc = acc @ [(k, v)]"
    using Cons.prems(2) kv by (intro smap_wf_append_Cons [of acc k v kvs]) simp
  have IH: "parse_hdr_entries (acc @ [(k, v)])
      (comma_join (map (serialize_entry hdr_body) kvs) @ nl # ''  }'' @ r) = acc @ (k, v) # kvs"
    using Cons.IH [of "acc @ [(k, v)]"] Cons.prems kv by simp
  have k: "quote \<notin> set k" using Cons.prems kv by simp
  show ?case
    using IH parse_hdr_entry [OF k] em by (cases kvs) (simp_all add: kv)
qed

section \<open>The round trip\<close>

lemma dec_quote_free: "is_digit c \<Longrightarrow> c \<noteq> quote \<and> c \<noteq> CHR ''}''"
  by (auto simp: is_digit_def quote_def)

lemma dec_not_special [simp]:
  "quote \<notin> set (dec_of_u32 w)" "CHR ''}'' \<notin> set (dec_of_u32 w)"
  "quote \<notin> set (dec_of_int z)" "CHR ''}'' \<notin> set (dec_of_int z)"
  using dec_of_nat_digits(1) dec_quote_free
  by (auto simp: dec_of_u32_def dec_of_int_def quote_def split: if_splits)

lemma skips_simps [simp]:
  "skips k []"
  "c \<noteq> quote \<Longrightarrow> skips k t \<Longrightarrow> skips k (c # t)"
  "skips k t \<Longrightarrow> skips k (dec_of_u32 w @ t)"
  "skips k t \<Longrightarrow> skips k (dec_of_int z @ t)"
  "quote \<notin> set x \<Longrightarrow> x \<noteq> k \<Longrightarrow> c \<notin> set k \<Longrightarrow> skips k (c # t) \<Longrightarrow> skips k (quoted x @ c # t)"
  by (auto intro: skips.intros skips_append [OF skips_quote_free])

lemma parse_num_field_read:
  assumes "skips k a" "quote \<notin> set k" "k \<noteq> []" "CHR '':'' \<notin> set k" "ends_number r"
  shows "parse_num_field (a @ quoted k @ '': '' @ dec_of_u32 w @ r) (quoted k) = Some w"
proof -
  have "CHR '':'' \<notin> set (quoted k)" using assms(4) by (simp add: quoted_def quote_def)
  then show ?thesis
    using find_sub_skips [OF assms(1-3)] assms(5)
    by (simp add: parse_num_field_def find_chr_append)
qed

lemma parse_signed_num_field_read:
  assumes "skips k a" "quote \<notin> set k" "k \<noteq> []" "CHR '':'' \<notin> set k" "ends_number r" "int32 z"
  shows "parse_signed_num_field (a @ quoted k @ '': '' @ dec_of_int z @ r) (quoted k) = Some z"
proof -
  have "CHR '':'' \<notin> set (quoted k)" using assms(4) by (simp add: quoted_def quote_def)
  then show ?thesis
    using find_sub_skips [OF assms(1-3)] assms(5,6)
    by (simp add: parse_signed_num_field_def find_chr_append)
qed

lemma quote_not_letter [simp]: "quote \<notin> set ''w''" "quote \<notin> set ''h''" "quote \<notin> set ''num''"
  "quote \<notin> set ''den''" "quote \<notin> set ''x''" "quote \<notin> set ''y''"
  by (simp_all add: quote_def)

lemma ends_number_simps [simp]: "ends_number (CHR '','' # r)" "ends_number (CHR '' '' # r)"
  by (simp_all add: ends_number_def is_digit_def)

lemma brace_not_quoted [simp]: "CHR ''}'' \<in> set (quoted x) \<longleftrightarrow> CHR ''}'' \<in> set x"
  by (simp add: quoted_def quote_def)

lemma mode_body_ok: "body_ok mode_body parse_mode m"
proof -
  let ?w = "dec_of_u32 (res_width (mode_resolution m))"
  let ?h = "dec_of_u32 (res_height (mode_resolution m))"
  let ?n = "dec_of_u32 (rat_numerator (mode_refresh_rate m))"
  let ?d = "dec_of_u32 (rat_denominator (mode_refresh_rate m))"
  let ?W = "''{ '' @ quoted ''w'' @ '': '' @ ?w"
  let ?H = "'', '' @ quoted ''h'' @ '': '' @ ?h"
  let ?N = "'', '' @ quoted ''num'' @ '': '' @ ?n"
  let ?D = "'', '' @ quoted ''den'' @ '': '' @ ?d @ '' ''"
  let ?o = "?W @ ?H @ ?N @ ?D"
  have "parse_num_field ?o (quoted ''w'') = Some (res_width (mode_resolution m))"
    using parse_num_field_read [of "''w''" "''{ ''" "?H @ ?N @ ?D"] by (simp add: quote_def)
  moreover have "parse_num_field ?o (quoted ''h'') = Some (res_height (mode_resolution m))"
    using parse_num_field_read [of "''h''" "?W @ '', ''" "?N @ ?D"] by (simp add: quote_def)
  moreover have "parse_num_field ?o (quoted ''num'') = Some (rat_numerator (mode_refresh_rate m))"
    using parse_num_field_read [of "''num''" "?W @ ?H @ '', ''" "?D"] by (simp add: quote_def)
  moreover have "parse_num_field ?o (quoted ''den'') = Some (rat_denominator (mode_refresh_rate m))"
    using parse_num_field_read [of "''den''" "?W @ ?H @ ?N @ '', ''" "'' ''"] by (simp add: quote_def)
  ultimately have "parse_mode ?o = Some m" by (simp add: parse_mode_def)
  then show ?thesis
    unfolding body_ok_def by (intro exI [of _ "tl ?o"]) (simp add: mode_body_def)
qed

lemma point_body_ok:
  assumes "int32 (pt_x p)" "int32 (pt_y p)"
  shows "body_ok point_body parse_point p"
proof -
  let ?X = "''{ '' @ quoted ''x'' @ '': '' @ dec_of_int (pt_x p)"
  let ?Y = "'', '' @ quoted ''y'' @ '': '' @ dec_of_int (pt_y p) @ '' ''"
  have "parse_signed_num_field (?X @ ?Y) (quoted ''x'') = Some (pt_x p)"
    using parse_signed_num_field_read [of "''x''" "''{ ''" "?Y" "pt_x p"] assms
    by (simp add: quote_def)
  moreover have "parse_signed_num_field (?X @ ?Y) (quoted ''y'') = Some (pt_y p)"
    using parse_signed_num_field_read [of "''y''" "?X @ '', ''" "'' ''" "pt_y p"] assms
    by (simp add: quote_def)
  ultimately have "parse_point (?X @ ?Y) = Some p" by (simp add: parse_point_def)
  then show ?thesis
    unfolding body_ok_def by (intro exI [of _ "tl (?X @ ?Y)"]) (simp add: point_body_def)
qed

text \<open>
  The snapshots the text format can hold: the containers are in order, no id has a quote in it or
  is one of the section names, and the origins are 32-bit values.
\<close>

definition section_names :: "string list" where
  "section_names = [''primary'', ''modes'', ''hdr'', ''origins'']"

definition id_storable :: "device_id \<Rightarrow> bool" where
  "id_storable d \<longleftrightarrow> quote \<notin> set d \<and> d \<notin> set section_names"

definition storable :: "snapshot \<Rightarrow> bool" where
  "storable s \<longleftrightarrow>
     smap_wf (snap_modes s) \<and> smap_wf (snap_hdr_states s) \<and> smap_wf (snap_origins s) \<and>
     list_all (list_all id_storable) (snap_topology s) \<and>
     list_all (\<lambda>kv. id_storable (fst kv)) (snap_modes s) \<and>
     list_all (\<lambda>kv. id_storable (fst kv)) (snap_hdr_states s) \<and>
     list_all (\<lambda>kv. id_storable (fst kv) \<and> int32 (pt_x (snd kv)) \<and> int32 (pt_y (snd kv)))
              (snap_origins s) \<and>
     id_storable (snap_primary_device s)"

text \<open>A key is searched for in text that ends before it; \<open>d\<close> is a delimiter no key contains.\<close>

definition key_ok :: "string \<Rightarrow> bool" where
  "key_ok k \<longleftrightarrow> k \<in> set (''topology'' # section_names)"

lemma skips_ids_join:
  assumes "list_all (\<lambda>d. quote \<notin> set d \<and> d \<noteq> k) g" "CHR '','' \<notin> set k" "c \<notin> set k" "skips k (c # t)"
  shows "skips k (comma_join (map quoted g) @ c # t)"
  using assms(1)
proof (induction g rule: induct_list012)
  case (3 x y zs)
  then show ?case using assms(2) by simp
qed (use assms in simp_all)

lemma skips_join:
  assumes "\<And>x t. x \<in> set xs \<Longrightarrow> skips k (CHR '','' # t) \<Longrightarrow> skips k (f x @ CHR '','' # t)"
    and "\<And>x. x \<in> set xs \<Longrightarrow> skips k (f x @ c # t)" and "skips k (c # t)"
  shows "skips k (comma_join (map f xs) @ c # t)"
  using assms(1,2)
proof (induction xs rule: induct_list012)
  case 1
  then show ?case using assms(3) by simp
next
  case (2 x)
  then show ?case by simp
next
  case (3 x y zs)
  from 3 have "skips k (comma_join (map f (y # zs)) @ c # t)" by simp
  then have "skips k (f x @ CHR '','' # comma_join (map f (y # zs)) @ c # t)"
    using 3 by simp
  then show ?case by simp
qed

lemma key_chars:
  assumes "k \<in> set section_names"
  shows "quote \<notin> set k" "k \<noteq> []" "CHR '','' \<notin> set k" "CHR '':'' \<notin> set k" "CHR '']'' \<notin> set k"
    "nl \<notin> set k" "CHR '' '' \<notin> set k"
  using assms by (auto simp: section_names_def quote_def nl_def)

lemma id_storable_iff: "k \<in> set section_names \<Longrightarrow> id_storable d \<Longrightarrow> quote \<notin> set d \<and> d \<noteq> k"
  by (auto simp: id_storable_def)

lemma skips_topology:
  assumes "k \<in> set section_names" "list_all (list_all id_storable) tp" "skips k t"
  shows "skips k (comma_join (map serialize_group tp) @ CHR '']'' # t)"
proof (rule skips_join)
  have g: "skips k (serialize_group g @ r)" if "g \<in> set tp" "skips k r" for g r
  proof -
    have "list_all (\<lambda>d. quote \<notin> set d \<and> d \<noteq> k) g"
      using assms(1,2) that by (auto simp: list_all_iff id_storable_def)
    then have "skips k (comma_join (map quoted g) @ CHR '']'' # r)"
      using that key_chars [OF assms(1)] by (intro skips_ids_join) simp_all
    then show ?thesis by (simp add: serialize_group_def)
  qed
  show "skips k (serialize_group g @ CHR '','' # r)" if "g \<in> set tp" "skips k (CHR '','' # r)" for g r
    using g that by simp
  show "skips k (serialize_group g @ CHR '']'' # t)" if "g \<in> set tp" for g
    using g that assms(3) by simp
  show "skips k (CHR '']'' # t)" using assms(3) by simp
qed

lemma skips_entries:
  assumes "k \<in> set section_names" "list_all (\<lambda>kv. id_storable (fst kv)) kvs" "skips k t"
    and body: "\<And>v c r. c \<notin> set k \<Longrightarrow> skips k (c # r) \<Longrightarrow> skips k (body v @ c # r)"
  shows "skips k (comma_join (map (serialize_entry body) kvs) @ nl # t)"
proof (rule skips_join)
  have e: "skips k (serialize_entry body kv @ c # r)"
    if "kv \<in> set kvs" "c \<notin> set k" "skips k (c # r)" for kv c r
    using that assms(1,2) id_storable_iff [OF assms(1), of "fst kv"] key_chars [OF assms(1)] body
    by (simp add: serialize_entry_def list_all_iff)
  show "skips k (serialize_entry body kv @ CHR '','' # r)"
    if "kv \<in> set kvs" "skips k (CHR '','' # r)" for kv r
    using e that key_chars [OF assms(1)] by blast
  show "skips k (serialize_entry body kv @ nl # t)" if "kv \<in> set kvs" for kv
    using e [OF that, of nl t] key_chars [OF assms(1)] assms(3) by simp
  show "skips k (nl # t)" using assms(3) by simp
qed

lemma skips_bodies:
  assumes "k \<in> set section_names" "c \<notin> set k" "skips k (c # r)"
  shows "skips k (mode_body m @ c # r)" "skips k (hdr_body h @ c # r)" "skips k (point_body p @ c # r)"
  using assms key_chars [OF assms(1)]
  by (auto simp: mode_body_def hdr_body_def point_body_def section_names_def quote_def
        split: option.split hdr_state.split)

lemma find_sections:
  assumes "storable s"
  shows "\<exists>r. find_str_section (serialize_snapshot s l) ''topology'' =
              '' ['' @ comma_join (map serialize_group (snap_topology s)) @ CHR '']'' # r"
    and "\<exists>r. find_str_section (serialize_snapshot s l) ''modes'' =
              '' {'' @ comma_join (map (serialize_entry mode_body) (snap_modes s)) @ nl # ''  }'' @ r"
    and "\<exists>r. find_str_section (serialize_snapshot s l) ''hdr'' =
              '' {'' @ comma_join (map (serialize_entry hdr_body) (snap_hdr_states s)) @ nl # ''  }'' @ r"
    and "\<exists>r. find_str_section (serialize_snapshot s l) ''primary'' =
              CHR '' '' # quoted (snap_primary_device s) @ r"
    and "\<exists>r. find_str_section (serialize_snapshot s l) ''origins'' =
              '' {'' @ comma_join (map (serialize_entry point_body) (snap_origins s)) @ nl # ''  }'' @ r"
proof -
  define A where "A = CHR ''{'' # nl # ''  '' @ quoted ''snapshot_version'' @ '': '' @
     dec_of_int kSnapshotLayoutVersionLatest @ '','' @ nl # ''  ''"
  define T where "T = '': ['' @ comma_join (map serialize_group (snap_topology s)) @ ''],'' @ nl # ''  ''"
  define M where "M = '': {'' @ comma_join (map (serialize_entry mode_body) (snap_modes s)) @
     nl # ''  },'' @ nl # ''  ''"
  define H where "H = '': {'' @ comma_join (map (serialize_entry hdr_body) (snap_hdr_states s)) @
     nl # ''  },'' @ nl # ''  ''"
  define P where "P = '': '' @ quoted (snap_primary_device s) @ '','' @ nl # ''  ''"
  define R where "R = '': {'' @ comma_join (map (serialize_entry point_body) (snap_origins s)) @
     nl # ''  },'' @ nl # ''  '' @ quoted ''layouts'' @ '': {'' @
     comma_join (map (serialize_entry rotation_body) l) @ nl # ''  }'' @ nl # ''}''"
  have ser: "serialize_snapshot s l = A @ quoted ''topology'' @ T @ quoted ''modes'' @ M @
      quoted ''hdr'' @ H @ quoted ''primary'' @ P @ quoted ''origins'' @ R"
    by (simp add: serialize_snapshot_def A_def T_def M_def H_def P_def R_def)
  have ids: "list_all (list_all id_storable) (snap_topology s)"
    "list_all (\<lambda>kv. id_storable (fst kv)) (snap_modes s)"
    "list_all (\<lambda>kv. id_storable (fst kv)) (snap_hdr_states s)"
    "id_storable (snap_primary_device s)"
    using assms by (simp_all add: storable_def)
  have qf: "quote \<notin> set ''topology''" "quote \<notin> set ''modes''" "quote \<notin> set ''hdr''"
    "quote \<notin> set ''primary''" "quote \<notin> set ''snapshot_version''"
    by (simp_all add: quote_def)
  have names: "''topology'' \<noteq> k" "''snapshot_version'' \<noteq> k" "CHR '':'' \<notin> set k"
    if "k \<in> set section_names" for k
    using that by (auto simp: section_names_def)
  have A: "skips k (A @ t)" if "k = ''topology'' \<or> k \<in> set section_names" "skips k t" for k t
  proof -
    have "''snapshot_version'' \<noteq> k" "CHR '':'' \<notin> set k"
      using that(1) by (auto simp: section_names_def)
    then show ?thesis using that(2) qf by (simp add: A_def)
  qed
  have T: "skips k (quoted ''topology'' @ T @ t)" if "k \<in> set section_names" "skips k t" for k t
    using that(2) qf names [OF that(1)]
    by (simp add: T_def skips_topology [OF that(1) ids(1)])
  have M: "skips k (quoted ''modes'' @ M @ t)" if "k \<in> set section_names" "''modes'' \<noteq> k" "skips k t" for k t
    using that(2,3) qf names [OF that(1)]
    by (simp add: M_def skips_entries [OF that(1) ids(2)] skips_bodies(1) [OF that(1)])
  have H: "skips k (quoted ''hdr'' @ H @ t)" if "k \<in> set section_names" "''hdr'' \<noteq> k" "skips k t" for k t
    using that(2,3) qf names [OF that(1)]
    by (simp add: H_def skips_entries [OF that(1) ids(3)] skips_bodies(2) [OF that(1)])
  have P: "skips k (quoted ''primary'' @ P @ t)" if "k \<in> set section_names" "''primary'' \<noteq> k" "skips k t" for k t
    using that(2,3) qf names [OF that(1)] key_chars [OF that(1)] id_storable_iff [OF that(1) ids(4)]
    by (simp add: P_def)
  have [simp]: "''modes'' \<in> set section_names" "''hdr'' \<in> set section_names"
    "''primary'' \<in> set section_names" "''origins'' \<in> set section_names"
    by (simp_all add: section_names_def)
  note sec = find_str_section_skips [unfolded append_assoc]
  show "\<exists>r. find_str_section (serialize_snapshot s l) ''topology'' =
              '' ['' @ comma_join (map serialize_group (snap_topology s)) @ CHR '']'' # r"
    using sec [of "''topology''" A] A [of "''topology''" "[]"]
    by (simp add: ser T_def quote_def)
  show "\<exists>r. find_str_section (serialize_snapshot s l) ''modes'' =
              '' {'' @ comma_join (map (serialize_entry mode_body) (snap_modes s)) @ nl # ''  }'' @ r"
    using sec [of "''modes''" "A @ quoted ''topology'' @ T"]
      A [OF _ T [of "''modes''" "[]"]] key_chars [of "''modes''"]
    by (simp add: ser M_def)
  show "\<exists>r. find_str_section (serialize_snapshot s l) ''hdr'' =
              '' {'' @ comma_join (map (serialize_entry hdr_body) (snap_hdr_states s)) @ nl # ''  }'' @ r"
    using sec [of "''hdr''" "A @ quoted ''topology'' @ T @ quoted ''modes'' @ M"]
      A [OF _ T [OF _ M [of "''hdr''" "[]"]]] key_chars [of "''hdr''"]
    by (simp add: ser H_def)
  show "\<exists>r. find_str_section (serialize_snapshot s l) ''primary'' =
              CHR '' '' # quoted (snap_primary_device s) @ r"
    using sec [of "''primary''" "A @ quoted ''topology'' @ T @ quoted ''modes'' @ M @ quoted ''hdr'' @ H"]
      A [OF _ T [OF _ M [OF _ _ H [of "''primary''" "[]"]]]] key_chars [of "''primary''"]
    by (simp add: ser P_def)
  show "\<exists>r. find_str_section (serialize_snapshot s l) ''origins'' =
              '' {'' @ comma_join (map (serialize_entry point_body) (snap_origins s)) @ nl # ''  }'' @ r"
    using sec [of "''origins''" "A @ quoted ''topology'' @ T @ quoted ''modes'' @ M @ quoted ''hdr'' @ H @
        quoted ''primary'' @ P"]
      A [OF _ T [OF _ M [OF _ _ H [OF _ _ P [of "''origins''" "[]"]]]]] key_chars [of "''origins''"]
    by (simp add: ser R_def)
qed

lemma parse_sections:
  assumes "storable s"
  shows "parse_topology_field (find_str_section (serialize_snapshot s l) ''topology'') = snap_topology s"
    and "parse_modes_field (find_str_section (serialize_snapshot s l) ''modes'') = Some (snap_modes s)"
    and "parse_hdr_field (find_str_section (serialize_snapshot s l) ''hdr'') = snap_hdr_states s"
    and "parse_primary_field (find_str_section (serialize_snapshot s l) ''primary'') =
           Some (snap_primary_device s)"
    and "parse_origins_field (find_str_section (serialize_snapshot s l) ''origins'') = Some (snap_origins s)"
proof -
  note f = find_sections [OF assms, of l]
  have free: "\<forall>g \<in> set (snap_topology s). quote_free g"
    using assms by (auto simp: storable_def list_all_iff id_storable_def quote_free_def)
  obtain r where "find_str_section (serialize_snapshot s l) ''topology'' =
      '' ['' @ comma_join (map serialize_group (snap_topology s)) @ CHR '']'' # r"
    using f(1) by blast
  then show "parse_topology_field (find_str_section (serialize_snapshot s l) ''topology'') = snap_topology s"
    by (simp add: parse_topology_field_def parse_groups_join [OF free])
  have modes: "\<forall>kv \<in> set (snap_modes s). quote \<notin> set (fst kv) \<and> body_ok mode_body parse_mode (snd kv)"
    using assms mode_body_ok by (auto simp: storable_def list_all_iff id_storable_def)
  obtain r where "find_str_section (serialize_snapshot s l) ''modes'' =
      '' {'' @ comma_join (map (serialize_entry mode_body) (snap_modes s)) @ nl # ''  }'' @ r"
    using f(2) by blast
  then show "parse_modes_field (find_str_section (serialize_snapshot s l) ''modes'') = Some (snap_modes s)"
    using parse_entries_join [OF modes, of "[]"] assms
    by (simp add: parse_modes_field_def storable_def)
  have hdr: "\<forall>kv \<in> set (snap_hdr_states s). quote \<notin> set (fst kv)"
    using assms by (auto simp: storable_def list_all_iff id_storable_def)
  obtain r where "find_str_section (serialize_snapshot s l) ''hdr'' =
      '' {'' @ comma_join (map (serialize_entry hdr_body) (snap_hdr_states s)) @ nl # ''  }'' @ r"
    using f(3) by blast
  then show "parse_hdr_field (find_str_section (serialize_snapshot s l) ''hdr'') = snap_hdr_states s"
    using parse_hdr_join [OF hdr, of "[]"] assms
    by (simp add: parse_hdr_field_def storable_def)
  have prim: "quote \<notin> set (snap_primary_device s)"
    using assms by (simp add: storable_def id_storable_def)
  obtain r where "find_str_section (serialize_snapshot s l) ''primary'' =
      CHR '' '' # quoted (snap_primary_device s) @ r"
    using f(4) by blast
  then show "parse_primary_field (find_str_section (serialize_snapshot s l) ''primary'') =
      Some (snap_primary_device s)"
    using prim by (simp add: parse_primary_field_def quoted_def find_chr_append takeWhile_until)
  have origins: "\<forall>kv \<in> set (snap_origins s). quote \<notin> set (fst kv) \<and> body_ok point_body parse_point (snd kv)"
    using assms point_body_ok by (auto simp: storable_def list_all_iff id_storable_def)
  obtain r where "find_str_section (serialize_snapshot s l) ''origins'' =
      '' {'' @ comma_join (map (serialize_entry point_body) (snap_origins s)) @ nl # ''  }'' @ r"
    using f(5) by blast
  then show "parse_origins_field (find_str_section (serialize_snapshot s l) ''origins'') = Some (snap_origins s)"
    using parse_entries_join [OF origins, of "[]"] assms
    by (simp add: parse_origins_field_def storable_def)
qed

section \<open>What a saved file reads back as\<close>

lemma rotation_read:
  assumes "r \<in> {0, 90, 180, 270}"
  shows "parse_layout_rotation_value (J_Object [(''rotation'', J_Int r)]) = Some r"
proof -
  have "json_get_int r = r" using assms by (auto simp: json_get_int_def)
  with assms show ?thesis by (auto simp: normalize_rotation_degrees_eq)
qed

lemma foldl_layouts:
  assumes "smap_wf (acc @ l)" "\<forall>(d, r) \<in> set l. d \<noteq> [] \<and> r \<in> {0, 90, 180, 270}"
  shows "foldl (\<lambda>acc (k, v). if k = [] then acc
            else case parse_layout_rotation_value v of None \<Rightarrow> acc | Some r \<Rightarrow> smap_set k r acc)
          acc (map (\<lambda>(d, r). (d, J_Object [(''rotation'', J_Int r)])) l) = acc @ l"
  using assms
proof (induction l arbitrary: acc)
  case (Cons x l)
  obtain d r where x: "x = (d, r)" by (cases x)
  have "parse_layout_rotation_value (J_Object [(''rotation'', J_Int r)]) = Some r"
    using Cons.prems(2) x by (intro rotation_read) simp
  moreover have "smap_set d r acc = acc @ [(d, r)]"
    using Cons.prems(1) x by (intro smap_set_snoc) (auto simp: smap_wf_def sorted_wrt_append smap_keys_def)
  ultimately show ?case
    using Cons.IH [of "acc @ [(d, r)]"] Cons.prems x by simp
qed simp

lemma parse_saved_snapshot:
  "storable s \<Longrightarrow> \<exists>p. parse_snapshot_text json_parse (serialize_snapshot s l) = Some p \<and> ps_snapshot p = s"
  using parse_sections [of s l]
  by (simp add: parse_snapshot_text_def Let_def empty_snapshot_def)

text \<open>
  C29: The text written for a snapshot reads back as exactly that snapshot, with the current format
  version and the saved rotations, and counts as a restore payload when it has a display and a
  mode: for every snapshot whose ids hold no quote and are no section names, and a JSON library
  that reads the version and the layout object the text contains.
\<close>

theorem snapshot_file_roundtrip:
  assumes "storable s"
    and "json_parse (serialize_snapshot s l) = Some (J_Object j)"
    and "map_of j ''snapshot_version'' = Some (J_Int kSnapshotLayoutVersionLatest)"
    and "map_of j ''layouts'' =
           Some (J_Object (map (\<lambda>(d, r). (d, J_Object [(''rotation'', J_Int r)])) l))"
    and "smap_wf l" and "\<forall>(d, r) \<in> set l. d \<noteq> [] \<and> r \<in> {0, 90, 180, 270}"
  shows "parse_snapshot_text json_parse (serialize_snapshot s l) =
           Some \<lparr>ps_snapshot = s, ps_version = kSnapshotLayoutVersionLatest,
                 ps_has_layout_data = True, ps_layout_rotations = l\<rparr> \<and>
         (snapshot_text_has_restore_payload (serialize_snapshot s l) \<longleftrightarrow>
            snap_topology s \<noteq> [] \<and> snap_modes s \<noteq> [])"
proof -
  have "parse_layouts_field j = (l, True)"
    using foldl_layouts [of "[]" l] assms by (simp add: parse_layouts_field_def)
  moreover have "json_get_int kSnapshotLayoutVersionLatest = 2"
    by (simp add: json_get_int_def kSnapshotLayoutVersionLatest_def)
  ultimately show ?thesis
    using parse_sections [OF assms(1), of l] assms(2,3)
    by (simp add: parse_snapshot_text_def snapshot_text_has_restore_payload_def Let_def
          empty_snapshot_def default_parsed_snapshot_def kSnapshotLayoutVersionLatest_def)
qed

definition two_displays :: snapshot where
  "two_displays =
     \<lparr>snap_topology = [[''{A}''], [''{B}'']],
      snap_modes = [(''{A}'', \<lparr>mode_resolution = \<lparr>res_width = 2560, res_height = 1440\<rparr>,
                               mode_refresh_rate = \<lparr>rat_numerator = 143981, rat_denominator = 1000\<rparr>\<rparr>),
                    (''{B}'', \<lparr>mode_resolution = \<lparr>res_width = 1920, res_height = 1080\<rparr>,
                               mode_refresh_rate = \<lparr>rat_numerator = 60, rat_denominator = 1\<rparr>\<rparr>)],
      snap_hdr_states = [(''{A}'', Some Hdr_Enabled), (''{B}'', None)],
      snap_primary_device = ''{A}'',
      snap_origins = [(''{A}'', \<lparr>pt_x = 0, pt_y = 0\<rparr>), (''{B}'', \<lparr>pt_x = -1920, pt_y = 40\<rparr>)]\<rparr>"

lemma storable_two_displays: "storable two_displays"
  by (simp add: storable_def two_displays_def smap_wf_def id_storable_def section_names_def
        quote_def int32_def)

theorem snapshot_file_roundtrip_witness:
  "let l = [(''{A}'', 90)];
       j = [(''layouts'', J_Object [(''{A}'', J_Object [(''rotation'', J_Int 90)])]),
            (''snapshot_version'', J_Int 2)]
   in parse_snapshot_text (\<lambda>_. Some (J_Object j)) (serialize_snapshot two_displays l) =
        Some \<lparr>ps_snapshot = two_displays, ps_version = 2, ps_has_layout_data = True,
              ps_layout_rotations = l\<rparr> \<and>
      snapshot_text_has_restore_payload (serialize_snapshot two_displays l)"
proof -
  let ?l = "[(''{A}'', 90 :: int)]"
  let ?j = "[(''layouts'', J_Object [(''{A}'', J_Object [(''rotation'', J_Int 90)])]),
            (''snapshot_version'', J_Int 2)]"
  show ?thesis
    using snapshot_file_roundtrip [of two_displays "\<lambda>_. Some (J_Object ?j)" ?l ?j] storable_two_displays
    by (simp add: kSnapshotLayoutVersionLatest_def smap_wf_def)
      (simp add: two_displays_def)
qed

end
