(* ===== verification/Golden_Health.thy ===== *)
theory Golden_Health
  imports Snapshot_Text
begin

text \<open>
  The golden-restore health tracking of \<open>golden_health.cpp\<close>. The state is the two members of the
  class and the content of the status marker as the JSON value it parses to (\<open>None\<close>: there is no
  marker, it cannot be read, or the parser discards it). The mutex makes every method one step; the
  clock value a method reads and the success of the marker's write are arguments.
\<close>

record golden_health =
  gh_path_set :: bool
  gh_had_issue_this_request :: bool
  gh_last_issue :: string
  gh_marker :: "json option"

definition initial_golden_health :: golden_health where
  "initial_golden_health = \<lparr>gh_path_set = True, gh_had_issue_this_request = False,
                            gh_last_issue = [], gh_marker = None\<rparr>"

definition kGoldenOutOfDateFailureThreshold :: u64 where
  "kGoldenOutOfDateFailureThreshold = 3"

definition kGoldenOutOfDateFailureWindow_ms :: int where
  "kGoldenOutOfDateFailureWindow_ms = 72 * 60 * 60 * 1000"

definition gh_reset_request_tracking :: "golden_health \<Rightarrow> golden_health" where
  "gh_reset_request_tracking g = g\<lparr>gh_had_issue_this_request := False, gh_last_issue := []\<rparr>"

definition gh_clear_status :: "golden_health \<Rightarrow> golden_health" where
  "gh_clear_status g =
     (let g = gh_reset_request_tracking g
      in if \<not> gh_path_set g then g else g\<lparr>gh_marker := None\<rparr>)"

definition gh_note_issue :: "string \<Rightarrow> golden_health \<Rightarrow> golden_health" where
  "gh_note_issue reason g =
     g\<lparr>gh_had_issue_this_request := True,
       gh_last_issue := (if reason \<noteq> [] then reason else ''restore_failed'')\<rparr>"

text \<open>
  Reading the marker. \<open>json::value(key, default)\<close> gives the default when the key is missing and
  throws when the value has another type; the handler around both reads keeps what was assigned
  before the throw.
\<close>

definition gh_read_marker :: "int \<Rightarrow> golden_health \<Rightarrow> int \<times> u64" where
  "gh_read_marker now_ms g =
     (if \<not> gh_path_set g then (now_ms, 0)
      else case gh_marker g of
             Some (J_Object previous) \<Rightarrow>
               (case map_of previous ''first_failure_unix_ms'' of
                  None \<Rightarrow> (now_ms, case map_of previous ''unresolved_restore_attempts'' of
                             Some (J_Int n) \<Rightarrow> word_of_int n | _ \<Rightarrow> 0)
                | Some (J_Int t) \<Rightarrow> (t, case map_of previous ''unresolved_restore_attempts'' of
                             Some (J_Int n) \<Rightarrow> word_of_int n | _ \<Rightarrow> 0)
                | Some _ \<Rightarrow> (now_ms, 0))
           | _ \<Rightarrow> (now_ms, 0))"

definition gh_status :: "bool \<Rightarrow> string \<Rightarrow> u64 \<Rightarrow> int \<Rightarrow> int \<Rightarrow> json" where
  "gh_status should_warn reason failures first_failure_ms now_ms =
     J_Object [(''failure_threshold'', J_Int (uint kGoldenOutOfDateFailureThreshold)),
               (''failure_window_hours'', J_Int 72),
               (''first_failure_unix_ms'', J_Int first_failure_ms),
               (''last_failure_reason'', J_String reason),
               (''latest_failure_unix_ms'', J_Int now_ms),
               (''reason'', J_String (if should_warn then ''restore_failed_for_days'' else reason)),
               (''snapshot_out_of_date'', J_Bool should_warn),
               (''unresolved_restore_attempts'', J_Int (uint failures)),
               (''updated_at_unix_ms'', J_Int now_ms)]"

definition gh_register_unresolved :: "int \<Rightarrow> bool \<Rightarrow> golden_health \<Rightarrow> golden_health" where
  "gh_register_unresolved now_ms write_ok g =
     (if \<not> gh_had_issue_this_request g then g
      else let reason = (if gh_last_issue g = [] then ''restore_failed'' else gh_last_issue g);
               g = g\<lparr>gh_had_issue_this_request := False, gh_last_issue := []\<rparr>;
               (first_failure_ms, failures) = gh_read_marker now_ms g;
               failures = failures + 1;
               unresolved_ms = max 0 (now_ms - first_failure_ms);
               enough_attempts = kGoldenOutOfDateFailureThreshold \<le> failures;
               old_enough = kGoldenOutOfDateFailureWindow_ms \<le> unresolved_ms;
               should_warn = (enough_attempts \<and> old_enough)
           in if \<not> (gh_path_set g \<and> write_ok) then g
              else g\<lparr>gh_marker := Some (gh_status should_warn reason failures first_failure_ms now_ms)\<rparr>)"

text \<open>What the rest of the application reads from the marker: is the snapshot reported stale?\<close>

definition gh_reports_out_of_date :: "golden_health \<Rightarrow> bool" where
  "gh_reports_out_of_date g \<longleftrightarrow>
     (case gh_marker g of
        Some (J_Object m) \<Rightarrow> map_of m ''snapshot_out_of_date'' = Some (J_Bool True)
      | _ \<Rightarrow> False)"

text \<open>
  One failed restore request: the tracking is reset when it starts, an issue is noted and the
  request ends unresolved at the given time.
\<close>

definition failed_request :: "golden_health \<Rightarrow> string \<times> int \<Rightarrow> golden_health" where
  "failed_request g rt =
     gh_register_unresolved (snd rt) True (gh_note_issue (fst rt) (gh_reset_request_tracking g))"

lemma gh_read_status:
  "gh_path_set g \<Longrightarrow> gh_marker g = Some (gh_status b r n f t) \<Longrightarrow> gh_read_marker now g = (f, n)"
  by (simp add: gh_read_marker_def gh_status_def)

lemma gh_reports_status:
  "gh_marker g = Some (gh_status b r n f t) \<Longrightarrow> gh_reports_out_of_date g = b"
  by (simp add: gh_reports_out_of_date_def gh_status_def)

text \<open>The marker after a run of failed requests that started without one.\<close>

definition tracked :: "int \<Rightarrow> (string \<times> int) list \<Rightarrow> golden_health \<Rightarrow> bool" where
  "tracked t0 rts g \<longleftrightarrow> gh_path_set g \<and> \<not> gh_had_issue_this_request g \<and>
     (\<exists>b r t. gh_marker g = Some (gh_status b r (of_nat (length rts)) t0 t) \<and>
        t = snd (last rts) \<and> (b \<longleftrightarrow> 3 \<le> (of_nat (length rts) :: u64) \<and>
          kGoldenOutOfDateFailureWindow_ms \<le> max 0 (t - t0)))"

lemma tracked_step:
  assumes "tracked t0 rts g"
  shows "tracked t0 (rts @ [rt]) (failed_request g rt)"
proof -
  obtain b r t where g: "gh_path_set g" "gh_marker g = Some (gh_status b r (of_nat (length rts)) t0 t)"
    using assms by (auto simp: tracked_def)
  let ?g = "gh_note_issue (fst rt) (gh_reset_request_tracking g)"
  have "gh_read_marker (snd rt) (?g\<lparr>gh_had_issue_this_request := False, gh_last_issue := []\<rparr>) =
        (t0, of_nat (length rts))"
    using g by (intro gh_read_status) (simp_all add: gh_note_issue_def gh_reset_request_tracking_def)
  then show ?thesis
    using g
    by (simp add: tracked_def failed_request_def gh_register_unresolved_def Let_def
          gh_note_issue_def gh_reset_request_tracking_def kGoldenOutOfDateFailureThreshold_def
          add.commute) blast
qed

lemma tracked_first: "tracked t0 [(r, t0)] (failed_request initial_golden_health (r, t0))"
  by (simp add: tracked_def failed_request_def gh_register_unresolved_def Let_def
        gh_note_issue_def gh_reset_request_tracking_def initial_golden_health_def
        gh_read_marker_def kGoldenOutOfDateFailureThreshold_def kGoldenOutOfDateFailureWindow_ms_def)
    (auto simp: gh_status_def)

lemma tracked_run: "tracked t0 rts g \<Longrightarrow> tracked t0 (rts @ rs) (foldl failed_request g rs)"
proof (induction rs arbitrary: rts g)
  case (Cons m rs)
  then show ?case using Cons.IH [OF tracked_step [OF Cons.prems], of m] by simp
qed simp

text \<open>
  After a run of unresolved restore requests that began without a marker, the marker reports
  the golden snapshot as out of date exactly when there were at least three of them and the last
  came at least 72 hours after the first (for fewer than \<open>2 ^ 64\<close> requests).
\<close>

theorem golden_warning_needs_three_failures_over_72h:
  assumes "length rts < 2 ^ 64 - 1"
  shows "gh_reports_out_of_date (foldl failed_request initial_golden_health ((r, t0) # rts)) \<longleftrightarrow>
         2 \<le> length rts \<and> 72 * 60 * 60 * 1000 \<le> snd (last ((r, t0) # rts)) - t0"
proof -
  have tr: "tracked t0 ((r, t0) # rts) (foldl failed_request initial_golden_health ((r, t0) # rts))"
    using tracked_run [OF tracked_first, of t0 r rts] by simp
  have "unat (of_nat (Suc (length rts)) :: u64) = Suc (length rts)"
    using assms by (simp only: unat_of_nat) simp
  then have "3 \<le> (of_nat (Suc (length rts)) :: u64) \<longleftrightarrow> 2 \<le> length rts"
    by (simp add: word_le_nat_alt del: of_nat_Suc)
  with tr show ?thesis
    by (auto simp: tracked_def gh_reports_status kGoldenOutOfDateFailureWindow_ms_def
          simp del: of_nat_Suc)
qed

theorem golden_warning_needs_three_failures_over_72h_witness:
  "gh_reports_out_of_date (foldl failed_request initial_golden_health
     [(''x'', 0), (''y'', 1000), (''z'', 259200000)]) \<and>
   \<not> gh_reports_out_of_date (foldl failed_request initial_golden_health
     [(''x'', 0), (''y'', 1000), (''z'', 259199999)])"
  using golden_warning_needs_three_failures_over_72h [of "[(''y'', 1000), (''z'', 259200000)]" "''x''" 0]
    golden_warning_needs_three_failures_over_72h [of "[(''y'', 1000), (''z'', 259199999)]" "''x''" 0]
  by simp

text \<open>A confirmed restore or a new export removes the marker and the noted issue.\<close>

lemma clear_status_forgets:
  "gh_path_set g \<Longrightarrow> \<not> gh_reports_out_of_date (gh_clear_status g) \<and>
     gh_register_unresolved t ok (gh_clear_status g) = gh_clear_status g"
  by (simp add: gh_clear_status_def gh_reset_request_tracking_def gh_reports_out_of_date_def
        gh_register_unresolved_def Let_def)

end
