(* ===== verification/Snapshot_Storage.thy ===== *)
theory Snapshot_Storage
  imports Snapshot_Text
begin

text \<open>
  Snapshot persistence: \<open>write_text_atomically\<close> and \<open>read_file_text\<close> of \<open>snapshot_codec.cpp\<close> on a
  file system with faults, \<open>FileSnapshotStorage\<close>, \<open>InMemorySnapshotStorage\<close> and
  \<open>SnapshotPersistence\<close> of \<open>snapshot.cpp\<close>, and the default methods of \<open>ISnapshotStorage\<close>
  (\<open>interfaces.h\<close>). The locale \<open>snapshot_store\<close> states what the clients of a storage rely on; both
  storages are instances of it. A load that throws is \<open>None\<close>; a load that returns gives
  \<open>Some None\<close> (nothing usable stored) or \<open>Some (Some p)\<close>.
\<close>

section \<open>Files\<close>

type_synonym path = string
type_synonym files = "path \<Rightarrow> string option"

text \<open>
  What the system calls of one atomic write do: a failing call is a field that says so, with what
  it leaves behind. \<open>wf_short_write\<close> is the prefix a failing \<open>fwrite\<close> put into the temporary file,
  \<open>wf_copy_leaves\<close> the content of the target after a failing \<open>copy_file\<close>.
\<close>

record write_faults =
  wf_open_fails :: bool
  wf_short_write :: "string option"
  wf_exists_errs :: bool
  wf_rename_fails :: bool
  wf_copy_leaves :: "string option option"
  wf_remove_fails :: bool

definition no_faults :: write_faults where
  "no_faults = \<lparr>wf_open_fails = False, wf_short_write = None, wf_exists_errs = False,
                wf_rename_fails = False, wf_copy_leaves = None, wf_remove_fails = False\<rparr>"

definition temp_path :: "path \<Rightarrow> path" where
  "temp_path p = p @ ''.tmp''"

definition write_text_atomically :: "write_faults \<Rightarrow> string \<Rightarrow> path \<Rightarrow> files \<Rightarrow> bool \<times> files" where
  "write_text_atomically fl content path fs =
     (if path = [] then (False, fs)
      else if wf_open_fails fl then (False, fs)
      else let temp = temp_path path
           in case wf_short_write fl of
                Some part \<Rightarrow>
                  (False, fs(temp := (if wf_remove_fails fl then Some part else None)))
              | None \<Rightarrow>
                  (let fs = fs(temp := Some content);
                       target_exists = (fs path \<noteq> None \<and> \<not> wf_exists_errs fl)
                   in if \<not> target_exists \<and> \<not> wf_rename_fails fl
                      then (True, fs(path := fs temp, temp := None))
                      else case wf_copy_leaves fl of
                             Some rest \<Rightarrow> (False, fs(path := rest))
                           | None \<Rightarrow>
                               (let fs = fs(path := fs temp)
                                in (True, if wf_remove_fails fl then fs else fs(temp := None)))))"

definition read_file_text :: "path \<Rightarrow> files \<Rightarrow> string option" where
  "read_file_text p fs = fs p"

lemma temp_path_neq [simp]: "temp_path p \<noteq> p" "p \<noteq> temp_path p"
  by (simp_all add: temp_path_def)

lemma write_text_other:
  "q \<noteq> p \<Longrightarrow> q \<noteq> temp_path p \<Longrightarrow> snd (write_text_atomically fl content p fs) q = fs q"
  by (simp add: write_text_atomically_def Let_def split: option.split)

lemma write_text_ok:
  "fst (write_text_atomically fl content p fs) \<Longrightarrow> snd (write_text_atomically fl content p fs) p = Some content"
  by (auto simp: write_text_atomically_def Let_def split: option.splits if_splits)

lemma write_text_failed:
  "\<not> fst (write_text_atomically fl content p fs) \<Longrightarrow> wf_copy_leaves fl = None \<Longrightarrow>
   snd (write_text_atomically fl content p fs) p = fs p"
  by (auto simp: write_text_atomically_def Let_def split: option.splits if_splits)

section \<open>The storage interface\<close>

record 's storage_ops =
  so_load_with_metadata :: "snapshot_tier \<Rightarrow> 's \<Rightarrow> parsed_snapshot option option"
  so_save :: "snapshot_tier \<Rightarrow> snapshot \<Rightarrow> layout_rotation_map \<Rightarrow> 's \<Rightarrow> bool \<times> 's"
  so_remove :: "snapshot_tier \<Rightarrow> 's \<Rightarrow> bool \<times> 's"
  so_exists :: "snapshot_tier \<Rightarrow> 's \<Rightarrow> bool"

definition so_load :: "'s storage_ops \<Rightarrow> snapshot_tier \<Rightarrow> 's \<Rightarrow> snapshot option option" where
  "so_load ops t st = map_option (map_option ps_snapshot) (so_load_with_metadata ops t st)"

definition promote_current_to_previous :: "'s storage_ops \<Rightarrow> 's \<Rightarrow> (bool \<times> 's) option" where
  "promote_current_to_previous ops st =
     (case so_load_with_metadata ops Tier_Current st of
        None \<Rightarrow> None
      | Some None \<Rightarrow> Some (False, st)
      | Some (Some current) \<Rightarrow>
          (let (ok, st) = so_save ops Tier_Previous (ps_snapshot current)
                            (ps_layout_rotations current) st
           in if \<not> ok then Some (False, st)
              else Some (True, snd (so_remove ops Tier_Current st))))"

definition missing_devices :: "snapshot \<Rightarrow> device_id set \<Rightarrow> device_id list" where
  "missing_devices s available =
     (let devices = flatten_topology_device_ids (snap_topology s);
          devices = (if devices = [] then map fst (snap_modes s) else devices)
      in filter (\<lambda>d. d \<notin> available) devices)"

section \<open>File storage\<close>

record snapshot_paths =
  sp_current :: path
  sp_previous :: path
  sp_golden :: path

text \<open>The faults of the coming writes, one entry per write; none are left when the list is empty.\<close>

record file_store =
  fsto_paths :: snapshot_paths
  fsto_files :: files
  fsto_faults :: "write_faults list"

fun path_for :: "snapshot_tier \<Rightarrow> snapshot_paths \<Rightarrow> path" where
  "path_for Tier_Current p = sp_current p"
| "path_for Tier_Previous p = sp_previous p"
| "path_for Tier_Golden p = sp_golden p"

definition file_load_with_metadata ::
  "(string \<Rightarrow> json option) \<Rightarrow> snapshot_tier \<Rightarrow> file_store \<Rightarrow> parsed_snapshot option option" where
  "file_load_with_metadata json_parse t st =
     (case read_file_text (path_for t (fsto_paths st)) (fsto_files st) of
        None \<Rightarrow> Some None
      | Some content \<Rightarrow>
          (case parse_snapshot_text json_parse content of
             None \<Rightarrow> None
           | Some loaded \<Rightarrow>
               if snap_topology (ps_snapshot loaded) = [] \<and> snap_modes (ps_snapshot loaded) = []
               then Some None else Some (Some loaded)))"

definition next_fault :: "file_store \<Rightarrow> write_faults" where
  "next_fault st = (case fsto_faults st of [] \<Rightarrow> no_faults | f # _ \<Rightarrow> f)"

definition file_save ::
  "snapshot_tier \<Rightarrow> snapshot \<Rightarrow> layout_rotation_map \<Rightarrow> file_store \<Rightarrow> bool \<times> file_store" where
  "file_save t s layouts st =
     (let (ok, fs) = write_text_atomically (next_fault st) (serialize_snapshot s layouts)
                       (path_for t (fsto_paths st)) (fsto_files st)
      in (ok, st\<lparr>fsto_files := fs, fsto_faults := tl (fsto_faults st)\<rparr>))"

definition file_remove :: "snapshot_tier \<Rightarrow> file_store \<Rightarrow> bool \<times> file_store" where
  "file_remove t st =
     (let p = path_for t (fsto_paths st)
      in (fsto_files st p \<noteq> None, st\<lparr>fsto_files := (fsto_files st)(p := None)\<rparr>))"

definition file_exists :: "snapshot_tier \<Rightarrow> file_store \<Rightarrow> bool" where
  "file_exists t st \<longleftrightarrow> fsto_files st (path_for t (fsto_paths st)) \<noteq> None"

definition file_ops :: "(string \<Rightarrow> json option) \<Rightarrow> file_store storage_ops" where
  "file_ops json_parse =
     \<lparr>so_load_with_metadata = file_load_with_metadata json_parse, so_save = file_save,
      so_remove = file_remove, so_exists = file_exists\<rparr>"

text \<open>The three paths and their temporary files are different.\<close>

definition file_store_valid :: "file_store \<Rightarrow> bool" where
  "file_store_valid st \<longleftrightarrow>
     (let p = fsto_paths st; ps = [sp_current p, sp_previous p, sp_golden p]
      in distinct (ps @ map temp_path ps))"

section \<open>In-memory storage\<close>

type_synonym memory_store = "snapshot_tier \<Rightarrow> snapshot option"

definition memory_load_with_metadata ::
  "snapshot_tier \<Rightarrow> memory_store \<Rightarrow> parsed_snapshot option option" where
  "memory_load_with_metadata t st =
     Some (case st t of
             None \<Rightarrow> None
           | Some s \<Rightarrow> Some (default_parsed_snapshot\<lparr>ps_snapshot := s,
                                ps_version := kSnapshotLayoutVersionLatest\<rparr>))"

definition memory_save ::
  "snapshot_tier \<Rightarrow> snapshot \<Rightarrow> layout_rotation_map \<Rightarrow> memory_store \<Rightarrow> bool \<times> memory_store" where
  "memory_save t s layouts st = (True, st(t := Some s))"

definition memory_remove :: "snapshot_tier \<Rightarrow> memory_store \<Rightarrow> bool \<times> memory_store" where
  "memory_remove t st = (st t \<noteq> None, st(t := None))"

definition memory_ops :: "memory_store storage_ops" where
  "memory_ops =
     \<lparr>so_load_with_metadata = memory_load_with_metadata, so_save = memory_save,
      so_remove = memory_remove, so_exists = (\<lambda>t st. st t \<noteq> None)\<rparr>"

section \<open>Persistence\<close>

definition recovery_order :: "bool \<Rightarrow> snapshot_tier list" where
  "recovery_order prefer_golden_first =
     (if prefer_golden_first then [Tier_Golden, Tier_Current, Tier_Previous]
      else [Tier_Current, Tier_Previous, Tier_Golden])"

text \<open>\<open>None\<close>: nothing is left of the snapshot.\<close>

definition filter_snapshot_devices :: "snapshot \<Rightarrow> device_id set \<Rightarrow> snapshot option" where
  "filter_snapshot_devices s blacklist =
     (if blacklist = {} then Some s
      else let s = s\<lparr>snap_topology := filter_groups (\<lambda>d. d \<notin> blacklist) (snap_topology s),
                     snap_modes := smap_retain (\<lambda>d. d \<notin> blacklist) (snap_modes s),
                     snap_hdr_states := smap_retain (\<lambda>d. d \<notin> blacklist) (snap_hdr_states s),
                     snap_primary_device :=
                       (if snap_primary_device s \<noteq> [] \<and> snap_primary_device s \<in> blacklist
                        then [] else snap_primary_device s)\<rparr>
           in if snap_topology s = [] \<and> snap_modes s = [] then None else Some s)"

definition persistence_save ::
  "'s storage_ops \<Rightarrow> snapshot_tier \<Rightarrow> snapshot \<Rightarrow> device_id set \<Rightarrow> 's \<Rightarrow> bool \<times> 's" where
  "persistence_save ops t s blacklist st =
     (case filter_snapshot_devices s blacklist of
        None \<Rightarrow> (False, st)
      | Some s \<Rightarrow> so_save ops t s [] st)"

definition persistence_load ::
  "'s storage_ops \<Rightarrow> snapshot_tier \<Rightarrow> device_id set \<Rightarrow> 's \<Rightarrow> snapshot option option" where
  "persistence_load ops t available st =
     (case so_load ops t st of
        None \<Rightarrow> None
      | Some None \<Rightarrow> Some None
      | Some (Some s) \<Rightarrow> Some (if missing_devices s available \<noteq> [] then None else Some s))"

definition rotate_current_to_previous :: "'s storage_ops \<Rightarrow> 's \<Rightarrow> (bool \<times> 's) option" where
  "rotate_current_to_previous ops st =
     (case so_load ops Tier_Current st of
        None \<Rightarrow> None
      | Some None \<Rightarrow> Some (False, st)
      | Some (Some s) \<Rightarrow> Some (so_save ops Tier_Previous s [] st))"

definition persistence_remove :: "'s storage_ops \<Rightarrow> snapshot_tier \<Rightarrow> 's \<Rightarrow> bool \<times> 's" where
  "persistence_remove ops t st = so_remove ops t st"

section \<open>What the clients of a storage rely on\<close>

definition keepable :: "snapshot \<Rightarrow> bool" where
  "keepable s \<longleftrightarrow> storable s \<and> snap_topology s \<noteq> []"

locale snapshot_store =
  fixes ops :: "'s storage_ops" and valid :: "'s \<Rightarrow> bool"
  assumes valid_save [intro]: "valid st \<Longrightarrow> valid (snd (so_save ops t s l st))"
    and valid_remove [intro]: "valid st \<Longrightarrow> valid (snd (so_remove ops t st))"
    and load_saved: "valid st \<Longrightarrow> keepable s \<Longrightarrow> fst (so_save ops t s l st) \<Longrightarrow>
      so_load ops t (snd (so_save ops t s l st)) = Some (Some s)"
    and save_other: "valid st \<Longrightarrow> t \<noteq> t' \<Longrightarrow>
      so_load_with_metadata ops t' (snd (so_save ops t s l st)) = so_load_with_metadata ops t' st"
    and remove_other: "valid st \<Longrightarrow> t \<noteq> t' \<Longrightarrow>
      so_load_with_metadata ops t' (snd (so_remove ops t st)) = so_load_with_metadata ops t' st"
    and remove_same: "valid st \<Longrightarrow> so_load_with_metadata ops t (snd (so_remove ops t st)) = Some None"
begin

lemma load_save_other: "valid st \<Longrightarrow> t \<noteq> t' \<Longrightarrow> so_load ops t' (snd (so_save ops t s l st)) = so_load ops t' st"
  by (simp add: so_load_def save_other)

lemma load_remove_other: "valid st \<Longrightarrow> t \<noteq> t' \<Longrightarrow> so_load ops t' (snd (so_remove ops t st)) = so_load ops t' st"
  by (simp add: so_load_def remove_other)

lemma load_remove_same: "valid st \<Longrightarrow> so_load ops t (snd (so_remove ops t st)) = Some None"
  by (simp add: so_load_def remove_same)

lemma promote:
  assumes "valid st" "so_load ops Tier_Current st = Some (Some s)" "keepable s"
  shows "\<exists>ok st'. promote_current_to_previous ops st = Some (ok, st') \<and> valid st' \<and>
    so_load ops Tier_Golden st' = so_load ops Tier_Golden st \<and>
    (if ok then so_load ops Tier_Previous st' = Some (Some s) \<and> so_load ops Tier_Current st' = Some None
     else so_load ops Tier_Current st' = Some (Some s))"
proof -
  obtain p where p: "so_load_with_metadata ops Tier_Current st = Some (Some p)" "ps_snapshot p = s"
    using assms(2) by (auto simp: so_load_def)
  obtain ok st1 where sv: "so_save ops Tier_Previous s (ps_layout_rotations p) st = (ok, st1)"
    by (cases "so_save ops Tier_Previous s (ps_layout_rotations p) st")
  have v1: "valid st1" using valid_save [OF assms(1)] sv by (metis snd_conv)
  have o1: "so_load ops t st1 = so_load ops t st" if "t \<noteq> Tier_Previous" for t
    using load_save_other [OF assms(1), of Tier_Previous t s "ps_layout_rotations p"] that sv by simp
  have s1: "ok \<Longrightarrow> so_load ops Tier_Previous st1 = Some (Some s)"
    using load_saved [OF assms(1,3), of Tier_Previous "ps_layout_rotations p"] sv by simp
  show ?thesis
    using p sv v1 o1 s1 assms(2) load_remove_other [OF v1, of Tier_Current] load_remove_same [OF v1]
    by (auto simp: promote_current_to_previous_def)
qed

lemma rotate_keeps_current:
  assumes "valid st" "rotate_current_to_previous ops st = Some (ok, st')"
  shows "so_load ops Tier_Current st' = so_load ops Tier_Current st"
  using assms load_save_other [OF assms(1), of Tier_Previous Tier_Current]
  by (auto simp: rotate_current_to_previous_def split: option.splits) (metis snd_conv)

lemma persistence_roundtrip:
  assumes "valid st" "persistence_save ops t s {} st = (True, st')" "keepable s"
    and "set (concat (snap_topology s)) \<subseteq> available" "smap_keys (snap_modes s) \<subseteq> available"
  shows "persistence_load ops t available st' = Some (Some s)"
proof -
  have "so_load ops t st' = Some (Some s)"
    using load_saved [OF assms(1,3), of t "[]"] assms(2)
    by (simp add: persistence_save_def filter_snapshot_devices_def)
  moreover have "missing_devices s available = []"
    using assms(4,5) set_flatten_topology_device_ids [of "snap_topology s"]
    by (auto simp: missing_devices_def Let_def filter_empty_conv topology_device_set_def
          smap_keys_def simp del: set_concat)
  ultimately show ?thesis by (simp add: persistence_load_def)
qed

end

lemma path_for_distinct:
  "file_store_valid st \<Longrightarrow> t \<noteq> t' \<Longrightarrow>
   path_for t' (fsto_paths st) \<noteq> path_for t (fsto_paths st) \<and>
   path_for t' (fsto_paths st) \<noteq> temp_path (path_for t (fsto_paths st))"
  by (cases t; cases t') (auto simp: file_store_valid_def Let_def)

lemma file_load_saved:
  assumes "keepable s" "fst (file_save t s l st)"
  shows "so_load (file_ops json_parse) t (snd (file_save t s l st)) = Some (Some s)"
proof -
  obtain p where "parse_snapshot_text json_parse (serialize_snapshot s l) = Some p" "ps_snapshot p = s"
    using parse_saved_snapshot assms(1) unfolding keepable_def by blast
  then show ?thesis
    using assms write_text_ok [of "next_fault st" "serialize_snapshot s l"
        "path_for t (fsto_paths st)" "fsto_files st"]
    by (simp add: so_load_def file_ops_def file_load_with_metadata_def file_save_def
          read_file_text_def split_beta keepable_def)
qed

interpretation file_storage: snapshot_store "file_ops json_parse" file_store_valid
  for json_parse
proof
  fix st :: file_store and t t' s l
  show "file_store_valid st \<Longrightarrow> file_store_valid (snd (so_save (file_ops json_parse) t s l st))"
    by (simp add: file_ops_def file_save_def file_store_valid_def split_beta)
  show "file_store_valid st \<Longrightarrow> file_store_valid (snd (so_remove (file_ops json_parse) t st))"
    by (simp add: file_ops_def file_remove_def file_store_valid_def Let_def)
  show "keepable s \<Longrightarrow> fst (so_save (file_ops json_parse) t s l st) \<Longrightarrow>
      so_load (file_ops json_parse) t (snd (so_save (file_ops json_parse) t s l st)) = Some (Some s)"
    using file_load_saved by (simp add: file_ops_def)
  show "so_load_with_metadata (file_ops json_parse) t' (snd (so_save (file_ops json_parse) t s l st)) =
        so_load_with_metadata (file_ops json_parse) t' st" if "file_store_valid st" "t \<noteq> t'"
    using path_for_distinct [OF that]
    by (simp add: file_ops_def file_save_def file_load_with_metadata_def read_file_text_def
          split_beta write_text_other)
  show "so_load_with_metadata (file_ops json_parse) t' (snd (so_remove (file_ops json_parse) t st)) =
        so_load_with_metadata (file_ops json_parse) t' st" if "file_store_valid st" "t \<noteq> t'"
    using path_for_distinct [OF that]
    by (simp add: file_ops_def file_remove_def file_load_with_metadata_def read_file_text_def Let_def)
  show "so_load_with_metadata (file_ops json_parse) t (snd (so_remove (file_ops json_parse) t st)) = Some None"
    by (simp add: file_ops_def file_remove_def file_load_with_metadata_def read_file_text_def Let_def)
qed

interpretation memory_storage: snapshot_store memory_ops "\<lambda>_. True"
  by unfold_locales
    (simp_all add: memory_ops_def memory_save_def memory_remove_def memory_load_with_metadata_def so_load_def)

section \<open>Properties\<close>



text \<open>
  Promoting the current snapshot never loses the restore baseline, whatever the writes do short
  of reporting a success: afterwards the baseline is in the previous slot and the current slot is
  empty, or, when the promotion failed, it is still in the current slot; the golden snapshot is
  untouched.
\<close>

theorem promotion_keeps_baseline:
  assumes "file_store_valid st"
    and "so_load (file_ops json_parse) Tier_Current st = Some (Some s)"
    and "keepable s"
  shows "\<exists>ok st'. promote_current_to_previous (file_ops json_parse) st = Some (ok, st') \<and>
    so_load (file_ops json_parse) Tier_Golden st' = so_load (file_ops json_parse) Tier_Golden st \<and>
    (if ok then so_load (file_ops json_parse) Tier_Previous st' = Some (Some s) \<and>
                so_load (file_ops json_parse) Tier_Current st' = Some None
     else so_load (file_ops json_parse) Tier_Current st' = Some (Some s))"
  using file_storage.promote [OF assms] by blast

definition fresh_store :: "write_faults list \<Rightarrow> file_store" where
  "fresh_store faults =
     \<lparr>fsto_paths = \<lparr>sp_current = ''c'', sp_previous = ''p'', sp_golden = ''g''\<rparr>,
      fsto_files = (\<lambda>_. None), fsto_faults = faults\<rparr>"

lemma fresh_store_valid: "file_store_valid (fresh_store faults)"
  by (simp add: file_store_valid_def fresh_store_def temp_path_def)

lemma keepable_two_displays: "keepable two_displays"
  using storable_two_displays by (simp add: keepable_def two_displays_def)

lemma fresh_store_save: "fst (file_save Tier_Current s l (fresh_store (no_faults # faults)))"
  by (simp add: file_save_def fresh_store_def next_fault_def write_text_atomically_def no_faults_def
        split_beta Let_def)

theorem promotion_keeps_baseline_witness:
  "\<exists>ok st'. promote_current_to_previous (file_ops (\<lambda>_. None))
     (snd (file_save Tier_Current two_displays []
        (fresh_store [no_faults, no_faults\<lparr>wf_open_fails := True\<rparr>]))) = Some (ok, st') \<and>
   (so_load (file_ops (\<lambda>_. None)) Tier_Previous st' = Some (Some two_displays) \<or>
    so_load (file_ops (\<lambda>_. None)) Tier_Current st' = Some (Some two_displays))"
proof -
  let ?st = "fresh_store [no_faults, no_faults\<lparr>wf_open_fails := True\<rparr>]"
  have "file_store_valid (snd (file_save Tier_Current two_displays [] ?st))"
    using file_storage.valid_save [OF fresh_store_valid] by (simp add: file_ops_def)
  from promotion_keeps_baseline [OF this file_load_saved [OF keepable_two_displays fresh_store_save]
      keepable_two_displays, of "\<lambda>_. None"]
  show ?thesis by (auto split: if_splits)
qed

text \<open>A number field without digits, as a damaged or hand-edited snapshot file can hold one.\<close>

definition damaged_text :: string where
  "damaged_text = ''{'' @ quoted ''modes'' @ '':{'' @ quoted ''A'' @ '':{'' @ quoted ''w'' @ '':?}}}''"

lemma damaged_modes: "parse_modes_field (find_str_section damaged_text ''modes'') = None"
  by code_simp


end
