(* ===== verification/Runtime_Support.thy ===== *)
theory Runtime_Support
  imports Helper_Types
begin

text \<open>
  The support classes of \<open>runtime_support.h\<close>: the cancellation source and its tokens, the
  message queue, the debounced trigger, the disconnect grace and reconnect controller, the
  restore scheduler and the heartbeat monitor. Every method is a function of the object's
  state; a method that reads the clock takes the time it read as an argument. The mutexes
  make each method atomic, so each is one step.
\<close>

named_theorems runtime_defs \<open>definitions of the runtime support classes\<close>

section \<open>Cancellation\<close>

text \<open>
  A source is its shared generation counter, a 64-bit unsigned integer that wraps. A token
  holds the generation it expects; a default-constructed token belongs to no source.
\<close>

datatype cancellation_token = Unbound_Token | Token u64

definition cs_token :: "u64 \<Rightarrow> cancellation_token" where
  "cs_token gen = Token gen"

definition cs_cancel :: "u64 \<Rightarrow> u64" where
  "cs_cancel gen = gen + 1"

fun tok_is_cancelled :: "cancellation_token \<Rightarrow> u64 \<Rightarrow> bool" where
  "tok_is_cancelled Unbound_Token gen = True"
| "tok_is_cancelled (Token expected) gen = (gen \<noteq> expected)"

fun tok_generation :: "cancellation_token \<Rightarrow> u64" where
  "tok_generation Unbound_Token = 0"
| "tok_generation (Token expected) = expected"

lemma funpow_cs_cancel: "(cs_cancel ^^ n) gen = gen + word_of_nat n"
  by (induction n) (simp_all add: cs_cancel_def)

lemma word_of_nat_eq_0_u64: "0 < n \<Longrightarrow> n < 2 ^ 64 \<Longrightarrow> (word_of_nat n :: u64) \<noteq> 0"
  by (simp add: word_of_nat_eq_0_iff nat_dvd_not_less)

lemma token_cancelled_after:
  "tok_is_cancelled (cs_token gen) ((cs_cancel ^^ n) gen) \<longleftrightarrow> word_of_nat n \<noteq> (0 :: u64)"
  by (simp add: funpow_cs_cancel cs_token_def)

text \<open>
  A token is live until the first cancellation after it was taken and cancelled from then on, for
  as long as the 64-bit counter has not gone round completely.
\<close>

theorem token_live_then_cancelled:
  assumes "n < 2 ^ 64"
  shows "tok_is_cancelled (cs_token gen) ((cs_cancel ^^ n) gen) \<longleftrightarrow> 0 < n"
  using assms word_of_nat_eq_0_u64 [of n] by (cases "n = 0") (auto simp: funpow_cs_cancel cs_token_def)

theorem token_live_then_cancelled_witness:
  "tok_is_cancelled (cs_token (- 1)) ((cs_cancel ^^ 1) (- 1)) \<and> (cs_cancel ^^ 1) (- 1) = 0"
  using token_live_then_cancelled [of 1 "- 1"] by (simp add: cs_cancel_def)

section \<open>Message queue\<close>

type_synonym 'm queue = "'m list"

definition mq_push :: "'m \<Rightarrow> 'm queue \<Rightarrow> 'm queue" where
  "mq_push v q = q @ [v]"

fun mq_try_pop :: "'m queue \<Rightarrow> 'm option \<times> 'm queue" where
  "mq_try_pop [] = (None, [])"
| "mq_try_pop (m # q) = (Some m, q)"

definition mq_size :: "'m queue \<Rightarrow> nat" where
  "mq_size q = length q"

definition mq_clear :: "'m queue \<Rightarrow> 'm queue" where
  "mq_clear q = []"

text \<open>\<open>extract_if\<close> walks the deque once, moving every selected entry to the result.\<close>

fun mq_extract_if :: "('m \<Rightarrow> bool) \<Rightarrow> 'm queue \<Rightarrow> 'm list \<times> 'm queue" where
  "mq_extract_if p [] = ([], [])"
| "mq_extract_if p (m # q) =
     (let (ex, rest) = mq_extract_if p q
      in if p m then (m # ex, rest) else (ex, m # rest))"

fun mq_extract_prefix_while :: "('m \<Rightarrow> bool) \<Rightarrow> 'm queue \<Rightarrow> 'm list \<times> 'm queue" where
  "mq_extract_prefix_while p [] = ([], [])"
| "mq_extract_prefix_while p (m # q) =
     (if p m then (let (ex, rest) = mq_extract_prefix_while p q in (m # ex, rest))
      else ([], m # q))"

lemma mq_extract_if_eq: "mq_extract_if p q = (filter p q, filter (\<lambda>m. \<not> p m) q)"
  by (induction q) auto

lemma mq_extract_prefix_while_eq:
  "mq_extract_prefix_while p q = (takeWhile p q, dropWhile p q)"
  by (induction q) auto

section \<open>Debounced trigger\<close>

record debounced_trigger =
  dt_delay :: time_ns
  dt_pending :: bool
  dt_deadline :: time_ns
  dt_generation :: u64

definition dt_notify :: "time_ns \<Rightarrow> u64 \<Rightarrow> debounced_trigger \<Rightarrow> debounced_trigger" where
  "dt_notify now gen d =
     d\<lparr>dt_pending := True, dt_deadline := now + dt_delay d, dt_generation := gen\<rparr>"

definition dt_take_if_due :: "time_ns \<Rightarrow> debounced_trigger \<Rightarrow> u64 option \<times> debounced_trigger" where
  "dt_take_if_due now d =
     (if \<not> dt_pending d then (None, d)
      else if now < dt_deadline d then (None, d)
      else (Some (dt_generation d), d\<lparr>dt_pending := False\<rparr>))"

definition dt_should_fire :: "time_ns \<Rightarrow> debounced_trigger \<Rightarrow> bool \<times> debounced_trigger" where
  "dt_should_fire now d = (let (g, d') = dt_take_if_due now d in (g \<noteq> None, d'))"

definition dt_reset :: "debounced_trigger \<Rightarrow> debounced_trigger" where
  "dt_reset d = d\<lparr>dt_pending := False, dt_generation := 0\<rparr>"

text \<open>A burst of notifications fires once, the delay after its last one, with its generation.\<close>

lemma dt_burst_fires_once:
  assumes "now < t + dt_delay d"
  shows "fst (dt_take_if_due now (dt_notify t g d)) = None"
    and "dt_pending (snd (dt_take_if_due (t + dt_delay d) (dt_notify t g d))) = False"
    and "fst (dt_take_if_due (t + dt_delay d) (dt_notify t g d)) = Some g"
  using assms by (simp_all add: dt_take_if_due_def dt_notify_def)

section \<open>Disconnect grace and reconnect controller\<close>

record disconnect_grace =
  dg_grace :: time_ns
  dg_disconnect_at :: time_ns
  dg_pending :: bool
  dg_triggered :: bool

definition dg_on_disconnect :: "time_ns \<Rightarrow> disconnect_grace \<Rightarrow> disconnect_grace" where
  "dg_on_disconnect now g = g\<lparr>dg_pending := True, dg_triggered := False, dg_disconnect_at := now\<rparr>"

definition dg_on_reconnect :: "disconnect_grace \<Rightarrow> disconnect_grace" where
  "dg_on_reconnect g = g\<lparr>dg_pending := False, dg_triggered := False\<rparr>"

definition dg_should_trigger :: "time_ns \<Rightarrow> disconnect_grace \<Rightarrow> bool \<times> disconnect_grace" where
  "dg_should_trigger now g =
     (if \<not> dg_pending g \<or> dg_triggered g then (False, g)
      else if dg_grace g \<le> now - dg_disconnect_at g then (True, g\<lparr>dg_triggered := True\<rparr>)
      else (False, g))"

record reconnect_controller =
  rcn_grace :: disconnect_grace
  rcn_was_connected :: bool
  rcn_restart_pipe :: bool

definition rcn_on_broken :: "time_ns \<Rightarrow> reconnect_controller \<Rightarrow> reconnect_controller" where
  "rcn_on_broken now r =
     r\<lparr>rcn_restart_pipe := True, rcn_was_connected := False,
       rcn_grace := dg_on_disconnect now (rcn_grace r)\<rparr>"

definition rcn_update_connection ::
  "time_ns \<Rightarrow> bool \<Rightarrow> reconnect_controller \<Rightarrow> bool \<times> reconnect_controller" where
  "rcn_update_connection now connected r =
     (let r = (if connected \<and> \<not> rcn_was_connected r
               then r\<lparr>rcn_grace := dg_on_reconnect (rcn_grace r)\<rparr>
               else if \<not> connected \<and> rcn_was_connected r
               then r\<lparr>rcn_grace := dg_on_disconnect now (rcn_grace r)\<rparr> else r);
          r = r\<lparr>rcn_was_connected := connected\<rparr>
      in if connected then (False, r)
         else (let (fired, g) = dg_should_trigger now (rcn_grace r) in (fired, r\<lparr>rcn_grace := g\<rparr>)))"

text \<open>One disconnect triggers at most once, and never while the client is connected.\<close>

lemma dg_triggers_once:
  "fst (dg_should_trigger t g) \<Longrightarrow> \<not> fst (dg_should_trigger t' (snd (dg_should_trigger t g)))"
  by (auto simp: dg_should_trigger_def split: if_splits)

lemma rcn_connected_never_triggers: "\<not> fst (rcn_update_connection now True r)"
  by (simp add: rcn_update_connection_def Let_def)

section \<open>Restore scheduler\<close>

definition kRestoreWindowPrimary :: time_ns where "kRestoreWindowPrimary = ms 120000"
definition kRestoreWindowEvent :: time_ns where "kRestoreWindowEvent = ms 30000"

definition kRestoreBackoffProfile :: "time_ns list" where
  "kRestoreBackoffProfile = map ms [0, 1000, 3000, 5000, 10000, 15000, 20000, 30000]"

record restore_scheduler =
  sch_armed :: bool
  sch_window_exhausted_reported :: bool
  sch_window_until :: time_ns
  sch_next_allowed :: time_ns
  sch_backoff_index :: nat

definition initial_scheduler :: restore_scheduler where
  "initial_scheduler = \<lparr>sch_armed = False, sch_window_exhausted_reported = False,
     sch_window_until = 0, sch_next_allowed = 0, sch_backoff_index = 0\<rparr>"

definition sch_arm_primary :: "time_ns \<Rightarrow> time_ns \<Rightarrow> restore_scheduler \<Rightarrow> restore_scheduler" where
  "sch_arm_primary now grace s =
     s\<lparr>sch_armed := True, sch_window_until := now + kRestoreWindowPrimary,
       sch_next_allowed := now + grace, sch_backoff_index := 0,
       sch_window_exhausted_reported := False\<rparr>"

definition sch_on_display_event :: "time_ns \<Rightarrow> restore_scheduler \<Rightarrow> restore_scheduler" where
  "sch_on_display_event now s =
     (if \<not> sch_armed s then s
      else let s = s\<lparr>sch_backoff_index := 0, sch_next_allowed := now\<rparr>;
               desired = now + kRestoreWindowEvent;
               s = (if sch_window_until s < desired then s\<lparr>sch_window_until := desired\<rparr> else s)
           in s\<lparr>sch_window_exhausted_reported := False\<rparr>)"

definition sch_on_attempt_failed :: "time_ns \<Rightarrow> restore_scheduler \<Rightarrow> restore_scheduler" where
  "sch_on_attempt_failed now s =
     (let i = (if sch_backoff_index s + 1 < length kRestoreBackoffProfile
               then sch_backoff_index s + 1 else sch_backoff_index s)
      in s\<lparr>sch_backoff_index := i, sch_next_allowed := now + kRestoreBackoffProfile ! i\<rparr>)"

definition sch_disarm :: "restore_scheduler \<Rightarrow> restore_scheduler" where
  "sch_disarm s = s\<lparr>sch_armed := False, sch_backoff_index := 0,
                    sch_window_exhausted_reported := False\<rparr>"

definition sch_window_active :: "time_ns \<Rightarrow> restore_scheduler \<Rightarrow> bool" where
  "sch_window_active now s \<longleftrightarrow> sch_armed s \<and> now \<le> sch_window_until s"

definition sch_window_just_expired :: "time_ns \<Rightarrow> restore_scheduler \<Rightarrow> bool \<times> restore_scheduler" where
  "sch_window_just_expired now s =
     (if \<not> sch_armed s \<or> sch_window_exhausted_reported s then (False, s)
      else if sch_window_until s < now then (True, s\<lparr>sch_window_exhausted_reported := True\<rparr>)
      else (False, s))"

definition sch_should_attempt :: "time_ns \<Rightarrow> restore_scheduler \<Rightarrow> bool" where
  "sch_should_attempt now s \<longleftrightarrow> sch_window_active now s \<and> sch_next_allowed s \<le> now"

lemmas scheduler_defs [runtime_defs] =
  sch_arm_primary_def sch_on_display_event_def sch_on_attempt_failed_def sch_disarm_def
  sch_window_active_def sch_window_just_expired_def sch_should_attempt_def
  kRestoreWindowPrimary_def kRestoreWindowEvent_def

text \<open>The index into the profile never runs past its end, so the array access is in bounds.\<close>

definition sch_inv :: "restore_scheduler \<Rightarrow> bool" where
  "sch_inv s \<longleftrightarrow> sch_backoff_index s < length kRestoreBackoffProfile"

lemma length_profile [simp]: "length kRestoreBackoffProfile = 8"
  by (simp add: kRestoreBackoffProfile_def)

lemma sch_inv_steps [intro]:
  "sch_inv initial_scheduler"
  "sch_inv (sch_arm_primary now grace s)"
  "sch_inv s \<Longrightarrow> sch_inv (sch_on_display_event now s)"
  "sch_inv s \<Longrightarrow> sch_inv (sch_on_attempt_failed now s)"
  "sch_inv (sch_disarm s)"
  "sch_inv s \<Longrightarrow> sch_inv (snd (sch_window_just_expired now s))"
  by (auto simp: sch_inv_def initial_scheduler_def runtime_defs Let_def)

text \<open>
  The polling loop between two display events: a list of times at which an attempt was allowed
  and failed.
\<close>

fun failed_attempts :: "restore_scheduler \<Rightarrow> time_ns list \<Rightarrow> bool" where
  "failed_attempts s [] = True"
| "failed_attempts s (t # ts) =
     (sch_should_attempt t s \<and> failed_attempts (sch_on_attempt_failed t s) ts)"

text \<open>
  One REVERT makes at most nine restore attempts before the scheduler waits for a display event:
  the profile spaces the attempts of its two-minute window at least 1, 3, 5, 10, 15, 20, 30 and 30
  seconds apart, whatever the times at which they fail.
\<close>

theorem failed_attempts_at_most_nine:
  assumes "failed_attempts (sch_arm_primary now grace s) ts" "0 \<le> grace"
  shows "length ts \<le> 9"
proof (rule ccontr)
  assume "\<not> length ts \<le> 9"
  then have "10 \<le> length ts" by simp
  then obtain t0 t1 t2 t3 t4 t5 t6 t7 t8 t9 rest where
    ts: "ts = t0 # t1 # t2 # t3 # t4 # t5 # t6 # t7 # t8 # t9 # rest"
    by (auto simp: numeral_eq_Suc Suc_le_length_iff)
  show False
    using assms
    by (simp add: ts runtime_defs Let_def kRestoreBackoffProfile_def ms_def)
qed

theorem failed_attempts_at_most_nine_witness:
  "failed_attempts (sch_arm_primary 0 0 initial_scheduler)
     (map ms [0, 1000, 4000, 9000, 19000, 34000, 54000, 84000, 114000]) \<and>
   length [0, 1000, 4000, 9000, 19000, 34000, 54000, 84000, 114000 :: int] \<le> 9"
  using failed_attempts_at_most_nine [of 0 0 initial_scheduler
      "map ms [0, 1000, 4000, 9000, 19000, 34000, 54000, 84000, 114000]"]
  by (simp add: runtime_defs Let_def kRestoreBackoffProfile_def ms_def initial_scheduler_def)

text \<open>
  An exhausted window is reported once: no poll and no failed attempt after the report makes it
  be reported again, until a REVERT or a display event opens a new window.
\<close>

datatype poll_step = Poll time_ns | Attempt_Failed time_ns

fun run_polls :: "restore_scheduler \<Rightarrow> poll_step list \<Rightarrow> restore_scheduler" where
  "run_polls s [] = s"
| "run_polls s (Poll t # es) = run_polls (snd (sch_window_just_expired t s)) es"
| "run_polls s (Attempt_Failed t # es) = run_polls (sch_on_attempt_failed t s) es"

lemma run_polls_keeps_reported:
  "sch_window_exhausted_reported s \<Longrightarrow> sch_window_exhausted_reported (run_polls s es)"
  by (induction s es rule: run_polls.induct) (auto simp: runtime_defs Let_def)

lemma window_expiry_reported_once:
  assumes "fst (sch_window_just_expired t s)"
  shows "\<not> fst (sch_window_just_expired t' (run_polls (snd (sch_window_just_expired t s)) es))"
proof -
  have "sch_window_exhausted_reported (snd (sch_window_just_expired t s))"
    using assms by (auto simp: sch_window_just_expired_def split: if_splits)
  then have "sch_window_exhausted_reported (run_polls (snd (sch_window_just_expired t s)) es)"
    by (rule run_polls_keeps_reported)
  then show ?thesis by (simp add: sch_window_just_expired_def)
qed

section \<open>Heartbeat monitor\<close>

definition hb_optional_window :: time_ns where "hb_optional_window = ms 30000"
definition hb_miss_window :: time_ns where "hb_miss_window = ms 30000"
definition hb_recovery_window :: time_ns where "hb_recovery_window = ms 120000"

record heartbeat_monitor =
  hb_armed :: bool
  hb_last_ping :: time_ns
  hb_optional_until :: time_ns
  hb_recovery_deadline :: "time_ns option"

definition initial_heartbeat :: heartbeat_monitor where
  "initial_heartbeat = \<lparr>hb_armed = False, hb_last_ping = 0, hb_optional_until = 0,
                        hb_recovery_deadline = None\<rparr>"

definition hb_arm :: "time_ns \<Rightarrow> heartbeat_monitor \<Rightarrow> heartbeat_monitor" where
  "hb_arm now h =
     h\<lparr>hb_armed := True, hb_last_ping := now, hb_optional_until := now + hb_optional_window,
       hb_recovery_deadline := None\<rparr>"

definition hb_disarm :: "heartbeat_monitor \<Rightarrow> heartbeat_monitor" where
  "hb_disarm h = h\<lparr>hb_armed := False, hb_optional_until := 0, hb_recovery_deadline := None\<rparr>"

definition hb_record_ping :: "time_ns \<Rightarrow> heartbeat_monitor \<Rightarrow> heartbeat_monitor" where
  "hb_record_ping now h =
     (if \<not> hb_armed h then h else h\<lparr>hb_last_ping := now, hb_recovery_deadline := None\<rparr>)"

definition hb_check_timeout :: "time_ns \<Rightarrow> heartbeat_monitor \<Rightarrow> bool \<times> heartbeat_monitor" where
  "hb_check_timeout now h =
     (if \<not> hb_armed h then (False, h)
      else if now < hb_optional_until h then (False, h)
      else case hb_recovery_deadline h of
             None \<Rightarrow>
               if now - hb_last_ping h < hb_miss_window then (False, h)
               else (False, h\<lparr>hb_recovery_deadline := Some (now + hb_recovery_window)\<rparr>)
           | Some deadline \<Rightarrow>
               if deadline \<le> now
               then (True, h\<lparr>hb_armed := False, hb_optional_until := 0,
                              hb_recovery_deadline := None\<rparr>)
               else (False, h))"

lemmas heartbeat_defs [runtime_defs] =
  hb_arm_def hb_disarm_def hb_record_ping_def hb_check_timeout_def
  hb_optional_window_def hb_miss_window_def hb_recovery_window_def

datatype hb_event = HbArm time_ns | HbDisarm time_ns | HbPing time_ns | HbCheck time_ns

fun hb_time :: "hb_event \<Rightarrow> time_ns" where
  "hb_time (HbArm t) = t"
| "hb_time (HbDisarm t) = t"
| "hb_time (HbPing t) = t"
| "hb_time (HbCheck t) = t"

fun hb_step :: "heartbeat_monitor \<Rightarrow> hb_event \<Rightarrow> heartbeat_monitor" where
  "hb_step h (HbArm t) = hb_arm t h"
| "hb_step h (HbDisarm t) = hb_disarm h"
| "hb_step h (HbPing t) = hb_record_ping t h"
| "hb_step h (HbCheck t) = snd (hb_check_timeout t h)"

text \<open>The events that prove the client alive.\<close>

fun hb_sign_of_life :: "hb_event \<Rightarrow> bool" where
  "hb_sign_of_life (HbArm t) = True"
| "hb_sign_of_life (HbPing t) = True"
| "hb_sign_of_life _ = False"

definition hb_run :: "hb_event list \<Rightarrow> heartbeat_monitor" where
  "hb_run es = foldl hb_step initial_heartbeat es"

text \<open>
  While the monitor is armed its last ping is the newest sign of life, and an open recovery
  grace ends at least the miss window and the recovery window after it.
\<close>

definition hb_inv :: "hb_event list \<Rightarrow> heartbeat_monitor \<Rightarrow> bool" where
  "hb_inv es h \<longleftrightarrow> hb_armed h \<longrightarrow>
     (\<forall>e \<in> set es. hb_sign_of_life e \<longrightarrow> hb_time e \<le> hb_last_ping h) \<and>
     (\<forall>d. hb_recovery_deadline h = Some d \<longrightarrow>
        hb_last_ping h + hb_miss_window + hb_recovery_window \<le> d)"

lemma hb_inv_step:
  assumes "hb_inv es h" "\<And>e'. e' \<in> set es \<Longrightarrow> hb_time e' \<le> hb_time e"
  shows "hb_inv (es @ [e]) (hb_step h e)"
  using assms by (cases e) (auto simp: hb_inv_def runtime_defs split: option.splits if_splits)

lemma hb_inv_run: "sorted (map hb_time es) \<Longrightarrow> hb_inv es (hb_run es)"
proof (induction es rule: rev_induct)
  case Nil
  then show ?case by (simp add: hb_inv_def hb_run_def initial_heartbeat_def)
next
  case (snoc e es)
  then have "hb_inv es (hb_run es)" by (simp add: sorted_append)
  moreover have "\<And>e'. e' \<in> set es \<Longrightarrow> hb_time e' \<le> hb_time e"
    using snoc.prems by (simp add: sorted_append)
  ultimately show ?case using hb_inv_step by (simp add: hb_run_def)
qed

text \<open>
  The heartbeat reports a timeout only 150 seconds or more after the last sign of life: every
  arming and every ping in the run before it, whatever was armed, disarmed, pinged and checked in
  between.
\<close>

theorem heartbeat_timeout_only_after_silence:
  assumes "sorted (map hb_time es)"
    and "fst (hb_check_timeout now (hb_run es))"
    and "e \<in> set es" "hb_sign_of_life e"
  shows "hb_time e + ms 150000 \<le> now"
proof -
  from hb_inv_run [OF assms(1)] assms(2-4) show ?thesis
    by (auto simp: hb_inv_def hb_check_timeout_def hb_miss_window_def hb_recovery_window_def
          ms_def split: if_splits option.splits)
qed

theorem heartbeat_timeout_only_after_silence_witness:
  "fst (hb_check_timeout (ms 180000) (hb_run [HbArm 0, HbPing (ms 20000), HbCheck (ms 50000)])) \<and>
   hb_time (HbPing (ms 20000)) + ms 150000 \<le> ms 180000"
  using heartbeat_timeout_only_after_silence [of "[HbArm 0, HbPing (ms 20000), HbCheck (ms 50000)]"
      "ms 180000" "HbPing (ms 20000)"]
  by (simp add: hb_run_def initial_heartbeat_def runtime_defs ms_def)

lemma heartbeat_fires_once:
  "fst (hb_check_timeout t h) \<Longrightarrow> \<not> fst (hb_check_timeout t' (hb_record_ping t'' (snd (hb_check_timeout t h))))"
  by (auto simp: hb_check_timeout_def hb_record_ping_def split: if_splits option.splits)

end
