(* ===== verification/Display_Ports.thy ===== *)
theory Display_Ports
  imports Snapshot_Storage Golden_Health Runtime_Support "HOL-Library.Monad_Syntax"
begin

text \<open>
  The interfaces the worker operations call (\<open>IDisplaySettings\<close>, \<open>IClock\<close>, \<open>IVirtualDisplayDriver\<close>
  and \<open>ISnapshotStorage\<close> of \<open>interfaces.h\<close>, the cancellation token of the task and the mutation
  boundary of \<open>ApplyOperation\<close>) as a record of functions over an abstract world \<open>'w\<close>. The world
  holds everything outside the operation: Windows, the clock, the other threads. Every call may
  change it, a token check included, since another thread may cancel between any two calls.

  An operation runs on a \<open>run\<close>: the world, the trace of the calls made so far and the two objects
  it shares with the state machine. Its value is in the option monad: \<open>None\<close> is a run that never
  returns, because a loop does not end or an exception leaves the worker thread.
\<close>

section \<open>The platform\<close>

record 'w platform =
  pf_now :: "'w \<Rightarrow> time_ns \<times> 'w"
  pf_sleep :: "time_ns \<Rightarrow> 'w \<Rightarrow> 'w"
  pf_is_cancelled :: "'w \<Rightarrow> bool \<times> 'w"
  pf_topology_is_valid :: "topology \<Rightarrow> bool"
  pf_is_topology_same :: "topology \<Rightarrow> topology \<Rightarrow> bool"
  pf_snapshot_same :: "snapshot \<Rightarrow> snapshot \<Rightarrow> bool"
  pf_capture_topology :: "'w \<Rightarrow> topology \<times> 'w"
  pf_capture_snapshot :: "'w \<Rightarrow> snapshot \<times> 'w"
  pf_enumerate :: "'w \<Rightarrow> enumerated_device list \<times> 'w"
  pf_validate_topology :: "topology \<Rightarrow> 'w \<Rightarrow> bool \<times> 'w"
  pf_validate_topology_for_apply :: "topology \<Rightarrow> 'w \<Rightarrow> bool \<times> 'w"
  pf_compute_apply_topology_plan ::
    "single_display_configuration \<Rightarrow> topology \<Rightarrow> 'w \<Rightarrow> apply_topology_plan option \<times> 'w"
  pf_apply_topology :: "topology \<Rightarrow> 'w \<Rightarrow> apply_status \<times> 'w"
  pf_recover_display_stack :: "'w \<Rightarrow> bool \<times> 'w"
  pf_apply :: "single_display_configuration \<Rightarrow> 'w \<Rightarrow> apply_status \<times> 'w"
  pf_apply_snapshot_settings :: "snapshot \<Rightarrow> 'w \<Rightarrow> bool \<times> 'w"
  pf_snapshot_matches_current :: "snapshot \<Rightarrow> 'w \<Rightarrow> bool \<times> 'w"
  pf_configuration_matches ::
    "single_display_configuration \<Rightarrow> resolved_target option \<Rightarrow> 'w \<Rightarrow> bool \<times> 'w"
  pf_is_primary_device :: "device_id \<Rightarrow> 'w \<Rightarrow> bool \<times> 'w"
  pf_set_display_origin :: "device_id \<Rightarrow> point \<Rightarrow> 'w \<Rightarrow> bool \<times> 'w"
  pf_get_display_resolution :: "device_id \<Rightarrow> 'w \<Rightarrow> resolution option \<times> 'w"
  pf_can_reposition_device :: "device_id \<Rightarrow> 'w \<Rightarrow> bool \<times> 'w"
  pf_set_device_refresh_rate :: "device_id \<Rightarrow> u32 \<Rightarrow> u32 \<Rightarrow> 'w \<Rightarrow> bool \<times> 'w"
  pf_prepare_staged_apply :: "topology \<Rightarrow> 'w \<Rightarrow> bool \<times> 'w"
  pf_reset_staged_apply_state :: "'w \<Rightarrow> bool \<times> 'w"
  pf_apply_layout_rotations :: "layout_rotation_map \<Rightarrow> 'w \<Rightarrow> bool \<times> 'w"
  pf_current_layout_matches :: "layout_rotation_map \<Rightarrow> 'w \<Rightarrow> bool \<times> 'w"
  pf_capture_layout_rotations :: "device_id set \<Rightarrow> 'w \<Rightarrow> layout_rotation_map \<times> 'w"
  pf_mutation_boundary :: "('w \<Rightarrow> bool \<times> 'w) option"
  pf_vdd_disable :: "'w \<Rightarrow> bool \<times> 'w"
  pf_vdd_enable :: "'w \<Rightarrow> bool \<times> 'w"
  pf_storage :: "'w storage_ops"
  pf_unix_now_ms :: "'w \<Rightarrow> int \<times> 'w"
  pf_marker_write_ok :: "'w \<Rightarrow> bool \<times> 'w"

section \<open>Traced calls\<close>

datatype call =
  C_Cancelled bool
| C_Now time_ns
| C_Sleep time_ns
| C_Observe
| C_Captured snapshot
| C_CapturedTopology topology
| C_MatchesCurrent snapshot bool
| C_LayoutMatches layout_rotation_map bool
| C_ArmBoundary bool
| C_PrepareStaged bool
| C_ResetStaged bool
| C_ApplyTopology topology apply_status
| C_RecoverStack bool
| C_Apply single_display_configuration apply_status
| C_ApplySnapshotSettings snapshot bool
| C_ApplyRotations layout_rotation_map bool
| C_SetOrigin device_id point bool
| C_SetRefreshRate device_id u32 u32 bool
| C_VddDisable bool
| C_VddEnable bool
| C_StorageRemove snapshot_tier bool
| C_StoragePromote bool
| C_StorageSave snapshot_tier bool

text \<open>The calls that change, or may partially change, what the user sees.\<close>

fun mutates :: "call \<Rightarrow> bool" where
  "mutates (C_ApplyTopology _ _) = True"
| "mutates (C_RecoverStack _) = True"
| "mutates (C_Apply _ _) = True"
| "mutates (C_ApplySnapshotSettings _ _) = True"
| "mutates (C_ApplyRotations _ _) = True"
| "mutates (C_SetOrigin _ _ _) = True"
| "mutates (C_SetRefreshRate _ _ _ _) = True"
| "mutates (C_VddDisable _) = True"
| "mutates (C_VddEnable _) = True"
| "mutates _ = False"

record 'w run =
  rn_world :: 'w
  rn_trace :: "call list"
  rn_restore_state :: restore_state
  rn_golden :: golden_health

type_synonym ('w, 'a) result = "('a \<times> 'w run) option"

definition call :: "('w \<Rightarrow> 'a \<times> 'w) \<Rightarrow> ('a \<Rightarrow> call) \<Rightarrow> 'w run \<Rightarrow> ('w, 'a) result" where
  "call f ev r = (let (x, w) = f (rn_world r)
                  in Some (x, r\<lparr>rn_world := w, rn_trace := rn_trace r @ [ev x]\<rparr>))"

definition observe :: "('w \<Rightarrow> 'a \<times> 'w) \<Rightarrow> 'w run \<Rightarrow> ('w, 'a) result" where
  "observe f r = call f (\<lambda>_. C_Observe) r"

definition is_cancelled :: "'w platform \<Rightarrow> 'w run \<Rightarrow> ('w, bool) result" where
  "is_cancelled P r = call (pf_is_cancelled P) C_Cancelled r"

definition clock_now :: "'w platform \<Rightarrow> 'w run \<Rightarrow> ('w, time_ns) result" where
  "clock_now P r = call (pf_now P) C_Now r"

definition sleep_for :: "'w platform \<Rightarrow> time_ns \<Rightarrow> 'w run \<Rightarrow> ('w, unit) result" where
  "sleep_for P d r = call (\<lambda>w. ((), pf_sleep P d w)) (\<lambda>_. C_Sleep d) r"

definition capture_topology :: "'w platform \<Rightarrow> 'w run \<Rightarrow> ('w, topology) result" where
  "capture_topology P r = call (pf_capture_topology P) C_CapturedTopology r"

definition capture_snapshot :: "'w platform \<Rightarrow> 'w run \<Rightarrow> ('w, snapshot) result" where
  "capture_snapshot P r = call (pf_capture_snapshot P) C_Captured r"

definition snapshot_matches_current :: "'w platform \<Rightarrow> snapshot \<Rightarrow> 'w run \<Rightarrow> ('w, bool) result" where
  "snapshot_matches_current P s r = call (pf_snapshot_matches_current P s) (C_MatchesCurrent s) r"

definition current_layout_matches ::
  "'w platform \<Rightarrow> layout_rotation_map \<Rightarrow> 'w run \<Rightarrow> ('w, bool) result" where
  "current_layout_matches P l r = call (pf_current_layout_matches P l) (C_LayoutMatches l) r"

definition apply_topology :: "'w platform \<Rightarrow> topology \<Rightarrow> 'w run \<Rightarrow> ('w, apply_status) result" where
  "apply_topology P t r = call (pf_apply_topology P t) (C_ApplyTopology t) r"

definition recover_display_stack :: "'w platform \<Rightarrow> 'w run \<Rightarrow> ('w, bool) result" where
  "recover_display_stack P r = call (pf_recover_display_stack P) C_RecoverStack r"

definition apply_configuration ::
  "'w platform \<Rightarrow> single_display_configuration \<Rightarrow> 'w run \<Rightarrow> ('w, apply_status) result" where
  "apply_configuration P c r = call (pf_apply P c) (C_Apply c) r"

definition apply_snapshot_settings :: "'w platform \<Rightarrow> snapshot \<Rightarrow> 'w run \<Rightarrow> ('w, bool) result" where
  "apply_snapshot_settings P s r = call (pf_apply_snapshot_settings P s) (C_ApplySnapshotSettings s) r"

definition apply_layout_rotations ::
  "'w platform \<Rightarrow> layout_rotation_map \<Rightarrow> 'w run \<Rightarrow> ('w, bool) result" where
  "apply_layout_rotations P l r = call (pf_apply_layout_rotations P l) (C_ApplyRotations l) r"

definition set_display_origin :: "'w platform \<Rightarrow> device_id \<Rightarrow> point \<Rightarrow> 'w run \<Rightarrow> ('w, bool) result" where
  "set_display_origin P d p r = call (pf_set_display_origin P d p) (C_SetOrigin d p) r"

definition set_device_refresh_rate ::
  "'w platform \<Rightarrow> device_id \<Rightarrow> u32 \<Rightarrow> u32 \<Rightarrow> 'w run \<Rightarrow> ('w, bool) result" where
  "set_device_refresh_rate P d n m r =
     call (pf_set_device_refresh_rate P d n m) (C_SetRefreshRate d n m) r"

definition prepare_staged_apply :: "'w platform \<Rightarrow> topology \<Rightarrow> 'w run \<Rightarrow> ('w, bool) result" where
  "prepare_staged_apply P t r = call (pf_prepare_staged_apply P t) C_PrepareStaged r"

definition reset_staged_apply_state :: "'w platform \<Rightarrow> 'w run \<Rightarrow> ('w, bool) result" where
  "reset_staged_apply_state P r = call (pf_reset_staged_apply_state P) C_ResetStaged r"

definition vdd_disable :: "'w platform \<Rightarrow> 'w run \<Rightarrow> ('w, bool) result" where
  "vdd_disable P r = call (pf_vdd_disable P) C_VddDisable r"

definition vdd_enable :: "'w platform \<Rightarrow> 'w run \<Rightarrow> ('w, bool) result" where
  "vdd_enable P r = call (pf_vdd_enable P) C_VddEnable r"

definition storage_load ::
  "'w platform \<Rightarrow> snapshot_tier \<Rightarrow> 'w run \<Rightarrow> ('w, parsed_snapshot option) result" where
  "storage_load P t r = (case so_load_with_metadata (pf_storage P) t (rn_world r) of
      None \<Rightarrow> None
    | Some loaded \<Rightarrow> Some (loaded, r\<lparr>rn_trace := rn_trace r @ [C_Observe]\<rparr>))"

definition storage_exists :: "'w platform \<Rightarrow> snapshot_tier \<Rightarrow> 'w run \<Rightarrow> ('w, bool) result" where
  "storage_exists P t r = observe (\<lambda>w. (so_exists (pf_storage P) t w, w)) r"

definition storage_remove :: "'w platform \<Rightarrow> snapshot_tier \<Rightarrow> 'w run \<Rightarrow> ('w, bool) result" where
  "storage_remove P t r = call (so_remove (pf_storage P) t) (C_StorageRemove t) r"

definition storage_save ::
  "'w platform \<Rightarrow> snapshot_tier \<Rightarrow> snapshot \<Rightarrow> layout_rotation_map \<Rightarrow> 'w run \<Rightarrow> ('w, bool) result" where
  "storage_save P t s l r = call (so_save (pf_storage P) t s l) (C_StorageSave t) r"

definition storage_promote :: "'w platform \<Rightarrow> 'w run \<Rightarrow> ('w, bool) result" where
  "storage_promote P r = (case promote_current_to_previous (pf_storage P) (rn_world r) of
      None \<Rightarrow> None
    | Some (ok, w) \<Rightarrow> Some (ok, r\<lparr>rn_world := w, rn_trace := rn_trace r @ [C_StoragePromote ok]\<rparr>))"

text \<open>\<open>ApplyOperation::arm_durable_recovery_boundary\<close>: false without a boundary.\<close>

definition arm_durable_recovery_boundary :: "'w platform \<Rightarrow> 'w run \<Rightarrow> ('w, bool) result" where
  "arm_durable_recovery_boundary P r =
     (case pf_mutation_boundary P of
        None \<Rightarrow> Some (False, r)
      | Some b \<Rightarrow> call b C_ArmBoundary r)"

definition get_restore_state :: "'w run \<Rightarrow> restore_state" where
  "get_restore_state r = rn_restore_state r"

definition update_restore_state :: "(restore_state \<Rightarrow> restore_state) \<Rightarrow> 'w run \<Rightarrow> 'w run" where
  "update_restore_state f r = r\<lparr>rn_restore_state := f (rn_restore_state r)\<rparr>"

definition update_golden :: "(golden_health \<Rightarrow> golden_health) \<Rightarrow> 'w run \<Rightarrow> 'w run" where
  "update_golden f r = r\<lparr>rn_golden := f (rn_golden r)\<rparr>"

text \<open>\<open>GoldenHealth::register_unresolved\<close> reads the system clock and writes its marker.\<close>

definition register_unresolved :: "'w platform \<Rightarrow> 'w run \<Rightarrow> ('w, unit) result" where
  "register_unresolved P r = do {
     (now_ms, r) \<leftarrow> observe (pf_unix_now_ms P) r;
     (ok, r) \<leftarrow> observe (pf_marker_write_ok P) r;
     Some ((), update_golden (gh_register_unresolved now_ms ok) r)
   }"

section \<open>What an operation guarantees\<close>

text \<open>\<open>wp m Q\<close>: if \<open>m\<close> returns, its value and the run it leaves satisfy \<open>Q\<close>.\<close>

definition wp :: "('w, 'a) result \<Rightarrow> ('a \<Rightarrow> 'w run \<Rightarrow> bool) \<Rightarrow> bool" where
  "wp m Q \<longleftrightarrow> (case m of None \<Rightarrow> True | Some (x, r) \<Rightarrow> Q x r)"

named_theorems wp_rules \<open>weakest preconditions of the traced calls\<close>

lemma wp_simps [simp]:
  "wp None Q"
  "wp (Some (x, r)) Q \<longleftrightarrow> Q x r"
  "wp (Option.bind m f) Q \<longleftrightarrow> wp m (\<lambda>x r. wp (f (x, r)) Q)"
  by (auto simp: wp_def split: option.splits bind_splits)

lemma wp_if [simp]: "wp (if b then m else n) Q \<longleftrightarrow> (if b then wp m Q else wp n Q)"
  by simp

lemma wp_mono: "wp m Q \<Longrightarrow> (\<And>x r. Q x r \<Longrightarrow> Q' x r) \<Longrightarrow> wp m Q'"
  by (auto simp: wp_def split: option.splits)

lemma wp_conj: "wp m Q \<Longrightarrow> wp m Q' \<Longrightarrow> wp m (\<lambda>x r. Q x r \<and> Q' x r)"
  by (auto simp: wp_def split: option.splits)

lemma wpD: "wp m Q \<Longrightarrow> m = Some (x, r) \<Longrightarrow> Q x r"
  by (simp add: wp_def)

lemma wpI: "(\<And>x r. m = Some (x, r) \<Longrightarrow> Q x r) \<Longrightarrow> wp m Q"
  by (auto simp: wp_def split: option.splits)

text \<open>
  \<open>does r r' es\<close>: the run went from \<open>r\<close> to \<open>r'\<close> by the calls \<open>es\<close> and left the shared objects as
  they were.
\<close>

definition does :: "'w run \<Rightarrow> 'w run \<Rightarrow> call list \<Rightarrow> bool" where
  "does r r' es \<longleftrightarrow> rn_trace r' = rn_trace r @ es \<and>
     rn_restore_state r' = rn_restore_state r \<and> rn_golden r' = rn_golden r"

lemma does_refl: "does r r []"
  by (simp add: does_def)

lemma does_trans: "does r r' es \<Longrightarrow> does r' r'' es' \<Longrightarrow> does r r'' (es @ es')"
  by (simp add: does_def)

lemma wp_call:
  "(\<And>x r'. does r r' [ev x] \<Longrightarrow> Q x r') \<Longrightarrow> wp (call f ev r) Q"
  by (auto simp: wp_def call_def does_def split: prod.splits)

text \<open>
  The rules a proof about an operation applies: \<open>r0\<close> is the run the operation started on, \<open>es\<close> the
  calls it has made so far.
\<close>

lemma wp_call_from [wp_rules]:
  "does r0 r es \<Longrightarrow> (\<And>x r'. does r0 r' (es @ [ev x]) \<Longrightarrow> Q x r') \<Longrightarrow> wp (call f ev r) Q"
  by (rule wp_call) (blast intro: does_trans)

lemma wp_observe_from [wp_rules]:
  "does r0 r es \<Longrightarrow> (\<And>x r'. does r0 r' (es @ [C_Observe]) \<Longrightarrow> Q x r') \<Longrightarrow> wp (observe f r) Q"
  unfolding observe_def by (rule wp_call_from)

lemma wp_is_cancelled_from [wp_rules]:
  "does r0 r es \<Longrightarrow> (\<And>c r'. does r0 r' (es @ [C_Cancelled c]) \<Longrightarrow> Q c r') \<Longrightarrow> wp (is_cancelled P r) Q"
  unfolding is_cancelled_def by (rule wp_call_from)

lemma wp_clock_now_from [wp_rules]:
  "does r0 r es \<Longrightarrow> (\<And>t r'. does r0 r' (es @ [C_Now t]) \<Longrightarrow> Q t r') \<Longrightarrow> wp (clock_now P r) Q"
  unfolding clock_now_def by (rule wp_call_from)

lemma wp_captures_from [wp_rules]:
  "does r0 r es \<Longrightarrow> (\<And>t r'. does r0 r' (es @ [C_CapturedTopology t]) \<Longrightarrow> Q1 t r') \<Longrightarrow>
     wp (capture_topology P r) Q1"
  "does r0 r es \<Longrightarrow> (\<And>s r'. does r0 r' (es @ [C_Captured s]) \<Longrightarrow> Q2 s r') \<Longrightarrow>
     wp (capture_snapshot P r) Q2"
  "does r0 r es \<Longrightarrow> (\<And>b r'. does r0 r' (es @ [C_MatchesCurrent s b]) \<Longrightarrow> Q3 b r') \<Longrightarrow>
     wp (snapshot_matches_current P s r) Q3"
  "does r0 r es \<Longrightarrow> (\<And>b r'. does r0 r' (es @ [C_LayoutMatches l b]) \<Longrightarrow> Q4 b r') \<Longrightarrow>
     wp (current_layout_matches P l r) Q4"
  unfolding capture_topology_def capture_snapshot_def snapshot_matches_current_def
    current_layout_matches_def
  by - (erule wp_call_from, blast)+

lemma wp_sleep_for_from [wp_rules]:
  "does r0 r es \<Longrightarrow> (\<And>r'. does r0 r' (es @ [C_Sleep d]) \<Longrightarrow> Q () r') \<Longrightarrow> wp (sleep_for P d r) Q"
  unfolding sleep_for_def by (rule wp_call_from) simp_all

lemmas device_call_defs =
  apply_topology_def recover_display_stack_def apply_configuration_def apply_snapshot_settings_def
  apply_layout_rotations_def set_display_origin_def set_device_refresh_rate_def
  prepare_staged_apply_def reset_staged_apply_state_def vdd_disable_def vdd_enable_def

section \<open>Traces\<close>

text \<open>The calls that only look, wait or check.\<close>

fun inert :: "call \<Rightarrow> bool" where
  "inert (C_Cancelled _) = True"
| "inert (C_Now _) = True"
| "inert (C_Sleep _) = True"
| "inert C_Observe = True"
| "inert (C_Captured _) = True"
| "inert (C_CapturedTopology _) = True"
| "inert (C_MatchesCurrent _ _) = True"
| "inert (C_LayoutMatches _ _) = True"
| "inert _ = False"

definition quiet :: "call list \<Rightarrow> bool" where
  "quiet es \<longleftrightarrow> list_all inert es"

definition mutated :: "call list \<Rightarrow> bool" where
  "mutated es \<longleftrightarrow> list_ex mutates es"

text \<open>A token that was seen cancelled stays cancelled.\<close>

fun sticky :: "call list \<Rightarrow> bool" where
  "sticky [] = True"
| "sticky (e # es) = ((e = C_Cancelled True \<longrightarrow> C_Cancelled False \<notin> set es) \<and> sticky es)"

text \<open>No call that changes the displays comes after a cancellation the operation has seen.\<close>

fun cancel_safe :: "call list \<Rightarrow> bool" where
  "cancel_safe [] = True"
| "cancel_safe (e # es) = ((e = C_Cancelled True \<longrightarrow> \<not> mutated es) \<and> cancel_safe es)"

text \<open>The mutation boundary is armed before the first call that changes the displays.\<close>

fun is_arm :: "call \<Rightarrow> bool" where
  "is_arm (C_ArmBoundary _) = True"
| "is_arm _ = False"

fun armed_first :: "bool \<Rightarrow> call list \<Rightarrow> bool" where
  "armed_first armed [] = True"
| "armed_first armed (e # es) = ((mutates e \<longrightarrow> armed) \<and> armed_first (armed \<or> is_arm e) es)"

fun is_activation :: "call \<Rightarrow> bool" where
  "is_activation (C_ApplyTopology _ _) = True"
| "is_activation _ = False"

definition activations :: "call list \<Rightarrow> nat" where
  "activations es = length (filter is_activation es)"

text \<open>The calls that change what is stored: the snapshots and the backend's retained state.\<close>

fun stores :: "call \<Rightarrow> bool" where
  "stores (C_StorageRemove _ _) = True"
| "stores (C_StoragePromote _) = True"
| "stores (C_StorageSave _ _) = True"
| "stores (C_ResetStaged _) = True"
| "stores _ = False"

definition untouched :: "call list \<Rightarrow> bool" where
  "untouched es \<longleftrightarrow> list_all (\<lambda>e. \<not> stores e) es"

lemma untouched_simps [simp]:
  "untouched []" "untouched (e # es) \<longleftrightarrow> \<not> stores e \<and> untouched es"
  "untouched (es @ es') \<longleftrightarrow> untouched es \<and> untouched es'"
  by (simp_all add: untouched_def)

lemma trace_simps [simp]:
  "quiet []" "quiet (e # es) \<longleftrightarrow> inert e \<and> quiet es" "quiet (es @ es') \<longleftrightarrow> quiet es \<and> quiet es'"
  "\<not> mutated []" "mutated (e # es) \<longleftrightarrow> mutates e \<or> mutated es"
  "mutated (es @ es') \<longleftrightarrow> mutated es \<or> mutated es'"
  "activations [] = 0" "activations (es @ es') = activations es + activations es'"
  "activations (e # es) = (if is_activation e then Suc (activations es) else activations es)"
  by (simp_all add: quiet_def mutated_def activations_def)

lemma sticky_append [simp]:
  "sticky (es @ es') \<longleftrightarrow> sticky es \<and> sticky es' \<and>
     (C_Cancelled True \<in> set es \<longrightarrow> C_Cancelled False \<notin> set es')"
  by (induction es) auto

lemma cancel_safe_append [simp]:
  "cancel_safe (es @ es') \<longleftrightarrow> cancel_safe es \<and> cancel_safe es' \<and>
     (C_Cancelled True \<in> set es \<longrightarrow> \<not> mutated es')"
  by (induction es) auto

lemma armed_first_append [simp]:
  "armed_first b (es @ es') \<longleftrightarrow> armed_first b es \<and> armed_first (b \<or> list_ex is_arm es) es'"
  by (induction es arbitrary: b) (auto simp: disj_assoc)

lemma armed_first_True [simp]: "armed_first True es"
  by (induction es) auto

lemma inert_not_mutates: "inert e \<Longrightarrow> \<not> mutates e \<and> \<not> is_arm e \<and> \<not> is_activation e"
  by (cases e) auto

lemma quiet_facts:
  assumes "quiet es"
  shows "\<not> mutated es" "cancel_safe es" "armed_first b es" "activations es = 0"
    "list_all (\<lambda>e. \<not> is_arm e) es" "\<not> list_ex is_arm es" "untouched es"
proof -
  have "inert e \<Longrightarrow> \<not> stores e" for e by (cases e) auto
  then show "untouched es" using assms by (auto simp: untouched_def quiet_def list_all_iff)
  show "\<not> list_ex is_arm es"
    using assms inert_not_mutates by (auto simp: quiet_def list_all_iff list_ex_iff)
  show "list_all (\<lambda>e. \<not> is_arm e) es"
    using assms inert_not_mutates by (auto simp: quiet_def list_all_iff)
  show m: "\<not> mutated es" using assms inert_not_mutates by (induction es) auto
  show "cancel_safe es" using assms inert_not_mutates
    by (induction es) (auto simp: mutated_def list_ex_iff quiet_def list_all_iff)
  show "armed_first b es" using assms inert_not_mutates by (induction es arbitrary: b) auto
  show "activations es = 0" using assms inert_not_mutates by (induction es) auto
qed

lemma armed_before_mutation:
  "armed_first b es \<Longrightarrow> mutated es \<Longrightarrow> b \<or> list_ex is_arm es"
  by (induction es arbitrary: b) auto

lemma armed_first_mono: "armed_first False es \<Longrightarrow> armed_first b es"
  by (cases b) auto

section \<open>Runs that return\<close>

text \<open>\<open>returns m Q\<close>: \<open>m\<close> returns, and its value and the run it leaves satisfy \<open>Q\<close>.\<close>

definition returns :: "('w, 'a) result \<Rightarrow> ('a \<Rightarrow> 'w run \<Rightarrow> bool) \<Rightarrow> bool" where
  "returns m Q \<longleftrightarrow> (\<exists>x r. m = Some (x, r) \<and> Q x r)"

named_theorems returns_rules \<open>calls that return\<close>

lemma returns_simps [simp]:
  "\<not> returns None Q"
  "returns (Some (x, r)) Q \<longleftrightarrow> Q x r"
  "returns (Option.bind m f) Q \<longleftrightarrow> returns m (\<lambda>x r. returns (f (x, r)) Q)"
  by (auto simp: returns_def split: bind_splits)

lemma returns_if [simp]:
  "returns (if b then m else n) Q \<longleftrightarrow> (if b then returns m Q else returns n Q)"
  by simp

lemma returns_mono: "returns m Q \<Longrightarrow> (\<And>x r. Q x r \<Longrightarrow> Q' x r) \<Longrightarrow> returns m Q'"
  by (auto simp: returns_def)

lemma returns_call [returns_rules]: "(\<And>x r'. Q x r') \<Longrightarrow> returns (call f ev r) Q"
  by (auto simp: returns_def call_def split: prod.splits)

lemma returns_plain_calls [returns_rules]:
  "(\<And>x r'. Q x r') \<Longrightarrow> returns (observe f r) Q"
  "(\<And>c r'. Q1 c r') \<Longrightarrow> returns (is_cancelled P r) Q1"
  "(\<And>t r'. Q2 t r') \<Longrightarrow> returns (clock_now P r) Q2"
  "(\<And>r'. Q3 () r') \<Longrightarrow> returns (sleep_for P d r) Q3"
  "(\<And>t r'. Q4 t r') \<Longrightarrow> returns (capture_topology P r) Q4"
  "(\<And>s r'. Q5 s r') \<Longrightarrow> returns (capture_snapshot P r) Q5"
  "(\<And>b r'. Q6 b r') \<Longrightarrow> returns (snapshot_matches_current P s r) Q6"
  "(\<And>b r'. Q7 b r') \<Longrightarrow> returns (current_layout_matches P l r) Q7"
  by (auto simp: current_layout_matches_def observe_def is_cancelled_def clock_now_def sleep_for_def capture_topology_def
      capture_snapshot_def snapshot_matches_current_def intro!: returns_call)

text \<open>
  What the loops with a deadline rely on: the steady clock never goes back, and two of its readings
  differ. \<open>T w\<close> is the clock in world \<open>w\<close>.
\<close>

definition clock_advances :: "'w platform \<Rightarrow> ('w \<Rightarrow> time_ns) \<Rightarrow> bool" where
  "clock_advances P T \<longleftrightarrow>
     (\<forall>w. T w < fst (pf_now P w) \<and> fst (pf_now P w) \<le> T (snd (pf_now P w))) \<and>
     (\<forall>d w. T w \<le> T (pf_sleep P d w)) \<and>
     (\<forall>w. T w \<le> T (snd (pf_is_cancelled P w))) \<and>
     (\<forall>w. T w \<le> T (snd (pf_capture_topology P w))) \<and>
     (\<forall>w. T w \<le> T (snd (pf_capture_snapshot P w))) \<and>
     (\<forall>w. T w \<le> T (snd (pf_enumerate P w)))"

text \<open>The clock after a call is not before the clock \<open>t\<close> it started at.\<close>

lemma returns_call_timed:
  fixes T :: "'w \<Rightarrow> time_ns"
  assumes "T (rn_world r) \<le> T (snd (f (rn_world r)))" "t \<le> T (rn_world r)"
    and "\<And>x r'. t \<le> T (rn_world r') \<Longrightarrow> Q x r'"
  shows "returns (call f ev r) Q"
proof (cases "f (rn_world r)")
  case (Pair x w)
  then have "t \<le> T w" using assms(1,2) by simp
  then show ?thesis using Pair assms(3) by (simp add: call_def)
qed

lemma returns_timed:
  assumes "clock_advances P T" "t \<le> T (rn_world r)"
  shows "(\<And>c r'. t \<le> T (rn_world r') \<Longrightarrow> Q1 c r') \<Longrightarrow> returns (is_cancelled P r) Q1"
    and "(\<And>r'. t \<le> T (rn_world r') \<Longrightarrow> Q3 () r') \<Longrightarrow> returns (sleep_for P d r) Q3"
    and "(\<And>x r'. t \<le> T (rn_world r') \<Longrightarrow> Q4 x r') \<Longrightarrow> returns (capture_topology P r) Q4"
    and "(\<And>x r'. t \<le> T (rn_world r') \<Longrightarrow> Q5 x r') \<Longrightarrow> returns (capture_snapshot P r) Q5"
    and "(\<And>x r'. t \<le> T (rn_world r') \<Longrightarrow> Q6 x r') \<Longrightarrow> returns (observe (pf_enumerate P) r) Q6"
  using assms unfolding clock_advances_def is_cancelled_def sleep_for_def observe_def
    capture_topology_def capture_snapshot_def
  by (auto intro!: returns_call_timed [where T = T and t = t])

lemma returns_clock_now_timed:
  assumes "clock_advances P T" "t \<le> T (rn_world r)"
    and "\<And>now r'. t < now \<Longrightarrow> now \<le> T (rn_world r') \<Longrightarrow> Q now r'"
  shows "returns (clock_now P r) Q"
proof (cases "pf_now P (rn_world r)")
  case (Pair now w)
  have "T (rn_world r) < fst (pf_now P (rn_world r))"
    "fst (pf_now P (rn_world r)) \<le> T (snd (pf_now P (rn_world r)))"
    using assms(1) unfolding clock_advances_def by blast+
  then show ?thesis using Pair assms(2,3) by (simp add: clock_now_def call_def)
qed

section \<open>A simulated desktop\<close>

text \<open>
  A small concrete world for the worked examples of the other theories: a clock, the time of a
  cancellation, the active layout and an in-memory storage. Each reading of the clock takes a
  microsecond.
\<close>

record sim =
  sim_time :: time_ns
  sim_cancel_at :: time_ns
  sim_snapshot :: snapshot
  sim_memory :: memory_store
  sim_settings_ok :: bool

definition sim_now :: "sim \<Rightarrow> time_ns \<times> sim" where
  "sim_now w = (sim_time w + 1000, w\<lparr>sim_time := sim_time w + 1000\<rparr>)"

definition sim_device :: "device_id \<Rightarrow> enumerated_device" where
  "sim_device d = \<lparr>dev_device_id = d, dev_display_name = d, dev_friendly_name = [],
                   dev_edid_manufacturer = None, dev_has_info = True\<rparr>"

definition sim_storage :: "sim storage_ops" where
  "sim_storage =
     \<lparr>so_load_with_metadata = (\<lambda>t w. memory_load_with_metadata t (sim_memory w)),
      so_save = (\<lambda>t s l w. let (ok, m) = memory_save t s l (sim_memory w) in (ok, w\<lparr>sim_memory := m\<rparr>)),
      so_remove = (\<lambda>t w. let (ok, m) = memory_remove t (sim_memory w) in (ok, w\<lparr>sim_memory := m\<rparr>)),
      so_exists = (\<lambda>t w. sim_memory w t \<noteq> None)\<rparr>"

definition sim_platform :: "sim platform" where
  "sim_platform =
     \<lparr>pf_now = sim_now,
      pf_sleep = (\<lambda>d w. w\<lparr>sim_time := sim_time w + max 0 d\<rparr>),
      pf_is_cancelled = (\<lambda>w. (sim_cancel_at w \<le> sim_time w, w)),
      pf_topology_is_valid = (\<lambda>t. t \<noteq> []),
      pf_is_topology_same = (\<lambda>a b. canonical_topology a = canonical_topology b),
      pf_snapshot_same = (=),
      pf_capture_topology = (\<lambda>w. (snap_topology (sim_snapshot w), w)),
      pf_capture_snapshot = (\<lambda>w. (sim_snapshot w, w)),
      pf_enumerate = (\<lambda>w. (map sim_device (concat (snap_topology (sim_snapshot w))), w)),
      pf_validate_topology = (\<lambda>t w. (t \<noteq> [], w)),
      pf_validate_topology_for_apply = (\<lambda>t w. (t \<noteq> [], w)),
      pf_compute_apply_topology_plan = (\<lambda>c t w.
        (Some \<lparr>plan_topology = [[cfg_device_id c]],
               plan_target = \<lparr>tgt_kind = Kind_ExplicitDevice, tgt_acceptable = {cfg_device_id c}\<rparr>\<rparr>, w)),
      pf_apply_topology = (\<lambda>t w. (Status_Ok, w\<lparr>sim_snapshot := (sim_snapshot w)\<lparr>snap_topology := t\<rparr>\<rparr>)),
      pf_recover_display_stack = (\<lambda>w. (True, w)),
      pf_apply = (\<lambda>c w. (if sim_settings_ok w then Status_Ok else Status_Retryable, w)),
      pf_apply_snapshot_settings = (\<lambda>s w. (True, w\<lparr>sim_snapshot := s\<rparr>)),
      pf_snapshot_matches_current = (\<lambda>s w. (equal_snapshots_strict (sim_snapshot w) s, w)),
      pf_configuration_matches = (\<lambda>c t w. (True, w)),
      pf_is_primary_device = (\<lambda>d w. (True, w)),
      pf_set_display_origin = (\<lambda>d p w. (True, w)),
      pf_get_display_resolution = (\<lambda>d w. (Some \<lparr>res_width = 1920, res_height = 1080\<rparr>, w)),
      pf_can_reposition_device = (\<lambda>d w. (True, w)),
      pf_set_device_refresh_rate = (\<lambda>d n m w. (True, w)),
      pf_prepare_staged_apply = (\<lambda>t w. (True, w)),
      pf_reset_staged_apply_state = (\<lambda>w. (True, w)),
      pf_apply_layout_rotations = (\<lambda>l w. (True, w)),
      pf_current_layout_matches = (\<lambda>l w. (True, w)),
      pf_capture_layout_rotations = (\<lambda>ids w. ([], w)),
      pf_mutation_boundary = Some (\<lambda>w. (True, w)),
      pf_vdd_disable = (\<lambda>w. (True, w)),
      pf_vdd_enable = (\<lambda>w. (True, w)),
      pf_storage = sim_storage,
      pf_unix_now_ms = (\<lambda>w. (sim_time w div 1000000, w)),
      pf_marker_write_ok = (\<lambda>w. (True, w))\<rparr>"

lemma sim_clock_advances: "clock_advances sim_platform sim_time"
  by (simp add: clock_advances_def sim_platform_def sim_now_def)

definition sim_run :: "time_ns \<Rightarrow> snapshot \<Rightarrow> memory_store \<Rightarrow> bool \<Rightarrow> sim run" where
  "sim_run cancel_at s m ok =
     \<lparr>rn_world = \<lparr>sim_time = 0, sim_cancel_at = cancel_at, sim_snapshot = s, sim_memory = m,
                  sim_settings_ok = ok\<rparr>,
      rn_trace = [], rn_restore_state = initial_restore_state, rn_golden = initial_golden_health\<rparr>"

end
