(* ===== verification/Topology_Transition.thy ===== *)
theory Topology_Transition
  imports Display_Ports
begin

text \<open>
  \<open>TopologyTransition\<close> of \<open>operations.cpp\<close>: the staged topology change shared by APPLY and REVERT,
  with its readiness check, its bounded waits and its two activation attempts. A call of
  \<open>BOOST_LOG\<close> is left out.
\<close>

section \<open>Waiting in slices\<close>

text \<open>
  The loop that sleeps for a duration in slices and checks the token before each of them. It
  answers whether it came to its end; it is \<open>TopologyTransition::wait_with_cancel\<close>,
  \<open>RecoveryOperation::wait_with_cancel\<close> and the delay loops of the dispatcher, which differ in the
  length of a slice and in the check behind the loop.
\<close>

function wait_slices :: "'w platform \<Rightarrow> time_ns \<Rightarrow> time_ns \<Rightarrow> 'w run \<Rightarrow> ('w, bool) result" where
  "wait_slices P step remaining r =
     (if remaining \<le> 0 \<or> step \<le> 0 then Some (True, r)
      else do {
        (c, r) \<leftarrow> is_cancelled P r;
        if c then Some (False, r)
        else do {
          (_, r) \<leftarrow> sleep_for P (min remaining step) r;
          wait_slices P step (remaining - min remaining step) r
        }
      })"
  by pat_completeness auto
termination by (relation "measure (\<lambda>(P, step, remaining, r). nat remaining)") auto

declare wait_slices.simps [simp del]

definition wait_with_cancel :: "'w platform \<Rightarrow> time_ns \<Rightarrow> time_ns \<Rightarrow> 'w run \<Rightarrow> ('w, bool) result" where
  "wait_with_cancel P step duration r = do {
     (done, r) \<leftarrow> wait_slices P step duration r;
     if \<not> done then Some (False, r)
     else do { (c, r) \<leftarrow> is_cancelled P r; Some (\<not> c, r) }
   }"

section \<open>Resolving the target\<close>

definition kActivationTimeout :: time_ns where "kActivationTimeout = ms 5000"
definition kActivationPollInterval :: time_ns where "kActivationPollInterval = ms 100"
definition kRecoverySettleDelay :: time_ns where "kRecoverySettleDelay = ms 500"
definition kMaxTopologyAttempts :: nat where "kMaxTopologyAttempts = 2"

definition acceptable :: "activation_target \<Rightarrow> device_id \<Rightarrow> bool" where
  "acceptable tgt d \<longleftrightarrow> (\<exists>c \<in> tgt_acceptable tgt. iequals d c)"

definition has_target :: "activation_target \<Rightarrow> bool" where
  "has_target tgt \<longleftrightarrow> tgt_kind tgt \<noteq> Kind_None \<and> tgt_acceptable tgt \<noteq> {}"

definition resolve_configuration_target :: "activation_target \<Rightarrow> topology \<Rightarrow> resolved_target option" where
  "resolve_configuration_target tgt accepted =
     (if \<not> has_target tgt then None
      else case List.find (\<lambda>g. list_ex (acceptable tgt) g) accepted of
             None \<Rightarrow> None
           | Some g \<Rightarrow> (case List.find (acceptable tgt) g of
                 None \<Rightarrow> None
               | Some d \<Rightarrow> Some \<lparr>rt_kind = tgt_kind tgt, rt_representative = d,
                                 rt_duplicates = set g - {[]}\<rparr>))"

definition topology_contains_device_id :: "topology \<Rightarrow> device_id \<Rightarrow> bool" where
  "topology_contains_device_id t d \<longleftrightarrow> list_ex (list_ex (\<lambda>a. iequals a d)) t"

definition resolved_target_remains_active :: "topology \<Rightarrow> resolved_target \<Rightarrow> bool" where
  "resolved_target_remains_active t tgt =
     (if rt_kind tgt = Kind_DefaultPrimaryGroup
      then \<exists>d \<in> rt_duplicates tgt. topology_contains_device_id t d
      else if rt_representative tgt \<noteq> []
      then topology_contains_device_id t (rt_representative tgt)
      else \<exists>d \<in> rt_duplicates tgt. topology_contains_device_id t d)"

section \<open>Readiness\<close>

text \<open>The ids that must be enumerable: the target's group, or every device without a target.\<close>

definition required_device_ids :: "activation_target \<Rightarrow> topology \<Rightarrow> device_id list option" where
  "required_device_ids tgt current =
     (if has_target tgt then List.find (\<lambda>g. list_ex (acceptable tgt) g) current
      else Some (concat current))"

definition enumerable :: "enumerated_device list \<Rightarrow> device_id \<Rightarrow> bool" where
  "enumerable devices a \<longleftrightarrow>
     list_ex (\<lambda>d. dev_device_id d \<noteq> [] \<and> iequals (dev_device_id d) a \<and> dev_has_info d) devices"

definition topology_ready ::
  "'w platform \<Rightarrow> topology \<Rightarrow> activation_target \<Rightarrow> bool \<Rightarrow> 'w run \<Rightarrow> ('w, topology option) result" where
  "topology_ready P requested tgt allow_os_adjustment r = do {
     (current, r) \<leftarrow> capture_topology P r;
     if \<not> pf_topology_is_valid P current then Some (None, r)
     else if \<not> pf_is_topology_same P requested current \<and> \<not> allow_os_adjustment then Some (None, r)
     else case required_device_ids tgt current of
            None \<Rightarrow> Some (None, r)
          | Some required \<Rightarrow>
              if required = [] then Some (None, r)
              else do {
                (devices, r) \<leftarrow> observe (pf_enumerate P) r;
                Some (if list_all (\<lambda>a. a \<noteq> [] \<and> enumerable devices a) required
                      then Some current else None, r)
              }
   }"

definition trunc_ms :: "time_ns \<Rightarrow> time_ns" where
  "trunc_ms d = ms (d div 1000000)"

partial_function (option) ready_loop ::
  "'w platform \<Rightarrow> topology \<Rightarrow> activation_target \<Rightarrow> bool \<Rightarrow> time_ns \<Rightarrow> 'w run \<Rightarrow>
   (topology option \<times> 'w run) option" where
  "ready_loop pf requested tgt allow deadline r =
     Option.bind (is_cancelled pf r) (\<lambda>(c, r).
     if c then Some (None, r)
     else Option.bind (topology_ready pf requested tgt allow r) (\<lambda>(ready, r).
     if ready \<noteq> None then Some (ready, r)
     else Option.bind (clock_now pf r) (\<lambda>(now, r).
     if deadline \<le> now then Some (None, r)
     else Option.bind (wait_with_cancel pf kActivationPollInterval
                         (min (trunc_ms (deadline - now)) kActivationPollInterval) r) (\<lambda>(ok, r).
     if \<not> ok then Some (None, r)
     else ready_loop pf requested tgt allow deadline r))))"

definition wait_until_ready ::
  "'w platform \<Rightarrow> topology \<Rightarrow> activation_target \<Rightarrow> bool \<Rightarrow> 'w run \<Rightarrow> ('w, topology option) result" where
  "wait_until_ready P requested tgt allow_os_adjustment r = do {
     (now, r) \<leftarrow> clock_now P r;
     ready_loop P requested tgt allow_os_adjustment (now + kActivationTimeout) r
   }"

definition recover_and_settle :: "'w platform \<Rightarrow> 'w run \<Rightarrow> ('w, bool) result" where
  "recover_and_settle P r = do {
     (c, r) \<leftarrow> is_cancelled P r;
     if c then Some (False, r)
     else do {
       (_, r) \<leftarrow> recover_display_stack P r;
       wait_with_cancel P kActivationPollInterval kRecoverySettleDelay r
     }
   }"

section \<open>The transition\<close>

datatype validation_mode = StrictApply | StructuralRestore

record transition_outcome =
  tto_status :: apply_status
  tto_applied_topology :: "topology option"
  tto_display_may_have_changed :: bool
  tto_durable_recovery_armed :: bool

definition default_transition_outcome :: transition_outcome where
  "default_transition_outcome =
     \<lparr>tto_status = Status_Fatal, tto_applied_topology = None,
      tto_display_may_have_changed = False, tto_durable_recovery_armed = False\<rparr>"

type_synonym 'w boundary = "('w run \<Rightarrow> ('w, bool) result) option"

text \<open>The closure that arms the boundary once; \<open>reached\<close> is \<open>mutation_boundary_reached\<close>.\<close>

definition arm_mutation_boundary ::
  "'w boundary \<Rightarrow> bool \<Rightarrow> transition_outcome \<Rightarrow> 'w run \<Rightarrow> ('w, transition_outcome) result" where
  "arm_mutation_boundary boundary reached out r =
     (if reached then Some (out, r)
      else case boundary of
             None \<Rightarrow> Some (out, r)
           | Some b \<Rightarrow> do {
               (armed, r) \<leftarrow> b r;
               Some (out\<lparr>tto_durable_recovery_armed := armed\<rparr>, r)
             })"

text \<open>A recovery that did not settle: cancelled, or to be retried.\<close>

definition unsettled :: "'w platform \<Rightarrow> transition_outcome \<Rightarrow> 'w run \<Rightarrow> ('w, transition_outcome) result" where
  "unsettled P out r = do {
     (c, r) \<leftarrow> is_cancelled P r;
     Some (out\<lparr>tto_status := (if c then Status_Fatal else Status_Retryable)\<rparr>, r)
   }"

text \<open>The loop over the attempts, \<open>left\<close> of them still to make.\<close>

fun activation_attempts ::
  "'w platform \<Rightarrow> topology \<Rightarrow> activation_target \<Rightarrow> 'w boundary \<Rightarrow> nat \<Rightarrow> bool \<Rightarrow>
   transition_outcome \<Rightarrow> 'w run \<Rightarrow> ('w, transition_outcome) result" where
  "activation_attempts P topology tgt boundary 0 reached out r =
     Some (out\<lparr>tto_status := Status_Retryable\<rparr>, r)"
| "activation_attempts P topology tgt boundary (Suc left) reached out r = do {
     (c, r) \<leftarrow> is_cancelled P r;
     if c then Some (out\<lparr>tto_status := Status_Fatal\<rparr>, r)
     else do {
       (out, r) \<leftarrow> arm_mutation_boundary boundary reached out r;
       (c, r) \<leftarrow> is_cancelled P r;
       if c then Some (out\<lparr>tto_status := Status_Fatal\<rparr>, r)
       else do {
         let out = out\<lparr>tto_display_may_have_changed := True\<rparr>;
         (status, r) \<leftarrow> apply_topology P topology r;
         if status = Status_Fatal \<or> status = Status_HelperUnavailable \<or> status = Status_InvalidRequest
         then Some (out\<lparr>tto_status := status\<rparr>, r)
         else do {
           (applied, r) \<leftarrow> wait_until_ready P topology tgt (status = Status_Ok) r;
           if applied \<noteq> None
           then Some (out\<lparr>tto_status := Status_Ok, tto_applied_topology := applied\<rparr>, r)
           else do {
             (c, r) \<leftarrow> is_cancelled P r;
             if c then Some (out\<lparr>tto_status := Status_Fatal\<rparr>, r)
             else if left = 0 then activation_attempts P topology tgt boundary left True out r
             else do {
               (settled, r) \<leftarrow> recover_and_settle P r;
               if \<not> settled then unsettled P out r
               else activation_attempts P topology tgt boundary left True out r
             }
           }
         }
       }
     }
   }"

text \<open>
  The validation stage of a strict transition: \<open>Inl\<close> ends the transition, \<open>Inr\<close> goes on, with
  whether the boundary has been reached.
\<close>

definition validation_stage ::
  "'w platform \<Rightarrow> topology \<Rightarrow> validation_mode \<Rightarrow> 'w boundary \<Rightarrow> transition_outcome \<Rightarrow> 'w run \<Rightarrow>
   ('w, transition_outcome + bool \<times> transition_outcome) result" where
  "validation_stage P topology mode boundary out r =
     (if mode \<noteq> StrictApply then Some (Inr (False, out), r)
      else do {
        (valid, r) \<leftarrow> observe (pf_validate_topology_for_apply P topology) r;
        if valid then Some (Inr (False, out), r)
        else do {
          (out, r) \<leftarrow> arm_mutation_boundary boundary False out r;
          (c, r) \<leftarrow> is_cancelled P r;
          if c then Some (Inl (out\<lparr>tto_status := Status_Fatal\<rparr>), r)
          else do {
            let out = out\<lparr>tto_display_may_have_changed := True\<rparr>;
            (settled, r) \<leftarrow> recover_and_settle P r;
            if \<not> settled then do { (out, r) \<leftarrow> unsettled P out r; Some (Inl out, r) }
            else do {
              (valid, r) \<leftarrow> observe (pf_validate_topology_for_apply P topology) r;
              Some (if valid then Inr (True, out) else Inl (out\<lparr>tto_status := Status_Retryable\<rparr>), r)
            }
          }
        }
      })"

definition transition_run ::
  "'w platform \<Rightarrow> topology \<Rightarrow> validation_mode \<Rightarrow> activation_target \<Rightarrow> 'w boundary \<Rightarrow> 'w run \<Rightarrow>
   ('w, transition_outcome) result" where
  "transition_run P topology mode tgt boundary r = do {
     let out = default_transition_outcome;
     (c, r) \<leftarrow> is_cancelled P r;
     if c then Some (out\<lparr>tto_status := Status_Fatal\<rparr>, r)
     else if \<not> pf_topology_is_valid P topology then Some (out\<lparr>tto_status := Status_InvalidRequest\<rparr>, r)
     else do {
       (ready, r) \<leftarrow> topology_ready P topology tgt False r;
       if ready \<noteq> None
       then Some (out\<lparr>tto_status := Status_Ok, tto_applied_topology := ready\<rparr>, r)
       else do {
         (stage, r) \<leftarrow> validation_stage P topology mode boundary out r;
         case stage of
           Inl out \<Rightarrow> Some (out, r)
         | Inr (reached, out) \<Rightarrow>
             activation_attempts P topology tgt boundary kMaxTopologyAttempts reached out r
       }
     }
   }"

section \<open>What the parts do\<close>

lemma wp_wait_slices:
  assumes "\<And>done r' es. does r r' es \<Longrightarrow> quiet es \<Longrightarrow> done = (C_Cancelled True \<notin> set es) \<Longrightarrow> Q done r'"
  shows "wp (wait_slices P step remaining r) Q"
  using assms
proof (induction "nat remaining" arbitrary: remaining r Q rule: less_induct)
  case less
  show ?case
  proof (cases "remaining \<le> 0 \<or> step \<le> 0")
    case True
    then show ?thesis using less.prems [OF does_refl] by (simp add: wait_slices.simps)
  next
    case False
    have *: "wp (wait_slices P step (remaining - min remaining step) r') Q"
      if r': "does r r' [C_Cancelled False, C_Sleep d]" for r' d
    proof (rule less.hyps)
      fix "done" r'' es
      assume "does r' r'' es" "quiet es" "done = (C_Cancelled True \<notin> set es)"
      then show "Q done r''" using less.prems [OF does_trans [OF r']] by simp
    qed (use False in auto)
    show ?thesis
      using False does_refl [of r]
      by (subst wait_slices.simps) (auto intro!: wp_rules * less.prems)
  qed
qed

lemma wp_wait_slices_from [wp_rules]:
  assumes "does r0 r es0"
    and "\<And>done r' es. does r0 r' (es0 @ es) \<Longrightarrow> quiet es \<Longrightarrow>
           done = (C_Cancelled True \<notin> set es) \<Longrightarrow> Q done r'"
  shows "wp (wait_slices P step remaining r) Q"
  by (rule wp_wait_slices) (use assms does_trans in blast)

lemma wp_wait_with_cancel_from [wp_rules]:
  assumes "does r0 r es0"
    and "\<And>ok r' es. does r0 r' (es0 @ es) \<Longrightarrow> quiet es \<Longrightarrow>
           ok = (C_Cancelled True \<notin> set es) \<Longrightarrow> Q ok r'"
  shows "wp (wait_with_cancel P step duration r) Q"
  unfolding wait_with_cancel_def by (auto intro!: wp_rules assms(1) intro: assms(2))

definition usable :: "'w platform \<Rightarrow> topology \<Rightarrow> activation_target \<Rightarrow> bool \<Rightarrow> topology \<Rightarrow> bool" where
  "usable P requested tgt allow_os_adjustment t \<longleftrightarrow>
     pf_topology_is_valid P t \<and> (allow_os_adjustment \<or> pf_is_topology_same P requested t) \<and>
     (\<exists>req. required_device_ids tgt t = Some req \<and> req \<noteq> [] \<and> [] \<notin> set req)"

lemma wp_topology_ready_from [wp_rules]:
  assumes "does r0 r es0"
    and "\<And>ready r' es. does r0 r' (es0 @ es) \<Longrightarrow> quiet es \<Longrightarrow> C_Cancelled True \<notin> set es \<Longrightarrow>
           (\<And>t. ready = Some t \<Longrightarrow> usable P requested tgt allow t) \<Longrightarrow> Q ready r'"
  shows "wp (topology_ready P requested tgt allow r) Q"
  unfolding topology_ready_def
  by (auto intro!: wp_rules assms(1) intro!: assms(2) simp: usable_def list_all_iff
      split: option.split if_splits)

definition ready_loop_post ::
  "'w platform \<Rightarrow> topology \<Rightarrow> activation_target \<Rightarrow> bool \<Rightarrow> 'w run \<Rightarrow> topology option \<Rightarrow> 'w run \<Rightarrow> bool" where
  "ready_loop_post P requested tgt allow r ready r' \<longleftrightarrow>
     (\<exists>es. does r r' es \<and> quiet es \<and>
        (\<forall>t. ready = Some t \<longrightarrow> usable P requested tgt allow t \<and> C_Cancelled True \<notin> set es))"

lemma ready_loop_postI:
  "does r r' es \<Longrightarrow> quiet es \<Longrightarrow>
   (\<And>t. ready = Some t \<Longrightarrow> usable P requested tgt allow t \<and> C_Cancelled True \<notin> set es) \<Longrightarrow>
   ready_loop_post P requested tgt allow r ready r'"
  by (auto simp: ready_loop_post_def)

lemma ready_loop_post:
  "ready_loop P requested tgt allow deadline r = Some y \<Longrightarrow>
   ready_loop_post P requested tgt allow r (fst y) (snd y)"
proof (rule ready_loop.raw_induct
    [where P = "\<lambda>P requested tgt allow deadline r y. ready_loop_post P requested tgt allow r (fst y) (snd y)"])
  fix f :: "'a platform \<Rightarrow> topology \<Rightarrow> activation_target \<Rightarrow> bool \<Rightarrow> time_ns \<Rightarrow> 'a run \<Rightarrow>
      (topology option \<times> 'a run) option"
    and P requested tgt allow deadline r y
  assume IH: "\<And>P requested tgt allow deadline r y. f P requested tgt allow deadline r = Some y \<Longrightarrow>
      ready_loop_post P requested tgt allow r (fst y) (snd y)"
  assume body: "Option.bind (is_cancelled P r) (\<lambda>(c, r).
     if c then Some (None, r)
     else Option.bind (topology_ready P requested tgt allow r) (\<lambda>(ready, r).
     if ready \<noteq> None then Some (ready, r)
     else Option.bind (clock_now P r) (\<lambda>(now, r).
     if deadline \<le> now then Some (None, r)
     else Option.bind (wait_with_cancel P kActivationPollInterval
                         (min (trunc_ms (deadline - now)) kActivationPollInterval) r) (\<lambda>(ok, r).
     if \<not> ok then Some (None, r)
     else f P requested tgt allow deadline r)))) = Some y"
  have f: "wp (f P requested tgt allow deadline r1) (ready_loop_post P requested tgt allow r)"
    if "does r r1 es" "quiet es" "C_Cancelled True \<notin> set es" for r1 es
  proof (rule wpI)
    fix x r2 assume "f P requested tgt allow deadline r1 = Some (x, r2)"
    from IH [OF this] show "ready_loop_post P requested tgt allow r x r2"
      using that does_trans [OF that(1)] by (fastforce simp: ready_loop_post_def)
  qed
  obtain ready r' where y: "y = (ready, r')" by (cases y)
  have "ready_loop_post P requested tgt allow r ready r'"
    by (rule wpD [OF _ body [unfolded y]])
      (use does_refl [of r] in \<open>auto intro!: wp_rules intro: f ready_loop_postI\<close>)
  then show "ready_loop_post P requested tgt allow r (fst y) (snd y)" by (simp add: y)
qed

lemma wp_wait_until_ready_from [wp_rules]:
  assumes "does r0 r es0"
    and "\<And>ready r' es. does r0 r' (es0 @ es) \<Longrightarrow> quiet es \<Longrightarrow>
           (\<And>t. ready = Some t \<Longrightarrow> usable P requested tgt allow t \<and> C_Cancelled True \<notin> set es) \<Longrightarrow>
           Q ready r'"
  shows "wp (wait_until_ready P requested tgt allow r) Q"
proof -
  have "wp (ready_loop P requested tgt allow deadline r1) Q" if "does r0 r1 (es0 @ [C_Now t])" for r1 t deadline
  proof (rule wpI)
    fix ready r' assume "ready_loop P requested tgt allow deadline r1 = Some (ready, r')"
    from ready_loop_post [OF this] obtain es where "does r1 r' es" "quiet es"
      "\<forall>t. ready = Some t \<longrightarrow> usable P requested tgt allow t \<and> C_Cancelled True \<notin> set es"
      by (auto simp: ready_loop_post_def)
    with does_trans [OF that] show "Q ready r'" using assms(2) [of r' "C_Now t # es"] by simp
  qed
  then show ?thesis
    unfolding wait_until_ready_def by (auto intro!: wp_rules assms(1))
qed

lemma wp_recover_and_settle_from [wp_rules]:
  assumes "does r0 r es0"
    and "\<And>settled r' es. does r0 r' (es0 @ es) \<Longrightarrow> settled = (C_Cancelled True \<notin> set es) \<Longrightarrow>
           activations es = 0 \<Longrightarrow> list_all (\<lambda>e. \<not> is_arm e) es \<Longrightarrow> cancel_safe es \<Longrightarrow>
           armed_first True es \<Longrightarrow> untouched es \<Longrightarrow> (settled \<Longrightarrow> mutated es) \<Longrightarrow> Q settled r'"
  shows "wp (recover_and_settle P r) Q"
  unfolding recover_and_settle_def recover_display_stack_def
  by (auto intro!: wp_rules assms(1) intro!: assms(2) simp: quiet_facts)

text \<open>A boundary only arms the guard; \<open>pre\<close>: it may be armed already.\<close>

definition boundary_ok :: "bool \<Rightarrow> 'w boundary \<Rightarrow> bool" where
  "boundary_ok pre boundary \<longleftrightarrow>
     (\<forall>b r. boundary = Some b \<longrightarrow>
        wp (b r) (\<lambda>x r'. \<exists>es. does r r' es \<and> list_all is_arm es \<and> (pre \<or> es \<noteq> [])))"

lemma arms_facts:
  assumes "list_all is_arm es"
  shows "\<not> mutated es" "activations es = 0" "C_Cancelled c \<notin> set es" "cancel_safe es" "sticky es"
    "armed_first b es" "es \<noteq> [] \<Longrightarrow> list_ex is_arm es" "untouched es"
proof -
  have "is_arm e \<Longrightarrow> \<not> stores e" for e by (cases e) auto
  then show "untouched es" using assms by (auto simp: untouched_def list_all_iff)
  have e: "is_arm e \<Longrightarrow> \<not> mutates e \<and> \<not> is_activation e \<and> e \<noteq> C_Cancelled c'" for e c'
    by (cases e) auto
  show m: "\<not> mutated es" "activations es = 0" "C_Cancelled c \<notin> set es"
    using assms e by (induction es) auto
  show "cancel_safe es" "sticky es" using assms e by (induction es) auto
  show "armed_first b es" using assms e by (induction es arbitrary: b) auto
  show "es \<noteq> [] \<Longrightarrow> list_ex is_arm es" using assms by (cases es) auto
qed

definition arm_post :: "bool \<Rightarrow> call list \<Rightarrow> bool" where
  "arm_post armed es \<longleftrightarrow> list_all is_arm es \<and> (armed \<or> list_ex is_arm es)"

lemma arm_post_simps:
  "arm_post armed es \<Longrightarrow> \<not> mutated es" "arm_post armed es \<Longrightarrow> activations es = 0"
  "arm_post armed es \<Longrightarrow> C_Cancelled c \<notin> set es" "arm_post armed es \<Longrightarrow> cancel_safe es"
  "arm_post armed es \<Longrightarrow> sticky es" "arm_post armed es \<Longrightarrow> armed_first b es"
  "arm_post armed es \<Longrightarrow> armed \<or> list_ex is_arm es"
  "arm_post armed es \<Longrightarrow> armed \<or> list_ex is_arm es \<or> b" "arm_post armed es \<Longrightarrow> untouched es"
  using arms_facts [of es] by (auto simp add: arm_post_def)

lemma wp_arm_mutation_boundary_from [wp_rules]:
  assumes "does r0 r es0" "boundary_ok pre boundary" "armed = (reached \<or> boundary = None \<or> pre)"
    and "\<And>a r' es. does r0 r' (es0 @ es) \<Longrightarrow> arm_post armed es \<Longrightarrow>
           Q (out\<lparr>tto_durable_recovery_armed := a\<rparr>) r'"
  shows "wp (arm_mutation_boundary boundary reached out r) Q"
proof (cases "reached \<or> boundary = None")
  case True
  then have "Q (out\<lparr>tto_durable_recovery_armed := tto_durable_recovery_armed out\<rparr>) r"
    using assms(1,3) by (intro assms(4) [of r "[]"]) (auto simp: arm_post_def)
  then show ?thesis using True by (auto simp: arm_mutation_boundary_def)
next
  case False
  then obtain b where b: "boundary = Some b" by auto
  have "wp (b r) (\<lambda>a r'. Q (out\<lparr>tto_durable_recovery_armed := a\<rparr>) r')"
  proof (rule wp_mono)
    show "wp (b r) (\<lambda>x r'. \<exists>es. does r r' es \<and> list_all is_arm es \<and> (pre \<or> es \<noteq> []))"
      using assms(2) b by (auto simp: boundary_ok_def)
    fix a r' assume "\<exists>es. does r r' es \<and> list_all is_arm es \<and> (pre \<or> es \<noteq> [])"
    then obtain es where es: "does r r' es" "list_all is_arm es" "pre \<or> es \<noteq> []" by blast
    then have "arm_post armed es"
      using arms_facts(7) assms(3) by (auto simp: arm_post_def)
    then show "Q (out\<lparr>tto_durable_recovery_armed := a\<rparr>) r'"
      using assms(4) [OF does_trans [OF assms(1) es(1)]] by simp
  qed
  then show ?thesis using False b by (simp add: arm_mutation_boundary_def)
qed

definition transition_post ::
  "'w platform \<Rightarrow> topology \<Rightarrow> activation_target \<Rightarrow> bool \<Rightarrow> nat \<Rightarrow> transition_outcome \<Rightarrow>
   transition_outcome \<Rightarrow> call list \<Rightarrow> bool" where
  "transition_post P topology tgt armed n out0 out es \<longleftrightarrow>
     (mutated es \<longrightarrow> tto_display_may_have_changed out) \<and>
     (tto_display_may_have_changed out0 \<longrightarrow> tto_display_may_have_changed out) \<and>
     (tto_display_may_have_changed out \<longrightarrow>
        tto_display_may_have_changed out0 \<or> mutated es \<or> C_Cancelled True \<in> set es) \<and>
     (tto_status out = Status_Ok \<longrightarrow>
        (\<exists>t. tto_applied_topology out = Some t \<and> usable P topology tgt True t) \<and>
        (sticky es \<longrightarrow> C_Cancelled True \<notin> set es) \<and>
        (tto_display_may_have_changed out \<longrightarrow> tto_display_may_have_changed out0 \<or> mutated es)) \<and>
     (tto_durable_recovery_armed out \<longrightarrow>
        tto_durable_recovery_armed out0 \<or> armed \<or> list_ex is_arm es) \<and>
     (sticky es \<longrightarrow> cancel_safe es) \<and> armed_first armed es \<and> activations es \<le> n \<and> untouched es \<and>
     (mutated es \<longrightarrow> C_Cancelled False \<in> set es)"

lemma usable_adjusted: "usable P topology tgt allow t \<Longrightarrow> usable P topology tgt True t"
  by (auto simp: usable_def)

text \<open>What an attempt has done when the next one starts.\<close>

definition attempted :: "bool \<Rightarrow> transition_outcome \<Rightarrow> call list \<Rightarrow> bool" where
  "attempted armed out1 es \<longleftrightarrow>
     tto_display_may_have_changed out1 \<and> mutated es \<and> (sticky es \<longrightarrow> C_Cancelled True \<notin> set es) \<and>
     (sticky es \<longrightarrow> cancel_safe es) \<and> armed_first armed es \<and> activations es \<le> 1 \<and> untouched es \<and>
     C_Cancelled False \<in> set es"

lemma transition_post_after:
  assumes a: "attempted armed out1 es" and t: "transition_post P topology tgt True n out1 out' es'"
  shows "transition_post P topology tgt armed (Suc n) out0 out' (es @ es')"
proof -
  have "armed \<or> list_ex is_arm es"
    using a armed_before_mutation unfolding attempted_def by blast
  then show ?thesis
    by (rule disjE) (use a t in \<open>simp_all add: attempted_def transition_post_def\<close>)
qed

lemmas leaf_simps = transition_post_def attempted_def arm_post_simps quiet_facts

lemma wp_activation_attempts:
  assumes "boundary_ok pre boundary" "armed = (reached \<or> boundary = None \<or> pre)"
    and "\<And>out' r' es. does r r' es \<Longrightarrow> transition_post P topology tgt armed n out out' es \<Longrightarrow> Q out' r'"
  shows "wp (activation_attempts P topology tgt boundary n reached out r) Q"
  using assms(2,3)
proof (induction n arbitrary: reached armed out r Q)
  case 0
  then show ?case using does_refl [of r] by (simp add: transition_post_def)
next
  case (Suc n)
  have *: "wp (activation_attempts P topology tgt boundary n True out1 r1) Q"
    if d: "does r r1 es1" and a: "attempted armed out1 es1" for out1 r1 es1
  proof (rule Suc.IH)
    show "True = (True \<or> boundary = None \<or> pre)" by simp
    fix out' r' es
    assume "does r1 r' es" "transition_post P topology tgt True n out1 out' es"
    then show "Q out' r'"
      using transition_post_after [OF a] by (intro Suc.prems(2) [OF does_trans [OF d]]) simp_all
  qed
  show ?case
    using does_refl [of r]
    by (simp add: Let_def apply_topology_def unsettled_def)
      ((rule wp_rules, assumption | rule conjI impI allI | rule assms(1) | rule Suc.prems(1) |
        (rule Suc.prems(2), assumption) | (rule *, assumption) | (simp add: leaf_simps; fail) |
        (fastforce simp: leaf_simps dest: usable_adjusted; fail) | simp)+)
qed

text \<open>What the validation stage leaves behind.\<close>

definition stage_post :: "bool \<Rightarrow> transition_outcome + bool \<times> transition_outcome \<Rightarrow> call list \<Rightarrow> bool" where
  "stage_post armed stage es \<longleftrightarrow> activations es = 0 \<and> untouched es \<and> (mutated es \<longrightarrow> C_Cancelled False \<in> set es) \<and> armed_first armed es \<and> (sticky es \<longrightarrow> cancel_safe es) \<and>
     (case stage of
        Inl out \<Rightarrow> tto_status out \<noteq> Status_Ok \<and>
          (tto_durable_recovery_armed out \<longrightarrow> armed \<or> list_ex is_arm es) \<and> (mutated es \<longrightarrow> tto_display_may_have_changed out) \<and>
          (tto_display_may_have_changed out \<longrightarrow> mutated es \<or> C_Cancelled True \<in> set es)
      | Inr (reached, out) \<Rightarrow> (sticky es \<longrightarrow> C_Cancelled True \<notin> set es) \<and>
          tto_display_may_have_changed out = mutated es \<and>
          (tto_durable_recovery_armed out \<longrightarrow> armed \<or> list_ex is_arm es) \<and>
          (reached \<longrightarrow> armed \<or> list_ex is_arm es))"

lemma wp_validation_stage:
  assumes "boundary_ok pre boundary" "armed = (boundary = None \<or> pre)"
    and "\<not> tto_display_may_have_changed out" "tto_status out = Status_Fatal \<and> \<not> tto_durable_recovery_armed out"
    and "\<And>stage r' es. does r r' es \<Longrightarrow> stage_post armed stage es \<Longrightarrow> Q stage r'"
  shows "wp (validation_stage P topology mode boundary out r) Q"
proof -
  have armed: "armed = (False \<or> boundary = None \<or> pre)" using assms(2) by simp
  show ?thesis
    unfolding validation_stage_def unsettled_def Let_def
    using does_refl [of r]
    by (simp add: Let_def)
      ((rule wp_rules, assumption | rule conjI impI allI | rule assms(1) | rule armed |
        (rule assms(5), assumption) | (simp add: stage_post_def leaf_simps assms(3,4); fail) |
        (frule arm_post_simps(7), erule disjE; simp add: stage_post_def leaf_simps assms(3,4); fail) |
        simp)+)
qed

lemma stage_then_attempts:
  assumes "stage_post armed (Inr (reached, out1)) es"
    and "transition_post P topology tgt (reached \<or> armed) n out1 out' es'"
  shows "transition_post P topology tgt armed n default_transition_outcome out' (es @ es')"
proof -
  have "armed_first (armed \<or> list_ex is_arm es) es'"
    using assms by (cases "armed \<or> list_ex is_arm es") (auto simp: stage_post_def transition_post_def)
  then show ?thesis
    using assms by (auto simp: stage_post_def transition_post_def default_transition_outcome_def)
qed

lemma wp_transition_run:
  assumes "boundary_ok pre boundary" "armed = (boundary = None \<or> pre)"
    and "\<And>out r' es. does r r' es \<Longrightarrow>
           transition_post P topology tgt armed kMaxTopologyAttempts default_transition_outcome out es \<Longrightarrow>
           Q out r'"
  shows "wp (transition_run P topology mode tgt boundary r) Q"
proof -
  have *: "wp (activation_attempts P topology tgt boundary kMaxTopologyAttempts reached out r1) Q"
    if d: "does r r1 es" and s: "stage_post armed (Inr (reached, out)) es" for reached out r1 es
  proof (rule wp_activation_attempts [OF assms(1)])
    fix out' r' es'
    assume "does r1 r' es'"
      "transition_post P topology tgt (reached \<or> armed) kMaxTopologyAttempts out out' es'"
    then show "Q out' r'"
      by (intro assms(3) [OF does_trans [OF d]] stage_then_attempts [OF s])
  qed (simp add: assms(2))
  have **: "wp (validation_stage P topology mode boundary default_transition_outcome r1)
      (\<lambda>stage r2. wp (case stage of Inl out \<Rightarrow> Some (out, r2)
        | Inr (reached, out) \<Rightarrow>
            activation_attempts P topology tgt boundary kMaxTopologyAttempts reached out r2) Q)"
    if d: "does r r1 es0" and q: "quiet es0" "C_Cancelled True \<notin> set es0" for r1 es0
  proof (rule wp_validation_stage [OF assms(1,2)])
    fix stage r2 es
    assume d2: "does r1 r2 es" and s: "stage_post armed stage es"
    have s': "stage_post armed stage (es0 @ es)"
      using s q by (auto simp: stage_post_def quiet_facts split: sum.splits)
    show "wp (case stage of Inl out \<Rightarrow> Some (out, r2)
        | Inr (reached, out) \<Rightarrow>
            activation_attempts P topology tgt boundary kMaxTopologyAttempts reached out r2) Q"
    proof (cases stage)
      case (Inl out)
      then show ?thesis
        using s' assms(3) [OF does_trans [OF d d2]]
        by (auto simp: stage_post_def transition_post_def default_transition_outcome_def)
    next
      case (Inr x)
      then show ?thesis
        using s' * [OF does_trans [OF d d2]] by (cases x) simp
    qed
  qed (simp_all add: default_transition_outcome_def)
  show ?thesis
    unfolding transition_run_def Let_def
    using does_refl [of r]
    by simp
      ((rule wp_rules, assumption | rule conjI impI allI | (rule **, assumption) |
        (rule assms(3), assumption) |
        (fastforce simp: leaf_simps default_transition_outcome_def dest: usable_adjusted; fail) | simp)+)
qed

section \<open>The transition returns\<close>

lemma returns_wait_slices_timed:
  assumes "clock_advances P T" "t \<le> T (rn_world r)"
    and "\<And>done r'. t \<le> T (rn_world r') \<Longrightarrow> Q done r'"
  shows "returns (wait_slices P step remaining r) Q"
  using assms(2)
proof (induction "nat remaining" arbitrary: remaining r rule: less_induct)
  case less
  show ?case
  proof (cases "remaining \<le> 0 \<or> step \<le> 0")
    case True
    then show ?thesis using less.prems assms(3) by (simp add: wait_slices.simps)
  next
    case False
    show ?thesis
      using False less.prems
      by (subst wait_slices.simps)
        (auto intro!: returns_timed [OF assms(1)] less.hyps assms(3))
  qed
qed

lemma returns_wait_with_cancel_timed:
  assumes "clock_advances P T" "t \<le> T (rn_world r)"
    and "\<And>ok r'. t \<le> T (rn_world r') \<Longrightarrow> Q ok r'"
  shows "returns (wait_with_cancel P step duration r) Q"
  unfolding wait_with_cancel_def
  by (auto intro!: returns_wait_slices_timed [OF assms(1,2)] returns_timed [OF assms(1)] assms(3))

lemma returns_topology_ready_timed:
  assumes "clock_advances P T" "t \<le> T (rn_world r)"
    and "\<And>ready r'. t \<le> T (rn_world r') \<Longrightarrow> Q ready r'"
  shows "returns (topology_ready P requested tgt allow r) Q"
  unfolding topology_ready_def using assms(2)
  by (auto intro!: returns_timed [OF assms(1)] assms(3) split: option.split)

lemma returns_ready_loop:
  assumes "clock_advances P T"
  shows "returns (ready_loop P requested tgt allow deadline r) (\<lambda>_ _. True)"
proof (induction "nat (deadline - T (rn_world r))" arbitrary: r rule: less_induct)
  case less
  show ?case
    by (subst ready_loop.simps)
      (auto intro!: returns_timed [OF assms, of "T (rn_world r)"] returns_clock_now_timed [OF assms]
        returns_topology_ready_timed [OF assms] returns_wait_with_cancel_timed [OF assms] less.hyps)
qed

lemma returns_wait_until_ready [returns_rules]:
  "clock_advances P T \<Longrightarrow> (\<And>ready r'. Q ready r') \<Longrightarrow> returns (wait_until_ready P requested tgt allow r) Q"
  unfolding wait_until_ready_def
  by (auto intro!: returns_rules intro: returns_mono [OF returns_ready_loop])

lemma returns_waits [returns_rules]:
  assumes "clock_advances P T"
  shows "(\<And>ok r'. Q ok r') \<Longrightarrow> returns (wait_slices P step remaining r) Q"
    and "(\<And>ok r'. Q ok r') \<Longrightarrow> returns (wait_with_cancel P step duration r) Q"
    and "(\<And>ready r'. Q' ready r') \<Longrightarrow> returns (topology_ready P requested tgt allow r) Q'"
  by (auto intro!: returns_wait_slices_timed [OF assms order_refl] returns_wait_with_cancel_timed [OF assms order_refl]
      returns_topology_ready_timed [OF assms order_refl])

lemma returns_recover_and_settle [returns_rules]:
  "clock_advances P T \<Longrightarrow> (\<And>ok r'. Q ok r') \<Longrightarrow> returns (recover_and_settle P r) Q"
  unfolding recover_and_settle_def recover_display_stack_def by (auto intro!: returns_rules)

definition boundary_returns :: "'w boundary \<Rightarrow> bool" where
  "boundary_returns boundary \<longleftrightarrow> (\<forall>b r. boundary = Some b \<longrightarrow> returns (b r) (\<lambda>_ _. True))"

lemma returns_arm_mutation_boundary [returns_rules]:
  "boundary_returns boundary \<Longrightarrow> (\<And>out' r'. Q out' r') \<Longrightarrow>
   returns (arm_mutation_boundary boundary reached out r) Q"
  by (auto simp: arm_mutation_boundary_def boundary_returns_def split: option.split
      intro: returns_mono)

lemma returns_activation_attempts [returns_rules]:
  assumes "clock_advances P T" "boundary_returns boundary" "\<And>out' r'. Q out' r'"
  shows "returns (activation_attempts P topology tgt boundary n reached out r) Q"
proof (induction n arbitrary: reached out r)
  case 0
  then show ?case by (simp add: assms(3))
next
  case (Suc n)
  then show ?case
    using assms
    by (auto simp: Let_def apply_topology_def unsettled_def intro!: returns_rules)
qed

lemma returns_transition_run [returns_rules]:
  assumes "clock_advances P T" "boundary_returns boundary" "\<And>out' r'. Q out' r'"
  shows "returns (transition_run P topology mode tgt boundary r) Q"
  unfolding transition_run_def validation_stage_def unsettled_def Let_def
  using assms by (auto intro!: returns_rules split: sum.split)

section \<open>Properties\<close>

lemma arm_boundary_ok:
  "pf_mutation_boundary P \<noteq> None \<Longrightarrow> boundary_ok False (Some (arm_durable_recovery_boundary P))"
proof (clarsimp simp: boundary_ok_def arm_durable_recovery_boundary_def, rule wp_call)
  fix r r' :: "'a run" and x
  assume "does r r' [C_ArmBoundary x]"
  then show "\<exists>es. does r r' es \<and> list_all is_arm es \<and> es \<noteq> []"
    by (intro exI [of _ "[C_ArmBoundary x]"]) simp
qed

lemma arm_boundary_returns: "boundary_returns (Some (arm_durable_recovery_boundary P))"
  by (auto simp: boundary_returns_def arm_durable_recovery_boundary_def intro!: returns_call
      split: option.split)

text \<open>
  C7: A topology transition is a safe transaction on every platform. It makes at most two
  activations; the recovery boundary is armed before the first call that can change the displays;
  after a cancellation it has seen it makes no such call; it reports that the displays may have
  changed whenever it made one; and it reports success only with a topology that is valid and has
  the requested target, or every device, listed as usable.
\<close>

theorem transition_is_safe:
  assumes "boundary_ok armed boundary"
    and "transition_run P topology mode tgt boundary r = Some (out, r')"
  shows "\<exists>es. rn_trace r' = rn_trace r @ es \<and>
     activations es \<le> 2 \<and>
     armed_first (boundary = None \<or> armed) es \<and>
     (sticky es \<longrightarrow> cancel_safe es) \<and>
     (mutated es \<longrightarrow> tto_display_may_have_changed out) \<and>
     (tto_status out = Status_Ok \<longrightarrow>
        (\<exists>t. tto_applied_topology out = Some t \<and> usable P topology tgt True t))"
proof -
  have "wp (transition_run P topology mode tgt boundary r) (\<lambda>out r'. \<exists>es. does r r' es \<and>
      transition_post P topology tgt (boundary = None \<or> armed) kMaxTopologyAttempts
        default_transition_outcome out es)"
    by (rule wp_transition_run [OF assms(1) refl]) blast
  from wpD [OF this assms(2)] show ?thesis
    by (auto simp: transition_post_def does_def kMaxTopologyAttempts_def)
qed

theorem transition_is_safe_witness:
  "\<exists>out r' es. transition_run sim_platform [[''B'']] StrictApply no_target
      (Some (arm_durable_recovery_boundary sim_platform)) (sim_run (ms 50) saved_a (\<lambda>_. None) True) =
      Some (out, r') \<and> rn_trace r' = es \<and> activations es \<le> 2 \<and> armed_first False es"
proof -
  let ?r = "sim_run (ms 50) saved_a (\<lambda>_. None) True"
  let ?b = "Some (arm_durable_recovery_boundary sim_platform)"
  have ok: "boundary_ok False ?b" by (rule arm_boundary_ok) (simp add: sim_platform_def)
  have "returns (transition_run sim_platform [[''B'']] StrictApply no_target ?b ?r) (\<lambda>_ _. True)"
    by (rule returns_transition_run [OF sim_clock_advances arm_boundary_returns]) simp
  then obtain out r' where "transition_run sim_platform [[''B'']] StrictApply no_target ?b ?r = Some (out, r')"
    by (auto simp: returns_def)
  with transition_is_safe [OF ok this] show ?thesis by (auto simp: sim_run_def)
qed

text \<open>
  A topology transition always returns, whatever Windows answers: every wait in it is bounded,
  as long as the steady clock advances between two readings and the boundary itself returns.
\<close>

theorem transition_returns:
  assumes "clock_advances P T" "boundary_returns boundary"
  shows "\<exists>out r'. transition_run P topology mode tgt boundary r = Some (out, r')"
  using returns_transition_run [OF assms, of "\<lambda>_ _. True" topology mode tgt r]
  by (auto simp: returns_def)

theorem transition_returns_witness:
  "\<exists>out r'. transition_run sim_platform [[''B'']] StructuralRestore no_target None
      (sim_run 0 saved_a (\<lambda>_. None) True) = Some (out, r')"
  by (rule transition_returns [OF sim_clock_advances]) (simp add: boundary_returns_def)

end
