(* ===== verification/Apply_Operation.thy ===== *)
theory Apply_Operation
  imports Topology_Transition
begin

text \<open>
  \<open>ApplyPolicy\<close>, \<open>ApplyOperation\<close> and \<open>VerificationOperation\<close> of \<open>operations.cpp\<close>. Log statements
  are left out.
\<close>

section \<open>The retry policy\<close>

definition kRetryBaseDelay :: time_ns where "kRetryBaseDelay = ms 500"
definition kMaxApplyAttempts :: int where "kMaxApplyAttempts = 3"
definition reset_cooldown :: time_ns where "reset_cooldown = ms 30000"

text \<open>The policy's state is \<open>last_reset_\<close>, zero before the first reset.\<close>

definition maybe_reset_virtual_display ::
  "time_ns \<Rightarrow> apply_status \<Rightarrow> bool \<Rightarrow> time_ns \<Rightarrow> policy_decision \<times> time_ns" where
  "maybe_reset_virtual_display now status virtual_display_requested last_reset =
     (if status \<noteq> Status_NeedsVirtualDisplayReset \<or> \<not> virtual_display_requested
      then (Policy_Proceed, last_reset)
      else if last_reset \<noteq> 0 \<and> now - last_reset < reset_cooldown then (Policy_Proceed, last_reset)
      else (Policy_ResetVirtualDisplay, now))"

definition clamp :: "int \<Rightarrow> int \<Rightarrow> int \<Rightarrow> int" where
  "clamp v lo hi = (if v < lo then lo else if hi < v then hi else v)"

definition retry_delay :: "int \<Rightarrow> time_ns" where
  "retry_delay attempt = kRetryBaseDelay * clamp attempt 1 kMaxApplyAttempts"

fun should_skip_tier :: "apply_status \<Rightarrow> bool" where
  "should_skip_tier Status_InvalidRequest = True"
| "should_skip_tier Status_Fatal = True"
| "should_skip_tier _ = False"

definition can_retry_apply :: "int \<Rightarrow> bool" where
  "can_retry_apply attempt \<longleftrightarrow> attempt < kMaxApplyAttempts"

section \<open>Monitor positions\<close>

definition kMinDisplayOrigin :: int where "kMinDisplayOrigin = -32768"
definition kMaxDisplayOrigin :: int where "kMaxDisplayOrigin = 32767"
definition kRepositionRetryInterval :: time_ns where "kRepositionRetryInterval = ms 200"
definition kMaxRepositionAttempts :: nat where "kMaxRepositionAttempts = 15"

text \<open>\<open>static_cast<int>\<close> reads the 32-bit width and height as signed values.\<close>

definition max_origin :: "u32 \<Rightarrow> int" where
  "max_origin extent = max kMinDisplayOrigin (kMaxDisplayOrigin - sint extent + 1)"

definition clamped_origin :: "resolution option \<Rightarrow> point \<Rightarrow> point" where
  "clamped_origin res p =
     (let mx = (case res of None \<Rightarrow> kMaxDisplayOrigin | Some s \<Rightarrow> max_origin (res_width s));
          my = (case res of None \<Rightarrow> kMaxDisplayOrigin | Some s \<Rightarrow> max_origin (res_height s))
      in \<lparr>pt_x = clamp (pt_x p) kMinDisplayOrigin mx, pt_y = clamp (pt_y p) kMinDisplayOrigin my\<rparr>)"

text \<open>One pass over the pending overrides: the ones to retry, or \<open>None\<close> when it was cancelled.\<close>

fun reposition_pass ::
  "'w platform \<Rightarrow> (device_id \<times> point) list \<Rightarrow> (device_id \<times> point) list \<Rightarrow> 'w run \<Rightarrow>
   ('w, (device_id \<times> point) list option) result" where
  "reposition_pass P [] next_pending r = Some (Some next_pending, r)"
| "reposition_pass P ((d, origin) # rest) next_pending r = do {
     (c, r) \<leftarrow> is_cancelled P r;
     if c then Some (None, r)
     else if d = [] then reposition_pass P rest next_pending r
     else do {
       (can, r) \<leftarrow> observe (pf_can_reposition_device P d) r;
       if \<not> can then reposition_pass P rest (next_pending @ [(d, origin)]) r
       else do {
         (res, r) \<leftarrow> observe (pf_get_display_resolution P d) r;
         (ok, r) \<leftarrow> set_display_origin P d (clamped_origin res origin) r;
         reposition_pass P rest (if ok then next_pending else next_pending @ [(d, origin)]) r
       }
     }
   }"

text \<open>The retry loop, with the number of attempts that are left.\<close>

fun reposition_attempts ::
  "'w platform \<Rightarrow> nat \<Rightarrow> (device_id \<times> point) list \<Rightarrow> 'w run \<Rightarrow> ('w, unit) result" where
  "reposition_attempts P 0 pending r = Some ((), r)"
| "reposition_attempts P (Suc left) pending r =
     (if pending = [] then Some ((), r)
      else do {
        (c, r) \<leftarrow> is_cancelled P r;
        if c then Some ((), r)
        else do {
          (next_pending, r) \<leftarrow> reposition_pass P pending [] r;
          case next_pending of
            None \<Rightarrow> Some ((), r)
          | Some next_pending \<Rightarrow>
              if next_pending = [] then Some ((), r)
              else if left = 0 then Some ((), r)
              else do {
                (_, r) \<leftarrow> sleep_for P kRepositionRetryInterval r;
                reposition_attempts P left next_pending r
              }
        }
      })"

definition apply_monitor_positions :: "'w platform \<Rightarrow> apply_request \<Rightarrow> 'w run \<Rightarrow> ('w, unit) result" where
  "apply_monitor_positions P request r =
     (if ar_monitor_positions request = [] then Some ((), r)
      else reposition_attempts P kMaxRepositionAttempts (ar_monitor_positions request) r)"

section \<open>Refresh rates\<close>

fun refresh_overrides ::
  "'w platform \<Rightarrow> single_display_configuration option \<Rightarrow> (device_id \<times> (u32 \<times> u32)) list \<Rightarrow> 'w run \<Rightarrow>
   ('w, unit) result" where
  "refresh_overrides P cfg [] r = Some ((), r)"
| "refresh_overrides P cfg ((d, (num, den)) # rest) r = do {
     (c, r) \<leftarrow> is_cancelled P r;
     if c then Some ((), r)
     else if d = [] \<or> num = 0 \<or> den = 0 then refresh_overrides P cfg rest r
     else if map_option cfg_device_id cfg = Some d then refresh_overrides P cfg rest r
     else do {
       (_, r) \<leftarrow> set_device_refresh_rate P d num den r;
       refresh_overrides P cfg rest r
     }
   }"

definition apply_refresh_rate_overrides :: "'w platform \<Rightarrow> apply_request \<Rightarrow> 'w run \<Rightarrow> ('w, unit) result" where
  "apply_refresh_rate_overrides P request r =
     refresh_overrides P (ar_configuration request) (ar_refresh_rate_overrides request) r"

definition set_refresh_rate :: "'w platform \<Rightarrow> device_id \<Rightarrow> u32 \<Rightarrow> u32 \<Rightarrow> 'w run \<Rightarrow> ('w, bool) result" where
  "set_refresh_rate P d num den r = set_device_refresh_rate P d num den r"

section \<open>APPLY\<close>

definition restore_baseline_after_failed_apply ::
  "'w platform \<Rightarrow> snapshot \<Rightarrow> 'w run \<Rightarrow> ('w, bool) result" where
  "restore_baseline_after_failed_apply P baseline r = do {
     (c, r) \<leftarrow> is_cancelled P r;
     if c \<or> \<not> pf_topology_is_valid P (snap_topology baseline) then Some (False, r)
     else do {
       (restore, r) \<leftarrow> transition_run P (snap_topology baseline) StructuralRestore no_target None r;
       if tto_status restore \<noteq> Status_Ok then Some (False, r)
       else do {
         (c, r) \<leftarrow> is_cancelled P r;
         if c then Some (False, r)
         else do {
           (c, r) \<leftarrow> is_cancelled P r;
           if c then Some (False, r)
           else do {
             (applied, r) \<leftarrow> apply_snapshot_settings P baseline r;
             if \<not> applied then Some (False, r)
             else do {
               (c, r) \<leftarrow> is_cancelled P r;
               if c then Some (False, r) else snapshot_matches_current P baseline r
             }
           }
         }
       }
     }
   }"

text \<open>The plan with the caller's topology, or a plan made up around it.\<close>

definition requested_plan :: "apply_request \<Rightarrow> single_display_configuration \<Rightarrow>
  apply_topology_plan option \<Rightarrow> apply_topology_plan option" where
  "requested_plan request cfg plan =
     (case ar_topology request of
        None \<Rightarrow> plan
      | Some t \<Rightarrow>
          Some (case plan of
                  Some p \<Rightarrow> p\<lparr>plan_topology := t\<rparr>
                | None \<Rightarrow>
                    \<lparr>plan_topology = t,
                     plan_target =
                       \<lparr>tgt_kind = (if cfg_device_id cfg = [] then Kind_DefaultPrimaryGroup
                                    else Kind_ExplicitDevice),
                        tgt_acceptable = (if cfg_device_id cfg = [] then {}
                                          else {cfg_device_id cfg})\<rparr>\<rparr>))"

text \<open>
  The local variable \<open>durable_recovery_armed\<close> is written by the closure handed to the transition;
  the transition reports what the closure returned, so its value afterwards is
  \<open>armed \<or> tto_durable_recovery_armed\<close>.
\<close>

definition ensure_durable_recovery :: "'w platform \<Rightarrow> bool \<Rightarrow> 'w run \<Rightarrow> ('w, bool) result" where
  "ensure_durable_recovery P armed r =
     (if armed then Some (True, r) else arm_durable_recovery_boundary P r)"

definition apply_boundary :: "'w platform \<Rightarrow> bool \<Rightarrow> 'w boundary" where
  "apply_boundary P armed =
     (case pf_mutation_boundary P of None \<Rightarrow> None | Some _ \<Rightarrow> Some (ensure_durable_recovery P armed))"

text \<open>The part of \<open>run\<close> that changes the settings, behind the arming of the guard.\<close>

definition apply_configuration_stage ::
  "'w platform \<Rightarrow> apply_request \<Rightarrow> single_display_configuration \<Rightarrow> snapshot \<Rightarrow> bool \<Rightarrow>
   apply_outcome \<Rightarrow> 'w run \<Rightarrow> ('w, apply_outcome) result" where
  "apply_configuration_stage P request cfg baseline have_baseline out r = do {
     (c, r) \<leftarrow> is_cancelled P r;
     if c then Some (out\<lparr>ao_status := Status_Fatal\<rparr>, r)
     else do {
       let out = out\<lparr>ao_display_may_have_changed := True\<rparr>;
       (status, r) \<leftarrow> apply_configuration P cfg r;
       let out = out\<lparr>ao_status := status\<rparr>;
       (c, r) \<leftarrow> is_cancelled P r;
       if c then Some (out\<lparr>ao_status := Status_Fatal\<rparr>, r)
       else do {
         (out, r) \<leftarrow>
           (if status = Status_Ok then do {
              (_, r) \<leftarrow> apply_monitor_positions P request r;
              (_, r) \<leftarrow> apply_refresh_rate_overrides P request r;
              Some (out, r)
            }
            else if have_baseline then do {
              (restored, r) \<leftarrow> restore_baseline_after_failed_apply P baseline r;
              Some (if restored then out\<lparr>ao_display_may_have_changed := False\<rparr> else out, r)
            }
            else Some (out, r));
         (c, r) \<leftarrow> is_cancelled P r;
         Some (if c then out\<lparr>ao_status := Status_Fatal\<rparr> else out, r)
       }
     }
   }"

text \<open>The part of \<open>run\<close> behind the cancellation check that follows the topology stage.\<close>

definition apply_settings_stage ::
  "'w platform \<Rightarrow> apply_request \<Rightarrow> single_display_configuration \<Rightarrow> snapshot \<Rightarrow> bool \<Rightarrow> bool \<Rightarrow>
   apply_outcome \<Rightarrow> 'w run \<Rightarrow> ('w, apply_outcome) result" where
  "apply_settings_stage P request cfg baseline have_baseline armed out r =
     (if \<not> ao_display_may_have_changed out \<and> pf_mutation_boundary P \<noteq> None
      then do {
        (a, r) \<leftarrow> ensure_durable_recovery P armed r;
        apply_configuration_stage P request cfg baseline have_baseline
          (out\<lparr>ao_durable_recovery_armed := a\<rparr>) r
      }
      else apply_configuration_stage P request cfg baseline have_baseline out r)"

text \<open>The part of \<open>run\<close> that has a plan: the topology stage, then the settings stage.\<close>

definition apply_planned ::
  "'w platform \<Rightarrow> apply_request \<Rightarrow> single_display_configuration \<Rightarrow> apply_topology_plan \<Rightarrow> snapshot \<Rightarrow>
   bool \<Rightarrow> bool \<Rightarrow> apply_outcome \<Rightarrow> 'w run \<Rightarrow> ('w, apply_outcome) result" where
  "apply_planned P request cfg plan baseline have_baseline already_armed out r = do {
     (tout, r) \<leftarrow> transition_run P (plan_topology plan) StrictApply (plan_target plan)
                    (apply_boundary P already_armed) r;
     let armed = (already_armed \<or> tto_durable_recovery_armed tout);
     let out = out\<lparr>ao_status := tto_status tout,
                   ao_display_may_have_changed := tto_display_may_have_changed tout,
                   ao_durable_recovery_armed := armed\<rparr>;
     if ao_status out \<noteq> Status_Ok then Some (out, r)
     else case tto_applied_topology tout of
       None \<Rightarrow> Some (out\<lparr>ao_status := Status_VerificationFailed\<rparr>, r)
     | Some applied \<Rightarrow> do {
         let out = out\<lparr>ao_resolved_target :=
                         resolve_configuration_target (plan_target plan) applied\<rparr>;
         if has_target (plan_target plan) \<and> ao_resolved_target out = None
         then Some (out\<lparr>ao_status := Status_VerificationFailed\<rparr>, r)
         else do {
           (c, r) \<leftarrow> is_cancelled P r;
           if c then Some (out\<lparr>ao_status := Status_Fatal\<rparr>, r)
           else apply_settings_stage P request cfg baseline have_baseline armed out r
         }
       }
   }"

definition apply_run :: "'w platform \<Rightarrow> apply_request \<Rightarrow> bool \<Rightarrow> 'w run \<Rightarrow> ('w, apply_outcome) result" where
  "apply_run P request already_armed r = do {
     let out = default_apply_outcome\<lparr>ao_virtual_display_requested := (ar_virtual_layout request \<noteq> None)\<rparr>;
     (c, r) \<leftarrow> is_cancelled P r;
     if c then Some (out\<lparr>ao_status := Status_Fatal\<rparr>, r)
     else case ar_configuration request of
       None \<Rightarrow> Some (out\<lparr>ao_status := Status_InvalidRequest\<rparr>, r)
     | Some cfg \<Rightarrow> do {
         (baseline, r) \<leftarrow> capture_snapshot P r;
         let have_baseline = (pf_topology_is_valid P (snap_topology baseline) \<and> snap_modes baseline \<noteq> []);
         (current, r) \<leftarrow> capture_topology P r;
         if \<not> pf_topology_is_valid P current then Some (out\<lparr>ao_status := Status_Retryable\<rparr>, r)
         else do {
           (prepared, r) \<leftarrow> prepare_staged_apply P current r;
           if \<not> prepared then Some (out\<lparr>ao_status := Status_Retryable\<rparr>, r)
           else do {
             let out = out\<lparr>ao_staged_state_prepared := True\<rparr>;
             (plan, r) \<leftarrow> observe (pf_compute_apply_topology_plan P cfg current) r;
             case requested_plan request cfg plan of
               None \<Rightarrow> Some (out\<lparr>ao_status := Status_InvalidRequest\<rparr>, r)
             | Some plan \<Rightarrow>
                 if \<not> pf_topology_is_valid P (plan_topology plan)
                 then Some (out\<lparr>ao_status := Status_InvalidRequest\<rparr>, r)
                 else apply_planned P request cfg plan baseline have_baseline already_armed out r
           }
         }
       }
   }"

section \<open>Verification\<close>

text \<open>The check of the primary device when the request prepares one.\<close>

fun any_primary :: "'w platform \<Rightarrow> device_id list \<Rightarrow> 'w run \<Rightarrow> ('w, bool) result" where
  "any_primary P [] r = Some (False, r)"
| "any_primary P (d # ds) r = do {
     (p, r) \<leftarrow> observe (pf_is_primary_device P d) r;
     if p then Some (True, r) else any_primary P ds r
   }"

definition primary_matches ::
  "'w platform \<Rightarrow> single_display_configuration \<Rightarrow> resolved_target option \<Rightarrow> 'w run \<Rightarrow> ('w, bool) result" where
  "primary_matches P cfg resolved r =
     (case resolved of
        None \<Rightarrow> if cfg_device_id cfg = [] then Some (True, r)
                else observe (pf_is_primary_device P (cfg_device_id cfg)) r
      | Some tgt \<Rightarrow>
          if rt_kind tgt = Kind_DefaultPrimaryGroup
          then any_primary P (sorted_list_of_set (rt_duplicates tgt)) r
          else if rt_representative tgt = [] then Some (False, r)
          else observe (pf_is_primary_device P (rt_representative tgt)) r)"

definition matches_requested_state ::
  "'w platform \<Rightarrow> apply_request \<Rightarrow> topology option \<Rightarrow> resolved_target option \<Rightarrow> 'w run \<Rightarrow>
   ('w, bool) result" where
  "matches_requested_state P request expected resolved r = do {
     (current, r) \<leftarrow>
       (if expected \<noteq> None \<or> resolved \<noteq> None
        then do { (t, r) \<leftarrow> capture_topology P r; Some (Some t, r) } else Some (None, r));
     if \<not> (case expected of None \<Rightarrow> True
            | Some e \<Rightarrow> (case current of None \<Rightarrow> False | Some t \<Rightarrow> pf_is_topology_same P e t))
     then Some (False, r)
     else if \<not> (case resolved of None \<Rightarrow> True
                 | Some tgt \<Rightarrow> (case current of None \<Rightarrow> False
                     | Some t \<Rightarrow> resolved_target_remains_active t tgt))
     then Some (False, r)
     else case ar_configuration request of
            None \<Rightarrow> Some (True, r)
          | Some cfg \<Rightarrow> do {
              (ok, r) \<leftarrow> observe (pf_configuration_matches P cfg resolved) r;
              if \<not> ok then Some (False, r)
              else if cfg_device_prep cfg \<noteq> EnsurePrimary then Some (True, r)
              else primary_matches P cfg resolved r
            }
   }"

definition verification_run ::
  "'w platform \<Rightarrow> apply_request \<Rightarrow> topology option \<Rightarrow> resolved_target option \<Rightarrow> 'w run \<Rightarrow>
   ('w, bool) result" where
  "verification_run P request expected resolved r = do {
     (c, r) \<leftarrow> is_cancelled P r;
     if c then Some (False, r)
     else do {
       (_, r) \<leftarrow> sleep_for P (ms 250) r;
       (c, r) \<leftarrow> is_cancelled P r;
       if c then Some (False, r)
       else do {
         (ok, r) \<leftarrow> matches_requested_state P request expected resolved r;
         if \<not> ok then Some (False, r)
         else do {
           (_, r) \<leftarrow> sleep_for P (ms 250) r;
           (c, r) \<leftarrow> is_cancelled P r;
           if c then Some (False, r) else matches_requested_state P request expected resolved r
         }
       }
     }
   }"

section \<open>The policy's promises\<close>

text \<open>The times of the resets a sequence of decisions makes.\<close>

fun reset_times :: "time_ns \<Rightarrow> (time_ns \<times> apply_status \<times> bool) list \<Rightarrow> time_ns list" where
  "reset_times last_reset [] = []"
| "reset_times last_reset ((now, status, requested) # calls) =
     (let (d, last_reset) = maybe_reset_virtual_display now status requested last_reset
      in if d = Policy_ResetVirtualDisplay then now # reset_times last_reset calls
         else reset_times last_reset calls)"

lemma reset_times_after:
  "\<forall>c \<in> set calls. fst c \<noteq> 0 \<Longrightarrow> last_reset \<noteq> 0 \<Longrightarrow>
   sorted_wrt (\<lambda>a b. reset_cooldown \<le> b - a) (last_reset # reset_times last_reset calls)"
proof (induction calls arbitrary: last_reset)
  case Nil
  then show ?case by simp
next
  case (Cons c calls)
  obtain now st rq where c: "c = (now, st, rq)" by (cases c)
  have cd: "0 < reset_cooldown" by (simp add: reset_cooldown_def)
  show ?case
  proof (cases "fst (maybe_reset_virtual_display now st rq last_reset) = Policy_ResetVirtualDisplay")
    case True
    then have m: "maybe_reset_virtual_display now st rq last_reset = (Policy_ResetVirtualDisplay, now)"
      and ge: "reset_cooldown \<le> now - last_reset"
      using Cons.prems by (auto simp: maybe_reset_virtual_display_def split: if_splits)
    have IH: "sorted_wrt (\<lambda>a b. reset_cooldown \<le> b - a) (now # reset_times now calls)"
      using Cons.prems c by (intro Cons.IH) auto
    have "reset_cooldown \<le> b - last_reset" if "b \<in> set (reset_times now calls)" for b
    proof -
      have "reset_cooldown \<le> b - now" using IH that by simp
      with ge cd show ?thesis by linarith
    qed
    with ge IH show ?thesis by (simp add: c m)
  next
    case False
    then have "snd (maybe_reset_virtual_display now st rq last_reset) = last_reset"
      by (auto simp: maybe_reset_virtual_display_def split: if_splits)
    with False Cons.IH [of last_reset] Cons.prems show ?thesis by (simp add: c split_beta)
  qed
qed

section \<open>What the settings stage does\<close>

text \<open>The calls of the position and refresh-rate overrides.\<close>

fun is_tweak :: "call \<Rightarrow> bool" where
  "is_tweak (C_SetOrigin _ p _) = (kMinDisplayOrigin \<le> pt_x p \<and> kMinDisplayOrigin \<le> pt_y p)"
| "is_tweak (C_SetRefreshRate _ n d _) = (n \<noteq> 0 \<and> d \<noteq> 0)"
| "is_tweak e = inert e"

fun is_set_origin :: "call \<Rightarrow> bool" where
  "is_set_origin (C_SetOrigin _ _ _) = True"
| "is_set_origin _ = False"

definition tweaks :: "nat \<Rightarrow> call list \<Rightarrow> bool" where
  "tweaks n es \<longleftrightarrow> list_all is_tweak es \<and> (sticky es \<longrightarrow> cancel_safe es) \<and>
     (mutated es \<longrightarrow> C_Cancelled False \<in> set es) \<and>
     length (filter is_set_origin es) \<le> n"

lemma clamped_origin_lower:
  "kMinDisplayOrigin \<le> pt_x (clamped_origin res p)" "kMinDisplayOrigin \<le> pt_y (clamped_origin res p)"
  by (auto simp: clamped_origin_def clamp_def max_origin_def kMinDisplayOrigin_def kMaxDisplayOrigin_def
      Let_def split: option.split)

lemma tweak_not_activation:
  "is_tweak e \<Longrightarrow> \<not> is_activation e \<and> \<not> is_arm e \<and> e \<noteq> C_PrepareStaged b \<and> e \<noteq> C_Apply c s"
  by (cases e) auto

lemma tweaks_facts:
  assumes "tweaks n es"
  shows "activations es = 0" "sticky es \<Longrightarrow> cancel_safe es" "C_PrepareStaged b \<notin> set es"
    "C_Apply c s \<notin> set es" "mutated es \<Longrightarrow> C_Cancelled False \<in> set es"
  using assms tweak_not_activation
  by (auto simp: tweaks_def list_all_iff activations_def filter_empty_conv)

lemma tweaks_append:
  "tweaks m a \<Longrightarrow> tweaks n b \<Longrightarrow> C_Cancelled True \<notin> set a \<Longrightarrow> m + n \<le> k \<Longrightarrow> tweaks k (a @ b)"
  by (auto simp: tweaks_def)

lemma wp_reposition_pass:
  assumes "\<And>res r' es. does r r' es \<Longrightarrow> tweaks (length pending) es \<Longrightarrow>
      (\<And>l. res = Some l \<Longrightarrow>
         length l \<le> length next_pending + length pending \<and> C_Cancelled True \<notin> set es) \<Longrightarrow> Q res r'"
  shows "wp (reposition_pass P pending next_pending r) Q"
  using assms
proof (induction pending arbitrary: next_pending r Q)
  case Nil
  have "Q (Some next_pending) r"
    by (rule Nil [of r "[]"]) (simp_all add: does_refl tweaks_def)
  then show ?case by simp
next
  case (Cons x rest)
  obtain d origin where x: "x = (d, origin)" by (cases x)
  have *: "wp (reposition_pass P rest next1 r1) Q"
    if d1: "does r r1 es1" and t1: "tweaks 1 es1" "C_Cancelled True \<notin> set es1"
      and l1: "length next1 \<le> Suc (length next_pending)" for next1 r1 es1
  proof (rule Cons.IH)
    fix res :: "(device_id \<times> point) list option" and r' es
    assume "does r1 r' es" "tweaks (length rest) es"
      "\<And>l. res = Some l \<Longrightarrow> length l \<le> length next1 + length rest \<and> C_Cancelled True \<notin> set es"
    then show "Q res r'"
      using l1 t1 tweaks_append [OF t1(1) _ t1(2)]
      by (intro Cons.prems [OF does_trans [OF d1]]) fastforce+
  qed
  show ?case
    using does_refl [of r]
    by (simp add: x set_display_origin_def)
      ((rule wp_rules, assumption | rule conjI impI allI | (rule *, assumption) |
        (rule Cons.prems, assumption) | (simp add: tweaks_def clamped_origin_lower; fail) | simp)+)
qed

lemma wp_reposition_attempts:
  assumes "\<And>r' es. does r r' es \<Longrightarrow> tweaks (n * length pending) es \<Longrightarrow> Q () r'"
  shows "wp (reposition_attempts P n pending r) Q"
  using assms
proof (induction n arbitrary: pending r Q)
  case 0
  have "Q () r" by (rule 0 [of r "[]"]) (simp_all add: does_refl tweaks_def)
  then show ?case by simp
next
  case (Suc n)
  have *: "wp (reposition_attempts P n next1 r1) Q"
    if d1: "does r r1 es1" and t1: "tweaks (length pending) es1" "C_Cancelled True \<notin> set es1"
      and l1: "length next1 \<le> length pending" for next1 r1 es1
  proof (rule Suc.IH)
    fix r' es
    assume d: "does r1 r' es" and t: "tweaks (n * length next1) es"
    have "length pending + n * length next1 \<le> Suc n * length pending"
      using l1 by simp
    then show "Q () r'"
      using tweaks_append [OF t1(1) t t1(2)] by (intro Suc.prems [OF does_trans [OF d1 d]])
  qed
  have **: "wp (reposition_pass P pending [] r1) (\<lambda>next1 r2. wp (case next1 of
            None \<Rightarrow> Some ((), r2)
          | Some next1 \<Rightarrow>
              if next1 = [] then Some ((), r2)
              else if n = 0 then Some ((), r2)
              else Option.bind (sleep_for P kRepositionRetryInterval r2)
                     (\<lambda>(_, r). reposition_attempts P n next1 r)) Q)"
    if d1: "does r r1 [C_Cancelled False]" for r1
  proof (rule wp_reposition_pass)
    fix res :: "(device_id \<times> point) list option" and r2 es
    assume d2: "does r1 r2 es" and t: "tweaks (length pending) es"
      and l: "\<And>l. res = Some l \<Longrightarrow>
        length l \<le> length ([] :: (device_id \<times> point) list) + length pending \<and> C_Cancelled True \<notin> set es"
    have d: "does r r2 (C_Cancelled False # es)" using does_trans [OF d1 d2] by simp
    have t': "tweaks (length pending) (C_Cancelled False # es)" using t by (simp add: tweaks_def)
    then have t'': "tweaks (Suc n * length pending) (C_Cancelled False # es)"
      by (auto simp: tweaks_def)
    show "wp (case res of
            None \<Rightarrow> Some ((), r2)
          | Some next1 \<Rightarrow>
              if next1 = [] then Some ((), r2)
              else if n = 0 then Some ((), r2)
              else Option.bind (sleep_for P kRepositionRetryInterval r2)
                     (\<lambda>(_, r). reposition_attempts P n next1 r)) Q"
    proof (cases res)
      case None
      then show ?thesis using Suc.prems [OF d t''] by simp
    next
      case (Some next1)
      have "wp (Option.bind (sleep_for P kRepositionRetryInterval r2)
                     (\<lambda>(_, r). reposition_attempts P n next1 r)) Q"
        using d l [OF Some] t'
        by simp (rule wp_rules, assumption, rule *, assumption, auto simp: tweaks_def)
      then show ?thesis using Some Suc.prems [OF d t''] by simp
    qed
  qed
  have "Q () r" by (rule Suc.prems [of r "[]"]) (simp_all add: does_refl tweaks_def)
  moreover have "Q () r1" if "does r r1 [C_Cancelled True]" for r1
    by (rule Suc.prems [OF that]) (simp add: tweaks_def)
  ultimately show ?case
    using does_refl [of r] **
    by simp (intro impI wp_rules, assumption, auto)
qed

lemma wp_apply_monitor_positions_from [wp_rules]:
  assumes "does r0 r es0"
    and "\<And>r' es. does r0 r' (es0 @ es) \<Longrightarrow>
      tweaks (kMaxRepositionAttempts * length (ar_monitor_positions request)) es \<Longrightarrow> Q () r'"
  shows "wp (apply_monitor_positions P request r) Q"
proof -
  have "Q () r" if "ar_monitor_positions request = []"
    using assms(1) assms(2) [of r "[]"] that by (simp add: tweaks_def)
  then show ?thesis
    unfolding apply_monitor_positions_def
    by (auto intro!: wp_reposition_attempts assms(2) does_trans [OF assms(1)])
qed

lemma wp_refresh_overrides:
  assumes "\<And>r' es. does r r' es \<Longrightarrow> tweaks 0 es \<Longrightarrow> Q () r'"
  shows "wp (refresh_overrides P cfg overrides r) Q"
  using assms
proof (induction overrides arbitrary: r Q)
  case Nil
  have "Q () r" by (rule Nil [of r "[]"]) (simp_all add: does_refl tweaks_def)
  then show ?case by simp
next
  case (Cons x rest)
  obtain d num den where x: "x = (d, (num, den))" by (cases x)
  have *: "wp (refresh_overrides P cfg rest r1) Q"
    if d1: "does r r1 es1" and t1: "tweaks 0 es1" "C_Cancelled True \<notin> set es1" for r1 es1
    by (rule Cons.IH) (blast intro: Cons.prems does_trans [OF d1] tweaks_append [OF t1(1) _ t1(2)])
  have "Q () r1" if "does r r1 [C_Cancelled True]" for r1
    by (rule Cons.prems [OF that]) (simp add: tweaks_def)
  then show ?case
    using does_refl [of r]
    by (simp add: x set_device_refresh_rate_def)
      ((rule wp_rules, assumption | rule conjI impI allI | (rule *, assumption) |
        (simp add: tweaks_def; fail) | simp)+)
qed

lemma wp_apply_refresh_rate_overrides_from [wp_rules]:
  assumes "does r0 r es0"
    and "\<And>r' es. does r0 r' (es0 @ es) \<Longrightarrow> tweaks 0 es \<Longrightarrow> Q () r'"
  shows "wp (apply_refresh_rate_overrides P request r) Q"
  unfolding apply_refresh_rate_overrides_def
  by (auto intro!: wp_refresh_overrides assms(2) does_trans [OF assms(1)])

text \<open>A restore of the baseline that was confirmed.\<close>

definition restored_tail :: "snapshot \<Rightarrow> call list" where
  "restored_tail baseline =
     [C_ApplySnapshotSettings baseline True, C_Cancelled False, C_MatchesCurrent baseline True]"

definition restore_post :: "snapshot \<Rightarrow> bool \<Rightarrow> call list \<Rightarrow> bool" where
  "restore_post baseline ok es \<longleftrightarrow>
     (sticky es \<longrightarrow> cancel_safe es) \<and> activations es \<le> 2 \<and>
     (ok \<longrightarrow> (\<exists>mid. es = mid @ restored_tail baseline))"

lemma wp_restore_baseline_from [wp_rules]:
  assumes "does r0 r es0"
    and "\<And>ok r' es. does r0 r' (es0 @ es) \<Longrightarrow> restore_post baseline ok es \<Longrightarrow> Q ok r'"
  shows "wp (restore_baseline_after_failed_apply P baseline r) Q"
proof -
  have base: "wp (restore_baseline_after_failed_apply P baseline r)
    (\<lambda>ok r'. \<exists>es. does r r' es \<and> restore_post baseline ok es)"
  proof -
    have *: "wp (transition_run P (snap_topology baseline) StructuralRestore no_target None r1) Q1"
      if d: "does r r1 [C_Cancelled False]"
        and q: "\<And>out r' es. does r r' (C_Cancelled False # es) \<Longrightarrow>
          sticky es \<longrightarrow> cancel_safe es \<Longrightarrow> activations es \<le> 2 \<Longrightarrow>
          tto_status out = Status_Ok \<Longrightarrow> sticky es \<longrightarrow> C_Cancelled True \<notin> set es \<Longrightarrow> Q1 out r'"
        and f: "\<And>out r' es. does r r' (C_Cancelled False # es) \<Longrightarrow>
          sticky es \<longrightarrow> cancel_safe es \<Longrightarrow> activations es \<le> 2 \<Longrightarrow>
          tto_status out \<noteq> Status_Ok \<Longrightarrow> Q1 out r'" for Q1 r1
    proof (rule wp_transition_run [OF _ refl])
      show "boundary_ok False None" by (simp add: boundary_ok_def)
      fix out r' es
      assume dd: "does r1 r' es" and
        t: "transition_post P (snap_topology baseline) no_target (None = None \<or> False)
           kMaxTopologyAttempts default_transition_outcome out es"
      have "does r r' (C_Cancelled False # es)" using does_trans [OF d dd] by simp
      then show "Q1 out r'"
        using q f t by (cases "tto_status out = Status_Ok") (auto simp: transition_post_def kMaxTopologyAttempts_def)
    qed
    show ?thesis
      unfolding restore_baseline_after_failed_apply_def
      using does_refl [of r]
      by (simp add: apply_snapshot_settings_def)
        ((rule wp_rules, assumption | rule conjI impI allI | (rule *, assumption) | 
          (rule exI, rule conjI, assumption, fastforce simp: restore_post_def restored_tail_def) | simp)+)
  qed
  then show ?thesis by (rule wp_mono) (auto intro: assms(2) does_trans [OF assms(1)])
qed

section \<open>The whole APPLY\<close>

lemma wp_ensure_durable_recovery_from [wp_rules]:
  assumes "does r0 r es0" "pf_mutation_boundary P \<noteq> None"
    and "\<And>a r' es. does r0 r' (es0 @ es) \<Longrightarrow> list_all is_arm es \<Longrightarrow> armed \<or> es \<noteq> [] \<Longrightarrow> Q a r'"
  shows "wp (ensure_durable_recovery P armed r) Q"
proof (cases armed)
  case True
  then show ?thesis using assms(1) assms(3) [of r "[]" True] by (simp add: ensure_durable_recovery_def)
next
  case False
  obtain b where b: "pf_mutation_boundary P = Some b" using assms(2) by auto
  have "wp (call b C_ArmBoundary r) Q"
    by (rule wp_call_from [OF assms(1)]) (rule assms(3), auto)
  then show ?thesis using False b by (simp add: ensure_durable_recovery_def arm_durable_recovery_boundary_def)
qed

lemma apply_boundary_ok: "boundary_ok armed (apply_boundary P armed)"
proof (cases "pf_mutation_boundary P")
  case (Some b)
  have "wp (ensure_durable_recovery P armed r)
      (\<lambda>x r'. \<exists>es. does r r' es \<and> list_all is_arm es \<and> (armed \<or> es \<noteq> []))" for r
    by (rule wp_ensure_durable_recovery_from [OF does_refl]) (auto simp: Some)
  then show ?thesis using Some by (simp add: boundary_ok_def apply_boundary_def)
qed (simp add: boundary_ok_def apply_boundary_def)

lemma apply_boundary_None [simp]: "apply_boundary P armed = None \<longleftrightarrow> pf_mutation_boundary P = None"
  by (simp add: apply_boundary_def split: option.split)

definition rolled_back :: "snapshot \<Rightarrow> call list \<Rightarrow> bool" where
  "rolled_back baseline es \<longleftrightarrow> (\<exists>mid c. es = mid @ restored_tail baseline @ [C_Cancelled c])"

lemma rolled_back_prefix: "rolled_back b es' \<Longrightarrow> rolled_back b (es @ es')"
  unfolding rolled_back_def by (metis append_assoc)

definition settings_post ::
  "single_display_configuration \<Rightarrow> snapshot \<Rightarrow> bool \<Rightarrow> apply_outcome \<Rightarrow> apply_outcome \<Rightarrow> call list \<Rightarrow> bool"
where
  "settings_post cfg baseline armed out0 out es \<longleftrightarrow>
     (sticky es \<longrightarrow> cancel_safe es) \<and> armed_first (ao_display_may_have_changed out0 \<or> armed) es \<and>
     activations es \<le> 2 \<and>
     (ao_display_may_have_changed out0 \<or> mutated es \<longrightarrow>
        ao_display_may_have_changed out \<or> rolled_back baseline es) \<and>
     (ao_display_may_have_changed out \<longrightarrow> ao_display_may_have_changed out0 \<or> mutated es) \<and>
     (ao_status out = Status_Ok \<longrightarrow>
        C_Apply cfg Status_Ok \<in> set es \<and> (sticky es \<longrightarrow> C_Cancelled True \<notin> set es)) \<and>
     ao_staged_state_prepared out = ao_staged_state_prepared out0"

lemma settings_post_cancelled:
  "armed_first (ao_display_may_have_changed out0 \<or> armed) es \<Longrightarrow> \<not> mutated es \<Longrightarrow> cancel_safe es \<Longrightarrow>
   activations es = 0 \<Longrightarrow> ao_status out = Status_Fatal \<Longrightarrow>
   ao_display_may_have_changed out = ao_display_may_have_changed out0 \<Longrightarrow>
   ao_staged_state_prepared out = ao_staged_state_prepared out0 \<Longrightarrow>
   settings_post cfg b armed out0 out es"
  by (simp add: settings_post_def)

text \<open>What the configuration call is followed by.\<close>

definition follow_up_post :: "apply_status \<Rightarrow> snapshot \<Rightarrow> apply_outcome \<Rightarrow> call list \<Rightarrow> bool" where
  "follow_up_post st baseline out es \<longleftrightarrow>
     (sticky es \<longrightarrow> cancel_safe es) \<and> activations es \<le> 2 \<and>
     (ao_display_may_have_changed out \<or> rolled_back baseline es) \<and>
     (ao_status out = Status_Ok \<longrightarrow> st = Status_Ok \<and> (sticky es \<longrightarrow> C_Cancelled True \<notin> set es))"

lemma follow_up_simps:
  "ao_display_may_have_changed out \<Longrightarrow> ao_status out = Status_Fatal \<Longrightarrow>
     follow_up_post st b out [C_Cancelled True]"
  "tweaks n e1 \<Longrightarrow> tweaks m e2 \<Longrightarrow> ao_display_may_have_changed out \<Longrightarrow>
     ao_status out = (if c then Status_Fatal else Status_Ok) \<Longrightarrow>
     follow_up_post Status_Ok b out (C_Cancelled False # e1 @ e2 @ [C_Cancelled c])"
  "st \<noteq> Status_Ok \<Longrightarrow> restore_post b ok e1 \<Longrightarrow> ao_display_may_have_changed out = (\<not> ok) \<Longrightarrow>
     ao_status out = (if c then Status_Fatal else st) \<Longrightarrow>
     follow_up_post st b out (C_Cancelled False # e1 @ [C_Cancelled c])"
  "st \<noteq> Status_Ok \<Longrightarrow> ao_display_may_have_changed out \<Longrightarrow>
     ao_status out = (if c then Status_Fatal else st) \<Longrightarrow>
     follow_up_post st b out [C_Cancelled False, C_Cancelled c]"
proof -
  show "st \<noteq> Status_Ok \<Longrightarrow> restore_post b ok e1 \<Longrightarrow> ao_display_may_have_changed out = (\<not> ok) \<Longrightarrow>
     ao_status out = (if c then Status_Fatal else st) \<Longrightarrow>
     follow_up_post st b out (C_Cancelled False # e1 @ [C_Cancelled c])"
    unfolding restore_post_def follow_up_post_def rolled_back_def
    by (auto intro: exI [of _ "C_Cancelled False # _"])
qed (auto simp: follow_up_post_def tweaks_facts)

lemma wp_apply_configuration_stage:
  assumes "\<And>out' r' es. does r r' es \<Longrightarrow>
      (es = [C_Cancelled True] \<and> out' = out\<lparr>ao_status := Status_Fatal\<rparr>) \<or>
      (\<exists>st es'. es = C_Cancelled False # C_Apply cfg st # es' \<and> follow_up_post st baseline out' es' \<and>
         ao_staged_state_prepared out' = ao_staged_state_prepared out) \<Longrightarrow> Q out' r'"
  shows "wp (apply_configuration_stage P request cfg baseline have_baseline out r) Q"
  unfolding apply_configuration_stage_def Let_def
  using does_refl [of r]
  by (simp add: apply_configuration_def)
    ((rule wp_rules, assumption | rule conjI impI allI | (rule assms, assumption) |
      (simp add: follow_up_simps; fail) | simp)+)

lemma armed_trace_follow_up:
  assumes "list_all is_arm a" "ao_display_may_have_changed out0 \<or> armed \<or> a \<noteq> []"
    and "follow_up_post st b out es" "ao_staged_state_prepared out = ao_staged_state_prepared out0"
  shows "settings_post cfg b armed out0 out (a @ C_Cancelled False # C_Apply cfg st # es)"
proof -
  have rb: "rolled_back b (a @ C_Cancelled False # C_Apply cfg st # es)" if "rolled_back b es"
    using rolled_back_prefix [OF that, of "a @ [C_Cancelled False, C_Apply cfg st]"] by simp
  have "ao_display_may_have_changed out0 \<or> armed \<or> list_ex is_arm a"
    using assms(2) arms_facts(7) [OF assms(1)] by blast
  then have af: "armed_first (ao_display_may_have_changed out0 \<or> armed) (a @ C_Cancelled False # C_Apply cfg st # es)"
    using arms_facts(6) [OF assms(1)] by auto
  show ?thesis
    using assms(3,4) rb af arms_facts [OF assms(1)]
    unfolding settings_post_def follow_up_post_def by simp blast
qed

lemma armed_trace_cancelled:
  assumes "list_all is_arm a" "ao_status out = Status_Fatal"
    "ao_display_may_have_changed out = ao_display_may_have_changed out0"
    "ao_staged_state_prepared out = ao_staged_state_prepared out0"
  shows "settings_post cfg b armed out0 out (a @ [C_Cancelled True])"
  using assms arms_facts [OF assms(1)] by (auto simp: settings_post_def)

lemma wp_apply_settings_stage_from [wp_rules]:
  assumes "does r0 r es0"
    and "\<And>out' r' es. does r0 r' (es0 @ es) \<Longrightarrow>
      settings_post cfg baseline (pf_mutation_boundary P = None \<or> armed) out out' es \<Longrightarrow> Q out' r'"
  shows "wp (apply_settings_stage P request cfg baseline have_baseline armed out r) Q"
proof -
  let ?A = "pf_mutation_boundary P = None \<or> armed"
  have step: "wp (apply_configuration_stage P request cfg baseline have_baseline out1 r1) Q"
    if d: "does r0 r1 (es0 @ a)" and a: "list_all is_arm a" "ao_display_may_have_changed out \<or> ?A \<or> a \<noteq> []"
      and o: "ao_display_may_have_changed out1 = ao_display_may_have_changed out"
        "ao_staged_state_prepared out1 = ao_staged_state_prepared out" for out1 r1 a
  proof (rule wp_apply_configuration_stage)
    fix out' r' es
    assume dd: "does r1 r' es" and
      "(es = [C_Cancelled True] \<and> out' = out1\<lparr>ao_status := Status_Fatal\<rparr>) \<or>
       (\<exists>st es'. es = C_Cancelled False # C_Apply cfg st # es' \<and> follow_up_post st baseline out' es' \<and>
          ao_staged_state_prepared out' = ao_staged_state_prepared out1)"
    then have "settings_post cfg baseline ?A out out' (a @ es)"
      using armed_trace_follow_up [OF a] armed_trace_cancelled [OF a(1)] o by auto
    moreover have "does r0 r' (es0 @ (a @ es))" using does_trans [OF d dd] by simp
    ultimately show "Q out' r'" by (rule assms(2) [rotated])
  qed
  show ?thesis
  proof (cases "\<not> ao_display_may_have_changed out \<and> pf_mutation_boundary P \<noteq> None")
    case True
    have "wp (ensure_durable_recovery P armed r) (\<lambda>a r. wp (apply_configuration_stage P request cfg
        baseline have_baseline (out\<lparr>ao_durable_recovery_armed := a\<rparr>) r) Q)"
      by (rule wp_ensure_durable_recovery_from [OF assms(1)]) (use True in \<open>auto intro!: step\<close>)
    then show ?thesis using True by (simp add: apply_settings_stage_def)
  next
    case False
    then show ?thesis
      using assms(1) by (auto simp: apply_settings_stage_def intro!: step [of r "[]"])
  qed
qed

definition apply_post ::
  "'w platform \<Rightarrow> apply_request \<Rightarrow> bool \<Rightarrow> apply_outcome \<Rightarrow> call list \<Rightarrow> bool" where
  "apply_post P request armed out es \<longleftrightarrow>
     (sticky es \<longrightarrow> cancel_safe es) \<and> armed_first armed es \<and> activations es \<le> 4 \<and>
     (mutated es \<longrightarrow> ao_display_may_have_changed out \<or>
        (\<exists>b mid c. es = [C_Cancelled False, C_Captured b] @ mid @ restored_tail b @ [C_Cancelled c])) \<and>
     (ao_staged_state_prepared out \<longleftrightarrow> C_PrepareStaged True \<in> set es) \<and>
     (ao_status out = Status_Ok \<longrightarrow>
        (\<exists>cfg. ar_configuration request = Some cfg \<and> C_Apply cfg Status_Ok \<in> set es) \<and>
        (sticky es \<longrightarrow> C_Cancelled True \<notin> set es))"

lemma apply_post_topology_only:
  assumes "transition_post P' topology tgt armed kMaxTopologyAttempts default_transition_outcome tout es"
    and "ao_status out \<noteq> Status_Ok" "ao_staged_state_prepared out"
    and "ao_display_may_have_changed out = tto_display_may_have_changed tout"
    and "c = [] \<or> c = [C_Cancelled True]"
  shows "apply_post P request armed out
     (C_Cancelled False # C_Captured b # C_CapturedTopology t # C_PrepareStaged True # C_Observe # es @ c)"
proof -
  have t: "mutated es \<longrightarrow> tto_display_may_have_changed tout" "sticky es \<longrightarrow> cancel_safe es"
    "armed_first armed es" "activations es \<le> 2"
    using assms(1) by (simp_all add: transition_post_def kMaxTopologyAttempts_def)
  from assms(5) show ?thesis
    by (rule disjE) (use t assms(2-4) in \<open>simp_all add: apply_post_def\<close>)
qed

lemma apply_post_settings:
  assumes t: "transition_post P' topology tgt armed kMaxTopologyAttempts default_transition_outcome tout es"
    and ok: "tto_status tout = Status_Ok"
    and s: "settings_post cfg b armed' out0 out es'"
    and a: "armed' \<Longrightarrow> armed \<or> list_ex is_arm es"
    and o: "ao_display_may_have_changed out0 = tto_display_may_have_changed tout"
      "ao_staged_state_prepared out0"
    and cfg: "ar_configuration request = Some cfg"
  shows "apply_post P request armed out
     (C_Cancelled False # C_Captured b # C_CapturedTopology t # C_PrepareStaged True # C_Observe # es @
        C_Cancelled False # es')"
    (is "apply_post _ _ _ _ ?es")
proof -
  have d: "tto_display_may_have_changed tout \<Longrightarrow> mutated es"
    using t ok by (auto simp: transition_post_def default_transition_outcome_def)
  have arm: "armed \<or> list_ex is_arm es" if "ao_display_may_have_changed out0 \<or> armed'"
    using that a o(1) d t armed_before_mutation by (auto simp: transition_post_def)
  have "armed_first (armed \<or> list_ex is_arm es) es'"
  proof (cases "armed \<or> list_ex is_arm es")
    case False
    then have "\<not> (ao_display_may_have_changed out0 \<or> armed')" using arm by blast
    moreover have "armed_first (ao_display_may_have_changed out0 \<or> armed') es'"
      using s by (simp add: settings_post_def)
    ultimately show ?thesis using False by simp
  qed simp
  then have 1: "armed_first armed ?es" using t by (simp add: transition_post_def)
  have 2: "activations ?es \<le> 4"
    using t s by (simp add: transition_post_def settings_post_def kMaxTopologyAttempts_def)
  have 3: "sticky ?es \<longrightarrow> cancel_safe ?es"
    using t s ok by (auto simp: transition_post_def settings_post_def)
  have 4: "ao_display_may_have_changed out \<or>
        (\<exists>b mid c. ?es = [C_Cancelled False, C_Captured b] @ mid @ restored_tail b @ [C_Cancelled c])"
    if "mutated ?es"
  proof -
    have "ao_display_may_have_changed out0 \<or> mutated es'"
      using that t o(1) by (auto simp: transition_post_def)
    then have "ao_display_may_have_changed out \<or> rolled_back b es'"
      using s by (auto simp: settings_post_def)
    then show ?thesis
    proof
      assume "rolled_back b es'"
      then obtain mid c where "es' = mid @ restored_tail b @ [C_Cancelled c]"
        by (auto simp: rolled_back_def)
      then have "?es = [C_Cancelled False, C_Captured b] @
          ([C_CapturedTopology t, C_PrepareStaged True, C_Observe] @ es @ C_Cancelled False # mid) @
          restored_tail b @ [C_Cancelled c]" by simp
      then show ?thesis by blast
    qed simp
  qed
  have 5: "ao_staged_state_prepared out \<longleftrightarrow> C_PrepareStaged True \<in> set ?es"
    using s o(2) by (simp add: settings_post_def)
  have 6: "C_Apply cfg Status_Ok \<in> set ?es \<and> (sticky ?es \<longrightarrow> C_Cancelled True \<notin> set ?es)"
    if "ao_status out = Status_Ok"
    using s that by (auto simp: settings_post_def)
  show ?thesis
    unfolding apply_post_def using 1 2 3 4 5 6 cfg by blast
qed

lemma wp_apply_planned:
  assumes d: "does r r1 [C_Cancelled False, C_Captured b, C_CapturedTopology t, C_PrepareStaged True, C_Observe]"
    and cfg: "ar_configuration request = Some cfg" and out: "ao_staged_state_prepared out"
    and post: "\<And>out r' es. does r r' es \<Longrightarrow>
      apply_post P request (pf_mutation_boundary P = None \<or> armed) out es \<Longrightarrow> Q out r'"
  shows "wp (apply_planned P request cfg plan b have_baseline armed out r1) Q"
proof -
  let ?A = "pf_mutation_boundary P = None \<or> armed"
  show ?thesis
    unfolding apply_planned_def Let_def wp_simps split_conv
  proof (rule wp_transition_run [OF apply_boundary_ok refl], unfold apply_boundary_None, goal_cases)
    case (1 tout r2 es)
    note d2 = 1(1) and t = 1(2)
    have d3: "does r r2 (C_Cancelled False # C_Captured b # C_CapturedTopology t # C_PrepareStaged True #
        C_Observe # es)"
      using does_trans [OF d d2] by simp
    have stop: "Q out' r2" if "ao_status out' \<noteq> Status_Ok" "ao_staged_state_prepared out'"
      "ao_display_may_have_changed out' = tto_display_may_have_changed tout" for out'
      by (rule post [OF _ apply_post_topology_only [OF t that, of "[]"]]) (use d3 in simp_all)
    have cancelled: "Q out' r3" if "does r r3 (C_Cancelled False # C_Captured b # C_CapturedTopology t #
        C_PrepareStaged True # C_Observe # es @ [C_Cancelled True])"
      "ao_status out' \<noteq> Status_Ok" "ao_staged_state_prepared out'"
      "ao_display_may_have_changed out' = tto_display_may_have_changed tout" for out' r3
      by (rule post [OF _ apply_post_topology_only [OF t that(2-4), of "[C_Cancelled True]"]]) (use that in simp_all)
    have settings: "wp (apply_settings_stage P request cfg b have_baseline
          (armed \<or> tto_durable_recovery_armed tout) out0 r3) Q"
      if dd: "does r r3 (C_Cancelled False # C_Captured b # C_CapturedTopology t #
        C_PrepareStaged True # C_Observe # es @ [C_Cancelled False])" and ok: "tto_status tout = Status_Ok"
        and o: "ao_display_may_have_changed out0 = tto_display_may_have_changed tout"
          "ao_staged_state_prepared out0" for out0 r3
    proof (rule wp_apply_settings_stage_from [OF dd])
      fix out' r' es'
      assume d4: "does r r' ((C_Cancelled False # C_Captured b # C_CapturedTopology t #
            C_PrepareStaged True # C_Observe # es @ [C_Cancelled False]) @ es')"
        and s: "settings_post cfg b (pf_mutation_boundary P = None \<or> armed \<or> tto_durable_recovery_armed tout)
          out0 out' es'"
      have "?A \<or> list_ex is_arm es" if "pf_mutation_boundary P = None \<or> armed \<or> tto_durable_recovery_armed tout"
        using that t by (auto simp: transition_post_def default_transition_outcome_def)
      from apply_post_settings [OF t ok s this o cfg] d4
      show "Q out' r'" by (intro post) simp_all
    qed
    show ?case
      using d3 out
      by (simp split: option.split)
        ((rule stop, simp_all; fail | rule conjI impI allI | (rule wp_is_cancelled_from, assumption) |
          (rule cancelled, simp_all; fail) | (rule settings, simp_all; fail) | simp)+)
  qed
qed

lemma wp_apply_run:
  assumes post: "\<And>out r' es. does r r' es \<Longrightarrow>
      apply_post P request (pf_mutation_boundary P = None \<or> armed) out es \<Longrightarrow> Q out r'"
  shows "wp (apply_run P request armed r) Q"
  unfolding apply_run_def Let_def
  using does_refl [of r]
  by (simp add: prepare_staged_apply_def split: option.split)
    ((rule wp_rules, assumption | rule conjI impI allI | (rule post, assumption, simp add: apply_post_def default_apply_outcome_def; fail) |
      (rule wp_apply_planned, (simp; fail)+, (rule post, assumption, assumption)) | simp)+)

section \<open>The operations return\<close>

lemma returns_reposition_pass [returns_rules]:
  "(\<And>res r'. Q res r') \<Longrightarrow> returns (reposition_pass P pending next_pending r) Q"
  by (induction pending arbitrary: next_pending r)
    (auto simp: set_display_origin_def intro!: returns_rules)

lemma returns_reposition_attempts [returns_rules]:
  "(\<And>r'. Q () r') \<Longrightarrow> returns (reposition_attempts P n pending r) Q"
  by (induction n arbitrary: pending r) (auto intro!: returns_rules split: option.split)

lemma returns_refresh_overrides [returns_rules]:
  "(\<And>r'. Q () r') \<Longrightarrow> returns (refresh_overrides P cfg overrides r) Q"
  by (induction overrides arbitrary: r) (auto simp: set_device_refresh_rate_def intro!: returns_rules)

lemma returns_ensure_durable_recovery [returns_rules]:
  "(\<And>a r'. Q a r') \<Longrightarrow> returns (ensure_durable_recovery P armed r) Q"
  unfolding ensure_durable_recovery_def arm_durable_recovery_boundary_def
  by (auto intro!: returns_rules split: option.split)

lemma apply_boundary_returns: "boundary_returns (apply_boundary P armed)"
  unfolding boundary_returns_def apply_boundary_def
  by (auto intro!: returns_rules split: option.splits)

lemma boundary_returns_None [intro!, simp]: "boundary_returns None"
  by (simp add: boundary_returns_def)

lemma returns_restore_baseline [returns_rules]:
  assumes "clock_advances P T" "\<And>ok r'. Q ok r'"
  shows "returns (restore_baseline_after_failed_apply P baseline r) Q"
  unfolding restore_baseline_after_failed_apply_def apply_snapshot_settings_def
  using assms by (auto intro!: returns_rules)

lemma returns_apply_configuration_stage [returns_rules]:
  assumes "clock_advances P T" "\<And>out r'. Q out r'"
  shows "returns (apply_configuration_stage P request cfg baseline hb out r) Q"
  unfolding apply_configuration_stage_def apply_configuration_def apply_monitor_positions_def
    apply_refresh_rate_overrides_def Let_def
  using assms by (auto intro!: returns_rules)

lemma returns_apply_settings_stage [returns_rules]:
  assumes "clock_advances P T" "\<And>out r'. Q out r'"
  shows "returns (apply_settings_stage P request cfg baseline hb armed out r) Q"
  unfolding apply_settings_stage_def using assms by (auto intro!: returns_rules)

lemma returns_apply_planned [returns_rules]:
  assumes "clock_advances P T" "\<And>out r'. Q out r'"
  shows "returns (apply_planned P request cfg plan baseline hb armed out r) Q"
  unfolding apply_planned_def Let_def
  using assms apply_boundary_returns by (auto intro!: returns_rules split: option.split)

lemma returns_apply_run [returns_rules]:
  assumes "clock_advances P T" "\<And>out r'. Q out r'"
  shows "returns (apply_run P request armed r) Q"
  unfolding apply_run_def Let_def prepare_staged_apply_def
  using assms by (auto intro!: returns_rules split: option.split)

lemma returns_any_primary [returns_rules]:
  "(\<And>ok r'. Q ok r') \<Longrightarrow> returns (any_primary P ds r) Q"
  by (induction ds arbitrary: r) (auto intro!: returns_rules)

lemma returns_matches_requested_state [returns_rules]:
  "(\<And>ok r'. Q ok r') \<Longrightarrow> returns (matches_requested_state P request expected resolved r) Q"
  unfolding matches_requested_state_def primary_matches_def
  by (auto intro!: returns_rules split: option.split)

lemma returns_verification_run [returns_rules]:
  "(\<And>ok r'. Q ok r') \<Longrightarrow> returns (verification_run P request expected resolved r) Q"
  unfolding verification_run_def by (auto intro!: returns_rules)

section \<open>What verification looks at\<close>

text \<open>A check that passed read an active layout that is the expected one and keeps the target.\<close>

definition checked :: "'w platform \<Rightarrow> topology option \<Rightarrow> resolved_target option \<Rightarrow> call list \<Rightarrow> bool" where
  "checked P expected resolved es \<longleftrightarrow> quiet es \<and> C_Sleep (ms 250) \<notin> set es \<and>
     (expected = None \<and> resolved = None \<or>
      (\<exists>t. C_CapturedTopology t \<in> set es \<and>
         (case expected of None \<Rightarrow> True | Some e \<Rightarrow> pf_is_topology_same P e t) \<and>
         (case resolved of None \<Rightarrow> True | Some tgt \<Rightarrow> resolved_target_remains_active t tgt)))"

lemma wp_any_primary_from [wp_rules]:
  assumes "does r0 r es0"
    and "\<And>ok r' n. does r0 r' (es0 @ replicate n C_Observe) \<Longrightarrow> Q ok r'"
  shows "wp (any_primary P ds r) Q"
  using assms
proof (induction ds arbitrary: r es0)
  case Nil
  then show ?case using Nil(2) [of r 0] by simp
next
  case (Cons d ds)
  have *: "does r0 r' (es0 @ replicate (Suc n) C_Observe) \<Longrightarrow> Q ok r'" for ok r' n
    by (rule Cons.prems(2))
  show ?case
    unfolding any_primary.simps
    using Cons.prems(1) *[of _ 0]
    by simp (rule wp_rules, assumption, auto intro!: Cons.IH simp: *)
qed

lemma quiet_replicate [simp]: "inert e \<Longrightarrow> quiet (replicate n e)"
  by (induction n) auto

lemma wp_matches_requested_state_from [wp_rules]:
  assumes "does r0 r es0"
    and "\<And>ok r' es. does r0 r' (es0 @ es) \<Longrightarrow> quiet es \<Longrightarrow>
      (ok \<Longrightarrow> checked P expected resolved es) \<Longrightarrow> Q ok r'"
  shows "wp (matches_requested_state P request expected resolved r) Q"
proof -
  have "wp (matches_requested_state P request expected resolved r)
    (\<lambda>ok r'. \<exists>es. does r r' es \<and> quiet es \<and> (ok \<longrightarrow> checked P expected resolved es))"
    unfolding matches_requested_state_def primary_matches_def
    using does_refl [of r]
    by (cases expected; cases resolved; simp split: option.split)
      ((rule wp_rules, assumption | rule conjI impI allI | 
        (rule exI, rule conjI, assumption, simp add: checked_def; fail) | simp)+)
  then show ?thesis by (rule wp_mono) (auto intro: assms(2) does_trans [OF assms(1)])
qed

section \<open>Properties\<close>

text \<open>
  C1: APPLY is a transaction on every platform. The recovery guard is armed before the first call
  that can change the displays; no such call follows a cancellation the operation has seen; if it
  made one, it either reports that the displays may have changed or has restored the layout it
  captured before anything else and read back a match; it reports success only if the settings
  backend accepted exactly the requested configuration and no cancellation was seen; and it reports
  the provisional backend state if and only if it prepared it.
\<close>

theorem apply_is_a_transaction:
  assumes "apply_run P request armed r = Some (out, r')"
  shows "\<exists>es. rn_trace r' = rn_trace r @ es \<and>
     armed_first (pf_mutation_boundary P = None \<or> armed) es \<and>
     (sticky es \<longrightarrow> cancel_safe es) \<and>
     (mutated es \<longrightarrow> ao_display_may_have_changed out \<or>
        (\<exists>b mid c. es = [C_Cancelled False, C_Captured b] @ mid @
           [C_ApplySnapshotSettings b True, C_Cancelled False, C_MatchesCurrent b True] @ [C_Cancelled c])) \<and>
     (ao_staged_state_prepared out \<longleftrightarrow> C_PrepareStaged True \<in> set es) \<and>
     (ao_status out = Status_Ok \<longrightarrow>
        (\<exists>cfg. ar_configuration request = Some cfg \<and> C_Apply cfg Status_Ok \<in> set es) \<and>
        (sticky es \<longrightarrow> C_Cancelled True \<notin> set es))"
proof -
  have "wp (apply_run P request armed r) (\<lambda>out r'. \<exists>es. does r r' es \<and>
      apply_post P request (pf_mutation_boundary P = None \<or> armed) out es)"
    by (rule wp_apply_run) blast
  from wpD [OF this assms] obtain es where
    d: "does r r' es" and p: "apply_post P request (pf_mutation_boundary P = None \<or> armed) out es"
    by blast
  then show ?thesis
    unfolding apply_post_def restored_tail_def does_def by (intro exI [of _ es]) simp
qed

definition sim_request :: apply_request where
  "sim_request = default_apply_request\<lparr>ar_configuration := Some
     \<lparr>cfg_device_id = ''B'', cfg_device_prep = EnsureActive, cfg_resolution = None,
      cfg_refresh_rate = None, cfg_hdr_state = None\<rparr>\<rparr>"

theorem apply_is_a_transaction_witness:
  "\<exists>out r'. apply_run sim_platform sim_request False (sim_run (ms 60000) saved_a (\<lambda>_. None) False) =
      Some (out, r') \<and> armed_first False (rn_trace r') \<and>
      (ao_staged_state_prepared out \<longleftrightarrow> C_PrepareStaged True \<in> set (rn_trace r'))"
proof -
  let ?r = "sim_run (ms 60000) saved_a (\<lambda>_. None) False"
  have "returns (apply_run sim_platform sim_request False ?r) (\<lambda>_ _. True)"
    by (rule returns_apply_run [OF sim_clock_advances]) simp
  then obtain out r' where "apply_run sim_platform sim_request False ?r = Some (out, r')"
    by (auto simp: returns_def)
  with apply_is_a_transaction [OF this] show ?thesis by (auto simp: sim_run_def sim_platform_def)
qed

text \<open>
  C6: APPLY always returns, whatever Windows answers: every retry and every wait in it is bounded, as
  long as the steady clock advances between two readings.
\<close>

theorem apply_returns:
  assumes "clock_advances P T"
  shows "\<exists>out r'. apply_run P request armed r = Some (out, r')"
  using returns_apply_run [OF assms, of "\<lambda>_ _. True" request armed r] by (auto simp: returns_def)

theorem apply_returns_witness:
  "\<exists>out r'. apply_run sim_platform sim_request True (sim_run 0 saved_a (\<lambda>_. None) True) = Some (out, r')"
  by (rule apply_returns [OF sim_clock_advances])



text \<open>
  The policy never asks for two resets of the virtual display within 30 seconds, whatever the
  sequence of outcomes it decides on, as long as the clock does not read exactly zero.
\<close>

theorem virtual_display_resets_are_spaced:
  assumes "\<forall>c \<in> set calls. fst c \<noteq> 0"
  shows "sorted_wrt (\<lambda>a b. reset_cooldown \<le> b - a) (reset_times 0 calls)"
proof (use assms in \<open>induction calls\<close>)
  case (Cons c calls)
  obtain now st rq where c: "c = (now, st, rq)" by (cases c)
  have "maybe_reset_virtual_display now st rq 0 =
      (if st \<noteq> Status_NeedsVirtualDisplayReset \<or> \<not> rq then (Policy_Proceed, 0)
       else (Policy_ResetVirtualDisplay, now))"
    by (simp add: maybe_reset_virtual_display_def)
  then show ?case
    using Cons reset_times_after [of calls now] by (simp add: c)
qed simp

theorem virtual_display_resets_are_spaced_witness:
  "sorted_wrt (\<lambda>a b. reset_cooldown \<le> b - a)
     (reset_times 0 [(5, Status_NeedsVirtualDisplayReset, True), (6, Status_NeedsVirtualDisplayReset, True),
        (ms 30000 + 5, Status_NeedsVirtualDisplayReset, True)]) \<and>
   reset_times 0 [(5, Status_NeedsVirtualDisplayReset, True), (6, Status_NeedsVirtualDisplayReset, True),
        (ms 30000 + 5, Status_NeedsVirtualDisplayReset, True)] = [5, ms 30000 + 5]"
  using virtual_display_resets_are_spaced [of "[(5, Status_NeedsVirtualDisplayReset, True),
      (6, Status_NeedsVirtualDisplayReset, True), (ms 30000 + 5, Status_NeedsVirtualDisplayReset, True)]"]
  by (simp add: ms_def maybe_reset_virtual_display_def reset_cooldown_def)

text \<open>
  The origin a monitor position is clamped to keeps the whole monitor inside the GDI virtual
  screen (from -32768 to 32767 in both directions), and an origin that already does is not changed,
  for every monitor size from one pixel to 65536.
\<close>

theorem clamped_origin_fits:
  assumes "0 < uint (res_width s)" "uint (res_width s) \<le> 65536"
    "0 < uint (res_height s)" "uint (res_height s) \<le> 65536"
  defines "fits \<equiv> \<lambda>p. -32768 \<le> pt_x p \<and> pt_x p + uint (res_width s) - 1 \<le> 32767 \<and>
    -32768 \<le> pt_y p \<and> pt_y p + uint (res_height s) - 1 \<le> 32767"
  shows "fits (clamped_origin (Some s) p) \<and> (fits p \<longrightarrow> clamped_origin (Some s) p = p)"
proof -
  have s: "sint (x :: u32) = uint x" if "uint x \<le> 65536" for x
    using that signed_take_bit_int_eq_self [of 31 "uint x"] order_trans [OF _ uint_ge_0, of "-2147483648" x]
    by (simp add: sint_uint)
  show ?thesis
    using assms(1-4) s [OF assms(2)] s [OF assms(4)]
    by (cases p) (auto simp: fits_def clamped_origin_def clamp_def max_origin_def kMinDisplayOrigin_def
        kMaxDisplayOrigin_def Let_def)
qed

theorem clamped_origin_fits_witness:
  "clamped_origin (Some \<lparr>res_width = 1920, res_height = 1080\<rparr>) \<lparr>pt_x = 40000, pt_y = 0\<rparr> =
     \<lparr>pt_x = 30848, pt_y = 0\<rparr> \<and>
   clamped_origin (Some \<lparr>res_width = 1920, res_height = 1080\<rparr>) \<lparr>pt_x = 100, pt_y = -7\<rparr> =
     \<lparr>pt_x = 100, pt_y = -7\<rparr>"
  using clamped_origin_fits [of "\<lparr>res_width = 1920, res_height = 1080\<rparr>" "\<lparr>pt_x = 100, pt_y = -7\<rparr>"]
  by (simp add: clamped_origin_def clamp_def max_origin_def kMinDisplayOrigin_def
      kMaxDisplayOrigin_def sint_uint signed_take_bit_int_eq_self)

text \<open>
  The monitor position loop ends after at most 15 tries for each override, always returns, and
  makes no call that changes the displays after a cancellation it has seen.
\<close>

theorem monitor_positions_bounded:
  "\<exists>r' es. apply_monitor_positions P request r = Some ((), r') \<and> rn_trace r' = rn_trace r @ es \<and>
     length (filter is_set_origin es) \<le> 15 * length (ar_monitor_positions request) \<and>
     list_all is_tweak es \<and> \<not> (sticky es \<and> \<not> cancel_safe es)"
proof -
  have "wp (apply_monitor_positions P request r) (\<lambda>_ r'. \<exists>es. does r r' es \<and>
      tweaks (kMaxRepositionAttempts * length (ar_monitor_positions request)) es)"
    by (rule wp_apply_monitor_positions_from [OF does_refl]) auto
  moreover have "returns (apply_monitor_positions P request r) (\<lambda>_ _. True)"
    unfolding apply_monitor_positions_def by (auto intro!: returns_rules)
  ultimately show ?thesis
    by (auto simp: returns_def wp_def does_def tweaks_def kMaxRepositionAttempts_def)
qed

text \<open>A width the display driver reports as zero is not handled: the bound leaves the screen.\<close>

lemma zero_extent_leaves_screen:
  "pt_x (clamped_origin (Some \<lparr>res_width = 0, res_height = 1080\<rparr>) \<lparr>pt_x = 40000, pt_y = 0\<rparr>) =
     kMaxDisplayOrigin + 1"
  by (simp add: clamped_origin_def clamp_def max_origin_def kMinDisplayOrigin_def kMaxDisplayOrigin_def)

end
