(* ===== verification/Recovery_Operation.thy ===== *)
theory Recovery_Operation
  imports Apply_Operation
begin

text \<open>
  \<open>RecoveryOperation\<close> and \<open>RecoveryValidationOperation\<close> of \<open>operations.cpp\<close>: the worker that puts
  the desktop back to a stored snapshot. Log statements are left out, the calls made only to fill
  them are kept. An exception of the storage (\<open>storage_load\<close> is \<open>None\<close>) ends the run.
\<close>

section \<open>Reading a settled desktop\<close>

definition kGoldenFallbackCompletionThreshold :: nat where "kGoldenFallbackCompletionThreshold = 3"
definition kStableDeadline :: time_ns where "kStableDeadline = ms 2000"
definition kStableInterval :: time_ns where "kStableInterval = ms 150"
definition kQuietDuration :: time_ns where "kQuietDuration = ms 750"

definition load_filtered :: "'w platform \<Rightarrow> snapshot_tier \<Rightarrow> 'w run \<Rightarrow> ('w, parsed_snapshot option) result" where
  "load_filtered P t r = do {
     (loaded, r) \<leftarrow> storage_load P t r;
     case loaded of
       None \<Rightarrow> Some (None, r)
     | Some loaded \<Rightarrow> do {
         (devices, r) \<leftarrow> observe (pf_enumerate P) r;
         Some (filter_loaded_snapshot loaded devices (rst_exclusions (get_restore_state r)), r)
       }
   }"

text \<open>The loop of \<open>read_stable_snapshot\<close>; \<open>prev\<close> is the capture of the pass before.\<close>

partial_function (option) stable_loop ::
  "'w platform \<Rightarrow> time_ns \<Rightarrow> time_ns \<Rightarrow> time_ns \<Rightarrow> snapshot option \<Rightarrow> 'w run \<Rightarrow>
   (snapshot option \<times> 'w run) option" where
  "stable_loop pf t0 deadline interval prev r =
     Option.bind (clock_now pf r) (\<lambda>(now, r).
     if \<not> now - t0 < deadline then Some (None, r)
     else Option.bind (is_cancelled pf r) (\<lambda>(c, r).
     if c then Some (None, r)
     else Option.bind (capture_snapshot pf r) (\<lambda>(cur, r).
     if (case prev of None \<Rightarrow> False
         | Some l \<Rightarrow> \<not> (snap_topology cur = [] \<and> snap_modes cur = []) \<and> pf_snapshot_same pf cur l)
     then Some (Some cur, r)
     else Option.bind (is_cancelled pf r) (\<lambda>(c, r).
     if c then Some (None, r)
     else Option.bind (sleep_for pf interval r) (\<lambda>(u, r).
       stable_loop pf t0 deadline interval (Some cur) r)))))"

definition read_stable_snapshot ::
  "'w platform \<Rightarrow> time_ns \<Rightarrow> time_ns \<Rightarrow> 'w run \<Rightarrow> ('w, snapshot option) result" where
  "read_stable_snapshot P deadline interval r = do {
     (t0, r) \<leftarrow> clock_now P r;
     stable_loop P t0 deadline interval None r
   }"

partial_function (option) quiet_loop ::
  "'w platform \<Rightarrow> time_ns \<Rightarrow> time_ns \<Rightarrow> time_ns \<Rightarrow> snapshot \<Rightarrow> 'w run \<Rightarrow> (bool \<times> 'w run) option" where
  "quiet_loop pf t0 duration interval base r =
     Option.bind (clock_now pf r) (\<lambda>(now, r).
     if \<not> now - t0 < duration then Some (True, r)
     else Option.bind (is_cancelled pf r) (\<lambda>(c, r).
     if c then Some (False, r)
     else Option.bind (read_stable_snapshot pf kStableDeadline kStableInterval r) (\<lambda>(cur, r).
     if (case cur of None \<Rightarrow> True | Some cur \<Rightarrow> \<not> pf_snapshot_same pf cur base) then Some (False, r)
     else Option.bind (is_cancelled pf r) (\<lambda>(c, r).
     if c then Some (False, r)
     else Option.bind (sleep_for pf interval r) (\<lambda>(u, r).
       quiet_loop pf t0 duration interval base r)))))"

definition quiet_period :: "'w platform \<Rightarrow> time_ns \<Rightarrow> time_ns \<Rightarrow> 'w run \<Rightarrow> ('w, bool) result" where
  "quiet_period P duration interval r = do {
     (base, r) \<leftarrow> read_stable_snapshot P kStableDeadline kStableInterval r;
     case base of
       None \<Rightarrow> Some (False, r)
     | Some base \<Rightarrow> do {
         (t0, r) \<leftarrow> clock_now P r;
         quiet_loop P t0 duration interval base r
       }
   }"

text \<open>
  The comparison \<open>confirm_matches\<close> and the closure \<open>verify_once\<close> share: a settled read that is the
  baseline, with the same rotations, followed by a quiet period.
\<close>

definition confirm_matches :: "'w platform \<Rightarrow> parsed_snapshot \<Rightarrow> 'w run \<Rightarrow> ('w, bool) result" where
  "confirm_matches P loaded r = do {
     (cur, r) \<leftarrow> read_stable_snapshot P kStableDeadline kStableInterval r;
     (c, r) \<leftarrow> is_cancelled P r;
     if c then Some (False, r)
     else do {
       (layout_ok, r) \<leftarrow>
         (if \<not> ps_has_layout_data loaded then Some (True, r)
          else current_layout_matches P (ps_layout_rotations loaded) r);
       if (case cur of None \<Rightarrow> False | Some cur \<Rightarrow> equal_snapshots_strict cur (ps_snapshot loaded)) \<and> layout_ok
       then quiet_period P kQuietDuration kStableInterval r
       else Some (False, r)
     }
   }"

section \<open>Applying a snapshot\<close>

definition apply_once :: "'w platform \<Rightarrow> parsed_snapshot \<Rightarrow> 'w run \<Rightarrow> ('w, bool) result" where
  "apply_once P loaded r = do {
     (out, r) \<leftarrow> transition_run P (snap_topology (ps_snapshot loaded)) StructuralRestore no_target None r;
     if tto_status out \<noteq> Status_Ok then Some (False, r)
     else do {
       (c, r) \<leftarrow> is_cancelled P r;
       if c then Some (False, r)
       else do {
         (ok, r) \<leftarrow> apply_snapshot_settings P (ps_snapshot loaded) r;
         if \<not> ok then Some (False, r)
         else do {
           (c, r) \<leftarrow> is_cancelled P r;
           if c then Some (False, r)
           else if ps_has_layout_data loaded \<and> ps_layout_rotations loaded \<noteq> []
           then do {
             (c, r) \<leftarrow> is_cancelled P r;
             if c then Some (False, r) else apply_layout_rotations P (ps_layout_rotations loaded) r
           }
           else Some (True, r)
         }
       }
     }
   }"

text \<open>
  The first capture only feeds a log line. \<open>verify_once\<close> differs from \<open>confirm_matches\<close> in what it
  logs only.
\<close>

definition apply_and_confirm :: "'w platform \<Rightarrow> parsed_snapshot \<Rightarrow> 'w run \<Rightarrow> ('w, bool) result" where
  "apply_and_confirm P loaded r = do {
     (before, r) \<leftarrow> capture_snapshot P r;
     (c, r) \<leftarrow> is_cancelled P r;
     if c then Some (False, r)
     else do {
       (ok, r) \<leftarrow> confirm_matches P loaded r;
       if ok then Some (True, r)
       else do {
         (c, r) \<leftarrow> is_cancelled P r;
         if c then Some (False, r)
         else do {
           (applied, r) \<leftarrow> apply_once P loaded r;
           (ok, r) \<leftarrow> (if applied then confirm_matches P loaded r else Some (False, r));
           if ok then Some (True, r)
           else do {
             (c, r) \<leftarrow> is_cancelled P r;
             if c then Some (False, r)
             else do {
               (waited, r) \<leftarrow> wait_with_cancel P (ms 50) (ms 700) r;
               if \<not> waited then Some (False, r)
               else do {
                 (ok, r) \<leftarrow> confirm_matches P loaded r;
                 if ok then Some (True, r)
                 else do {
                   (applied, r) \<leftarrow> apply_once P loaded r;
                   if applied then confirm_matches P loaded r else Some (False, r)
                 }
               }
             }
           }
         }
       }
     }
   }"

section \<open>Which snapshot to restore\<close>

definition steady_now_ms :: "'w platform \<Rightarrow> 'w run \<Rightarrow> ('w, int) result" where
  "steady_now_ms P r = do { (t, r) \<leftarrow> clock_now P r; Some (t div 1000000, r) }"

definition known_present_devices :: "'w platform \<Rightarrow> 'w run \<Rightarrow> ('w, device_id set) result" where
  "known_present_devices P r = do {
     (snap, r) \<leftarrow> capture_snapshot P r;
     (devices, r) \<leftarrow> observe (pf_enumerate P) r;
     let active = set (map (normalize_device_id \<circ> fst) (snap_modes snap));
     let enumerated = set (map (normalize_device_id \<circ> dev_id) (filter (\<lambda>d. dev_id d \<noteq> []) devices));
     let found = active \<union> enumerated;
     Some (if found = {} then set (map normalize_device_id (concat (snap_topology snap))) else found, r)
   }"

definition should_skip_golden :: "'w platform \<Rightarrow> snapshot \<Rightarrow> 'w run \<Rightarrow> ('w, bool) result" where
  "should_skip_golden P golden r = do {
     (now_ms, r) \<leftarrow> steady_now_ms P r;
     let last_ok = rst_last_session_restore_success_ms (get_restore_state r);
     if last_ok \<noteq> 0 \<and> now_ms - last_ok < 60000 then Some (True, r)
     else do {
       let golden_devices = set (map normalize_device_id (concat (snap_topology golden)));
       if golden_devices = {} then Some (True, r)
       else do {
         (present, r) \<leftarrow> known_present_devices P r;
         Some (\<not> golden_devices \<subseteq> present, r)
       }
     }
   }"

definition clear_session_snapshots_after_golden :: "'w platform \<Rightarrow> 'w run \<Rightarrow> ('w, unit) result" where
  "clear_session_snapshots_after_golden P r = do {
     (_, r) \<leftarrow> storage_remove P Tier_Current r;
     (_, r) \<leftarrow> storage_remove P Tier_Previous r;
     Some ((), r)
   }"

text \<open>
  The closures of \<open>run\<close> write the local \<open>restored\<close> and the reset flags of the outcome only when they
  succeed: they return the restored snapshot and whether the staged state could be reset.
\<close>

type_synonym restored = "snapshot \<times> bool"

definition try_golden :: "'w platform \<Rightarrow> 'w run \<Rightarrow> ('w, restored option) result" where
  "try_golden P r = do {
     (c, r) \<leftarrow> is_cancelled P r;
     if c then Some (None, r)
     else do {
       (golden, r) \<leftarrow> load_filtered P Tier_Golden r;
       case golden of
         None \<Rightarrow> Some (None, r)
       | Some golden \<Rightarrow> do {
           (skip, r) \<leftarrow> should_skip_golden P (ps_snapshot golden) r;
           if skip then Some (None, r)
           else do {
             (valid, r) \<leftarrow> observe (pf_validate_topology P (snap_topology (ps_snapshot golden))) r;
             if \<not> valid then Some (None, update_golden (gh_note_issue ''invalid_topology'') r)
             else do {
               (ok, r) \<leftarrow> apply_and_confirm P golden r;
               (c, r) \<leftarrow> is_cancelled P r;
               if ok
               then if c then Some (None, r)
                    else do {
                      (reset, r) \<leftarrow> reset_staged_apply_state P r;
                      (_, r) \<leftarrow> clear_session_snapshots_after_golden P r;
                      Some (Some (ps_snapshot golden, reset), update_golden gh_clear_status r)
                    }
               else if c then Some (None, r)
               else Some (None, update_golden (gh_note_issue ''restore_not_confirmed'') r)
             }
           }
         }
     }
   }"

text \<open>\<open>attempted\<close> is set once a usable snapshot was loaded.\<close>

definition try_session :: "'w platform \<Rightarrow> snapshot_tier \<Rightarrow> 'w run \<Rightarrow> ('w, bool \<times> restored option) result" where
  "try_session P t r = do {
     (loaded, r) \<leftarrow> load_filtered P t r;
     case loaded of
       None \<Rightarrow> Some ((False, None), r)
     | Some loaded \<Rightarrow>
         if \<not> pf_topology_is_valid P (snap_topology (ps_snapshot loaded)) then Some ((True, None), r)
         else do {
           (ok, r) \<leftarrow> apply_and_confirm P loaded r;
           if \<not> ok then Some ((True, None), r)
           else do {
             (c, r) \<leftarrow> is_cancelled P r;
             if c then Some ((True, None), r)
             else do {
               (reset, r) \<leftarrow> reset_staged_apply_state P r;
               (now_ms, r) \<leftarrow> steady_now_ms P r;
               Some ((True, Some (ps_snapshot loaded, reset)),
                     update_restore_state (\<lambda>st. st\<lparr>rst_last_session_restore_success_ms := now_ms\<rparr>) r)
             }
           }
         }
   }"

text \<open>The current snapshot, golden when the current one is missing, the previous one.\<close>

definition try_session_snapshots :: "'w platform \<Rightarrow> 'w run \<Rightarrow> ('w, bool \<times> restored option) result" where
  "try_session_snapshots P r = do {
     ((attempted_current, restored), r) \<leftarrow> try_session P Tier_Current r;
     if restored \<noteq> None then do { (_, r) \<leftarrow> storage_promote P r; Some ((False, restored), r) }
     else do {
       ((tried_golden, golden), r) \<leftarrow>
         (if rst_prefer_golden_if_current_missing (get_restore_state r) \<and> \<not> attempted_current then do {
            (previous, r) \<leftarrow> storage_exists P Tier_Previous r;
            if \<not> previous then Some ((False, None), r)
            else do {
              (has_golden, r) \<leftarrow> storage_exists P Tier_Golden r;
              if \<not> has_golden then Some ((False, None), r)
              else do { (g, r) \<leftarrow> try_golden P r; Some ((True, g), r) }
            }
          }
          else Some ((False, None), r));
       if golden \<noteq> None then Some ((tried_golden, golden), r)
       else do {
         ((attempted_previous, restored), r) \<leftarrow> try_session P Tier_Previous r;
         if restored \<noteq> None \<and> attempted_current
         then do { (_, r) \<leftarrow> storage_remove P Tier_Current r; Some ((tried_golden, restored), r) }
         else Some ((tried_golden, restored), r)
       }
     }
   }"

section \<open>The recovery\<close>

definition with_flags :: "restored \<Rightarrow> recovery_outcome \<Rightarrow> recovery_outcome" where
  "with_flags x out = out\<lparr>ro_staged_state_reset_attempted := True, ro_staged_state_reset_succeeded := snd x\<rparr>"

definition accepted :: "restored \<Rightarrow> recovery_outcome \<Rightarrow> recovery_outcome" where
  "accepted x out = (with_flags x out)\<lparr>ro_success := True, ro_snapshot := Some (fst x)\<rparr>"

definition set_pending_fallbacks :: "nat \<Rightarrow> 'w run \<Rightarrow> 'w run" where
  "set_pending_fallbacks n = update_restore_state (\<lambda>st. st\<lparr>rst_golden_pending_session_fallbacks := n\<rparr>)"

definition recovery_golden_first ::
  "'w platform \<Rightarrow> recovery_outcome \<Rightarrow> 'w run \<Rightarrow> ('w, recovery_outcome) result" where
  "recovery_golden_first P out r = do {
     (golden, r) \<leftarrow> try_golden P r;
     case golden of
       Some x \<Rightarrow> Some (accepted x out, set_pending_fallbacks 0 r)
     | None \<Rightarrow> do {
         ((_, restored), r) \<leftarrow> try_session_snapshots P r;
         case restored of
           None \<Rightarrow> Some (out, set_pending_fallbacks 0 r)
         | Some x \<Rightarrow> do {
             (pending, r) \<leftarrow> load_filtered P Tier_Golden r;
             if pending \<noteq> None then do {
               let count = rst_golden_pending_session_fallbacks (get_restore_state r) + 1;
               let r = set_pending_fallbacks count r;
               if count < kGoldenFallbackCompletionThreshold then Some (with_flags x out, r)
               else Some (accepted x out, set_pending_fallbacks 0 r)
             }
             else do {
               (_, r) \<leftarrow> register_unresolved P r;
               Some (accepted x out, set_pending_fallbacks 0 r)
             }
           }
       }
   }"

definition recovery_session_first ::
  "'w platform \<Rightarrow> recovery_outcome \<Rightarrow> 'w run \<Rightarrow> ('w, recovery_outcome) result" where
  "recovery_session_first P out r = do {
     ((tried_golden, restored), r) \<leftarrow> try_session_snapshots P r;
     case restored of
       Some x \<Rightarrow> do {
         (_, r) \<leftarrow> (if tried_golden then register_unresolved P r else Some ((), r));
         Some (accepted x out, set_pending_fallbacks 0 r)
       }
     | None \<Rightarrow>
         if tried_golden then Some (out, set_pending_fallbacks 0 r)
         else do {
           (golden, r) \<leftarrow> try_golden P r;
           Some (case golden of None \<Rightarrow> out | Some x \<Rightarrow> accepted x out, set_pending_fallbacks 0 r)
         }
   }"

definition recovery_run :: "'w platform \<Rightarrow> 'w run \<Rightarrow> ('w, recovery_outcome) result" where
  "recovery_run P r = do {
     (c, r) \<leftarrow> is_cancelled P r;
     if c then Some (default_recovery_outcome, r)
     else do {
       let out = default_recovery_outcome\<lparr>ro_display_may_have_changed := True\<rparr>;
       let r = update_restore_state (\<lambda>st. st\<lparr>rst_restore_attempted_unconfirmed := True\<rparr>) r;
       if rst_always_restore_from_golden (get_restore_state r) then recovery_golden_first P out r
       else recovery_session_first P out (set_pending_fallbacks 0 r)
     }
   }"

definition recovery_validation_run :: "'w platform \<Rightarrow> snapshot \<Rightarrow> 'w run \<Rightarrow> ('w, bool) result" where
  "recovery_validation_run P s r = do {
     (c, r) \<leftarrow> is_cancelled P r;
     if c then Some (False, r)
     else do {
       (_, r) \<leftarrow> sleep_for P (ms 250) r;
       (c, r) \<leftarrow> is_cancelled P r;
       if c then Some (False, r) else snapshot_matches_current P s r
     }
   }"

section \<open>What a confirmation has seen\<close>

text \<open>Two captures one after the other that the platform calls the same, the last one \<open>s\<close>.\<close>

definition reads_twice :: "'w platform \<Rightarrow> snapshot \<Rightarrow> call list \<Rightarrow> bool" where
  "reads_twice P s es \<longleftrightarrow>
     (\<exists>pre l mid. es = pre @ C_Captured l # mid @ [C_Captured s] \<and> quiet mid \<and>
        C_Sleep kStableInterval \<in> set mid \<and> pf_snapshot_same P s l)"

text \<open>
  A confirmation of a stored snapshot: a settled read that is strictly equal to it, the same
  rotations when it has any, no change of the displays since and no cancellation in between.
\<close>

definition confirmation :: "'w platform \<Rightarrow> parsed_snapshot \<Rightarrow> call list \<Rightarrow> bool" where
  "confirmation P loaded es \<longleftrightarrow>
     quiet es \<and> C_Cancelled True \<notin> set es \<and>
     (\<exists>cur e1 e2. es = e1 @ e2 \<and> reads_twice P cur e1 \<and>
        equal_snapshots_strict cur (ps_snapshot loaded) \<and>
        (ps_has_layout_data loaded \<longrightarrow> C_LayoutMatches (ps_layout_rotations loaded) True \<in> set e2))"

lemma reads_twice_prefix: "reads_twice P s es \<Longrightarrow> reads_twice P s (es0 @ es)"
  unfolding reads_twice_def by (metis append.assoc)

definition prev_read :: "snapshot option \<Rightarrow> call list" where
  "prev_read prev = (case prev of None \<Rightarrow> []
     | Some l \<Rightarrow> [C_Captured l, C_Cancelled False, C_Sleep kStableInterval])"

definition stable_post ::
  "'w platform \<Rightarrow> snapshot option \<Rightarrow> 'w run \<Rightarrow> snapshot option \<Rightarrow> 'w run \<Rightarrow> bool" where
  "stable_post P prev r cur r' \<longleftrightarrow>
     (\<exists>es. does r r' es \<and> quiet es \<and>
        (\<forall>s. cur = Some s \<longrightarrow> C_Cancelled True \<notin> set es \<and> reads_twice P s (prev_read prev @ es)))"

lemma stable_postI:
  "does r r' es \<Longrightarrow> quiet es \<Longrightarrow>
   (\<And>s. cur = Some s \<Longrightarrow> C_Cancelled True \<notin> set es \<and> reads_twice P s (prev_read prev @ es)) \<Longrightarrow>
   stable_post P prev r cur r'"
  by (auto simp: stable_post_def)

lemma stable_post_again:
  assumes "does r r1 ([C_Now t, C_Cancelled False, C_Captured l, C_Cancelled False, C_Sleep kStableInterval])"
    and "stable_post P (Some l) r1 cur r'"
  shows "stable_post P prev r cur r'"
proof -
  obtain es where es: "does r1 r' es" "quiet es"
    "\<forall>s. cur = Some s \<longrightarrow> C_Cancelled True \<notin> set es \<and> reads_twice P s (prev_read (Some l) @ es)"
    using assms(2) by (auto simp: stable_post_def)
  show ?thesis
  proof (rule stable_postI [OF does_trans [OF assms(1) es(1)]])
    fix s assume "cur = Some s"
    then have "C_Cancelled True \<notin> set es" "reads_twice P s (prev_read (Some l) @ es)" using es(3) by auto
    then show "C_Cancelled True \<notin> set ([C_Now t, C_Cancelled False, C_Captured l, C_Cancelled False,
        C_Sleep kStableInterval] @ es) \<and> reads_twice P s (prev_read prev @ [C_Now t, C_Cancelled False,
        C_Captured l, C_Cancelled False, C_Sleep kStableInterval] @ es)"
      using reads_twice_prefix [of P s "prev_read (Some l) @ es" "prev_read prev @ [C_Now t, C_Cancelled False]"]
      by (simp add: prev_read_def)
  qed (use es(2) in simp)
qed

lemma stable_post:
  "stable_loop P t0 deadline interval prev r = Some y \<Longrightarrow>
   interval = kStableInterval \<longrightarrow> stable_post P prev r (fst y) (snd y)"
proof (rule stable_loop.raw_induct
    [where P = "\<lambda>P t0 deadline interval prev r y. interval = kStableInterval \<longrightarrow> stable_post P prev r (fst y) (snd y)"])
  fix f :: "'a platform \<Rightarrow> time_ns \<Rightarrow> time_ns \<Rightarrow> time_ns \<Rightarrow> snapshot option \<Rightarrow> 'a run \<Rightarrow>
      (snapshot option \<times> 'a run) option"
    and P t0 deadline interval prev r y
  assume IH: "\<And>P t0 deadline interval prev r y. f P t0 deadline interval prev r = Some y \<Longrightarrow>
      interval = kStableInterval \<longrightarrow> stable_post P prev r (fst y) (snd y)"
  assume body: "Option.bind (clock_now P r) (\<lambda>(now, r).
     if \<not> now - t0 < deadline then Some (None, r)
     else Option.bind (is_cancelled P r) (\<lambda>(c, r).
     if c then Some (None, r)
     else Option.bind (capture_snapshot P r) (\<lambda>(cur, r).
     if (case prev of None \<Rightarrow> False
         | Some l \<Rightarrow> \<not> (snap_topology cur = [] \<and> snap_modes cur = []) \<and> pf_snapshot_same P cur l)
     then Some (Some cur, r)
     else Option.bind (is_cancelled P r) (\<lambda>(c, r).
     if c then Some (None, r)
     else Option.bind (sleep_for P interval r) (\<lambda>(u, r).
       f P t0 deadline interval (Some cur) r))))) = Some y"
  show "interval = kStableInterval \<longrightarrow> stable_post P prev r (fst y) (snd y)"
  proof
    assume i: "interval = kStableInterval"
    have f: "wp (f P t0 deadline interval (Some l) r1) (stable_post P prev r)"
      if "does r r1 [C_Now t, C_Cancelled False, C_Captured l, C_Cancelled False, C_Sleep kStableInterval]"
      for r1 t l
    proof (rule wpI)
      fix x r2 assume "f P t0 deadline interval (Some l) r1 = Some (x, r2)"
      from IH [OF this] show "stable_post P prev r x r2"
        using i by (auto intro: stable_post_again [OF that])
    qed
    have found: "stable_post P prev r (Some s) r1"
      if "does r r1 [C_Now t, C_Cancelled False, C_Captured s]"
        "case prev of None \<Rightarrow> False | Some l \<Rightarrow> \<not> (snap_topology s = [] \<and> snap_modes s = []) \<and>
           pf_snapshot_same P s l" for r1 t s
    proof (rule stable_postI [OF that(1)])
      fix s' assume s': "Some s = Some s'"
      note same = that(2)
      obtain l where l: "prev = Some l" "pf_snapshot_same P s l" using same by (cases prev) auto
      have "prev_read prev @ [C_Now t, C_Cancelled False, C_Captured s] =
          [] @ C_Captured l # [C_Cancelled False, C_Sleep kStableInterval, C_Now t, C_Cancelled False] @
          [C_Captured s]"
        by (simp add: prev_read_def l)
      then show "C_Cancelled True \<notin> set [C_Now t, C_Cancelled False, C_Captured s] \<and>
          reads_twice P s' (prev_read prev @ [C_Now t, C_Cancelled False, C_Captured s])"
        using l(2) s' unfolding reads_twice_def
        by (intro conjI exI [of _ "[]"] exI [of _ l]
            exI [of _ "[C_Cancelled False, C_Sleep kStableInterval, C_Now t, C_Cancelled False]"]) simp_all
    qed simp
    obtain cur r' where y: "y = (cur, r')" by (cases y)
    have "stable_post P prev r cur r'"
    proof (rule wpD [OF _ body [unfolded y]])
      have stop: "stable_post P prev r None r1" if "does r r1 es" "quiet es" for r1 es
        using that by (rule stable_postI) simp
      show "wp (Option.bind (clock_now P r) (\<lambda>(now, r).
         if \<not> now - t0 < deadline then Some (None, r)
         else Option.bind (is_cancelled P r) (\<lambda>(c, r).
         if c then Some (None, r)
         else Option.bind (capture_snapshot P r) (\<lambda>(cur, r).
         if (case prev of None \<Rightarrow> False
             | Some l \<Rightarrow> \<not> (snap_topology cur = [] \<and> snap_modes cur = []) \<and> pf_snapshot_same P cur l)
         then Some (Some cur, r)
         else Option.bind (is_cancelled P r) (\<lambda>(c, r).
         if c then Some (None, r)
         else Option.bind (sleep_for P interval r) (\<lambda>(u, r).
           f P t0 deadline interval (Some cur) r)))))) (stable_post P prev r)"
        using does_refl [of r]
        by simp ((rule wp_rules, assumption | rule conjI impI allI | (rule stop, assumption, simp; fail) |
            (rule found, (simp; fail), assumption) | (rule f, simp add: i; fail) | simp only: append_Nil append_Cons)+)
    qed
    then show "stable_post P prev r (fst y) (snd y)" by (simp add: y)
  qed
qed

lemma wp_read_stable_from [wp_rules]:
  assumes "does r0 r es0"
    and "\<And>cur r' es. does r0 r' (es0 @ es) \<Longrightarrow> quiet es \<Longrightarrow>
      (\<And>s. cur = Some s \<Longrightarrow> C_Cancelled True \<notin> set es \<and> reads_twice P s es) \<Longrightarrow> Q cur r'"
  shows "wp (read_stable_snapshot P deadline kStableInterval r) Q"
proof -
  have "wp (stable_loop P t0 deadline kStableInterval None r1) Q" if "does r0 r1 (es0 @ [C_Now t])" for r1 t t0
  proof (rule wpI)
    fix cur r' assume "stable_loop P t0 deadline kStableInterval None r1 = Some (cur, r')"
    from stable_post [OF this] obtain es where es: "does r1 r' es" "quiet es"
      "\<forall>s. cur = Some s \<longrightarrow> C_Cancelled True \<notin> set es \<and> reads_twice P s es"
      by (auto simp: stable_post_def prev_read_def)
    have "does r0 r' (es0 @ (C_Now t # es))" using does_trans [OF that es(1)] by simp
    moreover have "C_Cancelled True \<notin> set (C_Now t # es) \<and> reads_twice P s (C_Now t # es)"
      if "cur = Some s" for s
      using es(3) that reads_twice_prefix [of P s es "[C_Now t]"] by auto
    ultimately show "Q cur r'" using assms(2) [of r' "C_Now t # es" cur] es(2) by simp
  qed
  then show ?thesis
    unfolding read_stable_snapshot_def using assms(1) by simp (rule wp_rules, assumption)
qed

definition quiet_post :: "'w run \<Rightarrow> bool \<Rightarrow> 'w run \<Rightarrow> bool" where
  "quiet_post r ok r' \<longleftrightarrow> (\<exists>es. does r r' es \<and> quiet es \<and> (ok \<longrightarrow> C_Cancelled True \<notin> set es))"

lemma quiet_postI: "does r r' es \<Longrightarrow> quiet es \<Longrightarrow> (ok \<Longrightarrow> C_Cancelled True \<notin> set es) \<Longrightarrow> quiet_post r ok r'"
  by (auto simp: quiet_post_def)

lemma quiet_post:
  "quiet_loop P t0 duration interval base r = Some y \<Longrightarrow> quiet_post r (fst y) (snd y)"
proof (rule quiet_loop.raw_induct
    [where P = "\<lambda>P t0 duration interval base r y. quiet_post r (fst y) (snd y)"])
  fix f :: "'a platform \<Rightarrow> time_ns \<Rightarrow> time_ns \<Rightarrow> time_ns \<Rightarrow> snapshot \<Rightarrow> 'a run \<Rightarrow> (bool \<times> 'a run) option"
    and P t0 duration interval base r y
  assume IH: "\<And>P t0 duration interval base r y. f P t0 duration interval base r = Some y \<Longrightarrow>
      quiet_post r (fst y) (snd y)"
  assume body: "Option.bind (clock_now P r) (\<lambda>(now, r).
     if \<not> now - t0 < duration then Some (True, r)
     else Option.bind (is_cancelled P r) (\<lambda>(c, r).
     if c then Some (False, r)
     else Option.bind (read_stable_snapshot P kStableDeadline kStableInterval r) (\<lambda>(cur, r).
     if (case cur of None \<Rightarrow> True | Some cur \<Rightarrow> \<not> pf_snapshot_same P cur base) then Some (False, r)
     else Option.bind (is_cancelled P r) (\<lambda>(c, r).
     if c then Some (False, r)
     else Option.bind (sleep_for P interval r) (\<lambda>(u, r).
       f P t0 duration interval base r))))) = Some y"
  have f: "wp (f P t0 duration interval base r1) (quiet_post r)"
    if "does r r1 es" "quiet es" "C_Cancelled True \<notin> set es" for r1 es
  proof (rule wpI)
    fix ok r2 assume "f P t0 duration interval base r1 = Some (ok, r2)"
    from IH [OF this] show "quiet_post r ok r2"
      using that does_trans [OF that(1)] by (fastforce simp: quiet_post_def)
  qed
  have stop: "quiet_post r False r1" if "does r r1 es" "quiet es" for r1 es
    using that by (rule quiet_postI) simp
  obtain ok r' where y: "y = (ok, r')" by (cases y)
  have "quiet_post r ok r'"
    by (rule wpD [OF _ body [unfolded y]])
      (use does_refl [of r] in \<open>auto intro!: wp_rules intro: f stop quiet_postI split: option.splits\<close>)
  then show "quiet_post r (fst y) (snd y)" by (simp add: y)
qed

lemma wp_quiet_period_from [wp_rules]:
  assumes "does r0 r es0"
    and "\<And>ok r' es. does r0 r' (es0 @ es) \<Longrightarrow> quiet es \<Longrightarrow> (ok \<Longrightarrow> C_Cancelled True \<notin> set es) \<Longrightarrow> Q ok r'"
  shows "wp (quiet_period P duration interval r) Q"
proof -
  have "wp (quiet_loop P t0 duration interval base r1) Q"
    if "does r0 r1 (es0 @ es)" "quiet es" "C_Cancelled True \<notin> set es" for r1 es t0 base
  proof (rule wpI)
    fix ok r' assume "quiet_loop P t0 duration interval base r1 = Some (ok, r')"
    from quiet_post [OF this] obtain es' where "does r1 r' es'" "quiet es'" "ok \<longrightarrow> C_Cancelled True \<notin> set es'"
      by (auto simp: quiet_post_def)
    with that does_trans [OF that(1)] show "Q ok r'"
      by (intro assms(2) [of r' "es @ es'"]) auto
  qed
  note * = this
  show ?thesis
    unfolding quiet_period_def using assms(1)
    by simp (rule wp_rules, assumption, auto split: option.split intro!: wp_rules intro: * assms(2))
qed

lemma wp_confirm_matches_from [wp_rules]:
  assumes "does r0 r es0"
    and "\<And>ok r' es. does r0 r' (es0 @ es) \<Longrightarrow> quiet es \<Longrightarrow> (ok \<Longrightarrow> confirmation P loaded es) \<Longrightarrow> Q ok r'"
  shows "wp (confirm_matches P loaded r) Q"
proof -
  have conf: "confirmation P loaded (e1 @ C_Cancelled False # e2)"
    if "case cur of None \<Rightarrow> False | Some cur \<Rightarrow> equal_snapshots_strict cur (ps_snapshot loaded)"
      "\<And>s. cur = Some s \<Longrightarrow> C_Cancelled True \<notin> set e1 \<and> reads_twice P s e1"
      "quiet e1" "quiet e2" "C_Cancelled True \<notin> set e2"
      "ps_has_layout_data loaded \<longrightarrow> C_LayoutMatches (ps_layout_rotations loaded) True \<in> set e2"
    for e1 e2 cur
  proof (cases cur)
    case (Some s)
    then show ?thesis
      unfolding confirmation_def using that
      by (intro conjI exI [of _ s] exI [of _ e1] exI [of _ "C_Cancelled False # e2"]) auto
  qed (use that in simp)
  have "wp (confirm_matches P loaded r)
      (\<lambda>ok r'. \<exists>es. does r r' es \<and> quiet es \<and> (ok \<longrightarrow> confirmation P loaded es))"
    unfolding confirm_matches_def
    using does_refl [of r]
    by simp
      ((rule wp_rules, assumption | rule conjI impI allI |
        (rule exI, rule conjI, assumption, simp; fail) |
        (rule exI, rule conjI, assumption, rule conjI, (simp; fail), rule impI, simp, rule conf, assumption,
          simp_all; fail) | simp)+)
  then show ?thesis by (rule wp_mono) (auto intro: assms(2) does_trans [OF assms(1)])
qed

section \<open>What applying a snapshot does\<close>

definition once_post :: "bool \<Rightarrow> call list \<Rightarrow> bool" where
  "once_post ok es \<longleftrightarrow> (sticky es \<longrightarrow> cancel_safe es) \<and> untouched es \<and>
     (mutated es \<longrightarrow> C_Cancelled False \<in> set es)"

lemma wp_apply_once_from [wp_rules]:
  assumes "does r0 r es0"
    and "\<And>ok r' es. does r0 r' (es0 @ es) \<Longrightarrow> once_post ok es \<Longrightarrow> Q ok r'"
  shows "wp (apply_once P loaded r) Q"
proof -
  have base: "wp (apply_once P loaded r) (\<lambda>ok r'. \<exists>es. does r r' es \<and> once_post ok es)"
  proof -
    have *: "wp (transition_run P topology StructuralRestore no_target None r) Q1"
      if q: "\<And>out r' es. does r r' es \<Longrightarrow> sticky es \<longrightarrow> cancel_safe es \<Longrightarrow> untouched es \<Longrightarrow>
            mutated es \<longrightarrow> C_Cancelled False \<in> set es \<Longrightarrow>
            (tto_status out = Status_Ok \<Longrightarrow> sticky es \<longrightarrow> C_Cancelled True \<notin> set es) \<Longrightarrow> Q1 out r'"
      for Q1 topology
    proof (rule wp_transition_run [OF _ refl])
      show "boundary_ok False None" by (simp add: boundary_ok_def)
      fix out r' es
      assume "does r r' es" and
        "transition_post P topology no_target (None = None \<or> False) kMaxTopologyAttempts
           default_transition_outcome out es"
      then show "Q1 out r'" using q unfolding transition_post_def by blast
    qed
    show ?thesis
      unfolding apply_once_def apply_snapshot_settings_def apply_layout_rotations_def
      by simp
        ((rule *) | (rule wp_rules, assumption) | rule conjI impI allI |
          (rule exI, rule conjI, assumption, simp add: once_post_def; fail) |
          (rule exI, rule conjI, assumption, fastforce simp: once_post_def) | simp)+
  qed
  then show ?thesis by (rule wp_mono) (auto intro: assms(2) does_trans [OF assms(1)])
qed

text \<open>
  What applying and confirming leaves: nothing stored is touched, no display call follows a seen
  cancellation, and a success ends with a confirmation.
\<close>

definition confirmed_post :: "'w platform \<Rightarrow> parsed_snapshot \<Rightarrow> bool \<Rightarrow> call list \<Rightarrow> bool" where
  "confirmed_post P loaded ok es \<longleftrightarrow>
     (sticky es \<longrightarrow> cancel_safe es) \<and> untouched es \<and> (C_Cancelled False \<notin> set es \<longrightarrow> \<not> mutated es) \<and>
     (ok \<longrightarrow> (\<exists>e0 c. es = e0 @ c \<and> confirmation P loaded c))"

lemma confirmed_post_intros:
  "confirmation P loaded c \<Longrightarrow> quiet c \<Longrightarrow> sticky es0 \<longrightarrow> cancel_safe es0 \<Longrightarrow> untouched es0 \<Longrightarrow>
     C_Cancelled False \<in> set es0 \<Longrightarrow> confirmed_post P loaded True (es0 @ c)"
  "sticky es \<longrightarrow> cancel_safe es \<Longrightarrow> untouched es \<Longrightarrow> (C_Cancelled False \<notin> set es \<longrightarrow> \<not> mutated es) \<Longrightarrow>
     confirmed_post P loaded False es"
  by (auto simp: confirmed_post_def quiet_facts)

lemma wp_apply_and_confirm_from [wp_rules]:
  assumes "does r0 r es0"
    and "\<And>ok r' es. does r0 r' (es0 @ es) \<Longrightarrow> confirmed_post P loaded ok es \<Longrightarrow> Q ok r'"
  shows "wp (apply_and_confirm P loaded r) Q"
proof -
  have yes: "\<exists>es. does r r1 es \<and> confirmed_post P loaded True es"
    if "does r r1 (es0 @ c)" "confirmation P loaded c" "quiet c" "sticky es0 \<longrightarrow> cancel_safe es0"
      "untouched es0" "C_Cancelled False \<in> set es0" for r1 es0 c
    using that confirmed_post_intros(1) by blast
  have no: "\<exists>es. does r r1 es \<and> confirmed_post P loaded False es"
    if "does r r1 es" "sticky es \<longrightarrow> cancel_safe es" "untouched es"
      "C_Cancelled False \<notin> set es \<longrightarrow> \<not> mutated es" for r1 es
    using that confirmed_post_intros(2) by blast
  have final: "wp (confirm_matches P loaded r1) (\<lambda>ok r'. \<exists>es. does r r' es \<and> confirmed_post P loaded ok es)"
    if "does r r1 es" "sticky es \<longrightarrow> cancel_safe es" "untouched es" "C_Cancelled False \<in> set es" for r1 es
  proof (rule wp_confirm_matches_from [OF that(1)])
    fix ok r' c
    assume c: "does r r' (es @ c)" "quiet c" "ok \<Longrightarrow> confirmation P loaded c"
    show "\<exists>es. does r r' es \<and> confirmed_post P loaded ok es"
    proof (cases ok)
      case True
      then show ?thesis using yes [OF c(1) c(3) c(2) that(2-4)] by simp
    next
      case False
      then show ?thesis using no [OF c(1)] that c(2) by (simp add: quiet_facts)
    qed
  qed
  have "wp (apply_and_confirm P loaded r)
      (\<lambda>ok r'. \<exists>es. does r r' es \<and> confirmed_post P loaded ok es)"
    unfolding apply_and_confirm_def
    using does_refl [of r]
    by simp
      ((rule final, assumption, (auto simp: once_post_def quiet_facts)[3]; fail) | (rule wp_rules, assumption) |
        rule conjI impI allI | (rule no, assumption, (auto simp: once_post_def quiet_facts)[3]; fail) |
        (rule yes, assumption, blast, assumption, (auto simp: once_post_def quiet_facts)[3]; fail) | simp)+
  then show ?thesis by (rule wp_mono) (auto intro: assms(2) does_trans [OF assms(1)])
qed

section \<open>Whole recoveries\<close>

text \<open>
  \<open>goes r r' es\<close>: the run went from \<open>r\<close> to \<open>r'\<close> by the calls \<open>es\<close>; the number of pending golden
  fallbacks and the restore guard are unchanged, the other shared flags may change.
\<close>

definition pending_fallbacks :: "'w run \<Rightarrow> nat" where
  "pending_fallbacks r = rst_golden_pending_session_fallbacks (rn_restore_state r)"

definition restore_guard :: "'w run \<Rightarrow> bool" where
  "restore_guard r = rst_restore_attempted_unconfirmed (rn_restore_state r)"

definition goes :: "'w run \<Rightarrow> 'w run \<Rightarrow> call list \<Rightarrow> bool" where
  "goes r r' es \<longleftrightarrow> rn_trace r' = rn_trace r @ es \<and> pending_fallbacks r' = pending_fallbacks r \<and>
     restore_guard r' = restore_guard r"

lemma goes_refl: "goes r r []"
  by (simp add: goes_def)

lemma goes_does: "goes r r' es \<Longrightarrow> does r' r'' es' \<Longrightarrow> goes r r'' (es @ es')"
  by (simp add: goes_def does_def pending_fallbacks_def restore_guard_def)

lemma goes_trans: "goes r r' es \<Longrightarrow> goes r' r'' es' \<Longrightarrow> goes r r'' (es @ es')"
  by (simp add: goes_def)

named_theorems goes_rules \<open>weakest preconditions of the calls, for a whole recovery\<close>

lemma goes_call [goes_rules]:
  "goes r0 r es \<Longrightarrow> (\<And>x r'. goes r0 r' (es @ [ev x]) \<Longrightarrow> Q x r') \<Longrightarrow> wp (call f ev r) Q"
  by (rule wp_call) (blast intro: goes_does)

lemma goes_observe [goes_rules]:
  "goes r0 r es \<Longrightarrow> (\<And>x r'. goes r0 r' (es @ [C_Observe]) \<Longrightarrow> Q x r') \<Longrightarrow> wp (observe f r) Q"
  unfolding observe_def by (rule goes_call)

lemma goes_is_cancelled [goes_rules]:
  "goes r0 r es \<Longrightarrow> (\<And>c r'. goes r0 r' (es @ [C_Cancelled c]) \<Longrightarrow> Q c r') \<Longrightarrow> wp (is_cancelled P r) Q"
  unfolding is_cancelled_def by (rule goes_call)

lemma goes_clock_now [goes_rules]:
  "goes r0 r es \<Longrightarrow> (\<And>t r'. goes r0 r' (es @ [C_Now t]) \<Longrightarrow> Q t r') \<Longrightarrow> wp (clock_now P r) Q"
  unfolding clock_now_def by (rule goes_call)

lemma goes_capture_snapshot [goes_rules]:
  "goes r0 r es \<Longrightarrow> (\<And>s r'. goes r0 r' (es @ [C_Captured s]) \<Longrightarrow> Q s r') \<Longrightarrow> wp (capture_snapshot P r) Q"
  unfolding capture_snapshot_def by (rule goes_call)

lemma goes_storage [goes_rules]:
  "goes r0 r es \<Longrightarrow> (\<And>b r'. goes r0 r' (es @ [C_StorageRemove t b]) \<Longrightarrow> Q1 b r') \<Longrightarrow>
     wp (storage_remove P t r) Q1"
  "goes r0 r es \<Longrightarrow> (\<And>b r'. goes r0 r' (es @ [C_Observe]) \<Longrightarrow> Q2 b r') \<Longrightarrow> wp (storage_exists P t r) Q2"
  "goes r0 r es \<Longrightarrow> (\<And>b r'. goes r0 r' (es @ [C_ResetStaged b]) \<Longrightarrow> Q3 b r') \<Longrightarrow>
     wp (reset_staged_apply_state P r) Q3"
  unfolding storage_remove_def storage_exists_def observe_def reset_staged_apply_state_def
  by - (erule goes_call, blast)+

lemma goes_storage_load [goes_rules]:
  assumes "goes r0 r es" "\<And>x r'. goes r0 r' (es @ [C_Observe]) \<Longrightarrow> Q x r'"
  shows "wp (storage_load P t r) Q"
  using assms by (auto simp: storage_load_def wp_def goes_def pending_fallbacks_def restore_guard_def split: option.splits)

lemma goes_storage_promote [goes_rules]:
  assumes "goes r0 r es" "\<And>b r'. goes r0 r' (es @ [C_StoragePromote b]) \<Longrightarrow> Q b r'"
  shows "wp (storage_promote P r) Q"
  using assms by (auto simp: storage_promote_def wp_def goes_def pending_fallbacks_def restore_guard_def split: option.splits)

lemma goes_load_filtered [goes_rules]:
  assumes "goes r0 r es" "\<And>x r' es'. goes r0 r' (es @ es') \<Longrightarrow> quiet es' \<Longrightarrow> C_Cancelled True \<notin> set es' \<Longrightarrow> Q x r'"
  shows "wp (load_filtered P t r) Q"
proof -
  have "wp (load_filtered P t r) (\<lambda>_ r'. \<exists>es'. goes r r' es' \<and> quiet es' \<and> C_Cancelled True \<notin> set es')"
    unfolding load_filtered_def using goes_refl [of r]
    by (simp split: option.split) ((rule goes_rules, assumption) | rule conjI impI allI |
      (rule exI, rule conjI, assumption, simp; fail) | simp)+
  then show ?thesis by (rule wp_mono) (auto intro: assms(2) goes_trans [OF assms(1)])
qed

lemma goes_updates:
  "goes r0 r es \<Longrightarrow> goes r0 (update_golden f r) es"
  "goes r0 r es \<Longrightarrow> goes r0 (update_restore_state (\<lambda>st. st\<lparr>rst_last_session_restore_success_ms := n\<rparr>) r) es"
  by (simp_all add: goes_def pending_fallbacks_def restore_guard_def update_golden_def update_restore_state_def)

lemma goes_apply_and_confirm [goes_rules]:
  assumes "goes r0 r es"
    and "\<And>ok r' es'. goes r0 r' (es @ es') \<Longrightarrow> confirmed_post P loaded ok es' \<Longrightarrow> Q ok r'"
  shows "wp (apply_and_confirm P loaded r) Q"
proof (rule wp_apply_and_confirm_from [OF does_refl])
  fix ok r' es'
  assume "does r r' ([] @ es')" "confirmed_post P loaded ok es'"
  then show "Q ok r'" using assms(2) [OF goes_does [OF assms(1)]] by simp
qed

lemma goes_should_skip_golden [goes_rules]:
  assumes "goes r0 r es" "\<And>x r' es'. goes r0 r' (es @ es') \<Longrightarrow> quiet es' \<Longrightarrow> C_Cancelled True \<notin> set es' \<Longrightarrow> Q x r'"
  shows "wp (should_skip_golden P golden r) Q"
proof -
  have "wp (should_skip_golden P golden r)
      (\<lambda>_ r'. \<exists>es'. goes r r' es' \<and> quiet es' \<and> C_Cancelled True \<notin> set es')"
    unfolding should_skip_golden_def steady_now_ms_def known_present_devices_def Let_def
    using goes_refl [of r]
    by (simp split del: if_split cong: if_cong)
      ((rule goes_rules, assumption) | rule conjI impI allI |
      (rule exI, rule conjI, assumption, simp; fail) | simp)+
  then show ?thesis by (rule wp_mono) (auto intro: assms(2) goes_trans [OF assms(1)])
qed

text \<open>
  What an attempt leaves: a failed one has not touched anything stored; a successful one ends with
  the confirmation of the snapshot it reports, and everything stored it touches comes after it.
\<close>

definition restored_post :: "'w platform \<Rightarrow> restored \<Rightarrow> call list \<Rightarrow> bool" where
  "restored_post P x es \<longleftrightarrow>
     (\<exists>e0 loaded c e2. es = e0 @ c @ e2 \<and> untouched e0 \<and> confirmation P loaded c \<and>
        ps_snapshot loaded = fst x \<and> \<not> mutated e2 \<and> C_ResetStaged (snd x) \<in> set e2)"

definition attempt_post :: "'w platform \<Rightarrow> restored option \<Rightarrow> call list \<Rightarrow> bool" where
  "attempt_post P x es \<longleftrightarrow>
     (sticky es \<longrightarrow> cancel_safe es) \<and> (mutated es \<longrightarrow> C_Cancelled False \<in> set es) \<and>
     (case x of None \<Rightarrow> untouched es | Some x \<Rightarrow> restored_post P x es)"

lemma restored_postI:
  assumes "confirmed_post P loaded True es" "untouched e0" "\<not> mutated e2" "C_ResetStaged b \<in> set e2"
  shows "restored_post P (ps_snapshot loaded, b) (e0 @ es @ e2)"
proof -
  obtain e1 c where c: "es = e1 @ c" "confirmation P loaded c" using assms(1) by (auto simp: confirmed_post_def)
  then have "untouched e1" using assms(1) by (simp add: confirmed_post_def)
  then show ?thesis
    unfolding restored_post_def fst_conv snd_conv using c assms(2-4)
    by (intro exI [of _ "e0 @ e1"] exI [of _ loaded] exI [of _ c] exI [of _ e2]) simp
qed

lemma restored_post_extend:
  assumes "restored_post P x es" "untouched e0" "\<not> mutated e2"
  shows "restored_post P x (e0 @ es @ e2)"
proof -
  obtain a loaded c b where "es = a @ c @ b" "untouched a" "confirmation P loaded c"
    "ps_snapshot loaded = fst x" "\<not> mutated b" "C_ResetStaged (snd x) \<in> set b"
    using assms(1) by (auto simp: restored_post_def)
  then show ?thesis
    unfolding restored_post_def using assms(2,3)
    by (intro exI [of _ "e0 @ a"] exI [of _ loaded] exI [of _ c] exI [of _ "b @ e2"]) auto
qed

lemma attempt_postI_None:
  "sticky es \<longrightarrow> cancel_safe es \<Longrightarrow> mutated es \<longrightarrow> C_Cancelled False \<in> set es \<Longrightarrow> untouched es \<Longrightarrow>
   attempt_post P None es"
  by (simp add: attempt_post_def)

lemma confirmed_post_attempt_Some:
  "confirmed_post P loaded True es \<Longrightarrow> quiet e0 \<Longrightarrow> C_Cancelled True \<notin> set e0 \<Longrightarrow> \<not> mutated e2 \<Longrightarrow>
   C_ResetStaged b \<in> set e2 \<Longrightarrow> cancel_safe e2 \<Longrightarrow> attempt_post P (Some (ps_snapshot loaded, b)) (e0 @ es @ e2)"
  using restored_postI [of P loaded es e0 e2 b]
  by (auto simp: attempt_post_def confirmed_post_def quiet_facts)

lemma quiet_attempt: "quiet es \<Longrightarrow> attempt_post P None es"
  by (simp add: attempt_post_def quiet_facts)

lemma goes_try_golden [goes_rules]:
  assumes "goes r0 r es"
    and "\<And>x r' es'. goes r0 r' (es @ es') \<Longrightarrow> attempt_post P x es' \<Longrightarrow> Q x r'"
  shows "wp (try_golden P r) Q"
proof -
  have restored: "\<exists>es'. goes r r1 es' \<and> attempt_post P (Some (ps_snapshot loaded, b)) es'"
    if "confirmed_post P loaded ok es1" "ok" "quiet e1" "C_Cancelled True \<notin> set e1" "quiet e2" "C_Cancelled True \<notin> set e2"
      "goes r r1 (C_Cancelled False # e1 @ e2 @ C_Observe # es1 @
         [C_Cancelled False, C_ResetStaged b, C_StorageRemove Tier_Current b1, C_StorageRemove Tier_Previous b2])"
    for loaded ok es1 e1 e2 b b1 b2 r1
    by (rule exI, rule conjI, rule that(7))
      (use that confirmed_post_attempt_Some [of P loaded es1 "C_Cancelled False # e1 @ e2 @ [C_Observe]"
        "[C_Cancelled False, C_ResetStaged b, C_StorageRemove Tier_Current b1, C_StorageRemove Tier_Previous b2]" b]
       in simp)
  have "wp (try_golden P r) (\<lambda>x r'. \<exists>es'. goes r r' es' \<and> attempt_post P x es')"
    unfolding try_golden_def clear_session_snapshots_after_golden_def
    using goes_refl [of r]
    by (simp split: option.split)
      ((rule goes_rules, assumption) | rule conjI impI allI |
       (rule exI, rule conjI, (assumption | rule goes_updates, assumption), simp add: quiet_attempt; fail) |
       (rule exI, rule conjI, (assumption | rule goes_updates, assumption),
          auto simp: attempt_post_def confirmed_post_def quiet_facts; fail) |
       (rule restored, assumption, assumption, assumption, assumption, assumption, assumption,
          rule goes_updates, simp; fail) | simp)+
  then show ?thesis by (rule wp_mono) (auto intro: assms(2) goes_trans [OF assms(1)])
qed

lemma goes_try_session [goes_rules]:
  assumes "goes r0 r es"
    and "\<And>a x r' es'. goes r0 r' (es @ es') \<Longrightarrow> attempt_post P x es' \<Longrightarrow> Q (a, x) r'"
  shows "wp (try_session P t r) Q"
proof -
  have restored: "\<exists>es'. goes r r1 es' \<and> attempt_post P (Some (ps_snapshot loaded, b)) es'"
    if "confirmed_post P loaded ok es1" "ok" "quiet e1" "C_Cancelled True \<notin> set e1"
      "goes r r1 (e1 @ es1 @ [C_Cancelled False, C_ResetStaged b, C_Now n])"
    for loaded ok es1 e1 b n r1
    by (rule exI, rule conjI, rule that(5))
      (use that confirmed_post_attempt_Some [of P loaded es1 e1 "[C_Cancelled False, C_ResetStaged b, C_Now n]" b]
       in simp)
  have "wp (try_session P t r) (\<lambda>x r'. \<exists>es'. goes r r' es' \<and> attempt_post P (snd x) es')"
    unfolding try_session_def steady_now_ms_def
    using goes_refl [of r]
    by (simp split: option.split)
      ((rule goes_rules, assumption) | rule conjI impI allI |
       (rule exI, rule conjI, assumption, simp add: quiet_attempt; fail) |
       (rule exI, rule conjI, assumption,
          auto simp: attempt_post_def confirmed_post_def quiet_facts; fail) |
       (rule restored, assumption, assumption, assumption, assumption, rule goes_updates, simp; fail) | simp)+
  then show ?thesis by (rule wp_mono) (auto intro: assms(2) goes_trans [OF assms(1)])
qed

text \<open>Attempts one after the other.\<close>

lemma attempt_then:
  assumes "attempt_post P None e0" "attempt_post P x es"
  shows "attempt_post P x (e0 @ es)"
  using assms restored_post_extend [of P _ es e0 "[]"]
  by (cases x) (auto simp: attempt_post_def)

lemma attempt_cleanup:
  assumes "attempt_post P (Some x) es"
  shows "attempt_post P (Some x) (es @ [C_StoragePromote b])"
    and "attempt_post P (Some x) (es @ [C_StorageRemove t b])"
  using assms restored_post_extend [of P x es "[]" "[C_StoragePromote b]"]
    restored_post_extend [of P x es "[]" "[C_StorageRemove t b]"]
  by (auto simp: attempt_post_def)

lemma attempt_observe: "attempt_post P x es \<Longrightarrow> attempt_post P x (C_Observe # es)"
  using attempt_then [of P "[C_Observe]" x es] by (simp add: quiet_attempt)

lemma goes_try_session_snapshots [goes_rules]:
  assumes "goes r0 r es"
    and "\<And>a x r' es'. goes r0 r' (es @ es') \<Longrightarrow> attempt_post P x es' \<Longrightarrow> Q (a, x) r'"
  shows "wp (try_session_snapshots P r) Q"
proof -
  have "wp (try_session_snapshots P r) (\<lambda>x r'. \<exists>es'. goes r r' es' \<and> attempt_post P (snd x) es')"
    unfolding try_session_snapshots_def
    using goes_refl [of r]
    by (simp split: option.split del: split_paired_Ex split_paired_All)
      ((rule goes_rules, assumption) | rule conjI impI allI |
       (rule exI, rule conjI, assumption, (simp only: append_assoc append_Cons append_Nil)?,
         (assumption | rule attempt_observe | rule attempt_cleanup, assumption | rule attempt_then, assumption)+; fail) |
       (clarsimp simp del: split_paired_Ex split_paired_All))+
  then show ?thesis by (rule wp_mono) (auto intro: assms(2) goes_trans [OF assms(1)])
qed

lemma goes_register_unresolved [goes_rules]:
  assumes "goes r0 r es" "\<And>r' es'. goes r0 r' (es @ es') \<Longrightarrow> quiet es' \<Longrightarrow> C_Cancelled True \<notin> set es' \<Longrightarrow> Q () r'"
  shows "wp (register_unresolved P r) Q"
proof -
  have "wp (register_unresolved P r) (\<lambda>_ r'. \<exists>es'. goes r r' es' \<and> quiet es' \<and> C_Cancelled True \<notin> set es')"
    unfolding register_unresolved_def using goes_refl [of r]
    by simp ((rule goes_rules, assumption) |
      (rule exI, rule conjI, rule goes_updates, assumption, simp; fail) | simp)+
  then show ?thesis by (rule wp_mono) (auto intro: assms(2) goes_trans [OF assms(1)])
qed

lemma attempt_quiet:
  assumes "attempt_post P x es" "quiet q"
  shows "attempt_post P x (es @ q)"
  using assms restored_post_extend [of P _ es "[]" q]
  by (cases x) (auto simp: attempt_post_def quiet_facts)

text \<open>
  What a recovery that was not cancelled at once leaves: \<open>x\<close> is the snapshot it put back, if any;
  it is accepted, or it counts as a fallback while a golden snapshot is pending.
\<close>

definition recovery_post ::
  "'w platform \<Rightarrow> recovery_outcome \<Rightarrow> 'w run \<Rightarrow> recovery_outcome \<Rightarrow> 'w run \<Rightarrow> bool" where
  "recovery_post P out r out' r' \<longleftrightarrow>
     (\<exists>es x. rn_trace r' = rn_trace r @ es \<and> attempt_post P x es \<and> restore_guard r' = restore_guard r \<and>
        (case x of
           None \<Rightarrow> out' = out \<and> pending_fallbacks r' = 0
         | Some y \<Rightarrow>
             out' = accepted y out \<and> pending_fallbacks r' = 0 \<or>
             out' = with_flags y out \<and> pending_fallbacks r' = Suc (pending_fallbacks r) \<and>
               Suc (pending_fallbacks r) < kGoldenFallbackCompletionThreshold \<and>
               rst_always_restore_from_golden (rn_restore_state r)))"

lemma set_pending_fallbacks_simps [simp]:
  "rn_trace (set_pending_fallbacks n r) = rn_trace r"
  "pending_fallbacks (set_pending_fallbacks n r) = n"
  "restore_guard (set_pending_fallbacks n r) = restore_guard r"
  by (simp_all add: set_pending_fallbacks_def update_restore_state_def pending_fallbacks_def restore_guard_def)

lemma recovery_postI:
  "goes r r1 es \<Longrightarrow> attempt_post P x es \<Longrightarrow> x = None \<Longrightarrow> recovery_post P out r out (set_pending_fallbacks 0 r1)"
  "goes r r1 es \<Longrightarrow> attempt_post P x es \<Longrightarrow> x = Some y \<Longrightarrow>
     recovery_post P out r (accepted y out) (set_pending_fallbacks 0 r1)"
  "goes r r1 es \<Longrightarrow> attempt_post P x es \<Longrightarrow> x = Some y \<Longrightarrow>
     rst_always_restore_from_golden (rn_restore_state r) \<Longrightarrow>
     Suc (pending_fallbacks r1) < kGoldenFallbackCompletionThreshold \<Longrightarrow>
     recovery_post P out r (with_flags y out) (set_pending_fallbacks (Suc (pending_fallbacks r1)) r1)"
  unfolding recovery_post_def goes_def by (fastforce)+

lemma pending_eq: "rst_golden_pending_session_fallbacks (get_restore_state r) = pending_fallbacks r"
  by (simp add: get_restore_state_def pending_fallbacks_def)

lemma set_pending_twice [simp]: "set_pending_fallbacks m (set_pending_fallbacks n r) = set_pending_fallbacks m r"
  by (simp add: set_pending_fallbacks_def update_restore_state_def)

lemma wp_case_option:
  "wp (case x of None \<Rightarrow> m | Some y \<Rightarrow> f y) Q \<longleftrightarrow>
     (x = None \<longrightarrow> wp m Q) \<and> (\<forall>y. x = Some y \<longrightarrow> wp (f y) Q)"
  by (cases x) auto

lemma wp_recovery_golden_first:
  assumes "rst_always_restore_from_golden (rn_restore_state r)"
  shows "wp (recovery_golden_first P out r) (recovery_post P out r)"
  unfolding recovery_golden_first_def Let_def pending_eq
  using goes_refl [of r]
  by (simp add: wp_case_option split: option.split del: split_paired_Ex split_paired_All)
    ((rule goes_rules, assumption) | rule conjI impI allI |
     (rule recovery_postI, assumption, (unfold append_assoc append_Cons append_Nil)?,
       (assumption | (rule attempt_quiet, assumption, simp; fail) | rule attempt_then, assumption)+,
       (simp add: assms; fail)+) |
     (clarsimp simp add: wp_case_option simp del: split_paired_Ex split_paired_All split: option.split))+

lemma wp_recovery_session_first: "wp (recovery_session_first P out r) (recovery_post P out r)"
  unfolding recovery_session_first_def
  using goes_refl [of r]
  by (simp add: wp_case_option split: option.split del: split_paired_Ex split_paired_All)
    ((rule goes_rules, assumption) | rule conjI impI allI |
     (rule recovery_postI, assumption, (unfold append_assoc append_Cons append_Nil)?,
       (assumption | (rule attempt_quiet, assumption, simp; fail) | rule attempt_then, assumption)+,
       (simp; fail)) |
     (clarsimp simp add: wp_case_option simp del: split_paired_Ex split_paired_All split: option.split))+

section \<open>The recovery returns\<close>

text \<open>No load throws: the hypothesis that rules out a damaged snapshot file.\<close>

definition storage_total :: "'w platform \<Rightarrow> bool" where
  "storage_total P \<longleftrightarrow> (\<forall>t w. so_load_with_metadata (pf_storage P) t w \<noteq> None)"

lemma returns_stable_loop_timed:
  assumes "clock_advances P T" "t \<le> T (rn_world r)"
    and "\<And>cur r'. t \<le> T (rn_world r') \<Longrightarrow> Q cur r'"
  shows "returns (stable_loop P t0 deadline interval prev r) Q"
  using assms(2)
proof (induction "nat (t0 + deadline - T (rn_world r))" arbitrary: prev r rule: less_induct)
  case less
  have *: "returns (stable_loop P t0 deadline interval prev' r') Q"
    if "now \<le> T (rn_world r')" "T (rn_world r) < now" "now - t0 < deadline" for now r' prev'
    using that less.prems by (intro less.hyps) auto
  show ?case
    using less.prems
    by (subst stable_loop.simps)
      (auto intro!: returns_clock_now_timed [OF assms(1) order_refl] returns_timed [OF assms(1)] assms(3)
         intro: * split: option.split)
qed

lemma returns_read_stable_timed:
  assumes "clock_advances P T" "t \<le> T (rn_world r)" "\<And>cur r'. t \<le> T (rn_world r') \<Longrightarrow> Q cur r'"
  shows "returns (read_stable_snapshot P deadline interval r) Q"
  unfolding read_stable_snapshot_def using assms(2)
  by (auto intro!: returns_clock_now_timed [OF assms(1,2)] returns_stable_loop_timed [OF assms(1), of t] assms(3))

lemma returns_quiet_loop:
  assumes "clock_advances P T"
  shows "returns (quiet_loop P t0 duration interval base r) (\<lambda>_ _. True)"
proof (induction "nat (t0 + duration - T (rn_world r))" arbitrary: r rule: less_induct)
  case less
  have *: "returns (quiet_loop P t0 duration interval base r') (\<lambda>_ _. True)"
    if "now \<le> T (rn_world r')" "T (rn_world r) < now" "now - t0 < duration" for now r'
    using that by (intro less) auto
  show ?case
    by (subst quiet_loop.simps)
      (auto intro!: returns_clock_now_timed [OF assms order_refl] returns_timed [OF assms]
        returns_read_stable_timed [OF assms] intro: * split: option.split)
qed

lemma returns_confirming [returns_rules]:
  assumes "clock_advances P T"
  shows "(\<And>cur r'. Q1 cur r') \<Longrightarrow> returns (read_stable_snapshot P deadline interval r) Q1"
    and "(\<And>ok r'. Q2 ok r') \<Longrightarrow> returns (quiet_period P duration interval r) Q2"
    and "(\<And>ok r'. Q2 ok r') \<Longrightarrow> returns (confirm_matches P loaded r) Q2"
    and "(\<And>ok r'. Q2 ok r') \<Longrightarrow> returns (apply_once P loaded r) Q2"
    and "(\<And>ok r'. Q2 ok r') \<Longrightarrow> returns (apply_and_confirm P loaded r) Q2"
proof -
  have read: "returns (read_stable_snapshot P deadline interval r) Q1" if "\<And>cur r'. Q1 cur r'" for Q1 deadline interval r
    by (rule returns_read_stable_timed [OF assms order_refl]) (rule that)
  then show "(\<And>cur r'. Q1 cur r') \<Longrightarrow> returns (read_stable_snapshot P deadline interval r) Q1" .
  have quiet: "returns (quiet_period P duration interval r) Q2" if "\<And>ok r'. Q2 ok r'" for Q2 duration interval r
    unfolding quiet_period_def
    by (auto intro!: read returns_rules that intro: returns_mono [OF returns_quiet_loop [OF assms]] split: option.split)
  then show "(\<And>ok r'. Q2 ok r') \<Longrightarrow> returns (quiet_period P duration interval r) Q2" .
  have confirm: "returns (confirm_matches P loaded r) Q2" if "\<And>ok r'. Q2 ok r'" for Q2 r
    unfolding confirm_matches_def by (auto intro!: read quiet returns_rules that)
  then show "(\<And>ok r'. Q2 ok r') \<Longrightarrow> returns (confirm_matches P loaded r) Q2" .
  have once: "returns (apply_once P loaded r) Q2" if "\<And>ok r'. Q2 ok r'" for Q2 r
    unfolding apply_once_def apply_snapshot_settings_def apply_layout_rotations_def
    by (auto intro!: returns_transition_run [OF assms] returns_call returns_plain_calls that)
  then show "(\<And>ok r'. Q2 ok r') \<Longrightarrow> returns (apply_once P loaded r) Q2" .
  show "(\<And>ok r'. Q2 ok r') \<Longrightarrow> returns (apply_and_confirm P loaded r) Q2"
    unfolding apply_and_confirm_def by (auto intro!: confirm once returns_plain_calls returns_waits [OF assms])
qed

lemma returns_storage [returns_rules]:
  assumes "storage_total P"
  shows "(\<And>x r'. Q1 x r') \<Longrightarrow> returns (load_filtered P t r) Q1"
    and "(\<And>b r'. Q2 b r') \<Longrightarrow> returns (storage_promote P r) Q2"
  using assms
  by (auto simp: load_filtered_def storage_load_def storage_promote_def promote_current_to_previous_def
      storage_total_def Let_def split: option.split prod.split intro!: returns_rules)

lemma returns_recovery_calls [returns_rules]:
  "(\<And>b r'. Q1 b r') \<Longrightarrow> returns (storage_remove P t r) Q1"
  "(\<And>b r'. Q1 b r') \<Longrightarrow> returns (storage_exists P t r) Q1"
  "(\<And>b r'. Q1 b r') \<Longrightarrow> returns (reset_staged_apply_state P r) Q1"
  "(\<And>b r'. Q1 b r') \<Longrightarrow> returns (should_skip_golden P golden r) Q1"
  "(\<And>r'. Q2 () r') \<Longrightarrow> returns (register_unresolved P r) Q2"
  "(\<And>n r'. Q3 n r') \<Longrightarrow> returns (steady_now_ms P r) Q3"
  "(\<And>r'. Q2 () r') \<Longrightarrow> returns (clear_session_snapshots_after_golden P r) Q2"
  unfolding storage_remove_def storage_exists_def reset_staged_apply_state_def should_skip_golden_def
    register_unresolved_def steady_now_ms_def known_present_devices_def clear_session_snapshots_after_golden_def
    Let_def
  by (auto intro!: returns_rules)

lemma returns_try [returns_rules]:
  assumes "clock_advances P T" "storage_total P"
  shows "(\<And>x r'. Q1 x r') \<Longrightarrow> returns (try_golden P r) Q1"
    and "(\<And>x r'. Q2 x r') \<Longrightarrow> returns (try_session P t r) Q2"
    and "(\<And>x r'. Q2 x r') \<Longrightarrow> returns (try_session_snapshots P r) Q2"
proof -
  have golden: "returns (try_golden P r) Q1" if "\<And>x r'. Q1 x r'" for Q1 r
    unfolding try_golden_def using assms by (auto intro!: returns_rules that split: option.split)
  then show "(\<And>x r'. Q1 x r') \<Longrightarrow> returns (try_golden P r) Q1" .
  have session: "returns (try_session P t r) Q2" if "\<And>x r'. Q2 x r'" for Q2 t r
    unfolding try_session_def using assms by (auto intro!: returns_rules that split: option.split)
  then show "(\<And>x r'. Q2 x r') \<Longrightarrow> returns (try_session P t r) Q2" .
  show "(\<And>x r'. Q2 x r') \<Longrightarrow> returns (try_session_snapshots P r) Q2"
    unfolding try_session_snapshots_def
    using assms by (auto intro!: golden session returns_rules split: option.split)
qed

lemma returns_recovery_run [returns_rules]:
  assumes "clock_advances P T" "storage_total P" "\<And>out r'. Q out r'"
  shows "returns (recovery_run P r) Q"
  unfolding recovery_run_def recovery_golden_first_def recovery_session_first_def Let_def
  using assms by (auto intro!: returns_rules split: option.split)

lemma returns_recovery_validation_run [returns_rules]:
  "(\<And>ok r'. Q ok r') \<Longrightarrow> returns (recovery_validation_run P s r) Q"
  unfolding recovery_validation_run_def by (auto intro!: returns_rules)

section \<open>Properties\<close>

lemma recovery_post_flags:
  "recovery_post P out r out' r' \<Longrightarrow> ro_display_may_have_changed out \<Longrightarrow> restore_guard r \<Longrightarrow>
     ro_display_may_have_changed out' \<and> restore_guard r'"
  by (auto simp: recovery_post_def accepted_def with_flags_def split: option.splits)

text \<open>What holds past the first token check, whichever way the recovery goes.\<close>

definition run_post :: "'w platform \<Rightarrow> 'w run \<Rightarrow> recovery_outcome \<Rightarrow> 'w run \<Rightarrow> bool" where
  "run_post P r out r' \<longleftrightarrow> (\<exists>c r1. rn_trace r1 = rn_trace r @ [C_Cancelled c] \<and>
     rn_restore_state r1 = (rn_restore_state r)\<lparr>rst_restore_attempted_unconfirmed :=
       \<not> c \<or> restore_guard r\<rparr> \<and>
     (if c then out = default_recovery_outcome \<and> r' = r1
      else recovery_post P (default_recovery_outcome\<lparr>ro_display_may_have_changed := True\<rparr>)
             (if rst_always_restore_from_golden (rn_restore_state r) then r1 else set_pending_fallbacks 0 r1) out r'))"

lemma wp_recovery_run: "wp (recovery_run P r) (run_post P r)"
proof -
  have call: "wp (is_cancelled P r) (\<lambda>c r1. does r r1 [C_Cancelled c])"
    unfolding is_cancelled_def by (rule wp_call)
  show ?thesis
    unfolding recovery_run_def wp_simps Let_def prod.case wp_if
  proof (rule wp_mono [OF call], goal_cases)
    case (1 c r1)
    define r2 where "r2 = update_restore_state (\<lambda>st. st\<lparr>rst_restore_attempted_unconfirmed := True\<rparr>) r1"
    have r2: "rn_trace r2 = rn_trace r @ [C_Cancelled c]"
      "rn_restore_state r2 = rn_restore_state r\<lparr>rst_restore_attempted_unconfirmed := True\<rparr>"
      using 1 by (simp_all add: r2_def update_restore_state_def does_def)
    show ?case
    proof (cases c)
      case True
      then show ?thesis using 1
        by (auto simp: run_post_def does_def restore_guard_def intro!: exI [of _ True] exI [of _ r1])
    next
      case False
      have *: "run_post P r out r'"
        if "recovery_post P (default_recovery_outcome\<lparr>ro_display_may_have_changed := True\<rparr>)
          (if rst_always_restore_from_golden (rn_restore_state r) then r2 else set_pending_fallbacks 0 r2) out r'"
        for out r'
        unfolding run_post_def using that r2 False by (intro exI [of _ False] exI [of _ r2]) simp
      have golden: "rst_always_restore_from_golden (rn_restore_state r2) =
          rst_always_restore_from_golden (rn_restore_state r)"
        using r2(2) by simp
      show ?thesis
        unfolding r2_def [symmetric] get_restore_state_def golden if_not_P [OF False]
      proof (cases "rst_always_restore_from_golden (rn_restore_state r)", goal_cases)
        case 1
        then show ?case
          using * by (auto intro!: wp_mono [OF wp_recovery_golden_first] simp: golden)
      next
        case 2
        then show ?case
          using * by (auto intro!: wp_mono [OF wp_recovery_session_first])
      qed
    qed
  qed
qed

text \<open>
  C14: A recovery is safe whatever Windows and the storage answer. After a cancellation it has seen, it
  makes no call that changes the displays; nothing stored (snapshots, the retained staged state) is
  touched unless and until a snapshot was confirmed, which means two equal captures in a row that are
  strictly equal to it, its rotations, and no change or cancellation since; a success names exactly the
  confirmed snapshot; and unless it was cancelled at once it reports that the displays may have
  changed and leaves the restore guard up.
\<close>

theorem recovery_is_safe:
  assumes "recovery_run P r = Some (out, r')"
  shows "\<exists>c es. rn_trace r' = rn_trace r @ C_Cancelled c # es \<and>
     (sticky (C_Cancelled c # es) \<longrightarrow> cancel_safe (C_Cancelled c # es)) \<and>
     (c \<longrightarrow> es = [] \<and> out = default_recovery_outcome) \<and>
     (\<not> c \<longrightarrow> ro_display_may_have_changed out \<and> rst_restore_attempted_unconfirmed (rn_restore_state r')) \<and>
     (if ro_staged_state_reset_attempted out
      then \<exists>x. restored_post P x es \<and> ro_staged_state_reset_succeeded out = snd x \<and>
             (ro_success out \<longrightarrow> ro_snapshot out = Some (fst x))
      else untouched es \<and> \<not> ro_success out \<and> ro_snapshot out = None)"
proof -
  from wpD [OF wp_recovery_run assms] obtain c r1 where
    r1: "rn_trace r1 = rn_trace r @ [C_Cancelled c]"
      "rn_restore_state r1 = rn_restore_state r\<lparr>rst_restore_attempted_unconfirmed := \<not> c \<or> restore_guard r\<rparr>"
    and post: "if c then out = default_recovery_outcome \<and> r' = r1
      else recovery_post P (default_recovery_outcome\<lparr>ro_display_may_have_changed := True\<rparr>)
             (if rst_always_restore_from_golden (rn_restore_state r) then r1 else set_pending_fallbacks 0 r1) out r'"
    unfolding run_post_def by blast
  show ?thesis
  proof (cases c)
    case True
    with r1 post show ?thesis by (intro exI [of _ c] exI [of _ "[]"]) (simp add: default_recovery_outcome_def)
  next
    case False
    define r2 where "r2 = (if rst_always_restore_from_golden (rn_restore_state r) then r1 else set_pending_fallbacks 0 r1)"
    have r2: "rn_trace r2 = rn_trace r1" "restore_guard r2"
      using r1(2) False by (simp_all add: r2_def) (simp_all add: restore_guard_def)
    from post False have post: "recovery_post P (default_recovery_outcome\<lparr>ro_display_may_have_changed := True\<rparr>) r2 out r'"
      by (simp add: r2_def)
    from recovery_post_flags [OF this _ r2(2)] have flags: "ro_display_may_have_changed out \<and> restore_guard r'" by simp
    from post obtain es x where es: "rn_trace r' = rn_trace r2 @ es" "attempt_post P x es"
      "(case x of None \<Rightarrow> out = default_recovery_outcome\<lparr>ro_display_may_have_changed := True\<rparr>
        | Some y \<Rightarrow> out = accepted y (default_recovery_outcome\<lparr>ro_display_may_have_changed := True\<rparr>) \<or>
            out = with_flags y (default_recovery_outcome\<lparr>ro_display_may_have_changed := True\<rparr>))"
      unfolding recovery_post_def by (auto split: option.splits)
    show ?thesis
      using es flags False r1(1) r2(1)
      by (intro exI [of _ c] exI [of _ es])
        (auto simp: attempt_post_def accepted_def with_flags_def default_recovery_outcome_def restore_guard_def
          split: option.splits)
  qed
qed

lemma sim_storage_total: "storage_total sim_platform"
  by (simp add: storage_total_def sim_platform_def sim_storage_def memory_load_with_metadata_def)

lemma sim_recovery: "\<exists>out r'. recovery_run sim_platform (sim_run t s m ok) = Some (out, r')"
  using returns_recovery_run [OF sim_clock_advances sim_storage_total, of "\<lambda>_ _. True"]
  by (auto simp: returns_def)

theorem recovery_is_safe_witness:
  "\<exists>out r' c es. recovery_run sim_platform (sim_run (ms 60000) saved_a (\<lambda>_. None) True) = Some (out, r') \<and>
     rn_trace r' = C_Cancelled c # es \<and> (ro_success out \<longleftrightarrow> ro_success out \<and> ro_staged_state_reset_attempted out)"
proof -
  from sim_recovery obtain out r' where
    "recovery_run sim_platform (sim_run (ms 60000) saved_a (\<lambda>_. None) True) = Some (out, r')"
    by blast
  with recovery_is_safe [OF this] show ?thesis by (auto simp: sim_run_def split: if_splits)
qed

text \<open>
  C15: A session snapshot put back while a golden snapshot is pending counts as a fallback only under
  golden-first, and only twice in a row: the third is accepted. Every other end of a recovery that was
  not cancelled at once resets the count, so it never exceeds two.
\<close>

theorem golden_fallbacks_accepted_at_third:
  assumes "recovery_run P r = Some (out, r')"
    and "rst_golden_pending_session_fallbacks (rn_restore_state r) \<le> 2"
  shows "rst_golden_pending_session_fallbacks (rn_restore_state r') \<le> 2 \<and>
    (ro_display_may_have_changed out \<longrightarrow>
      rst_golden_pending_session_fallbacks (rn_restore_state r') =
        (if ro_staged_state_reset_attempted out \<and> \<not> ro_success out
         then Suc (rst_golden_pending_session_fallbacks (rn_restore_state r)) else 0)) \<and>
    (ro_staged_state_reset_attempted out \<and> \<not> ro_success out \<longrightarrow>
      rst_always_restore_from_golden (rn_restore_state r))"
proof -
  from wpD [OF wp_recovery_run assms(1)] obtain c r1 where
    r1: "rn_restore_state r1 = (rn_restore_state r)\<lparr>rst_restore_attempted_unconfirmed := \<not> c \<or> restore_guard r\<rparr>"
    and post: "if c then out = default_recovery_outcome \<and> r' = r1
      else recovery_post P (default_recovery_outcome\<lparr>ro_display_may_have_changed := True\<rparr>)
             (if rst_always_restore_from_golden (rn_restore_state r) then r1 else set_pending_fallbacks 0 r1) out r'"
    unfolding run_post_def by blast
  have p1: "pending_fallbacks r1 = pending_fallbacks r"
    and g1: "rst_always_restore_from_golden (rn_restore_state r1) = rst_always_restore_from_golden (rn_restore_state r)"
    by (simp_all add: pending_fallbacks_def r1)
  have "pending_fallbacks r' \<le> 2 \<and>
    (ro_display_may_have_changed out \<longrightarrow>
      pending_fallbacks r' = (if ro_staged_state_reset_attempted out \<and> \<not> ro_success out
         then Suc (pending_fallbacks r) else 0)) \<and>
    (ro_staged_state_reset_attempted out \<and> \<not> ro_success out \<longrightarrow>
      rst_always_restore_from_golden (rn_restore_state r))"
  proof (cases c)
    case True
    then show ?thesis using post p1 assms(2) by (simp add: default_recovery_outcome_def pending_fallbacks_def)
  next
    case False
    define r2 where "r2 = (if rst_always_restore_from_golden (rn_restore_state r) then r1 else set_pending_fallbacks 0 r1)"
    have g2: "rst_always_restore_from_golden (rn_restore_state r2) = rst_always_restore_from_golden (rn_restore_state r)"
      using g1 by (simp add: r2_def set_pending_fallbacks_def update_restore_state_def)
    have p2: "rst_always_restore_from_golden (rn_restore_state r) \<Longrightarrow> pending_fallbacks r2 = pending_fallbacks r"
      using p1 by (simp add: r2_def)
    obtain x where x: "case x of
           None \<Rightarrow> out = default_recovery_outcome\<lparr>ro_display_may_have_changed := True\<rparr> \<and> pending_fallbacks r' = 0
         | Some y \<Rightarrow>
             out = accepted y (default_recovery_outcome\<lparr>ro_display_may_have_changed := True\<rparr>) \<and>
               pending_fallbacks r' = 0 \<or>
             out = with_flags y (default_recovery_outcome\<lparr>ro_display_may_have_changed := True\<rparr>) \<and>
               pending_fallbacks r' = Suc (pending_fallbacks r2) \<and>
               Suc (pending_fallbacks r2) < kGoldenFallbackCompletionThreshold \<and>
               rst_always_restore_from_golden (rn_restore_state r2)"
      using post False unfolding recovery_post_def r2_def [symmetric] by auto
    show ?thesis
    proof (cases x)
      case None
      then show ?thesis using x by (simp add: default_recovery_outcome_def)
    next
      case (Some y)
      from x [unfolded Some option.case] show ?thesis
        by (rule disjE) (auto simp: accepted_def with_flags_def default_recovery_outcome_def g2 p2
            kGoldenFallbackCompletionThreshold_def)
    qed
  qed
  then show ?thesis by (simp add: pending_fallbacks_def)
qed

theorem golden_fallbacks_accepted_at_third_witness:
  "\<exists>out r'. recovery_run sim_platform (sim_run (ms 60000) saved_a (\<lambda>_. None) True) = Some (out, r') \<and>
     rst_golden_pending_session_fallbacks (rn_restore_state r') \<le> 2"
proof -
  from sim_recovery obtain out r' where
    "recovery_run sim_platform (sim_run (ms 60000) saved_a (\<lambda>_. None) True) = Some (out, r')"
    by blast
  with golden_fallbacks_accepted_at_third [OF this] show ?thesis
    by (auto simp: sim_run_def initial_restore_state_def)
qed



end
