(* ===== verification/Async_Dispatcher.thy ===== *)
theory Async_Dispatcher
  imports Recovery_Operation
begin

text \<open>
  The dispatcher that runs the operations off the state machine's thread (\<open>async_dispatcher.cpp\<close>):
  one serialized worker for everything that may change the displays, and a timer thread that only
  waits before it hands a health check to the worker. A task carries what its lambda captures; its
  completion maps the outcome to the message the state machine receives. The mutexes and condition
  variables are left out: every queue operation is atomic.
\<close>

section \<open>The body of an APPLY task\<close>

definition kCancellationSlice :: time_ns where "kCancellationSlice = ms 100"
definition kGraceSlice :: time_ns where "kGraceSlice = ms 50"

text \<open>
  Closing and reopening the virtual display before the operation. The value says whether the task
  goes on, and the outcome it carries either way.
\<close>

definition reset_virtual_display_stage ::
  "'w platform \<Rightarrow> apply_outcome \<Rightarrow> 'w run \<Rightarrow> ('w, bool \<times> apply_outcome) result" where
  "reset_virtual_display_stage P out r = do {
     (c, r) \<leftarrow> is_cancelled P r;
     if c then Some ((False, out\<lparr>ao_status := Status_Fatal\<rparr>), r)
     else do {
       (armed, r) \<leftarrow> arm_durable_recovery_boundary P r;
       let out = out\<lparr>ao_durable_recovery_armed := armed\<rparr>;
       (c, r) \<leftarrow> is_cancelled P r;
       if c then Some ((False, out\<lparr>ao_status := Status_Fatal\<rparr>), r)
       else do {
         let out = out\<lparr>ao_display_may_have_changed := True\<rparr>;
         (disabled, r) \<leftarrow> vdd_disable P r;
         if \<not> disabled then Some ((False, out\<lparr>ao_status := Status_Fatal\<rparr>), r)
         else do {
           (slept, r) \<leftarrow> wait_with_cancel P kCancellationSlice (ms 500) r;
           if \<not> slept then do {
             (_, r) \<leftarrow> vdd_enable P r;
             Some ((False, out\<lparr>ao_status := Status_Fatal\<rparr>), r)
           }
           else do {
             (c, r) \<leftarrow> is_cancelled P r;
             if c then do {
               (_, r) \<leftarrow> vdd_enable P r;
               Some ((False, out\<lparr>ao_status := Status_Fatal\<rparr>), r)
             }
             else do {
               (enabled, r) \<leftarrow> vdd_enable P r;
               if \<not> enabled then Some ((False, out\<lparr>ao_status := Status_Fatal\<rparr>), r)
               else do {
                 (slept, r) \<leftarrow> wait_with_cancel P kCancellationSlice (ms 1000) r;
                 if \<not> slept then Some ((False, out\<lparr>ao_status := Status_Fatal\<rparr>), r)
                 else Some ((True, out), r)
               }
             }
           }
         }
       }
     }
   }"

definition carry_reset :: "apply_outcome \<Rightarrow> apply_outcome \<Rightarrow> apply_outcome" where
  "carry_reset reset out = out\<lparr>
     ao_virtual_display_requested := ao_virtual_display_requested out \<or> ao_virtual_display_requested reset,
     ao_display_may_have_changed := ao_display_may_have_changed out \<or> ao_display_may_have_changed reset,
     ao_durable_recovery_armed := ao_durable_recovery_armed out \<or> ao_durable_recovery_armed reset\<rparr>"

definition apply_task ::
  "'w platform \<Rightarrow> apply_request \<Rightarrow> time_ns \<Rightarrow> bool \<Rightarrow> 'w run \<Rightarrow> ('w, apply_outcome) result" where
  "apply_task P request delay reset_virtual_display r = do {
     (waited, r) \<leftarrow> wait_slices P kCancellationSlice delay r;
     if \<not> waited then Some (default_apply_outcome\<lparr>ao_status := Status_Fatal\<rparr>, r)
     else do {
       let reset = default_apply_outcome\<lparr>ao_virtual_display_requested := ar_virtual_layout request \<noteq> None\<rparr>;
       ((go_on, reset), r) \<leftarrow>
         (if reset_virtual_display then reset_virtual_display_stage P reset r else Some ((True, reset), r));
       if \<not> go_on then Some (reset, r)
       else do {
         (out, r) \<leftarrow> apply_run P request (ao_durable_recovery_armed reset) r;
         Some (carry_reset reset out, r)
       }
     }
   }"

section \<open>The other tasks\<close>

definition recovery_task :: "'w platform \<Rightarrow> time_ns \<Rightarrow> 'w run \<Rightarrow> ('w, recovery_outcome) result" where
  "recovery_task P delay r = do {
     (waited, r) \<leftarrow> wait_slices P kGraceSlice delay r;
     if \<not> waited then Some (default_recovery_outcome, r) else recovery_run P r
   }"

definition refresh_rate_task ::
  "'w platform \<Rightarrow> device_id \<Rightarrow> u32 \<Rightarrow> u32 \<Rightarrow> 'w run \<Rightarrow> ('w, bool) result" where
  "refresh_rate_task P d num den r = do {
     (c, r) \<leftarrow> is_cancelled P r;
     if c then Some (False, r) else set_refresh_rate P d num den r
   }"

section \<open>Tasks and queues\<close>

text \<open>The state machine's messages are the type parameter; the token is the one the lambda captures.\<close>

datatype 'm task =
  Task_Apply cancellation_token apply_request time_ns bool "apply_outcome \<Rightarrow> 'm"
| Task_Verification cancellation_token apply_request "topology option" "resolved_target option" "bool \<Rightarrow> 'm"
| Task_ResetStaged "bool \<Rightarrow> 'm"
| Task_Recovery cancellation_token time_ns "recovery_outcome \<Rightarrow> 'm"
| Task_RecoveryValidation cancellation_token snapshot "bool \<Rightarrow> 'm"
| Task_RefreshRate cancellation_token device_id u32 u32 "bool \<Rightarrow> 'm"

datatype 'm timer_task =
  Timer_Verification cancellation_token apply_request "topology option" "resolved_target option" time_ns
    "bool \<Rightarrow> 'm"

record 'm dispatcher =
  dsp_tasks :: "'m task list"
  dsp_timer_tasks :: "'m timer_task list"

definition initial_dispatcher :: "'m dispatcher" where
  "initial_dispatcher = \<lparr>dsp_tasks = [], dsp_timer_tasks = []\<rparr>"

definition enqueue_task :: "'m task \<Rightarrow> 'm dispatcher \<Rightarrow> 'm dispatcher" where
  "enqueue_task t d = d\<lparr>dsp_tasks := dsp_tasks d @ [t]\<rparr>"

definition enqueue_delayed_task :: "'m timer_task \<Rightarrow> 'm dispatcher \<Rightarrow> 'm dispatcher" where
  "enqueue_delayed_task t d = d\<lparr>dsp_timer_tasks := dsp_timer_tasks d @ [t]\<rparr>"

text \<open>One pass of \<open>worker_loop\<close> with a task waiting.\<close>

fun take_task :: "'m dispatcher \<Rightarrow> 'm task option \<times> 'm dispatcher" where
  "take_task d = (case dsp_tasks d of [] \<Rightarrow> (None, d) | t # ts \<Rightarrow> (Some t, d\<lparr>dsp_tasks := ts\<rparr>))"

fun take_timer_task :: "'m dispatcher \<Rightarrow> 'm timer_task option \<times> 'm dispatcher" where
  "take_timer_task d =
     (case dsp_timer_tasks d of [] \<Rightarrow> (None, d) | t # ts \<Rightarrow> (Some t, d\<lparr>dsp_timer_tasks := ts\<rparr>))"

text \<open>
  The platform as a task sees it: its token compares its own generation with the shared counter, which
  \<open>gen\<close> reads.
\<close>

definition with_token ::
  "('w \<Rightarrow> u64 \<times> 'w) \<Rightarrow> cancellation_token \<Rightarrow> 'w platform \<Rightarrow> 'w platform" where
  "with_token gen tok P =
     P\<lparr>pf_is_cancelled := (\<lambda>w. let (g, w) = gen w in (tok_is_cancelled tok g, w))\<rparr>"

definition then_complete :: "('a \<Rightarrow> 'm) \<Rightarrow> ('w, 'a) result \<Rightarrow> ('w, 'm) result" where
  "then_complete k m = do { (x, r) \<leftarrow> m; Some (k x, r) }"

fun run_task :: "('w \<Rightarrow> u64 \<times> 'w) \<Rightarrow> 'w platform \<Rightarrow> 'm task \<Rightarrow> 'w run \<Rightarrow> ('w, 'm) result" where
  "run_task gen P (Task_Apply tok request delay reset_vdd k) r =
     then_complete k (apply_task (with_token gen tok P) request delay reset_vdd r)"
| "run_task gen P (Task_Verification tok request expected resolved k) r =
     then_complete k (verification_run (with_token gen tok P) request expected resolved r)"
| "run_task gen P (Task_ResetStaged k) r = then_complete k (reset_staged_apply_state P r)"
| "run_task gen P (Task_Recovery tok delay k) r =
     then_complete k (recovery_task (with_token gen tok P) delay r)"
| "run_task gen P (Task_RecoveryValidation tok s k) r =
     then_complete k (recovery_validation_run (with_token gen tok P) s r)"
| "run_task gen P (Task_RefreshRate tok d num den k) r =
     then_complete k (refresh_rate_task (with_token gen tok P) d num den r)"

text \<open>
  A timer task waits in slices; it stops when the thread is asked to stop or its token is cancelled,
  and then the check never runs. \<open>stop\<close> reads the thread's stop token.
\<close>

function timer_slices ::
  "('w \<Rightarrow> bool \<times> 'w) \<Rightarrow> 'w platform \<Rightarrow> time_ns \<Rightarrow> 'w run \<Rightarrow> ('w, bool) result" where
  "timer_slices stop P remaining r = do {
     (s, r) \<leftarrow> observe stop r;
     (c, r) \<leftarrow> (if s then Some (True, r) else is_cancelled P r);
     if c then Some (False, r)
     else if remaining \<le> 0 then Some (True, r)
     else do {
       (_, r) \<leftarrow> sleep_for P (min remaining kCancellationSlice) r;
       timer_slices stop P (remaining - min remaining kCancellationSlice) r
     }
   }"
  by pat_completeness auto
termination
  by (relation "measure (\<lambda>(stop, P, remaining, r). nat remaining)") (auto simp: kCancellationSlice_def ms_def)

declare timer_slices.simps [simp del]

fun run_timer_task ::
  "('w \<Rightarrow> u64 \<times> 'w) \<Rightarrow> ('w \<Rightarrow> bool \<times> 'w) \<Rightarrow> 'w platform \<Rightarrow> 'm timer_task \<Rightarrow> 'm dispatcher \<Rightarrow> 'w run \<Rightarrow>
   ('w, 'm dispatcher) result" where
  "run_timer_task gen stop P (Timer_Verification tok request expected resolved delay k) d r = do {
     (waited, r) \<leftarrow> timer_slices stop (with_token gen tok P) delay r;
     Some (if waited then enqueue_task (Task_Verification tok request expected resolved k) d else d, r)
   }"

section \<open>The queue the worker serves\<close>

text \<open>What the clients of a queue rely on: pushes and pops respect the order of arrival.\<close>

locale fifo =
  fixes push :: "'a \<Rightarrow> 'q \<Rightarrow> 'q"
    and pop :: "'q \<Rightarrow> 'a option \<times> 'q"
    and contents :: "'q \<Rightarrow> 'a list"
  assumes push: "contents (push x q) = contents q @ [x]"
    and pop_Nil: "contents q = [] \<Longrightarrow> fst (pop q) = None"
    and pop_Cons: "contents q = x # xs \<Longrightarrow> fst (pop q) = Some x \<and> contents (snd (pop q)) = xs"
begin

primrec push_all :: "'a list \<Rightarrow> 'q \<Rightarrow> 'q" where
  "push_all [] q = q"
| "push_all (x # xs) q = push_all xs (push x q)"

primrec pop_many :: "nat \<Rightarrow> 'q \<Rightarrow> 'a option list" where
  "pop_many 0 q = []"
| "pop_many (Suc n) q = (let (x, q) = pop q in x # pop_many n q)"

lemma contents_push_all: "contents (push_all xs q) = contents q @ xs"
  by (induction xs arbitrary: q) (simp_all add: push)

lemma pop_many_contents: "pop_many (length (contents q)) q = map Some (contents q)"
proof (induction "contents q" arbitrary: q)
  case Nil
  then show ?case by simp
next
  case (Cons x xs)
  from pop_Cons [OF Cons.hyps(2) [symmetric]]
  have "fst (pop q) = Some x" "contents (snd (pop q)) = xs" by auto
  with Cons.hyps(1) [of "snd (pop q)"] Cons.hyps(2) [symmetric] show ?case
    by (simp add: split_beta Let_def)
qed

lemma served_in_order: "contents q = [] \<Longrightarrow> pop_many (length xs) (push_all xs q) = map Some xs"
  using pop_many_contents [of "push_all xs q"] by (simp add: contents_push_all)

end

interpretation dispatched: fifo enqueue_task take_task dsp_tasks
  by unfold_locales (auto simp: enqueue_task_def)

interpretation mailbox: fifo mq_push mq_try_pop "\<lambda>q. q"
  by unfold_locales (auto simp: mq_push_def)

section \<open>What an APPLY task does\<close>

text \<open>Whether the virtual display is left disabled by the calls so far.\<close>

fun vdd_down :: "bool \<Rightarrow> call list \<Rightarrow> bool" where
  "vdd_down b [] = b"
| "vdd_down b (C_VddDisable ok # es) = vdd_down (b \<or> ok) es"
| "vdd_down b (C_VddEnable _ # es) = vdd_down False es"
| "vdd_down b (_ # es) = vdd_down b es"

fun is_vdd_enable :: "call \<Rightarrow> bool" where
  "is_vdd_enable (C_VddEnable _) = True"
| "is_vdd_enable _ = False"

definition only_reenables :: "call list \<Rightarrow> bool" where
  "only_reenables es \<longleftrightarrow> list_all (\<lambda>e. mutates e \<longrightarrow> is_vdd_enable e) es"

text \<open>After a cancellation that was seen, the displays are touched only to re-enable the virtual one.\<close>

fun cancel_repairs :: "call list \<Rightarrow> bool" where
  "cancel_repairs [] = True"
| "cancel_repairs (e # es) = ((e = C_Cancelled True \<longrightarrow> only_reenables es) \<and> cancel_repairs es)"

lemma only_reenables_simps [simp]:
  "only_reenables []" "only_reenables (e # es) \<longleftrightarrow> (mutates e \<longrightarrow> is_vdd_enable e) \<and> only_reenables es"
  "only_reenables (es @ es') \<longleftrightarrow> only_reenables es \<and> only_reenables es'"
  by (simp_all add: only_reenables_def)

lemma only_reenables_quiet: "\<not> mutated es \<Longrightarrow> only_reenables es"
  by (auto simp: only_reenables_def mutated_def list_all_iff list_ex_iff)

lemma cancel_repairs_append [simp]:
  "cancel_repairs (es @ es') \<longleftrightarrow> cancel_repairs es \<and> cancel_repairs es' \<and>
     (C_Cancelled True \<in> set es \<longrightarrow> only_reenables es')"
  by (induction es) auto

lemma cancel_safe_repairs: "cancel_safe es \<Longrightarrow> cancel_repairs es"
  by (induction es) (auto intro: only_reenables_quiet)

lemma vdd_down_append [simp]: "vdd_down b (es @ es') = vdd_down (vdd_down b es) es'"
  by (induction b es rule: vdd_down.induct) auto

lemma quiet_vdd: "quiet es \<Longrightarrow> vdd_down b es = b"
  by (induction b es rule: vdd_down.induct) auto

lemma quiet_repairs: "quiet es \<Longrightarrow> cancel_repairs es"
  by (simp add: quiet_facts cancel_safe_repairs)

definition reset_post :: "bool \<Rightarrow> bool \<Rightarrow> apply_outcome \<Rightarrow> call list \<Rightarrow> bool" where
  "reset_post no_boundary go_on out es \<longleftrightarrow>
     \<not> vdd_down False es \<and> armed_first no_boundary es \<and> cancel_repairs es \<and>
     (mutated es \<longrightarrow> ao_display_may_have_changed out) \<and>
     \<not> ao_staged_state_prepared out \<and> (ao_durable_recovery_armed out \<longrightarrow> list_ex is_arm es) \<and>
     (go_on \<longrightarrow> C_Cancelled True \<notin> set es \<and> (mutated es \<longrightarrow> no_boundary \<or> list_ex is_arm es)) \<and>
     (\<not> go_on \<longrightarrow> ao_status out = Status_Fatal)"

lemma wp_reset_virtual_display_stage_from [wp_rules]:
  assumes "does r0 r es0" "\<not> ao_staged_state_prepared out" "\<not> ao_durable_recovery_armed out"
    and "\<And>go_on out' r' es. does r0 r' (es0 @ es) \<Longrightarrow>
      reset_post (pf_mutation_boundary P = None) go_on out' es \<Longrightarrow> Q (go_on, out') r'"
  shows "wp (reset_virtual_display_stage P out r) Q"
proof -
  have "wp (reset_virtual_display_stage P out r) (\<lambda>x r'. \<exists>es. does r r' es \<and>
      reset_post (pf_mutation_boundary P = None) (fst x) (snd x) es)"
    unfolding reset_virtual_display_stage_def arm_durable_recovery_boundary_def vdd_disable_def vdd_enable_def
    using does_refl [of r] assms(2,3)
    by (simp add: Let_def split: option.split)
      ((rule wp_rules, assumption | rule conjI impI allI |
        (rule exI, rule conjI, assumption,
          simp add: reset_post_def quiet_facts quiet_vdd quiet_repairs only_reenables_quiet; fail) | simp)+)
  then show ?thesis by (rule wp_mono) (auto intro: assms(4) does_trans [OF assms(1)])
qed

text \<open>The part before the operation (\<open>e1\<close>) and the operation itself (\<open>e2\<close>).\<close>

definition apply_task_post ::
  "'w platform \<Rightarrow> apply_request \<Rightarrow> apply_outcome \<Rightarrow> call list \<Rightarrow> call list \<Rightarrow> bool" where
  "apply_task_post P request out e1 e2 \<longleftrightarrow>
     \<not> vdd_down False e1 \<and> armed_first (pf_mutation_boundary P = None) (e1 @ e2) \<and>
     (C_Cancelled True \<in> set e1 \<longrightarrow> e2 = [] \<and> ao_status out = Status_Fatal) \<and>
     cancel_repairs e1 \<and> (sticky e2 \<longrightarrow> cancel_safe e2) \<and>
     (mutated e1 \<longrightarrow> ao_display_may_have_changed out) \<and>
     (mutated e2 \<longrightarrow> ao_display_may_have_changed out \<or>
        (\<exists>b mid c. e2 = [C_Cancelled False, C_Captured b] @ mid @
           [C_ApplySnapshotSettings b True, C_Cancelled False, C_MatchesCurrent b True] @ [C_Cancelled c])) \<and>
     (ao_staged_state_prepared out \<longleftrightarrow> C_PrepareStaged True \<in> set e2) \<and>
     (ao_status out = Status_Ok \<longrightarrow>
        (\<exists>cfg. ar_configuration request = Some cfg \<and> C_Apply cfg Status_Ok \<in> set e2) \<and>
        (sticky e2 \<longrightarrow> C_Cancelled True \<notin> set e2))"

lemma apply_task_post_stopped:
  "quiet es \<Longrightarrow> apply_task_post P request (default_apply_outcome\<lparr>ao_status := Status_Fatal\<rparr>) es []"
  by (simp add: apply_task_post_def quiet_facts quiet_vdd quiet_repairs default_apply_outcome_def)

lemma apply_task_post_reset_failed:
  "quiet e0 \<Longrightarrow> C_Cancelled True \<notin> set e0 \<Longrightarrow> reset_post (pf_mutation_boundary P = None) False out es \<Longrightarrow>
   apply_task_post P request out (e0 @ es) []"
  by (auto simp: apply_task_post_def reset_post_def quiet_facts quiet_vdd quiet_repairs)

lemma apply_task_post_run:
  assumes "quiet e0" "C_Cancelled True \<notin> set e0" "reset_post (pf_mutation_boundary P = None) True reset es"
    and "apply_post P request (pf_mutation_boundary P = None \<or> ao_durable_recovery_armed reset) out e2"
  shows "apply_task_post P request (carry_reset reset out) (e0 @ es) e2"
  unfolding carry_reset_def
  using assms armed_first_mono [of e2]
  by (cases "pf_mutation_boundary P = None"; cases "list_ex is_arm es")
    (auto simp: apply_task_post_def reset_post_def apply_post_def restored_tail_def quiet_facts quiet_vdd quiet_repairs)

lemma reset_post_none: "\<not> ao_staged_state_prepared out \<Longrightarrow> \<not> ao_durable_recovery_armed out \<Longrightarrow> reset_post b True out []"
  by (simp add: reset_post_def)

lemma wp_apply_task:
  "wp (apply_task P request delay reset_vdd r)
     (\<lambda>out r'. \<exists>e1 e2. does r r' (e1 @ e2) \<and> apply_task_post P request out e1 e2)"
proof -
  let ?Q = "\<lambda>out r'. \<exists>e1 e2. does r r' (e1 @ e2) \<and> apply_task_post P request out e1 e2"
  have run: "wp (apply_run P request (ao_durable_recovery_armed reset) r1) (\<lambda>out. ?Q (carry_reset reset out))"
    if "does r r1 (e0 @ es)" "quiet e0" "C_Cancelled True \<notin> set e0"
      "reset_post (pf_mutation_boundary P = None) True reset es" for r1 e0 es reset
  proof (rule wp_apply_run)
    fix out r' e2
    assume "does r1 r' e2"
      "apply_post P request (pf_mutation_boundary P = None \<or> ao_durable_recovery_armed reset) out e2"
    then show "?Q (carry_reset reset out) r'"
      using does_trans [OF that(1)] apply_task_post_run [OF that(2-4)] by blast
  qed
  have stopped: "?Q (default_apply_outcome\<lparr>ao_status := Status_Fatal\<rparr>) r1" if "does r r1 es" "quiet es" for r1 es
    using that apply_task_post_stopped by (intro exI [of _ es] exI [of _ "[]"]) simp
  have failed: "?Q out r1" if "does r r1 (e0 @ es)" "quiet e0" "C_Cancelled True \<notin> set e0"
      "reset_post (pf_mutation_boundary P = None) False out es" for r1 e0 es out
    using that apply_task_post_reset_failed by (intro exI [of _ "e0 @ es"] exI [of _ "[]"]) simp
  define reset where "reset = default_apply_outcome\<lparr>ao_virtual_display_requested := ar_virtual_layout request \<noteq> None\<rparr>"
  have fresh: "\<not> ao_staged_state_prepared reset" "\<not> ao_durable_recovery_armed reset"
    by (simp_all add: reset_def default_apply_outcome_def)
  show ?thesis
    unfolding apply_task_def Let_def wp_simps prod.case reset_def [symmetric]
  proof (rule wp_wait_slices_from [OF does_refl], goal_cases)
    case (1 "done" r1 e0)
    then have d: "does r r1 e0" "quiet e0" "done = (C_Cancelled True \<notin> set e0)" by simp_all
    show ?case
    proof (cases "done")
      case False
      then show ?thesis using stopped [OF d(1,2)] by simp
    next
      case True
      have "wp (if reset_vdd then reset_virtual_display_stage P reset r1 else Some ((True, reset), r1))
          (\<lambda>x r2. \<exists>es. does r r2 (e0 @ es) \<and> reset_post (pf_mutation_boundary P = None) (fst x) (snd x) es)"
      proof (cases reset_vdd)
        case True
        then show ?thesis
          by (simp only: if_True) (rule wp_reset_virtual_display_stage_from [OF d(1) fresh], auto)
      next
        case False
        then show ?thesis using reset_post_none [OF fresh] d(1) by (auto intro!: exI [of _ "[]"])
      qed
      note stage = this
      have not: "(\<not> done) = False" using True by simp
      show ?thesis
        unfolding not if_False wp_simps(3)
      proof (rule wp_mono [OF stage], goal_cases)
        case (1 x r2)
        obtain go_on reset' where x: "x = (go_on, reset')" by (cases x)
        from 1 obtain es where "does r r2 (e0 @ es)" "reset_post (pf_mutation_boundary P = None) go_on reset' es"
          by (auto simp: x)
        then show ?case
          using failed run True d(2,3) by (cases go_on) (simp_all add: x)
      qed
    qed
  qed
qed

section \<open>The tasks return\<close>

definition counter_keeps_clock :: "('w \<Rightarrow> u64 \<times> 'w) \<Rightarrow> ('w \<Rightarrow> time_ns) \<Rightarrow> bool" where
  "counter_keeps_clock gen T \<longleftrightarrow> (\<forall>w. T w \<le> T (snd (gen w)))"

lemma with_token_clock:
  "clock_advances P T \<Longrightarrow> counter_keeps_clock gen T \<Longrightarrow> clock_advances (with_token gen tok P) T"
  unfolding clock_advances_def counter_keeps_clock_def with_token_def
  by (auto simp: split_beta Let_def)

lemma with_token_storage [simp]: "storage_total (with_token gen tok P) = storage_total P"
  by (simp add: storage_total_def with_token_def)

lemma returns_reset_virtual_display_stage [returns_rules]:
  assumes "clock_advances P T" "\<And>x r'. Q x r'"
  shows "returns (reset_virtual_display_stage P out r) Q"
  unfolding reset_virtual_display_stage_def arm_durable_recovery_boundary_def vdd_disable_def vdd_enable_def Let_def
  using assms by (auto intro!: returns_rules split: option.split)

lemma returns_tasks:
  assumes "clock_advances P T"
  shows "(\<And>out r'. Q1 out r') \<Longrightarrow> returns (apply_task P request delay reset_vdd r) Q1"
    and "storage_total P \<Longrightarrow> (\<And>out r'. Q2 out r') \<Longrightarrow> returns (recovery_task P delay r) Q2"
    and "(\<And>ok r'. Q3 ok r') \<Longrightarrow> returns (refresh_rate_task P d num den r) Q3"
proof -
  show "(\<And>out r'. Q1 out r') \<Longrightarrow> returns (apply_task P request delay reset_vdd r) Q1"
    unfolding apply_task_def Let_def using assms by (auto intro!: returns_rules simp: split_beta)
  show "storage_total P \<Longrightarrow> (\<And>out r'. Q2 out r') \<Longrightarrow> returns (recovery_task P delay r) Q2"
    unfolding recovery_task_def using assms by (auto intro!: returns_rules)
  show "(\<And>ok r'. Q3 ok r') \<Longrightarrow> returns (refresh_rate_task P d num den r) Q3"
    unfolding refresh_rate_task_def set_refresh_rate_def set_device_refresh_rate_def
    by (auto intro!: returns_rules)
qed

text \<open>The messages a task can complete with.\<close>

fun completions :: "'m task \<Rightarrow> 'm set" where
  "completions (Task_Apply _ _ _ _ k) = range k"
| "completions (Task_Verification _ _ _ _ k) = range k"
| "completions (Task_ResetStaged k) = range k"
| "completions (Task_Recovery _ _ k) = range k"
| "completions (Task_RecoveryValidation _ _ k) = range k"
| "completions (Task_RefreshRate _ _ _ _ k) = range k"

lemma returns_run_task:
  assumes "clock_advances P T" "counter_keeps_clock gen T" "storage_total P"
  shows "returns (run_task gen P t r) (\<lambda>m r'. m \<in> completions t)"
proof -
  have clock: "clock_advances (with_token gen tok P) T" for tok
    using with_token_clock [OF assms(1,2)] .
  show ?thesis
    using assms(3)
    by (cases t)
      (auto simp: then_complete_def reset_staged_apply_state_def
        intro!: returns_tasks [OF clock] returns_verification_run returns_recovery_validation_run returns_rules)
qed

section \<open>The worker\<close>

text \<open>One pass of the worker: the task's completion puts its message into the mailbox.\<close>

definition worker_step ::
  "('w \<Rightarrow> u64 \<times> 'w) \<Rightarrow> 'w platform \<Rightarrow> 'm dispatcher \<times> 'm queue \<Rightarrow> 'w run \<Rightarrow>
   ('w, 'm dispatcher \<times> 'm queue) result" where
  "worker_step gen P dq r =
     (case take_task (fst dq) of
        (None, d) \<Rightarrow> Some ((d, snd dq), r)
      | (Some t, d) \<Rightarrow> do { (m, r) \<leftarrow> run_task gen P t r; Some ((d, mq_push m (snd dq)), r) })"

primrec worker_steps ::
  "('w \<Rightarrow> u64 \<times> 'w) \<Rightarrow> 'w platform \<Rightarrow> nat \<Rightarrow> 'm dispatcher \<times> 'm queue \<Rightarrow> 'w run \<Rightarrow>
   ('w, 'm dispatcher \<times> 'm queue) result" where
  "worker_steps gen P 0 dq r = Some (dq, r)"
| "worker_steps gen P (Suc n) dq r = do { (dq, r) \<leftarrow> worker_step gen P dq r; worker_steps gen P n dq r }"

lemma worker_steps_complete:
  assumes "clock_advances P T" "counter_keeps_clock gen T" "storage_total P"
  shows "returns (worker_steps gen P (length (dsp_tasks d)) (d, q) r)
    (\<lambda>dq r'. fst dq = d\<lparr>dsp_tasks := []\<rparr> \<and>
       (\<exists>ms. snd dq = q @ ms \<and> list_all2 (\<lambda>t m. m \<in> completions t) (dsp_tasks d) ms))"
proof (induction "dsp_tasks d" arbitrary: d q r)
  case Nil
  then show ?case by simp
next
  case (Cons t ts)
  have d: "dsp_tasks d = t # ts" using Cons.hyps(2) by simp
  show ?case
    unfolding d list.size worker_steps.simps worker_step_def add_Suc_right add_0_right
  proof (simp add: d, rule returns_mono [OF returns_run_task [OF assms]], goal_cases)
    case (1 m r1)
    from Cons.hyps(1) [of "d\<lparr>dsp_tasks := ts\<rparr>" "q @ [m]" r1] show ?case
      by (simp add: mq_push_def, elim returns_mono) (use 1 in auto)
  qed
qed

lemma wp_recovery_run_cancel_safe:
  "wp (recovery_run P r) (\<lambda>out r'. \<exists>e2. rn_trace r' = rn_trace r @ e2 \<and> (sticky e2 \<longrightarrow> cancel_safe e2))"
proof (rule wp_mono [OF wp_recovery_run], goal_cases)
  case (1 out r')
  then obtain c r1 where r1: "rn_trace r1 = rn_trace r @ [C_Cancelled c]"
    and post: "if c then out = default_recovery_outcome \<and> r' = r1
      else recovery_post P (default_recovery_outcome\<lparr>ro_display_may_have_changed := True\<rparr>)
             (if rst_always_restore_from_golden (rn_restore_state r) then r1 else set_pending_fallbacks 0 r1) out r'"
    unfolding run_post_def by blast
  show ?case
  proof (cases c)
    case True
    with r1 post show ?thesis by simp
  next
    case False
    with post obtain es x where "rn_trace r' = rn_trace r1 @ es" "attempt_post P x es"
      unfolding recovery_post_def by (auto split: if_splits)
    with r1 False show ?thesis by (intro exI [of _ "C_Cancelled c # es"]) (simp add: attempt_post_def)
  qed
qed

section \<open>Properties\<close>







end
