(* ===== verification/Snapshot_Ledger.thy ===== *)
theory Snapshot_Ledger
  imports Display_Ports
begin

text \<open>
  \<open>SnapshotLedger\<close> of \<open>state_machine.h\<close> and \<open>state_machine.cpp\<close>: the captures the state machine makes on
  its own thread. Its calls cannot throw, except the load in \<open>refresh_current_preserving_previous\<close>.
\<close>

section \<open>Captures\<close>

type_synonym captured = "snapshot \<times> layout_rotation_map"

text \<open>A traced call outside the option monad: it always returns.\<close>

definition ask :: "('w \<Rightarrow> 'a \<times> 'w) \<Rightarrow> ('a \<Rightarrow> call) \<Rightarrow> 'w run \<Rightarrow> 'a \<times> 'w run" where
  "ask f ev r = (let (x, w) = f (rn_world r) in (x, r\<lparr>rn_world := w, rn_trace := rn_trace r @ [ev x]\<rparr>))"

lemma call_ask: "call f ev r = Some (ask f ev r)"
  by (simp add: call_def ask_def split_beta)

definition capture_filtered ::
  "'w platform \<Rightarrow> string list \<Rightarrow> 'w run \<Rightarrow> captured option \<times> 'w run" where
  "capture_filtered P exclusions r =
     (let (snap, r) = ask (pf_capture_snapshot P) C_Captured r
      in if \<not> pf_topology_is_valid P (snap_topology snap) then (None, r)
         else let (devices, r) = ask (pf_enumerate P) (\<lambda>_. C_Observe) r
              in case filter_snapshot_for_save snap devices exclusions of
                   Inl reason \<Rightarrow> (None, r)
                 | Inr filtered \<Rightarrow>
                     let ids = set (flatten_topology_device_ids (snap_topology filtered));
                         (layouts, r) = ask (pf_capture_layout_rotations P ids) (\<lambda>_. C_Observe) r
                     in (Some (filtered, layouts), r))"

definition kMaxCaptureAttempts :: nat where "kMaxCaptureAttempts = 3"
definition kCaptureRetryDelay :: time_ns where "kCaptureRetryDelay = ms 50"

definition ledger_sleep :: "'w platform \<Rightarrow> 'w run \<Rightarrow> 'w run" where
  "ledger_sleep P r = snd (ask (\<lambda>w. ((), pf_sleep P kCaptureRetryDelay w)) (\<lambda>_. C_Sleep kCaptureRetryDelay) r)"

text \<open>The loop of \<open>capture_filtered_and_save\<close>; \<open>left\<close> counts the attempts that are left.\<close>

fun save_attempts ::
  "'w platform \<Rightarrow> snapshot_tier \<Rightarrow> string list \<Rightarrow> nat \<Rightarrow> 'w run \<Rightarrow> bool \<times> 'w run" where
  "save_attempts P t exclusions 0 r = (False, r)"
| "save_attempts P t exclusions (Suc left) r =
     (let (captured, r) = capture_filtered P exclusions r;
          (saved, r) = (case captured of
              None \<Rightarrow> (False, r)
            | Some (s, l) \<Rightarrow> ask (so_save (pf_storage P) t s l) (C_StorageSave t) r)
      in if saved then (True, r)
         else save_attempts P t exclusions left (if 0 < left then ledger_sleep P r else r))"

definition capture_filtered_and_save ::
  "'w platform \<Rightarrow> snapshot_tier \<Rightarrow> string list \<Rightarrow> 'w run \<Rightarrow> bool \<times> 'w run" where
  "capture_filtered_and_save P t exclusions r = save_attempts P t exclusions kMaxCaptureAttempts r"

fun capture_attempts :: "'w platform \<Rightarrow> string list \<Rightarrow> nat \<Rightarrow> 'w run \<Rightarrow> captured option \<times> 'w run" where
  "capture_attempts P exclusions 0 r = (None, r)"
| "capture_attempts P exclusions (Suc left) r =
     (let (captured, r) = capture_filtered P exclusions r
      in if captured \<noteq> None then (captured, r)
         else capture_attempts P exclusions left (if 0 < left then ledger_sleep P r else r))"

definition refresh_current_preserving_previous ::
  "'w platform \<Rightarrow> string list \<Rightarrow> 'w run \<Rightarrow> ('w, bool) result" where
  "refresh_current_preserving_previous P exclusions r =
     (case capture_attempts P exclusions kMaxCaptureAttempts r of
        (None, r) \<Rightarrow> Some (False, r)
      | (Some (s, l), r) \<Rightarrow> do {
          (current, r) \<leftarrow> storage_load P Tier_Current r;
          (_, r) \<leftarrow> (case current of
              None \<Rightarrow> Some (False, r)
            | Some c \<Rightarrow> storage_save P Tier_Previous (ps_snapshot c) (ps_layout_rotations c) r);
          storage_save P Tier_Current s l r
        })"

definition tier_exists :: "'w platform \<Rightarrow> snapshot_tier \<Rightarrow> 'w run \<Rightarrow> bool \<times> 'w run" where
  "tier_exists P t r = ask (\<lambda>w. (so_exists (pf_storage P) t w, w)) (\<lambda>_. C_Observe) r"

section \<open>What a capture does\<close>

text \<open>A step that leaves the objects shared with the recovery worker as they are.\<close>

lemma does_ask: "does r (snd (ask f ev r)) [ev (fst (ask f ev r))]"
  by (simp add: ask_def does_def split_beta)

text \<open>How often a trace captures the desktop.\<close>

fun is_capture :: "call \<Rightarrow> bool" where
  "is_capture (C_Captured _) = True"
| "is_capture _ = False"

definition captures :: "call list \<Rightarrow> nat" where
  "captures es = length (filter is_capture es)"

lemma captures_simps [simp]:
  "captures [] = 0" "captures (e # es) = (if is_capture e then Suc (captures es) else captures es)"
  "captures (es @ es') = captures es + captures es'"
  by (simp_all add: captures_def)

text \<open>The calls \<open>es\<close> captured a desktop of which \<open>f\<close> is what the save filter keeps.\<close>

definition captured_as :: "'w platform \<Rightarrow> string list \<Rightarrow> snapshot \<Rightarrow> call list \<Rightarrow> bool" where
  "captured_as P exclusions f es \<longleftrightarrow>
     (\<exists>s devices. C_Captured s \<in> set es \<and> pf_topology_is_valid P (snap_topology s) \<and>
        filter_snapshot_for_save s devices exclusions = Inr f)"

lemma captured_as_append: "captured_as P ex f es' \<Longrightarrow> captured_as P ex f (es @ es')"
  by (auto simp: captured_as_def)

definition capture_post :: "'w platform \<Rightarrow> string list \<Rightarrow> nat \<Rightarrow> captured option \<Rightarrow> call list \<Rightarrow> bool" where
  "capture_post P exclusions n c es \<longleftrightarrow>
     quiet es \<and> captures es \<le> n \<and> (\<forall>f l. c = Some (f, l) \<longrightarrow> captured_as P exclusions f es)"

lemma capture_filtered_does:
  assumes "capture_filtered P exclusions r = (c, r')"
  shows "\<exists>es. does r r' es \<and> capture_post P exclusions 1 c es"
proof -
  obtain s r1 where 1: "ask (pf_capture_snapshot P) C_Captured r = (s, r1)" by fastforce
  obtain ds r2 where 2: "ask (pf_enumerate P) (\<lambda>_. C_Observe) r1 = (ds, r2)" by fastforce
  have d1: "does r r1 [C_Captured s]" using does_ask [of r "pf_capture_snapshot P" C_Captured] by (simp add: 1)
  have d2: "does r r2 [C_Captured s, C_Observe]"
    using does_trans [OF d1] does_ask [of r1 "pf_enumerate P" "\<lambda>_. C_Observe"] by (simp add: 2)
  have failed: "\<exists>es. does r r3 es \<and> capture_post P exclusions 1 None es" if "does r r3 es" "quiet es" "captures es = 1"
    for r3 es using that by (auto simp: capture_post_def)
  show ?thesis
  proof (cases "pf_topology_is_valid P (snap_topology s)")
    case False
    then show ?thesis using assms failed [OF d1] by (simp add: capture_filtered_def 1)
  next
    case valid: True
    show ?thesis
    proof (cases "filter_snapshot_for_save s ds exclusions")
      case (Inl reason)
      then show ?thesis using assms valid failed [OF d2] by (simp add: capture_filtered_def 1 2)
    next
      case (Inr f)
      obtain l r3 where 3: "ask (pf_capture_layout_rotations P (set (flatten_topology_device_ids (snap_topology f))))
          (\<lambda>_. C_Observe) r2 = (l, r3)" by fastforce
      have d3: "does r r3 [C_Captured s, C_Observe, C_Observe]"
        using does_trans [OF d2 does_ask [of r2 "pf_capture_layout_rotations P
            (set (flatten_topology_device_ids (snap_topology f)))" "\<lambda>_. C_Observe"]] 3 by simp
      moreover have "captured_as P exclusions f [C_Captured s, C_Observe, C_Observe]"
        using valid Inr by (auto simp: captured_as_def)
      ultimately have "\<exists>es. does r r3 es \<and> capture_post P exclusions 1 (Some (f, l)) es"
        by (intro exI [of _ "[C_Captured s, C_Observe, C_Observe]"]) (simp add: capture_post_def)
      then show ?thesis using assms valid Inr by (simp add: capture_filtered_def 1 2 3)
    qed
  qed
qed

lemma does_ledger_sleep: "does r (ledger_sleep P r) [C_Sleep kCaptureRetryDelay]"
  unfolding ledger_sleep_def using does_ask by fast

lemma capture_attempts_does:
  "capture_attempts P exclusions n r = (c, r') \<Longrightarrow> \<exists>es. does r r' es \<and> capture_post P exclusions n c es"
proof (induction P exclusions n r arbitrary: c r' rule: capture_attempts.induct)
  case (1 P exclusions r)
  then show ?case by (auto simp: capture_post_def intro!: exI [of _ "[]"] does_refl)
next
  case (2 P exclusions left r)
  obtain c1 r1 where 1: "capture_filtered P exclusions r = (c1, r1)" by fastforce
  from capture_filtered_does [OF this] obtain e1 where
    e1: "does r r1 e1" "capture_post P exclusions 1 c1 e1" by blast
  show ?case
  proof (cases "c1 = None")
    case False
    then show ?thesis using 2(2) e1 by (auto simp: 1 capture_post_def)
  next
    case True
    define r2 where "r2 = (if 0 < left then ledger_sleep P r1 else r1)"
    obtain q where q: "does r1 r2 q" "quiet q" "captures q = 0"
      using does_refl does_ledger_sleep by (cases "0 < left") (fastforce simp: r2_def)+
    have rest: "capture_attempts P exclusions left r2 = (c, r')" using 2(2) True by (simp add: 1 r2_def)
    have "\<exists>es. does r2 r' es \<and> capture_post P exclusions left c es"
      using 2(1) [OF 1 [symmetric]] rest True by (simp add: r2_def)
    then obtain e2 where e2: "does r2 r' e2" "capture_post P exclusions left c e2" by blast
    have "does r r' (e1 @ q @ e2)" using does_trans [OF e1(1) does_trans [OF q(1) e2(1)]] .
    moreover have "capture_post P exclusions (Suc left) c (e1 @ q @ e2)"
      using e1(2) e2(2) q captured_as_append [of P exclusions _ e2 "e1 @ q"] by (auto simp: capture_post_def)
    ultimately show ?thesis by blast
  qed
qed

text \<open>What a save writes: nothing, or only what a validated and filtered capture became.\<close>

lemma save_attempts_does:
  "save_attempts P t exclusions n r = (ok, r') \<Longrightarrow>
   \<exists>es. does r r' es \<and> captures es \<le> n \<and> \<not> mutated es \<and>
     (\<forall>e \<in> set es. stores e \<longrightarrow> (\<exists>b. e = C_StorageSave t b)) \<and>
     (if ok then \<exists>pre f. es = pre @ [C_StorageSave t True] \<and> captured_as P exclusions f pre
      else C_StorageSave t True \<notin> set es)"
proof (induction P t exclusions n r arbitrary: ok r' rule: save_attempts.induct)
  case (1 P t exclusions r)
  then show ?case by (auto intro!: exI [of _ "[]"] does_refl)
next
  case (2 P t exclusions left r)
  obtain c1 r1 where 1: "capture_filtered P exclusions r = (c1, r1)" by fastforce
  from capture_filtered_does [OF this] obtain e1 where
    e1: "does r r1 e1" "capture_post P exclusions 1 c1 e1" by blast
  define saved where "saved = (case c1 of None \<Rightarrow> (False, r1)
      | Some (s, l) \<Rightarrow> ask (so_save (pf_storage P) t s l) (C_StorageSave t) r1)"
  obtain b r2 where b: "saved = (b, r2)" by fastforce
  obtain e2 where e2: "does r1 r2 e2" "e2 = [] \<and> \<not> b \<or> e2 = [C_StorageSave t b] \<and> c1 \<noteq> None"
  proof (cases c1)
    case None
    then show ?thesis using that [of "[]"] b does_refl [of r2] by (simp add: saved_def)
  next
    case (Some c)
    obtain s l where c: "c = (s, l)" by (cases c)
    show ?thesis
      using that [of "[C_StorageSave t b]"] b Some does_ask [of r1 "so_save (pf_storage P) t s l" "C_StorageSave t"]
      by (simp add: saved_def c)
  qed
  have no_store: "\<not> stores e" if "e \<in> set e1" for e
    using e1(2) that quiet_facts(7) [of e1] by (auto simp: capture_post_def untouched_def list_all_iff)
  then have none: "C_StorageSave t True \<notin> set e1" by fastforce
  have step: "save_attempts P t exclusions (Suc left) r =
      (if b then (True, r2) else save_attempts P t exclusions left (if 0 < left then ledger_sleep P r2 else r2))"
    using b by (simp add: 1 saved_def)
  have q1: "quiet e1" "captures e1 \<le> 1" using e1(2) by (auto simp: capture_post_def)
  show ?case
  proof (cases b)
    case True
    then obtain f where "c1 \<noteq> None" "e2 = [C_StorageSave t True]" "captured_as P exclusions f e1"
      using e2(2) e1(2) by (cases c1) (auto simp: capture_post_def)
    then show ?thesis
      using 2(2) step True does_trans [OF e1(1) e2(1)] q1 no_store
      by (intro exI [of _ "e1 @ e2"]) (auto simp: quiet_facts)
  next
    case False
    define r3 where "r3 = (if 0 < left then ledger_sleep P r2 else r2)"
    obtain q where q: "does r2 r3 q" "quiet q" "captures q = 0"
      using does_refl does_ledger_sleep by (cases "0 < left") (fastforce simp: r3_def)+
    have no_store_q: "\<not> stores e" if "e \<in> set q" for e
      using q(2) that quiet_facts(7) [of q] by (auto simp: untouched_def list_all_iff)
    have rest: "save_attempts P t exclusions left r3 = (ok, r')" using 2(2) step False by (simp add: r3_def)
    from 2(1) [OF refl 1 [symmetric] refl b [unfolded saved_def, symmetric] False rest [unfolded r3_def]]
    obtain e3 where e3: "does r3 r' e3" "captures e3 \<le> left" "\<not> mutated e3"
      "\<forall>e \<in> set e3. stores e \<longrightarrow> (\<exists>b. e = C_StorageSave t b)"
      "if ok then \<exists>pre f. e3 = pre @ [C_StorageSave t True] \<and> captured_as P exclusions f pre
       else C_StorageSave t True \<notin> set e3"
      unfolding r3_def [symmetric] by blast
    let ?es = "e1 @ e2 @ q @ e3"
    have "does r r' ?es"
      using does_trans [OF e1(1) does_trans [OF e2(1) does_trans [OF q(1) e3(1)]]] .
    moreover have "C_StorageSave t True \<notin> set (e1 @ e2 @ q)"
      using none e2(2) False no_store_q by fastforce
    moreover have "\<exists>pre f. ?es = pre @ [C_StorageSave t True] \<and> captured_as P exclusions f pre" if ok
      using e3(5) that captured_as_append [of P exclusions _ _ "e1 @ e2 @ q"]
      by (metis append.assoc)
    ultimately show ?thesis
      using e3 e2(2) q q1 no_store no_store_q False
      by (intro exI [of _ ?es]) (auto simp: quiet_facts)
  qed
qed

section \<open>Properties\<close>



end
