(* ===== verification/State_Machine.thy ===== *)
theory State_Machine
  imports Async_Dispatcher Snapshot_Ledger
begin

text \<open>
  The state of \<open>StateMachine\<close> (\<open>state_machine.h\<close>) together with the objects it owns or shares
  (\<open>SystemPorts\<close>, \<open>ApplyPipeline\<close>, \<open>RecoveryPipeline\<close>, \<open>SnapshotLedger\<close>, the scheduler), and the helper
  methods of \<open>state_machine.cpp\<close>. Every method is a function on the state. The handlers of the messages
  are in the theory \<open>Message_Handlers\<close>.
\<close>

section \<open>The state\<close>

datatype mutation_worker_kind = Worker_Apply | Worker_RefreshRate | Worker_Recovery

record active_mutation_worker =
  amw_kind :: mutation_worker_kind
  amw_generation :: u64

datatype deferred_command =
  D_Apply apply_command
| D_Revert revert_command
| D_Disarm disarm_command
| D_Reset reset_command

text \<open>What leaves the state machine: callbacks, and the calls on the ports that write.\<close>

datatype sm_output =
  O_Transition sm_state sm_state apply_action "apply_status option" time_ns
| O_ApplyResult apply_status u64 u64
| O_VerificationResult bool u64 u64
| O_SnapshotResult bool u64 u64
| O_RefreshRateResult bool u64 u64
| O_Exit int
| O_CreateRestoreTask bool
| O_DeleteRestoreTask
| O_RefreshShell
| O_BlankHdr time_ns

text \<open>
  The environment: the display platform, the interfaces only the state machine calls, the provider of
  the connection epoch and which callbacks are set.
\<close>

record 'w ports =
  po_platform :: "'w platform"
  po_connection_epoch :: "('w \<Rightarrow> u64 \<times> 'w) option"
  po_vdd_device_id :: "'w \<Rightarrow> device_id \<times> 'w"
  po_create_restore_task :: "'w \<Rightarrow> bool \<times> 'w"
  po_delete_restore_task :: "'w \<Rightarrow> bool \<times> 'w"
  po_refresh_shell :: "'w \<Rightarrow> unit \<times> 'w"
  po_blank_hdr_states :: "time_ns \<Rightarrow> 'w \<Rightarrow> unit \<times> 'w"
  po_observer :: bool
  po_apply_result_callback :: bool
  po_verification_result_callback :: bool
  po_snapshot_result_callback :: bool
  po_refresh_rate_result_callback :: bool
  po_exit_callback :: bool

text \<open>
  \<open>sm_run\<close> holds the world, the restore flags and the golden health the recovery worker shares;
  \<open>sm_generation\<close> is the counter of the \<open>CancellationSource\<close>, \<open>sm_last_reset\<close> the state of the
  \<open>ApplyPolicy\<close> and \<open>sm_prefer_golden_first\<close> that of the \<open>SnapshotPersistence\<close>; \<open>sm_thrown\<close> says that an
  exception has left a handler. The other fields are the members of the class, without their final
  underscore; \<open>settlement\<close> abbreviates \<open>transient_disconnect_settlement\<close> (\<open>transient_disconnect\<close> in the
  names of the check and the repair).
\<close>

record 'w sm =
  sm_run :: "'w run"
  sm_thrown :: bool
  sm_outputs :: "sm_output list"
  sm_generation :: u64
  sm_heartbeat :: heartbeat_monitor
  sm_dispatcher :: "message dispatcher"
  sm_last_reset :: time_ns
  sm_prefer_golden_first :: bool
  sm_scheduler :: restore_scheduler
  sm_state :: sm_state
  sm_recovery_armed :: bool
  sm_display_changes_pending_recovery :: bool
  sm_explicit_recovery_required :: bool
  sm_apply_attempt :: int
  sm_virtual_hdr_fallback_attempted :: bool
  sm_apply_result_sent :: bool
  sm_verification_result_sent :: bool
  sm_session_was_verified :: bool
  sm_restore_task_created :: bool
  sm_post_apply_check_pending :: bool
  sm_post_apply_stabilization_delays :: "time_ns list"
  sm_next_post_apply_stabilization :: nat
  sm_verification_reapply_delays :: "time_ns list"
  sm_next_verification_reapply :: nat
  sm_settlement_requested :: bool
  sm_settlement_check_pending :: bool
  sm_settlement_repair_in_flight :: bool
  sm_next_settlement_check :: nat
  sm_last_apply_started :: "time_ns option"
  sm_current_request :: apply_request
  sm_expected_topology :: "topology option"
  sm_resolved_target :: "resolved_target option"
  sm_recovery_snapshot :: "snapshot option"
  sm_snapshot_blacklist :: "string set"
  sm_current_connection_epoch :: u64
  sm_active_mutation_worker :: "active_mutation_worker option"
  sm_deferred_mutation_commands :: "deferred_command list"
  sm_unconfirmed_cancelled_mutation :: bool
  sm_staged_state_reset_pending :: bool
  sm_exit_after_staged_state_reset :: bool
  sm_staged_state_prepared :: bool
  sm_recovery_staged_state_reset_succeeded :: "bool option"
  sm_recovery_lease_before_apply :: bool
  sm_last_virtual_apply_restart :: time_ns

definition initial_sm :: "'w run \<Rightarrow> 'w sm" where
  "initial_sm r =
     \<lparr>sm_run = r, sm_thrown = False, sm_outputs = [], sm_generation = 0, sm_heartbeat = initial_heartbeat,
      sm_dispatcher = initial_dispatcher, sm_last_reset = 0, sm_prefer_golden_first = False,
      sm_scheduler = initial_scheduler, sm_state = Waiting, sm_recovery_armed = False,
      sm_display_changes_pending_recovery = False, sm_explicit_recovery_required = False,
      sm_apply_attempt = 0, sm_virtual_hdr_fallback_attempted = False, sm_apply_result_sent = False,
      sm_verification_result_sent = False, sm_session_was_verified = False,
      sm_restore_task_created = False, sm_post_apply_check_pending = False,
      sm_post_apply_stabilization_delays = [], sm_next_post_apply_stabilization = 0,
      sm_verification_reapply_delays = [], sm_next_verification_reapply = 0,
      sm_settlement_requested = False, sm_settlement_check_pending = False,
      sm_settlement_repair_in_flight = False, sm_next_settlement_check = 0,
      sm_last_apply_started = None, sm_current_request = default_apply_request,
      sm_expected_topology = None, sm_resolved_target = None, sm_recovery_snapshot = None,
      sm_snapshot_blacklist = {}, sm_current_connection_epoch = 0, sm_active_mutation_worker = None,
      sm_deferred_mutation_commands = [], sm_unconfirmed_cancelled_mutation = False,
      sm_staged_state_reset_pending = False, sm_exit_after_staged_state_reset = False,
      sm_staged_state_prepared = False, sm_recovery_staged_state_reset_succeeded = None,
      sm_recovery_lease_before_apply = False, sm_last_virtual_apply_restart = 0\<rparr>"

section \<open>Ports\<close>

definition platform :: "'w ports \<Rightarrow> 'w platform" where
  "platform E = po_platform E"

definition sm_ask :: "('w \<Rightarrow> 'a \<times> 'w) \<Rightarrow> ('a \<Rightarrow> call) \<Rightarrow> 'w sm \<Rightarrow> 'a \<times> 'w sm" where
  "sm_ask f ev s = (let (x, r) = ask f ev (sm_run s) in (x, s\<lparr>sm_run := r\<rparr>))"

text \<open>A call of the ledger; an exception leaves the handler.\<close>

definition sm_try :: "('w run \<Rightarrow> ('w, 'a) result) \<Rightarrow> ('a \<Rightarrow> 'w sm \<Rightarrow> 'w sm) \<Rightarrow> 'w sm \<Rightarrow> 'w sm" where
  "sm_try m k s = (case m (sm_run s) of
      None \<Rightarrow> s\<lparr>sm_thrown := True\<rparr>
    | Some (x, r) \<Rightarrow> k x (s\<lparr>sm_run := r\<rparr>))"

definition emit :: "sm_output \<Rightarrow> 'w sm \<Rightarrow> 'w sm" where
  "emit out s = s\<lparr>sm_outputs := sm_outputs s @ [out]\<rparr>"

definition sm_now :: "'w ports \<Rightarrow> 'w sm \<Rightarrow> time_ns \<times> 'w sm" where
  "sm_now E s = sm_ask (pf_now (platform E)) C_Now s"

definition token :: "'w sm \<Rightarrow> cancellation_token" where
  "token s = cs_token (sm_generation s)"

definition cancel_operations :: "'w sm \<Rightarrow> 'w sm" where
  "cancel_operations s = s\<lparr>sm_generation := cs_cancel (sm_generation s)\<rparr>"

definition arm_heartbeat :: "'w ports \<Rightarrow> 'w sm \<Rightarrow> 'w sm" where
  "arm_heartbeat E s = (let (now, s) = sm_now E s in s\<lparr>sm_heartbeat := hb_arm now (sm_heartbeat s)\<rparr>)"

definition disarm_heartbeat :: "'w sm \<Rightarrow> 'w sm" where
  "disarm_heartbeat s = s\<lparr>sm_heartbeat := hb_disarm (sm_heartbeat s)\<rparr>"

definition record_ping :: "'w ports \<Rightarrow> 'w sm \<Rightarrow> 'w sm" where
  "record_ping E s = (let (now, s) = sm_now E s in s\<lparr>sm_heartbeat := hb_record_ping now (sm_heartbeat s)\<rparr>)"

definition refresh_shell :: "'w ports \<Rightarrow> 'w sm \<Rightarrow> 'w sm" where
  "refresh_shell E s = emit O_RefreshShell (snd (sm_ask (po_refresh_shell E) (\<lambda>_. C_Observe) s))"

definition blank_hdr_states :: "'w ports \<Rightarrow> time_ns \<Rightarrow> 'w sm \<Rightarrow> 'w sm" where
  "blank_hdr_states E d s = emit (O_BlankHdr d) (snd (sm_ask (po_blank_hdr_states E d) (\<lambda>_. C_Observe) s))"

definition create_restore_task :: "'w ports \<Rightarrow> 'w sm \<Rightarrow> bool \<times> 'w sm" where
  "create_restore_task E s =
     (let (ok, s) = sm_ask (po_create_restore_task E) (\<lambda>_. C_Observe) s in (ok, emit (O_CreateRestoreTask ok) s))"

definition delete_restore_task :: "'w ports \<Rightarrow> 'w sm \<Rightarrow> 'w sm" where
  "delete_restore_task E s =
     emit O_DeleteRestoreTask (snd (sm_ask (po_delete_restore_task E) (\<lambda>_. C_Observe) s))"

definition call_exit :: "'w ports \<Rightarrow> int \<Rightarrow> 'w sm \<Rightarrow> 'w sm" where
  "call_exit E code s = (if po_exit_callback E then emit (O_Exit code) s else s)"

abbreviation restore_flags :: "'w sm \<Rightarrow> restore_state" where
  "restore_flags s \<equiv> rn_restore_state (sm_run s)"

definition update_flags :: "(restore_state \<Rightarrow> restore_state) \<Rightarrow> 'w sm \<Rightarrow> 'w sm" where
  "update_flags f s = s\<lparr>sm_run := update_restore_state f (sm_run s)\<rparr>"

definition update_health :: "(golden_health \<Rightarrow> golden_health) \<Rightarrow> 'w sm \<Rightarrow> 'w sm" where
  "update_health f s = s\<lparr>sm_run := update_golden f (sm_run s)\<rparr>"

definition update_scheduler :: "(restore_scheduler \<Rightarrow> restore_scheduler) \<Rightarrow> 'w sm \<Rightarrow> 'w sm" where
  "update_scheduler f s = s\<lparr>sm_scheduler := f (sm_scheduler s)\<rparr>"

section \<open>The pipelines\<close>

definition enqueue :: "message task \<Rightarrow> 'w sm \<Rightarrow> 'w sm" where
  "enqueue t s = s\<lparr>sm_dispatcher := enqueue_task t (sm_dispatcher s)\<rparr>"

definition apply_message :: "u64 \<Rightarrow> apply_outcome \<Rightarrow> message" where
  "apply_message gen out = M_ApplyCompleted
     \<lparr>acd_status = ao_status out, acd_expected_topology = ao_expected_topology out,
      acd_resolved_target = ao_resolved_target out,
      acd_virtual_display_requested = ao_virtual_display_requested out,
      acd_display_may_have_changed = ao_display_may_have_changed out,
      acd_durable_recovery_armed = ao_durable_recovery_armed out,
      acd_staged_state_prepared = ao_staged_state_prepared out, acd_generation = gen\<rparr>"

definition dispatch_apply :: "apply_request \<Rightarrow> time_ns \<Rightarrow> bool \<Rightarrow> 'w sm \<Rightarrow> u64 \<times> 'w sm" where
  "dispatch_apply request delay reset_virtual_display s =
     (let gen = tok_generation (token s)
      in (gen, enqueue (Task_Apply (token s) request delay reset_virtual_display (apply_message gen)) s))"

definition verification_message :: "u64 \<Rightarrow> verification_purpose \<Rightarrow> bool \<Rightarrow> message" where
  "verification_message gen purpose ok =
     M_VerificationCompleted \<lparr>vcd_success = ok, vcd_purpose = purpose, vcd_generation = gen\<rparr>"

definition dispatch_verification ::
  "apply_request \<Rightarrow> topology option \<Rightarrow> resolved_target option \<Rightarrow> time_ns \<Rightarrow> verification_purpose \<Rightarrow>
   'w sm \<Rightarrow> 'w sm" where
  "dispatch_verification request expected resolved delay purpose s =
     (let k = verification_message (tok_generation (token s)) purpose
      in if 0 < delay
         then s\<lparr>sm_dispatcher := enqueue_delayed_task
                 (Timer_Verification (token s) request expected resolved delay k) (sm_dispatcher s)\<rparr>
         else enqueue (Task_Verification (token s) request expected resolved k) s)"

definition reset_message :: "u64 \<Rightarrow> bool \<Rightarrow> message" where
  "reset_message gen ok = M_ResetCompleted \<lparr>rcd_success = ok, rcd_generation = gen\<rparr>"

definition dispatch_reset_staged_apply_state :: "'w sm \<Rightarrow> 'w sm" where
  "dispatch_reset_staged_apply_state s = enqueue (Task_ResetStaged (reset_message (sm_generation s))) s"

definition refresh_rate_message :: "u64 \<Rightarrow> refresh_rate_command \<Rightarrow> bool \<Rightarrow> message" where
  "refresh_rate_message gen c ok = M_RefreshRateCompleted
     \<lparr>rrd_success = ok, rrd_device_id = rr_device_id c, rrd_numerator = rr_numerator c,
      rrd_denominator = rr_denominator c, rrd_generation = gen,
      rrd_connection_epoch = rr_connection_epoch c, rrd_request_id = rr_request_id c\<rparr>"

definition dispatch_refresh_rate :: "refresh_rate_command \<Rightarrow> 'w sm \<Rightarrow> u64 \<times> 'w sm" where
  "dispatch_refresh_rate c s =
     (let gen = tok_generation (token s)
      in (gen, enqueue (Task_RefreshRate (token s) (rr_device_id c) (rr_numerator c) (rr_denominator c)
                 (refresh_rate_message gen c)) s))"

definition recovery_message :: "u64 \<Rightarrow> recovery_outcome \<Rightarrow> message" where
  "recovery_message gen out = M_RecoveryCompleted
     \<lparr>rvd_success = ro_success out, rvd_snapshot = ro_snapshot out,
      rvd_display_may_have_changed = ro_display_may_have_changed out,
      rvd_staged_state_reset_attempted = ro_staged_state_reset_attempted out,
      rvd_staged_state_reset_succeeded = ro_staged_state_reset_succeeded out, rvd_generation = gen\<rparr>"

definition dispatch_recovery :: "time_ns \<Rightarrow> 'w sm \<Rightarrow> u64 \<times> 'w sm" where
  "dispatch_recovery delay s =
     (let gen = tok_generation (token s)
      in (gen, enqueue (Task_Recovery (token s) delay (recovery_message gen)) s))"

definition recovery_validation_message :: "u64 \<Rightarrow> bool \<Rightarrow> message" where
  "recovery_validation_message gen ok = M_RecoveryValidationCompleted \<lparr>rvv_success = ok, rvv_generation = gen\<rparr>"

definition dispatch_recovery_validation :: "snapshot \<Rightarrow> 'w sm \<Rightarrow> u64 \<times> 'w sm" where
  "dispatch_recovery_validation snap s =
     (let gen = tok_generation (token s)
      in (gen, enqueue (Task_RecoveryValidation (token s) snap (recovery_validation_message gen)) s))"

section \<open>Queries\<close>

definition mutation_worker_active :: "'w sm \<Rightarrow> bool" where
  "mutation_worker_active s \<longleftrightarrow> sm_active_mutation_worker s \<noteq> None"

definition owns_active_worker :: "mutation_worker_kind \<Rightarrow> u64 \<Rightarrow> 'w sm \<Rightarrow> bool" where
  "owns_active_worker kind gen s \<longleftrightarrow>
     sm_active_mutation_worker s = Some \<lparr>amw_kind = kind, amw_generation = gen\<rparr>"

definition is_stale :: "u64 \<Rightarrow> 'w sm \<Rightarrow> bool" where
  "is_stale gen s \<longleftrightarrow> gen \<noteq> sm_generation s"

definition is_stale_connection :: "'w ports \<Rightarrow> u64 \<Rightarrow> 'w sm \<Rightarrow> bool \<times> 'w sm" where
  "is_stale_connection E epoch s =
     (if epoch = 0 then (False, s)
      else case po_connection_epoch E of
             None \<Rightarrow> (False, s)
           | Some provider \<Rightarrow>
               let (current, s) = sm_ask provider (\<lambda>_. C_Observe) s in (epoch \<noteq> current, s))"

definition restore_pending :: "'w sm \<Rightarrow> bool" where
  "restore_pending s \<longleftrightarrow> sm_state s \<in> {Recovery, RecoveryValidation, EventLoop}"

definition recovery_worker_in_progress :: "'w sm \<Rightarrow> bool" where
  "recovery_worker_in_progress s \<longleftrightarrow> sm_state s \<in> {Recovery, RecoveryValidation}"

definition apply_in_flight :: "'w sm \<Rightarrow> bool" where
  "apply_in_flight s \<longleftrightarrow> mutation_worker_active s \<or> sm_state s \<in> {InProgress, Verification}"

definition requires_disconnect_recovery :: "'w sm \<Rightarrow> bool" where
  "requires_disconnect_recovery s \<longleftrightarrow>
     sm_recovery_armed s \<or> sm_display_changes_pending_recovery s \<or> apply_in_flight s \<or> restore_pending s"

definition kApplyDisconnectGrace :: time_ns where "kApplyDisconnectGrace = ms 5000"

definition should_defer_disconnect_recovery :: "'w ports \<Rightarrow> 'w sm \<Rightarrow> bool \<times> 'w sm" where
  "should_defer_disconnect_recovery E s =
     (if sm_explicit_recovery_required s \<or> \<not> rst_restore_on_disconnect (restore_flags s) then (False, s)
      else case sm_last_apply_started s of
             None \<Rightarrow> (False, s)
           | Some t \<Rightarrow> let (now, s) = sm_now E s; elapsed = now - t
                        in (0 \<le> elapsed \<and> elapsed \<le> kApplyDisconnectGrace, s))"

definition refresh_targets_active_request :: "device_id \<Rightarrow> 'w sm \<Rightarrow> bool" where
  "refresh_targets_active_request d s \<longleftrightarrow>
     (case ar_configuration (sm_current_request s) of
        None \<Rightarrow> False
      | Some cfg \<Rightarrow>
          iequals (cfg_device_id cfg) d \<or>
          (cfg_device_id cfg = [] \<and>
           (case sm_resolved_target s of
              None \<Rightarrow> False
            | Some t \<Rightarrow> (\<exists>c \<in> rt_duplicates t. iequals c d))))"

definition exclusions_vector :: "'w sm \<Rightarrow> string list" where
  "exclusions_vector s = sorted_list_of_set (sm_snapshot_blacklist s)"

definition is_reset :: "deferred_command \<Rightarrow> bool" where
  "is_reset c \<longleftrightarrow> (case c of D_Reset _ \<Rightarrow> True | _ \<Rightarrow> False)"

definition is_deferred_apply :: "deferred_command \<Rightarrow> bool" where
  "is_deferred_apply c \<longleftrightarrow> (case c of D_Apply _ \<Rightarrow> True | _ \<Rightarrow> False)"

definition has_deferred_apply_intent :: "'w sm \<Rightarrow> bool" where
  "has_deferred_apply_intent s \<longleftrightarrow> list_ex is_deferred_apply (sm_deferred_mutation_commands s)"

definition verification_request :: "'w sm \<Rightarrow> apply_request" where
  "verification_request s = sm_current_request s"

section \<open>The helper methods\<close>

definition transition ::
  "'w ports \<Rightarrow> sm_state \<Rightarrow> apply_action \<Rightarrow> apply_status option \<Rightarrow> 'w sm \<Rightarrow> 'w sm" where
  "transition E next trigger status s =
     (if next = sm_state s then s
      else let s = (if po_observer E
                    then let (now, s) = sm_now E s
                         in emit (O_Transition (sm_state s) next trigger status now) s
                    else s)
           in s\<lparr>sm_state := next\<rparr>)"

definition update_blacklist :: "string list \<Rightarrow> 'w sm \<Rightarrow> 'w sm" where
  "update_blacklist exclude_devices s =
     (let s = s\<lparr>sm_snapshot_blacklist := set (filter (\<lambda>d. d \<noteq> []) exclude_devices)\<rparr>
      in update_flags (set_exclusions (exclusions_vector s)) s)"

definition set_snapshot_blacklist :: "string set \<Rightarrow> 'w sm \<Rightarrow> 'w sm" where
  "set_snapshot_blacklist blacklist s =
     (let s = s\<lparr>sm_snapshot_blacklist := blacklist\<rparr>
      in update_flags (set_exclusions (exclusions_vector s)) s)"

definition start_recovery :: "'w ports \<Rightarrow> time_ns \<Rightarrow> apply_action \<Rightarrow> 'w sm \<Rightarrow> 'w sm" where
  "start_recovery E delay trigger s =
     (let s = s\<lparr>sm_recovery_staged_state_reset_succeeded := None\<rparr>;
          s = transition E Recovery trigger None s;
          (gen, s) = dispatch_recovery delay s
      in s\<lparr>sm_active_mutation_worker := Some \<lparr>amw_kind = Worker_Recovery, amw_generation = gen\<rparr>\<rparr>)"

definition reset_settlement :: "'w sm \<Rightarrow> 'w sm" where
  "reset_settlement s =
     s\<lparr>sm_settlement_requested := False, sm_settlement_check_pending := False,
       sm_settlement_repair_in_flight := False, sm_next_settlement_check := 0\<rparr>"

definition clear_recovery_state :: "'w ports \<Rightarrow> bool \<Rightarrow> 'w sm \<Rightarrow> 'w sm" where
  "clear_recovery_state E delete_task s =
     (let s = update_scheduler sch_disarm s;
          s = update_flags reset_request_progress s;
          s = s\<lparr>sm_recovery_armed := False, sm_display_changes_pending_recovery := False,
                sm_explicit_recovery_required := False, sm_last_apply_started := None\<rparr>;
          s = reset_settlement s;
          s = disarm_heartbeat s;
          s = s\<lparr>sm_recovery_snapshot := None\<rparr>
      in if delete_task then (delete_restore_task E s)\<lparr>sm_restore_task_created := False\<rparr> else s)"

definition apply_recovery_policy_from_current_request :: "'w sm \<Rightarrow> 'w sm" where
  "apply_recovery_policy_from_current_request s =
     (let req = sm_current_request s;
          s = update_flags (\<lambda>st. st\<lparr>rst_always_restore_from_golden := ar_prefer_golden_first req\<rparr>) s;
          s = update_flags (\<lambda>st. st\<lparr>rst_restore_on_disconnect := ar_restore_on_disconnect req\<rparr>) s
      in s\<lparr>sm_prefer_golden_first := ar_prefer_golden_first req\<rparr>)"

definition activate_recovery_lease :: "'w sm \<Rightarrow> 'w sm" where
  "activate_recovery_lease s =
     apply_recovery_policy_from_current_request
       (s\<lparr>sm_recovery_armed := True, sm_display_changes_pending_recovery := True\<rparr>)"

definition send_apply_result :: "'w ports \<Rightarrow> apply_status \<Rightarrow> 'w sm \<Rightarrow> 'w sm" where
  "send_apply_result E status s =
     (if sm_apply_result_sent s \<or> \<not> po_apply_result_callback E then s
      else (emit (O_ApplyResult status (sm_current_connection_epoch s)
                    (ar_request_id (sm_current_request s))) s)\<lparr>sm_apply_result_sent := True\<rparr>)"

definition send_verification_result :: "'w ports \<Rightarrow> bool \<Rightarrow> 'w sm \<Rightarrow> 'w sm" where
  "send_verification_result E ok s =
     (if sm_verification_result_sent s \<or> \<not> po_verification_result_callback E then s
      else (emit (O_VerificationResult ok (sm_current_connection_epoch s)
                    (ar_request_id (sm_current_request s))) s)\<lparr>sm_verification_result_sent := True\<rparr>)"

definition send_snapshot_result :: "'w ports \<Rightarrow> bool \<Rightarrow> u64 \<Rightarrow> u64 \<Rightarrow> 'w sm \<Rightarrow> 'w sm" where
  "send_snapshot_result E ok epoch request_id s =
     (if po_snapshot_result_callback E then emit (O_SnapshotResult ok epoch request_id) s else s)"

definition send_refresh_rate_result :: "'w ports \<Rightarrow> bool \<Rightarrow> u64 \<Rightarrow> u64 \<Rightarrow> 'w sm \<Rightarrow> 'w sm" where
  "send_refresh_rate_result E ok epoch request_id s =
     (if po_refresh_rate_result_callback E then emit (O_RefreshRateResult ok epoch request_id) s else s)"

definition enter_steady_state :: "'w ports \<Rightarrow> 'w sm \<Rightarrow> 'w sm" where
  "enter_steady_state E s =
     transition E (if ar_virtual_layout (sm_current_request s) \<noteq> None then VirtualDisplayMonitoring else Waiting)
       Action_Apply (Some Status_Ok) s"

definition reset_post_apply_stabilization :: "'w sm \<Rightarrow> 'w sm" where
  "reset_post_apply_stabilization s =
     s\<lparr>sm_post_apply_check_pending := False, sm_next_post_apply_stabilization := 0,
       sm_post_apply_stabilization_delays := [], sm_next_verification_reapply := 0,
       sm_verification_reapply_delays := []\<rparr>"

definition replace_stabilization_with_settlement :: "'w sm \<Rightarrow> 'w sm" where
  "replace_stabilization_with_settlement s =
     reset_post_apply_stabilization
       (if sm_post_apply_check_pending s \<or> (sm_session_was_verified s \<and> sm_state s = Verification)
        then cancel_operations s else s)"

definition rewind_post_apply_stabilization :: "'w sm \<Rightarrow> 'w sm" where
  "rewind_post_apply_stabilization s =
     s\<lparr>sm_post_apply_check_pending := False, sm_next_post_apply_stabilization := 0\<rparr>"

definition schedule_next_post_apply_stabilization :: "'w sm \<Rightarrow> 'w sm" where
  "schedule_next_post_apply_stabilization s =
     (if sm_post_apply_check_pending s \<or>
         length (sm_post_apply_stabilization_delays s) \<le> sm_next_post_apply_stabilization s then s
      else let delay = sm_post_apply_stabilization_delays s ! sm_next_post_apply_stabilization s;
               s = s\<lparr>sm_next_post_apply_stabilization := sm_next_post_apply_stabilization s + 1,
                     sm_post_apply_check_pending := True\<rparr>
           in dispatch_verification (verification_request s) (sm_expected_topology s) (sm_resolved_target s)
                delay Stabilization s)"

definition dispatch_apply_worker :: "apply_request \<Rightarrow> time_ns \<Rightarrow> bool \<Rightarrow> 'w sm \<Rightarrow> 'w sm" where
  "dispatch_apply_worker request delay reset_virtual_display s =
     (let (gen, s) = dispatch_apply request delay reset_virtual_display s
      in s\<lparr>sm_active_mutation_worker := Some \<lparr>amw_kind = Worker_Apply, amw_generation = gen\<rparr>\<rparr>)"

definition dispatch_next_verification_reapply :: "'w ports \<Rightarrow> 'w sm \<Rightarrow> bool \<times> 'w sm" where
  "dispatch_next_verification_reapply E s =
     (if length (sm_verification_reapply_delays s) \<le> sm_next_verification_reapply s then (False, s)
      else let stage = sm_next_verification_reapply s;
               s = s\<lparr>sm_next_verification_reapply := stage + 1\<rparr>;
               delay = sm_verification_reapply_delays s ! stage
           in if ar_omit_final_initial_hdr_reapply (sm_current_request s) \<and> \<not> sm_session_was_verified s \<and>
                 delay = ms 5500
              then (False, s)
              else let s = s\<lparr>sm_next_post_apply_stabilization := max (sm_next_post_apply_stabilization s) stage\<rparr>;
                       s = transition E InProgress Action_Apply (Some Status_VerificationFailed) s
                   in (True, dispatch_apply_worker (sm_current_request s) delay False s))"

definition kSettlementDelays :: "time_ns list" where "kSettlementDelays = [ms 250, ms 750]"

definition dispatch_next_settlement_verification :: "'w ports \<Rightarrow> 'w sm \<Rightarrow> bool \<times> 'w sm" where
  "dispatch_next_settlement_verification E s =
     (if sm_settlement_check_pending s then (True, s)
      else if \<not> sm_settlement_requested s \<or> length kSettlementDelays \<le> sm_next_settlement_check s \<or>
              ar_configuration (sm_current_request s) = None
      then (False, reset_settlement s)
      else let delay = kSettlementDelays ! sm_next_settlement_check s;
               s = s\<lparr>sm_next_settlement_check := sm_next_settlement_check s + 1,
                     sm_settlement_check_pending := True\<rparr>;
               s = transition E Verification Action_Apply None s
           in (True, dispatch_verification (verification_request s) (sm_expected_topology s)
                       (sm_resolved_target s) delay TransientDisconnect s))"

definition dispatch_settlement_repair :: "'w ports \<Rightarrow> 'w sm \<Rightarrow> 'w sm" where
  "dispatch_settlement_repair E s =
     (let s = cancel_operations s;
          s = s\<lparr>sm_settlement_check_pending := False, sm_settlement_repair_in_flight := True\<rparr>;
          s = transition E InProgress Action_Apply (Some Status_VerificationFailed) s
      in dispatch_apply_worker (sm_current_request s) 0 False s)"

definition dispatch_immediate_repair_after_stabilization_failure :: "'w ports \<Rightarrow> 'w sm \<Rightarrow> 'w sm" where
  "dispatch_immediate_repair_after_stabilization_failure E s =
     (let s = s\<lparr>sm_next_verification_reapply :=
                  max (sm_next_verification_reapply s) (sm_next_post_apply_stabilization s + 1)\<rparr>;
          s = transition E InProgress Action_Apply (Some Status_VerificationFailed) s
      in dispatch_apply_worker (sm_current_request s) 0 False s)"

definition enqueue_deferred_mutation_command :: "deferred_command \<Rightarrow> 'w sm \<Rightarrow> 'w sm" where
  "enqueue_deferred_mutation_command c s =
     s\<lparr>sm_deferred_mutation_commands :=
        (if is_reset c then sm_deferred_mutation_commands s
         else filter is_reset (sm_deferred_mutation_commands s)) @ [c]\<rparr>"

definition queue_after_active_mutation :: "deferred_command \<Rightarrow> bool \<Rightarrow> 'w sm \<Rightarrow> 'w sm" where
  "queue_after_active_mutation c cancel_active_mutation s =
     enqueue_deferred_mutation_command c (if cancel_active_mutation then cancel_operations s else s)"

definition begin_staged_state_reset :: "'w sm \<Rightarrow> 'w sm" where
  "begin_staged_state_reset s =
     (if sm_staged_state_reset_pending s then s
      else dispatch_reset_staged_apply_state (s\<lparr>sm_staged_state_reset_pending := True\<rparr>))"

text \<open>\<open>create_restore_task\<close> is asked only while no task is known to exist.\<close>

definition ensure_restore_task :: "'w ports \<Rightarrow> 'w sm \<Rightarrow> 'w sm" where
  "ensure_restore_task E s =
     (if sm_restore_task_created s then s
      else let (ok, s) = create_restore_task E s in s\<lparr>sm_restore_task_created := ok\<rparr>)"

definition retain_recovery_after_display_mutation :: "'w ports \<Rightarrow> apply_completed \<Rightarrow> 'w sm \<Rightarrow> 'w sm" where
  "retain_recovery_after_display_mutation E completed s =
     (let s = (if acd_durable_recovery_armed completed then s\<lparr>sm_restore_task_created := True\<rparr> else s);
          s = activate_recovery_lease s
      in ensure_restore_task E s)"

definition retain_recovery_after_cancelled_recovery :: "'w ports \<Rightarrow> 'w sm \<Rightarrow> 'w sm" where
  "retain_recovery_after_cancelled_recovery E s =
     arm_heartbeat E (s\<lparr>sm_recovery_armed := True, sm_display_changes_pending_recovery := True,
                        sm_unconfirmed_cancelled_mutation := True\<rparr>)"

definition reset_uncommitted_staged_state_if_needed :: "'w ports \<Rightarrow> 'w sm \<Rightarrow> 'w sm" where
  "reset_uncommitted_staged_state_if_needed E s =
     (if \<not> sm_staged_state_prepared s \<or> sm_recovery_lease_before_apply s \<or> sm_recovery_armed s \<or>
         sm_unconfirmed_cancelled_mutation s then s
      else begin_staged_state_reset
        (if sm_restore_task_created s
         then (delete_restore_task E s)\<lparr>sm_restore_task_created := False\<rparr> else s))"

text \<open>\<open>retarget_virtual_display_device_id_if_needed\<close>: the virtual display's new id replaces the old one.\<close>

definition retarget_request :: "device_id \<Rightarrow> apply_request \<Rightarrow> apply_request" where
  "retarget_request resolved req =
     (case ar_configuration req of
        None \<Rightarrow> req
      | Some cfg \<Rightarrow>
          let previous = cfg_device_id cfg;
              rename = (\<lambda>d. if previous \<noteq> [] \<and> iequals d previous then resolved else d)
          in if resolved = [] \<or> (previous \<noteq> [] \<and> iequals previous resolved) then req
             else req\<lparr>ar_configuration := Some (cfg\<lparr>cfg_device_id := resolved\<rparr>),
                      ar_topology := map_option (map (map rename)) (ar_topology req),
                      ar_monitor_positions := map (\<lambda>(d, p). (rename d, p)) (ar_monitor_positions req)\<rparr>)"

definition retarget_virtual_display_device_id_if_needed :: "'w ports \<Rightarrow> 'w sm \<Rightarrow> 'w sm" where
  "retarget_virtual_display_device_id_if_needed E s =
     (if ar_virtual_layout (sm_current_request s) = None \<or> ar_configuration (sm_current_request s) = None then s
      else let (resolved, s) = sm_ask (po_vdd_device_id E) (\<lambda>_. C_Observe) s
           in s\<lparr>sm_current_request := retarget_request resolved (sm_current_request s)\<rparr>)"

definition begin_transient_disconnect_settlement :: "'w ports \<Rightarrow> 'w sm \<Rightarrow> bool \<times> 'w sm" where
  "begin_transient_disconnect_settlement E s =
     (let (defer_it, s) = should_defer_disconnect_recovery E s
      in if \<not> defer_it \<or> ar_configuration (sm_current_request s) = None then (False, s)
         else if sm_settlement_requested s then (True, s)
         else let s = s\<lparr>sm_settlement_requested := True\<rparr>;
                  s = (if \<not> mutation_worker_active s then replace_stabilization_with_settlement s else s)
              in if mutation_worker_active s \<or> (\<not> sm_session_was_verified s \<and> sm_state s = Verification)
                 then (True, s)
                 else dispatch_next_settlement_verification E s)"

section \<open>The part of the state the fences are made of\<close>

text \<open>
  The members that decide which work is in flight and which commands wait. Most helpers leave this view
  of the state alone; the simplifier reads these members through it.
\<close>

record core =
  co_state :: sm_state
  co_generation :: u64
  co_dispatcher :: "message dispatcher"
  co_worker :: "active_mutation_worker option"
  co_deferred :: "deferred_command list"
  co_reset_pending :: bool
  co_check_pending :: bool

definition core :: "'w sm \<Rightarrow> core" where
  "core s = \<lparr>co_state = sm_state s, co_generation = sm_generation s, co_dispatcher = sm_dispatcher s,
     co_worker = sm_active_mutation_worker s, co_deferred = sm_deferred_mutation_commands s,
     co_reset_pending = sm_staged_state_reset_pending s, co_check_pending = sm_post_apply_check_pending s\<rparr>"

lemma core_fields:
  "sm_state s = co_state (core s)"
  "sm_generation s = co_generation (core s)"
  "sm_dispatcher s = co_dispatcher (core s)"
  "sm_active_mutation_worker s = co_worker (core s)"
  "sm_deferred_mutation_commands s = co_deferred (core s)"
  "sm_staged_state_reset_pending s = co_reset_pending (core s)"
  "sm_post_apply_check_pending s = co_check_pending (core s)"
  by (simp_all add: core_def)

lemma core_updates [simp]:
  "core (s\<lparr>sm_state := a\<rparr>) = (core s)\<lparr>co_state := a\<rparr>"
  "core (s\<lparr>sm_generation := b\<rparr>) = (core s)\<lparr>co_generation := b\<rparr>"
  "core (s\<lparr>sm_dispatcher := c\<rparr>) = (core s)\<lparr>co_dispatcher := c\<rparr>"
  "core (s\<lparr>sm_active_mutation_worker := d\<rparr>) = (core s)\<lparr>co_worker := d\<rparr>"
  "core (s\<lparr>sm_deferred_mutation_commands := e\<rparr>) = (core s)\<lparr>co_deferred := e\<rparr>"
  "core (s\<lparr>sm_staged_state_reset_pending := f\<rparr>) = (core s)\<lparr>co_reset_pending := f\<rparr>"
  "core (s\<lparr>sm_post_apply_check_pending := g\<rparr>) = (core s)\<lparr>co_check_pending := g\<rparr>"
  by (simp_all add: core_def)

lemma core_other_updates [simp]:
  "core (s\<lparr>sm_run := a1\<rparr>) = core s"
  "core (s\<lparr>sm_thrown := a2\<rparr>) = core s"
  "core (s\<lparr>sm_outputs := a3\<rparr>) = core s"
  "core (s\<lparr>sm_heartbeat := a4\<rparr>) = core s"
  "core (s\<lparr>sm_last_reset := a5\<rparr>) = core s"
  "core (s\<lparr>sm_prefer_golden_first := a6\<rparr>) = core s"
  "core (s\<lparr>sm_scheduler := a7\<rparr>) = core s"
  "core (s\<lparr>sm_recovery_armed := a8\<rparr>) = core s"
  "core (s\<lparr>sm_display_changes_pending_recovery := a8\<rparr>) = core s"
  "core (s\<lparr>sm_explicit_recovery_required := a8\<rparr>) = core s"
  "core (s\<lparr>sm_apply_attempt := a9\<rparr>) = core s"
  "core (s\<lparr>sm_virtual_hdr_fallback_attempted := a8\<rparr>) = core s"
  "core (s\<lparr>sm_apply_result_sent := a8\<rparr>) = core s"
  "core (s\<lparr>sm_verification_result_sent := a8\<rparr>) = core s"
  "core (s\<lparr>sm_session_was_verified := a8\<rparr>) = core s"
  "core (s\<lparr>sm_restore_task_created := a8\<rparr>) = core s"
  "core (s\<lparr>sm_post_apply_stabilization_delays := b1\<rparr>) = core s"
  "core (s\<lparr>sm_next_post_apply_stabilization := b2\<rparr>) = core s"
  "core (s\<lparr>sm_verification_reapply_delays := b1\<rparr>) = core s"
  "core (s\<lparr>sm_next_verification_reapply := b2\<rparr>) = core s"
  "core (s\<lparr>sm_settlement_requested := a8\<rparr>) = core s"
  "core (s\<lparr>sm_settlement_check_pending := a8\<rparr>) = core s"
  "core (s\<lparr>sm_settlement_repair_in_flight := a8\<rparr>) = core s"
  "core (s\<lparr>sm_next_settlement_check := b2\<rparr>) = core s"
  "core (s\<lparr>sm_last_apply_started := b3\<rparr>) = core s"
  "core (s\<lparr>sm_current_request := b4\<rparr>) = core s"
  "core (s\<lparr>sm_expected_topology := b5\<rparr>) = core s"
  "core (s\<lparr>sm_resolved_target := b6\<rparr>) = core s"
  "core (s\<lparr>sm_recovery_snapshot := b7\<rparr>) = core s"
  "core (s\<lparr>sm_snapshot_blacklist := b8\<rparr>) = core s"
  "core (s\<lparr>sm_current_connection_epoch := b9\<rparr>) = core s"
  "core (s\<lparr>sm_unconfirmed_cancelled_mutation := a8\<rparr>) = core s"
  "core (s\<lparr>sm_exit_after_staged_state_reset := a8\<rparr>) = core s"
  "core (s\<lparr>sm_staged_state_prepared := a8\<rparr>) = core s"
  "core (s\<lparr>sm_recovery_staged_state_reset_succeeded := c1\<rparr>) = core s"
  "core (s\<lparr>sm_recovery_lease_before_apply := a8\<rparr>) = core s"
  "core (s\<lparr>sm_last_virtual_apply_restart := c2\<rparr>) = core s"
  by (simp_all add: core_def)

text \<open>A helper that only asks the environment.\<close>

lemma core_ask [simp]:
  "core (snd (sm_ask f ev s)) = core s"
  "core (snd (sm_now E s)) = core s"
  "core (snd (is_stale_connection E epoch s)) = core s"
  "core (snd (create_restore_task E s)) = core s"
  "core (snd (should_defer_disconnect_recovery E s)) = core s"
  by (simp_all add: sm_ask_def sm_now_def is_stale_connection_def create_restore_task_def emit_def
      should_defer_disconnect_recovery_def split_beta Let_def split: option.split)

lemma core_helpers [simp]:
  "core (emit out s) = core s"
  "core (arm_heartbeat E s) = core s"
  "core (disarm_heartbeat s) = core s"
  "core (record_ping E s) = core s"
  "core (refresh_shell E s) = core s"
  "core (blank_hdr_states E d s) = core s"
  "core (delete_restore_task E s) = core s"
  "core (call_exit E code s) = core s"
  "core (update_flags fl s) = core s"
  "core (update_health fh s) = core s"
  "core (update_scheduler fs s) = core s"
  "core (cancel_operations s) = (core s)\<lparr>co_generation := co_generation (core s) + 1\<rparr>"
  by (simp_all add: emit_def arm_heartbeat_def disarm_heartbeat_def record_ping_def refresh_shell_def
      blank_hdr_states_def delete_restore_task_def call_exit_def update_flags_def update_health_def
      update_scheduler_def cancel_operations_def cs_cancel_def core_fields split_beta)

lemma core_methods [simp]:
  "core (update_blacklist ex s) = core s"
  "core (reset_settlement s) = core s"
  "core (clear_recovery_state E b s) = core s"
  "core (apply_recovery_policy_from_current_request s) = core s"
  "core (activate_recovery_lease s) = core s"
  "core (send_apply_result E status s) = core s"
  "core (send_verification_result E b s) = core s"
  "core (send_snapshot_result E b ep rq s) = core s"
  "core (send_refresh_rate_result E b ep rq s) = core s"
  "core (ensure_restore_task E s) = core s"
  "core (retain_recovery_after_display_mutation E completed s) = core s"
  "core (retain_recovery_after_cancelled_recovery E s) = core s"
  "core (retarget_virtual_display_device_id_if_needed E s) = core s"
  "core (transition E next trigger st s) = (core s)\<lparr>co_state := next\<rparr>"
  "core (enter_steady_state E s) = (core s)\<lparr>co_state :=
     if ar_virtual_layout (sm_current_request s) \<noteq> None then VirtualDisplayMonitoring else Waiting\<rparr>"
  "core (reset_post_apply_stabilization s) = (core s)\<lparr>co_check_pending := False\<rparr>"
  "core (rewind_post_apply_stabilization s) = (core s)\<lparr>co_check_pending := False\<rparr>"
  by (simp_all add: update_blacklist_def reset_settlement_def clear_recovery_state_def
      apply_recovery_policy_from_current_request_def activate_recovery_lease_def send_apply_result_def
      send_verification_result_def send_snapshot_result_def send_refresh_rate_result_def
      ensure_restore_task_def retain_recovery_after_display_mutation_def
      retain_recovery_after_cancelled_recovery_def retarget_virtual_display_device_id_if_needed_def
      transition_def enter_steady_state_def reset_post_apply_stabilization_def
      rewind_post_apply_stabilization_def split_beta Let_def)
    (simp_all add: core_def)

end

