(* ===== verification/Message_Handlers.thy ===== *)
theory Message_Handlers
  imports State_Machine
begin

text \<open>
  The handlers of \<open>StateMachine::handle_message\<close>, \<open>handle_tick\<close> and the drain of the deferred commands
  (\<open>state_machine.cpp\<close>). A command that finds the fence of a mutation worker or of a staged reset up is
  deferred behind it; the handler of the completion takes the fence down and drains the queue.
\<close>

section \<open>Commands\<close>

text \<open>The bookkeeping of a new session at the start of an APPLY that is not deferred.\<close>

definition begin_apply_session :: "'w ports \<Rightarrow> apply_command \<Rightarrow> 'w sm \<Rightarrow> 'w sm" where
  "begin_apply_session E c s =
     (let s = s\<lparr>sm_recovery_lease_before_apply :=
                  sm_recovery_armed s \<or> sm_display_changes_pending_recovery s\<rparr>;
          s = cancel_operations s;
          s = update_scheduler sch_disarm s;
          s = update_flags reset_request_progress s;
          s = arm_heartbeat E s;
          s = s\<lparr>sm_apply_attempt := 1, sm_virtual_hdr_fallback_attempted := False,
                sm_apply_result_sent := False, sm_verification_result_sent := False,
                sm_session_was_verified := False, sm_current_request := ac_request c,
                sm_current_connection_epoch := ac_connection_epoch c,
                sm_expected_topology := None, sm_resolved_target := None\<rparr>;
          s = reset_post_apply_stabilization s
      in case ar_snapshot_exclusions (ac_request c) of None \<Rightarrow> s | Some ex \<Rightarrow> update_blacklist ex s)"

definition stabilization_delays :: "single_display_configuration \<Rightarrow> time_ns list" where
  "stabilization_delays cfg = map ms (750 # (if cfg_hdr_state cfg \<noteq> None then [2500, 5500] else []))"

definition plan_stabilization :: "single_display_configuration \<Rightarrow> 'w sm \<Rightarrow> 'w sm" where
  "plan_stabilization cfg s =
     s\<lparr>sm_verification_reapply_delays := sm_verification_reapply_delays s @ ms 0 # stabilization_delays cfg,
       sm_post_apply_stabilization_delays := sm_post_apply_stabilization_delays s @ stabilization_delays cfg\<rparr>"

definition ensure_baseline :: "'w ports \<Rightarrow> 'w sm \<Rightarrow> 'w sm" where
  "ensure_baseline E s =
     (let (present, r) = tier_exists (platform E) Tier_Current (sm_run s); s = s\<lparr>sm_run := r\<rparr>
      in if present then s
         else s\<lparr>sm_run := snd (capture_filtered_and_save (platform E) Tier_Current (exclusions_vector s) (sm_run s))\<rparr>)"

definition run_apply_command :: "'w ports \<Rightarrow> apply_command \<Rightarrow> 'w sm \<Rightarrow> 'w sm" where
  "run_apply_command E c s =
     (let s = begin_apply_session E c s
      in case ar_configuration (sm_current_request s) of
           None \<Rightarrow> transition E Waiting Action_Apply (Some Status_InvalidRequest)
                     (send_apply_result E Status_InvalidRequest s)
         | Some cfg \<Rightarrow>
             let (now, s) = sm_now E s;
                 s = s\<lparr>sm_last_apply_started := Some now\<rparr>;
                 s = apply_recovery_policy_from_current_request s;
                 s = plan_stabilization cfg s;
                 s = ensure_baseline E s;
                 s = transition E InProgress Action_Apply None s
             in dispatch_apply_worker (sm_current_request s) 0 False s)"

definition handle_apply_command :: "'w ports \<Rightarrow> apply_command \<Rightarrow> 'w sm \<Rightarrow> 'w sm" where
  "handle_apply_command E c s =
     (let (stale, s) = is_stale_connection E (ac_connection_epoch c) s
      in if stale then s
         else let s = reset_settlement (s\<lparr>sm_explicit_recovery_required := False\<rparr>)
              in if mutation_worker_active s then queue_after_active_mutation (D_Apply c) True s
                 else if sm_staged_state_reset_pending s then enqueue_deferred_mutation_command (D_Apply c) s
                 else run_apply_command E c s)"

text \<open>\<open>handle_revert_command\<close> past the fences.\<close>

definition any_snapshot :: "'w ports \<Rightarrow> 'w sm \<Rightarrow> bool \<times> 'w sm" where
  "any_snapshot E s =
     (let (current, r) = tier_exists (platform E) Tier_Current (sm_run s)
      in if current then (True, s\<lparr>sm_run := r\<rparr>)
         else let (previous, r) = tier_exists (platform E) Tier_Previous r
              in if previous then (True, s\<lparr>sm_run := r\<rparr>)
                 else let (golden, r) = tier_exists (platform E) Tier_Golden r in (golden, s\<lparr>sm_run := r\<rparr>))"

definition abandon_recovery :: "'w ports \<Rightarrow> 'w sm \<Rightarrow> 'w sm" where
  "abandon_recovery E s =
     (let s = cancel_operations s;
          s = clear_recovery_state E True s;
          s = reset_post_apply_stabilization s
      in transition E Waiting Action_Disarm None s)"

definition kRevertGrace :: time_ns where "kRevertGrace = ms 5000"

definition begin_revert :: "'w ports \<Rightarrow> revert_command \<Rightarrow> 'w sm \<Rightarrow> 'w sm" where
  "begin_revert E c s =
     (let s = update_flags (\<lambda>st. st\<lparr>rst_prefer_golden_if_current_missing := rc_prefer_golden_if_current_missing c\<rparr>) s;
          s = (case rc_always_restore_from_golden c of
                 None \<Rightarrow> s
               | Some b \<Rightarrow> update_flags (\<lambda>st. st\<lparr>rst_always_restore_from_golden := b\<rparr>) s);
          s = update_health gh_reset_request_tracking s;
          s = cancel_operations s;
          s = s\<lparr>sm_recovery_armed := True, sm_display_changes_pending_recovery := True\<rparr>;
          s = disarm_heartbeat s;
          s = reset_post_apply_stabilization s;
          grace = (if rc_immediate c then 0 else kRevertGrace);
          (now, s) = sm_now E s;
          s = update_scheduler (sch_arm_primary now grace) s
      in start_recovery E grace Action_Revert s)"

definition run_revert_command :: "'w ports \<Rightarrow> revert_command \<Rightarrow> 'w sm \<Rightarrow> 'w sm" where
  "run_revert_command E c s =
     (if rc_from_disconnect c \<and> \<not> sm_explicit_recovery_required s \<and>
         \<not> rst_restore_on_disconnect (restore_flags s) \<and> \<not> recovery_worker_in_progress s
      then abandon_recovery E s
      else let (present, s) = any_snapshot E s
           in if \<not> present then call_exit E 0 (clear_recovery_state E True (cancel_operations s))
              else begin_revert E c s)"

definition handle_revert_command :: "'w ports \<Rightarrow> revert_command \<Rightarrow> 'w sm \<Rightarrow> 'w sm" where
  "handle_revert_command E c s =
     (let (stale, s) = is_stale_connection E (rc_connection_epoch c) s
      in if stale then s
         else let s = (if rc_from_disconnect c then s
                       else reset_settlement (s\<lparr>sm_explicit_recovery_required := True\<rparr>))
              in if rc_from_disconnect c \<and> recovery_worker_in_progress s then s
                 else if mutation_worker_active s then queue_after_active_mutation (D_Revert c) True s
                 else if sm_staged_state_reset_pending s then enqueue_deferred_mutation_command (D_Revert c) s
                 else run_revert_command E c s)"

definition run_disarm_command :: "'w ports \<Rightarrow> 'w sm \<Rightarrow> 'w sm" where
  "run_disarm_command E s =
     (let s = cancel_operations s;
          s = (if sm_unconfirmed_cancelled_mutation s then s else clear_recovery_state E True s);
          s = s\<lparr>sm_apply_attempt := 0, sm_apply_result_sent := False, sm_verification_result_sent := False,
                sm_session_was_verified := False, sm_last_apply_started := None\<rparr>;
          s = (if sm_unconfirmed_cancelled_mutation s then s else s\<lparr>sm_restore_task_created := False\<rparr>);
          s = s\<lparr>sm_expected_topology := None, sm_resolved_target := None\<rparr>;
          s = reset_post_apply_stabilization s
      in transition E Waiting Action_Disarm None s)"

definition handle_disarm_command :: "'w ports \<Rightarrow> disarm_command \<Rightarrow> 'w sm \<Rightarrow> 'w sm" where
  "handle_disarm_command E c s =
     (let (stale, s) = is_stale_connection E (dc_connection_epoch c) s
      in if stale then s
         else if restore_pending s \<and> rst_restore_attempted_unconfirmed (restore_flags s) then s
         else let s = reset_settlement (s\<lparr>sm_explicit_recovery_required := False\<rparr>)
              in if sm_staged_state_reset_pending s then enqueue_deferred_mutation_command (D_Disarm c) s
                 else if mutation_worker_active s
                 then queue_after_active_mutation (D_Disarm c) True (update_scheduler sch_disarm s)
                 else run_disarm_command E s)"

definition apply_exclusions :: "snapshot_command_payload \<Rightarrow> 'w sm \<Rightarrow> 'w sm" where
  "apply_exclusions p s =
     (if scp_update_exclusions p \<or> scp_exclude_devices p \<noteq> [] then update_blacklist (scp_exclude_devices p) s
      else s)"

definition handle_export_golden :: "'w ports \<Rightarrow> export_golden_command \<Rightarrow> 'w sm \<Rightarrow> 'w sm" where
  "handle_export_golden E c s =
     (let (stale, s) = is_stale_connection E (eg_connection_epoch c) s
      in if stale then s
         else if apply_in_flight s \<or> restore_pending s then s
         else let s = apply_exclusions (eg_payload c) s;
                  (saved, r) = capture_filtered_and_save (platform E) Tier_Golden (exclusions_vector s) (sm_run s);
                  s = s\<lparr>sm_run := r\<rparr>
              in if saved then update_health gh_clear_status s else s)"

definition handle_snapshot_current :: "'w ports \<Rightarrow> snapshot_current_command \<Rightarrow> 'w sm \<Rightarrow> 'w sm" where
  "handle_snapshot_current E c s =
     (let (stale, s) = is_stale_connection E (sc_connection_epoch c) s
      in if stale then s
         else if restore_pending s \<or> apply_in_flight s
         then send_snapshot_result E False (sc_connection_epoch c) (sc_request_id c) s
         else let s = apply_exclusions (sc_payload c) s
              in sm_try (refresh_current_preserving_previous (platform E) (exclusions_vector s))
                   (\<lambda>saved. send_snapshot_result E saved (sc_connection_epoch c) (sc_request_id c)) s)"

definition handle_refresh_rate_command :: "'w ports \<Rightarrow> refresh_rate_command \<Rightarrow> 'w sm \<Rightarrow> 'w sm" where
  "handle_refresh_rate_command E c s =
     (let (stale, s) = is_stale_connection E (rr_connection_epoch c) s;
          refused = (\<lambda>s. send_refresh_rate_result E False (rr_connection_epoch c) (rr_request_id c) s)
      in if stale then s
         else if rr_device_id c = [] \<or> rr_numerator c = 0 \<or> rr_denominator c = 0 then refused s
         else if apply_in_flight s \<or> restore_pending s then refused s
         else if sm_post_apply_check_pending s \<and> \<not> refresh_targets_active_request (rr_device_id c) s
         then refused s
         else let s = (if sm_post_apply_check_pending s
                       then rewind_post_apply_stabilization (cancel_operations s) else s);
                  (gen, s) = dispatch_refresh_rate c s
              in s\<lparr>sm_active_mutation_worker :=
                     Some \<lparr>amw_kind = Worker_RefreshRate, amw_generation = gen\<rparr>\<rparr>)"

definition handle_reset_command :: "'w ports \<Rightarrow> reset_command \<Rightarrow> 'w sm \<Rightarrow> 'w sm" where
  "handle_reset_command E c s =
     (let (stale, s) = is_stale_connection E (rs_connection_epoch c) s
      in if stale then s
         else if sm_staged_state_reset_pending s then enqueue_deferred_mutation_command (D_Reset c) s
         else if mutation_worker_active s then queue_after_active_mutation (D_Reset c) False s
         else begin_staged_state_reset s)"

definition handle_ping_command :: "'w ports \<Rightarrow> ping_command \<Rightarrow> 'w sm \<Rightarrow> 'w sm" where
  "handle_ping_command E c s =
     (let (stale, s) = is_stale_connection E (pg_connection_epoch c) s
      in if stale then s else record_ping E s)"

definition handle_stop_command :: "'w ports \<Rightarrow> stop_command \<Rightarrow> 'w sm \<Rightarrow> 'w sm" where
  "handle_stop_command E c s =
     (let (stale, s) = is_stale_connection E (st_connection_epoch c) s
      in if stale then s else call_exit E 0 s)"

section \<open>The deferred commands\<close>

fun handle_deferred :: "'w ports \<Rightarrow> deferred_command \<Rightarrow> 'w sm \<Rightarrow> 'w sm" where
  "handle_deferred E (D_Apply c) s = handle_apply_command E c s"
| "handle_deferred E (D_Revert c) s = handle_revert_command E c s"
| "handle_deferred E (D_Disarm c) s = handle_disarm_command E c s"
| "handle_deferred E (D_Reset c) s = handle_reset_command E c s"

lemma deferred_dispatches [simp]:
  "co_deferred (core (dispatch_apply_worker req d b s)) = co_deferred (core s)"
  "co_deferred (core (start_recovery E d tr s)) = co_deferred (core s)"
  "co_deferred (core (begin_staged_state_reset s)) = co_deferred (core s)"
  "co_deferred (core (ensure_baseline E s)) = co_deferred (core s)"
  by (simp_all add: dispatch_apply_worker_def dispatch_apply_def start_recovery_def dispatch_recovery_def
      begin_staged_state_reset_def dispatch_reset_staged_apply_state_def enqueue_def ensure_baseline_def
      Let_def split_beta)

lemma core_any_snapshot [simp]: "core (snd (any_snapshot E s)) = core s"
  by (simp add: any_snapshot_def split_beta Let_def)

lemma deferred_runs [simp]:
  "co_deferred (core (begin_apply_session E c s)) = co_deferred (core s)"
  "co_deferred (core (run_apply_command E c s)) = co_deferred (core s)"
  "co_deferred (core (run_revert_command E rc s)) = co_deferred (core s)"
  "co_deferred (core (run_disarm_command E s)) = co_deferred (core s)"
proof -
  show session: "co_deferred (core (begin_apply_session E c s)) = co_deferred (core s)"
    by (simp add: begin_apply_session_def Let_def split: option.split)
  show "co_deferred (core (run_apply_command E c s)) = co_deferred (core s)"
    by (simp add: run_apply_command_def plan_stabilization_def session Let_def split_beta split: option.split)
  show "co_deferred (core (run_revert_command E rc s)) = co_deferred (core s)"
    by (simp add: run_revert_command_def abandon_recovery_def begin_revert_def Let_def split_beta split: option.split)
  show "co_deferred (core (run_disarm_command E s)) = co_deferred (core s)"
    by (simp add: run_disarm_command_def Let_def)
qed

text \<open>With both fences down a command is not deferred again.\<close>

lemma handle_deferred_idle:
  assumes "\<not> mutation_worker_active s" "\<not> sm_staged_state_reset_pending s"
  shows "co_deferred (core (handle_deferred E c s)) = co_deferred (core s)"
  using assms
  by (cases c) (simp_all add: handle_apply_command_def handle_revert_command_def handle_disarm_command_def
      handle_reset_command_def mutation_worker_active_def core_fields split_beta Let_def)

function drain_deferred_mutation_commands :: "'w ports \<Rightarrow> 'w sm \<Rightarrow> 'w sm" where
  "drain_deferred_mutation_commands E s =
     (if mutation_worker_active s \<or> sm_staged_state_reset_pending s then s
      else case sm_deferred_mutation_commands s of
             [] \<Rightarrow> s
           | c # cs \<Rightarrow> drain_deferred_mutation_commands E
                        (handle_deferred E c (s\<lparr>sm_deferred_mutation_commands := cs\<rparr>)))"
  by pat_completeness auto
termination
proof (relation "measure (\<lambda>(E, s). length (sm_deferred_mutation_commands s))")
  fix E :: "'w ports" and s :: "'w sm" and c cs
  assume idle: "\<not> (mutation_worker_active s \<or> sm_staged_state_reset_pending s)"
    and cs: "sm_deferred_mutation_commands s = c # cs"
  let ?s = "s\<lparr>sm_deferred_mutation_commands := cs\<rparr>"
  have "\<not> mutation_worker_active ?s" "\<not> sm_staged_state_reset_pending ?s"
    using idle by (simp_all add: mutation_worker_active_def)
  from handle_deferred_idle [OF this, of E c]
  have "sm_deferred_mutation_commands (handle_deferred E c ?s) = cs" by (simp add: core_fields)
  then show "((E, handle_deferred E c ?s), (E, s)) \<in> measure (\<lambda>(E, s). length (sm_deferred_mutation_commands s))"
    using cs by simp
qed simp

declare drain_deferred_mutation_commands.simps [simp del]

section \<open>Completions\<close>

text \<open>The success branch of \<open>handle_apply_completed\<close>.\<close>

definition apply_succeeded :: "'w ports \<Rightarrow> apply_completed \<Rightarrow> 'w sm \<Rightarrow> 'w sm" where
  "apply_succeeded E completed s =
     (if sm_settlement_repair_in_flight s
      then let s = s\<lparr>sm_settlement_repair_in_flight := False\<rparr>;
               (dispatched, s) = dispatch_next_settlement_verification E s
           in if dispatched then s
              else let s = s\<lparr>sm_session_was_verified := True\<rparr>;
                       s = activate_recovery_lease s;
                       s = s\<lparr>sm_unconfirmed_cancelled_mutation := False\<rparr>;
                       s = enter_steady_state E s
                   in drain_deferred_mutation_commands E s
      else let s = send_apply_result E (acd_status completed) s;
               s = transition E Verification Action_Apply (Some (acd_status completed)) s;
               s = dispatch_verification (verification_request s) (sm_expected_topology s)
                     (sm_resolved_target s) 0 Initial s
           in drain_deferred_mutation_commands E s)"

text \<open>The failure branch past the virtual display reset, the settlement and the retries.\<close>

definition apply_failed :: "'w ports \<Rightarrow> apply_completed \<Rightarrow> 'w sm \<Rightarrow> 'w sm" where
  "apply_failed E completed s =
     (let s = send_apply_result E (acd_status completed) s;
          s = (if sm_apply_result_sent s \<and> \<not> sm_verification_result_sent s
               then send_verification_result E False s else s);
          s = (if sm_recovery_armed s then s else disarm_heartbeat s);
          s = (if acd_display_may_have_changed completed then s
               else reset_uncommitted_staged_state_if_needed E s)
      in drain_deferred_mutation_commands E
           (if sm_session_was_verified s then enter_steady_state E s
            else transition E Waiting Action_Apply (Some (acd_status completed)) s))"

definition can_fallback_virtual_hdr :: "apply_completed \<Rightarrow> 'w sm \<Rightarrow> bool" where
  "can_fallback_virtual_hdr completed s \<longleftrightarrow>
     \<not> sm_virtual_hdr_fallback_attempted s \<and> acd_virtual_display_requested completed \<and>
     (\<exists>cfg. ar_configuration (sm_current_request s) = Some cfg \<and> cfg_hdr_state cfg = Some Hdr_Enabled) \<and>
     acd_status completed \<in> {Status_Retryable, Status_VerificationFailed}"

definition without_hdr :: "apply_request \<Rightarrow> apply_request" where
  "without_hdr req = req\<lparr>ar_configuration :=
     map_option (\<lambda>cfg. cfg\<lparr>cfg_hdr_state := Some Hdr_Disabled\<rparr>) (ar_configuration req)\<rparr>"

definition apply_retry :: "'w ports \<Rightarrow> apply_completed \<Rightarrow> 'w sm \<Rightarrow> 'w sm" where
  "apply_retry E completed s =
     (if acd_status completed \<in> {Status_Retryable, Status_VerificationFailed} \<and>
         can_retry_apply (sm_apply_attempt s)
      then let delay = retry_delay (sm_apply_attempt s);
               s = s\<lparr>sm_apply_attempt := sm_apply_attempt s + 1\<rparr>
           in dispatch_apply_worker (sm_current_request s) delay False s
      else if can_fallback_virtual_hdr completed s
      then let s = s\<lparr>sm_virtual_hdr_fallback_attempted := True,
                     sm_current_request := without_hdr (sm_current_request s), sm_apply_attempt := 1\<rparr>;
               s = transition E InProgress Action_Apply (Some (acd_status completed)) s
           in dispatch_apply_worker (sm_current_request s) 0 False s
      else apply_failed E completed s)"

definition apply_settle_or_retry :: "'w ports \<Rightarrow> apply_completed \<Rightarrow> 'w sm \<Rightarrow> 'w sm" where
  "apply_settle_or_retry E completed s =
     (if sm_settlement_requested s
      then let s = s\<lparr>sm_settlement_repair_in_flight := False\<rparr>;
               (dispatched, s) = dispatch_next_settlement_verification E s
           in if dispatched then s else apply_retry E completed s
      else apply_retry E completed s)"

definition apply_unsuccessful :: "'w ports \<Rightarrow> apply_completed \<Rightarrow> 'w sm \<Rightarrow> 'w sm" where
  "apply_unsuccessful E completed s =
     (if acd_status completed = Status_NeedsVirtualDisplayReset
      then let (now, s) = sm_now E s;
               (decision, last_reset) = maybe_reset_virtual_display now (acd_status completed)
                  (acd_virtual_display_requested completed) (sm_last_reset s);
               s = s\<lparr>sm_last_reset := last_reset\<rparr>
           in if decision = Policy_ResetVirtualDisplay
              then dispatch_apply_worker (sm_current_request s) 0 True s
              else apply_settle_or_retry E completed s
      else apply_settle_or_retry E completed s)"

text \<open>A completion whose generation was cancelled: its fence falls, what it did to the desktop is kept.\<close>

definition apply_cancelled :: "'w ports \<Rightarrow> apply_completed \<Rightarrow> 'w sm \<Rightarrow> 'w sm" where
  "apply_cancelled E completed s =
     (let s = (if acd_display_may_have_changed completed
               then arm_heartbeat E
                      ((retain_recovery_after_display_mutation E completed s)
                        \<lparr>sm_unconfirmed_cancelled_mutation := True\<rparr>)
               else if acd_durable_recovery_armed completed then s\<lparr>sm_restore_task_created := True\<rparr> else s);
          s = (if acd_display_may_have_changed completed then s
               else reset_uncommitted_staged_state_if_needed E s)
      in drain_deferred_mutation_commands E s)"

definition apply_current :: "'w ports \<Rightarrow> apply_completed \<Rightarrow> 'w sm \<Rightarrow> 'w sm" where
  "apply_current E completed s =
     (let s = s\<lparr>sm_expected_topology := acd_expected_topology completed,
                sm_resolved_target := acd_resolved_target completed\<rparr>;
          changed = (acd_status completed = Status_Ok \<or> acd_display_may_have_changed completed);
          s = (if changed then activate_recovery_lease s else s);
          s = (if acd_durable_recovery_armed completed then s\<lparr>sm_restore_task_created := True\<rparr> else s);
          s = (if changed then ensure_restore_task E s else s)
      in if acd_status completed = Status_Ok then apply_succeeded E completed s
         else apply_unsuccessful E completed s)"

definition handle_apply_completed :: "'w ports \<Rightarrow> apply_completed \<Rightarrow> 'w sm \<Rightarrow> 'w sm" where
  "handle_apply_completed E completed s =
     (let owns = owns_active_worker Worker_Apply (acd_generation completed) s;
          s = (if owns
               then s\<lparr>sm_active_mutation_worker := None,
                      sm_staged_state_prepared := sm_staged_state_prepared s \<or> acd_staged_state_prepared completed\<rparr>
               else s)
      in if is_stale (acd_generation completed) s
         then if owns then apply_cancelled E completed s else s
         else if \<not> owns then s
         else apply_current E completed s)"

text \<open>
  The end of a check that no one waits for any more: the steady state of a verified session, or
  \<open>Waiting\<close>.
\<close>

definition settle_without_check :: "'w ports \<Rightarrow> 'w sm \<Rightarrow> 'w sm" where
  "settle_without_check E s =
     (if sm_session_was_verified s then enter_steady_state E s
      else transition E Waiting Action_Apply (Some Status_VerificationFailed) s)"

definition settlement_check_completed :: "'w ports \<Rightarrow> bool \<Rightarrow> 'w sm \<Rightarrow> 'w sm" where
  "settlement_check_completed E success s =
     (if success
      then let s = (if sm_session_was_verified s then s
                    else (activate_recovery_lease (s\<lparr>sm_session_was_verified := True\<rparr>))
                           \<lparr>sm_unconfirmed_cancelled_mutation := False\<rparr>);
               s = reset_settlement s
           in enter_steady_state E s
      else if ar_configuration (sm_current_request s) \<noteq> None then dispatch_settlement_repair E s
      else transition E Waiting Action_Apply (Some Status_InvalidRequest) (reset_settlement s))"

definition session_verified :: "'w ports \<Rightarrow> 'w sm \<Rightarrow> 'w sm" where
  "session_verified E s =
     (let disconnected_settlement = sm_settlement_requested s;
          s = activate_recovery_lease (s\<lparr>sm_session_was_verified := True\<rparr>);
          s = s\<lparr>sm_unconfirmed_cancelled_mutation := False\<rparr>;
          s = (if disconnected_settlement then s else arm_heartbeat E s);
          s = refresh_shell E s;
          s = send_verification_result E True s
      in if ar_hdr_blank (sm_current_request s) then blank_hdr_states E (ms 1000) s else s)"

definition initial_check_succeeded :: "'w ports \<Rightarrow> 'w sm \<Rightarrow> 'w sm" where
  "initial_check_succeeded E s =
     (let s = (if sm_verification_result_sent s then s else session_verified E s)
      in if sm_settlement_requested s
         then let (dispatched, s) = dispatch_next_settlement_verification E s
              in if dispatched then s else enter_steady_state E s
         else enter_steady_state E (schedule_next_post_apply_stabilization s))"

definition stabilization_check_succeeded :: "'w ports \<Rightarrow> 'w sm \<Rightarrow> 'w sm" where
  "stabilization_check_succeeded E s =
     (if sm_settlement_requested s
      then let (dispatched, s) = dispatch_next_settlement_verification E s
           in if dispatched then s else enter_steady_state E s
      else schedule_next_post_apply_stabilization s)"

definition check_failed :: "'w ports \<Rightarrow> bool \<Rightarrow> 'w sm \<Rightarrow> 'w sm" where
  "check_failed E stabilization s =
     (if sm_settlement_requested s
      then let (dispatched, s) = dispatch_next_settlement_verification E s
           in if dispatched then s else settle_without_check E s
      else if stabilization then dispatch_immediate_repair_after_stabilization_failure E s
      else let s = rewind_post_apply_stabilization s;
               (dispatched, s) = dispatch_next_verification_reapply E s
           in if dispatched then s
              else if sm_session_was_verified s then enter_steady_state E s
              else transition E Waiting Action_Apply (Some Status_VerificationFailed)
                     (send_verification_result E False s))"

definition handle_verification_completed :: "'w ports \<Rightarrow> verification_completed \<Rightarrow> 'w sm \<Rightarrow> 'w sm" where
  "handle_verification_completed E completed s =
     (if is_stale (vcd_generation completed) s then s
      else case vcd_purpose completed of
             TransientDisconnect \<Rightarrow>
               settlement_check_completed E (vcd_success completed) (s\<lparr>sm_settlement_check_pending := False\<rparr>)
           | Stabilization \<Rightarrow>
               let s = s\<lparr>sm_post_apply_check_pending := False\<rparr>
               in if vcd_success completed then stabilization_check_succeeded E s else check_failed E True s
           | Initial \<Rightarrow>
               if vcd_success completed then initial_check_succeeded E s else check_failed E False s)"

definition deferred_followup_mutation :: "'w sm \<Rightarrow> bool" where
  "deferred_followup_mutation s \<longleftrightarrow> list_ex (\<lambda>c. \<not> is_reset c) (sm_deferred_mutation_commands s)"

definition handle_reset_completed :: "'w ports \<Rightarrow> reset_completed \<Rightarrow> 'w sm \<Rightarrow> 'w sm" where
  "handle_reset_completed E completed s =
     (let s = s\<lparr>sm_staged_state_reset_pending := False\<rparr>;
          s = (if rcd_success completed then s\<lparr>sm_staged_state_prepared := False\<rparr> else s);
          followup = deferred_followup_mutation s
      in if sm_exit_after_staged_state_reset s \<and> \<not> rcd_success completed
         then call_exit E 1 (s\<lparr>sm_exit_after_staged_state_reset := False\<rparr>)
         else let s = (if sm_exit_after_staged_state_reset s \<and> followup
                       then s\<lparr>sm_exit_after_staged_state_reset := False\<rparr> else s);
                  s = drain_deferred_mutation_commands E s
              in if sm_exit_after_staged_state_reset s \<and> \<not> sm_staged_state_reset_pending s
                 then call_exit E 0 (s\<lparr>sm_exit_after_staged_state_reset := False\<rparr>)
                 else s)"

definition with_refresh_rate :: "u32 \<Rightarrow> u32 \<Rightarrow> apply_request \<Rightarrow> apply_request" where
  "with_refresh_rate num den req = req\<lparr>ar_configuration :=
     map_option (\<lambda>cfg. cfg\<lparr>cfg_refresh_rate :=
       Some (Fp_Rational \<lparr>rat_numerator = num, rat_denominator = den\<rparr>)\<rparr>) (ar_configuration req)\<rparr>"

definition refresh_rate_settled :: "'w ports \<Rightarrow> refresh_rate_completed \<Rightarrow> 'w sm \<Rightarrow> 'w sm" where
  "refresh_rate_settled E completed s =
     (let s = (if rrd_success completed
               then s\<lparr>sm_current_request := with_refresh_rate (rrd_numerator completed)
                        (rrd_denominator completed) (sm_current_request s)\<rparr>
               else s);
          s = cancel_operations s;
          s = rewind_post_apply_stabilization s
      in if sm_settlement_requested s then replace_stabilization_with_settlement s
         else schedule_next_post_apply_stabilization s)"

definition handle_refresh_rate_completed :: "'w ports \<Rightarrow> refresh_rate_completed \<Rightarrow> 'w sm \<Rightarrow> 'w sm" where
  "handle_refresh_rate_completed E completed s =
     (let owns = owns_active_worker Worker_RefreshRate (rrd_generation completed) s;
          s = (if owns then s\<lparr>sm_active_mutation_worker := None\<rparr> else s)
      in if is_stale (rrd_generation completed) s
         then if owns then drain_deferred_mutation_commands E s else s
         else if \<not> owns then s
         else let s = (if refresh_targets_active_request (rrd_device_id completed) s
                       then refresh_rate_settled E completed s else s);
                  s = (if sm_settlement_requested s
                       then snd (dispatch_next_settlement_verification E s) else s);
                  s = send_refresh_rate_result E (rrd_success completed) (rrd_connection_epoch completed)
                        (rrd_request_id completed) s
              in drain_deferred_mutation_commands E s)"

text \<open>A recovery that did not confirm: back to the event loop, which polls with a backoff.\<close>

definition recovery_unconfirmed :: "'w ports \<Rightarrow> 'w sm \<Rightarrow> 'w sm" where
  "recovery_unconfirmed E s =
     (let (now, s) = sm_now E s;
          s = update_scheduler (sch_on_attempt_failed now) s;
          s = transition E EventLoop Action_Revert None s
      in drain_deferred_mutation_commands E s)"

definition handle_recovery_completed :: "'w ports \<Rightarrow> recovery_completed \<Rightarrow> 'w sm \<Rightarrow> 'w sm" where
  "handle_recovery_completed E completed s =
     (let owns = owns_active_worker Worker_Recovery (rvd_generation completed) s
      in if is_stale (rvd_generation completed) s
         then if owns
              then let s = s\<lparr>sm_active_mutation_worker := None\<rparr>;
                       s = (if rvd_display_may_have_changed completed
                            then retain_recovery_after_cancelled_recovery E s
                            else update_flags reset_request_progress s)
                   in drain_deferred_mutation_commands E s
              else s
         else if \<not> owns then s
         else case (rvd_success completed, rvd_snapshot completed) of
                (True, Some snap) \<Rightarrow>
                  let s = (if rvd_staged_state_reset_attempted completed
                           then s\<lparr>sm_recovery_staged_state_reset_succeeded :=
                                    Some (rvd_staged_state_reset_succeeded completed)\<rparr>
                           else s);
                      s = s\<lparr>sm_recovery_snapshot := Some snap\<rparr>;
                      s = transition E RecoveryValidation Action_Revert None s;
                      (gen, s) = dispatch_recovery_validation snap s
                  in s\<lparr>sm_active_mutation_worker :=
                         map_option (\<lambda>w. w\<lparr>amw_generation := gen\<rparr>) (sm_active_mutation_worker s)\<rparr>
              | _ \<Rightarrow> recovery_unconfirmed E (s\<lparr>sm_active_mutation_worker := None\<rparr>))"

text \<open>After a confirmed restore the helper exits, unless commands wait or the staged reset must be repeated.\<close>

definition leave_after_restore :: "'w ports \<Rightarrow> bool \<Rightarrow> 'w sm \<Rightarrow> 'w sm" where
  "leave_after_restore E reset_failed s =
     (let followup = deferred_followup_mutation s;
          s = s\<lparr>sm_exit_after_staged_state_reset :=
                  sm_staged_state_reset_pending s \<or> list_ex is_reset (sm_deferred_mutation_commands s)\<rparr>;
          s = drain_deferred_mutation_commands E s
      in if followup \<and> \<not> reset_failed then s\<lparr>sm_exit_after_staged_state_reset := False\<rparr>
         else if sm_exit_after_staged_state_reset s then s
         else call_exit E 0 s)"

definition recovery_confirmed :: "'w ports \<Rightarrow> 'w sm \<Rightarrow> 'w sm" where
  "recovery_confirmed E s =
     (let s = s\<lparr>sm_recovery_armed := False, sm_display_changes_pending_recovery := False,
                sm_unconfirmed_cancelled_mutation := False\<rparr>;
          s = update_scheduler sch_disarm s;
          s = update_flags reset_request_progress s;
          s = disarm_heartbeat s;
          s = refresh_shell E s;
          s = (delete_restore_task E s)\<lparr>sm_restore_task_created := False\<rparr>;
          reset_failed = (sm_staged_state_prepared s \<and> sm_recovery_staged_state_reset_succeeded s = Some False);
          s = (if reset_failed then s else s\<lparr>sm_staged_state_prepared := False\<rparr>);
          s = transition E Waiting Action_Revert (Some Status_Ok) s;
          s = (if reset_failed
               then begin_staged_state_reset (s\<lparr>sm_exit_after_staged_state_reset := True\<rparr>) else s)
      in leave_after_restore E reset_failed s)"

definition handle_recovery_validation_completed ::
  "'w ports \<Rightarrow> recovery_validation_completed \<Rightarrow> 'w sm \<Rightarrow> 'w sm" where
  "handle_recovery_validation_completed E completed s =
     (let owns = owns_active_worker Worker_Recovery (rvv_generation completed) s
      in if is_stale (rvv_generation completed) s
         then if owns
              then drain_deferred_mutation_commands E
                     (retain_recovery_after_cancelled_recovery E (s\<lparr>sm_active_mutation_worker := None\<rparr>))
              else s
         else if \<not> owns then s
         else let s = s\<lparr>sm_active_mutation_worker := None\<rparr>
              in if rvv_success completed then recovery_confirmed E s else recovery_unconfirmed E s)"

section \<open>Events\<close>

text \<open>The APPLY that an event of the virtual display queues behind a running worker.\<close>

definition restart_command :: "'w sm \<Rightarrow> apply_command" where
  "restart_command s = \<lparr>ac_request = sm_current_request s, ac_generation = sm_generation s,
     ac_connection_epoch = sm_current_connection_epoch s\<rparr>"

definition queue_restart :: "'w ports \<Rightarrow> 'w sm \<Rightarrow> 'w sm" where
  "queue_restart E s =
     (let s = retarget_virtual_display_device_id_if_needed E s
      in queue_after_active_mutation (D_Apply (restart_command s)) True s)"

definition resolved_virtual_device :: "'w ports \<Rightarrow> 'w sm \<Rightarrow> device_id \<times> 'w sm" where
  "resolved_virtual_device E s =
     (if ar_configuration (sm_current_request s) \<noteq> None
      then sm_ask (po_vdd_device_id E) (\<lambda>_. C_Observe) s else ([], s))"

definition configured_device_is :: "device_id \<Rightarrow> 'w sm \<Rightarrow> bool" where
  "configured_device_is d s \<longleftrightarrow>
     d \<noteq> [] \<and> (\<exists>cfg. ar_configuration (sm_current_request s) = Some cfg \<and> iequals (cfg_device_id cfg) d)"

definition event_while_monitoring :: "'w ports \<Rightarrow> 'w sm \<Rightarrow> 'w sm" where
  "event_while_monitoring E s =
     (let (resolved, s) = resolved_virtual_device E s;
          same = configured_device_is resolved s
      in if mutation_worker_active s then (if same then s else queue_restart E s)
         else if same
         then if sm_post_apply_check_pending s then s
              else let s = s\<lparr>sm_post_apply_check_pending := True\<rparr>
                   in dispatch_verification (verification_request s) (sm_expected_topology s)
                        (sm_resolved_target s) 0 Stabilization s
         else let s = cancel_operations s;
                  s = retarget_virtual_display_device_id_if_needed E s;
                  s = s\<lparr>sm_apply_attempt := 1\<rparr>;
                  s = rewind_post_apply_stabilization s;
                  s = transition E InProgress Action_Apply None s
              in dispatch_apply_worker (sm_current_request s) 0 False s)"

definition kEventDebounce :: time_ns where "kEventDebounce = ms 250"
definition kRestartDelay :: time_ns where "kRestartDelay = ms 100"

definition event_during_virtual_apply :: "'w ports \<Rightarrow> 'w sm \<Rightarrow> 'w sm" where
  "event_during_virtual_apply E s =
     (let (resolved, s) = resolved_virtual_device E s
      in if configured_device_is resolved s then s
         else let (now, s) = sm_now E s
              in if sm_last_virtual_apply_restart s \<noteq> 0 \<and>
                    now - sm_last_virtual_apply_restart s < kEventDebounce then s
                 else let s = s\<lparr>sm_last_virtual_apply_restart := now\<rparr>
                      in if mutation_worker_active s then queue_restart E s
                         else let s = cancel_operations s;
                                  s = s\<lparr>sm_apply_attempt := 1, sm_expected_topology := None\<rparr>;
                                  s = rewind_post_apply_stabilization s;
                                  s = retarget_virtual_display_device_id_if_needed E s;
                                  s = transition E InProgress Action_Apply None s
                              in dispatch_apply_worker (sm_current_request s) kRestartDelay False s)"

definition event_in_event_loop :: "'w ports \<Rightarrow> 'w sm \<Rightarrow> 'w sm" where
  "event_in_event_loop E s =
     (let (now, s) = sm_now E s;
          s = update_scheduler (sch_on_display_event now) s;
          (now, s) = sm_now E s
      in if sch_should_attempt now (sm_scheduler s) then start_recovery E 0 Action_Revert s else s)"

definition handle_display_event :: "'w ports \<Rightarrow> display_event_message \<Rightarrow> 'w sm \<Rightarrow> 'w sm" where
  "handle_display_event E event s =
     (if is_stale (dem_generation event) s then s
      else if sm_state s = VirtualDisplayMonitoring then event_while_monitoring E s
      else if sm_state s \<in> {InProgress, Verification} \<and> ar_virtual_layout (sm_current_request s) \<noteq> None
      then event_during_virtual_apply E s
      else if sm_state s \<noteq> EventLoop \<or> \<not> sm_recovery_armed s then s
      else event_in_event_loop E s)"

definition heartbeat_revert :: "u64 \<Rightarrow> revert_command" where
  "heartbeat_revert epoch = default_revert_command
     \<lparr>rc_connection_epoch := epoch, rc_immediate := True, rc_from_disconnect := True\<rparr>"

definition heartbeat_disarm :: "u64 \<Rightarrow> disarm_command" where
  "heartbeat_disarm epoch = \<lparr>dc_generation = 0, dc_connection_epoch = epoch\<rparr>"

definition heartbeat_recovery :: "'w ports \<Rightarrow> 'w sm \<Rightarrow> 'w sm" where
  "heartbeat_recovery E s =
     (let s = cancel_operations s;
          s = disarm_heartbeat s;
          s = reset_post_apply_stabilization s;
          s = update_health gh_reset_request_tracking s;
          (now, s) = sm_now E s;
          s = update_scheduler (sch_arm_primary now (ms 5000)) s
      in start_recovery E (ms 5000) Action_Revert s)"

definition handle_helper_event :: "'w ports \<Rightarrow> helper_event_message \<Rightarrow> 'w sm \<Rightarrow> 'w sm" where
  "handle_helper_event E event s =
     (if is_stale (hem_generation event) s then s
      else let (stale, s) = is_stale_connection E (hem_connection_epoch event) s
      in if stale \<or> hem_event event \<noteq> HeartbeatTimeout then s
         else if \<not> sm_recovery_armed s then s
         else if recovery_worker_in_progress s then s
         else let keep = (\<not> sm_explicit_recovery_required s \<and> \<not> rst_restore_on_disconnect (restore_flags s))
              in if mutation_worker_active s
                 then if has_deferred_apply_intent s then s
                      else queue_after_active_mutation
                             (if keep then D_Disarm (heartbeat_disarm (hem_connection_epoch event))
                              else D_Revert (heartbeat_revert (hem_connection_epoch event))) True s
                 else if keep \<and> \<not> recovery_worker_in_progress s then abandon_recovery E s
                 else heartbeat_recovery E s)"

definition handle_tick :: "'w ports \<Rightarrow> 'w sm \<Rightarrow> 'w sm" where
  "handle_tick E s =
     (if sm_state s \<noteq> EventLoop \<or> \<not> sm_recovery_armed s then s
      else let (now, s) = sm_now E s;
               (expired, sch) = sch_window_just_expired now (sm_scheduler s);
               s = s\<lparr>sm_scheduler := sch\<rparr>
           in if expired then sm_try (register_unresolved (platform E)) (\<lambda>_ s. s) s
              else if sch_should_attempt now (sm_scheduler s) then start_recovery E 0 Action_Revert s
              else s)"

fun handle_message :: "'w ports \<Rightarrow> message \<Rightarrow> 'w sm \<Rightarrow> 'w sm" where
  "handle_message E (M_Apply c) = handle_apply_command E c"
| "handle_message E (M_Revert c) = handle_revert_command E c"
| "handle_message E (M_Disarm c) = handle_disarm_command E c"
| "handle_message E (M_ExportGolden c) = handle_export_golden E c"
| "handle_message E (M_SnapshotCurrent c) = handle_snapshot_current E c"
| "handle_message E (M_RefreshRate c) = handle_refresh_rate_command E c"
| "handle_message E (M_Reset c) = handle_reset_command E c"
| "handle_message E (M_Ping c) = handle_ping_command E c"
| "handle_message E (M_Stop c) = handle_stop_command E c"
| "handle_message E (M_ApplyCompleted m) = handle_apply_completed E m"
| "handle_message E (M_VerificationCompleted m) = handle_verification_completed E m"
| "handle_message E (M_ResetCompleted m) = handle_reset_completed E m"
| "handle_message E (M_RefreshRateCompleted m) = handle_refresh_rate_completed E m"
| "handle_message E (M_RecoveryCompleted m) = handle_recovery_completed E m"
| "handle_message E (M_RecoveryValidationCompleted m) = handle_recovery_validation_completed E m"
| "handle_message E (M_DisplayEvent m) = handle_display_event E m"
| "handle_message E (M_HelperEvent m) = handle_helper_event E m"

end
