(* ===== verification/SM_Invariants.thy ===== *)
theory SM_Invariants
  imports Message_Handlers "HOL-Library.Multiset"
begin

text \<open>
  The state machine among its threads: the dispatcher's worker and timer turn tasks into completions,
  the completions come back through the mailbox, other threads post commands and events and may cancel.
  The invariant of the reachable states is the fence: the operations in flight that may change the
  displays are exactly the one \<open>active_mutation_worker_\<close> names, and at most one health check is live.
\<close>

section \<open>The work in flight\<close>

text \<open>A display-changing operation, as a task that waits and as the completion it ends in.\<close>

fun task_mutation :: "message task \<Rightarrow> (mutation_worker_kind \<times> u64) option" where
  "task_mutation (Task_Apply tok _ _ _ _) = Some (Worker_Apply, tok_generation tok)"
| "task_mutation (Task_RefreshRate tok _ _ _ _) = Some (Worker_RefreshRate, tok_generation tok)"
| "task_mutation (Task_Recovery tok _ _) = Some (Worker_Recovery, tok_generation tok)"
| "task_mutation (Task_RecoveryValidation tok _ _) = Some (Worker_Recovery, tok_generation tok)"
| "task_mutation _ = None"

fun message_mutation :: "message \<Rightarrow> (mutation_worker_kind \<times> u64) option" where
  "message_mutation (M_ApplyCompleted m) = Some (Worker_Apply, acd_generation m)"
| "message_mutation (M_RefreshRateCompleted m) = Some (Worker_RefreshRate, rrd_generation m)"
| "message_mutation (M_RecoveryCompleted m) = Some (Worker_Recovery, rvd_generation m)"
| "message_mutation (M_RecoveryValidationCompleted m) = Some (Worker_Recovery, rvv_generation m)"
| "message_mutation _ = None"

fun message_check :: "message \<Rightarrow> (verification_purpose \<times> u64) option" where
  "message_check (M_VerificationCompleted m) = Some (vcd_purpose m, vcd_generation m)"
| "message_check _ = None"

text \<open>The purpose of a check is known to its continuation only.\<close>

fun task_check :: "message task \<Rightarrow> (verification_purpose \<times> u64) option" where
  "task_check (Task_Verification _ _ _ _ k) = message_check (k False)"
| "task_check _ = None"

fun timer_check :: "message timer_task \<Rightarrow> (verification_purpose \<times> u64) option" where
  "timer_check (Timer_Verification _ _ _ _ _ k) = message_check (k False)"

fun is_reset_task :: "message task \<Rightarrow> bool" where
  "is_reset_task (Task_ResetStaged _) = True"
| "is_reset_task _ = False"

fun is_reset_completion :: "message \<Rightarrow> bool" where
  "is_reset_completion (M_ResetCompleted _) = True"
| "is_reset_completion _ = False"

text \<open>What the continuation of a task reports is what the task was dispatched as.\<close>

definition faithful_task :: "message task \<Rightarrow> bool" where
  "faithful_task t \<longleftrightarrow> (\<forall>m \<in> completions t. message_mutation m = task_mutation t \<and>
     message_check m = task_check t \<and> is_reset_completion m = is_reset_task t)"

definition faithful_timer_task :: "message timer_task \<Rightarrow> bool" where
  "faithful_timer_task t = (case t of Timer_Verification tok request expected resolved delay k \<Rightarrow>
     faithful_task (Task_Verification tok request expected resolved k))"

definition collect :: "('a \<Rightarrow> 'b option) \<Rightarrow> 'a list \<Rightarrow> 'b multiset" where
  "collect f xs = mset (List.map_filter f xs)"

lemma collect_simps [simp]:
  "collect f [] = {#}"
  "collect f (x # xs) = (case f x of None \<Rightarrow> {#} | Some y \<Rightarrow> {#y#}) + collect f xs"
  "collect f (xs @ ys) = collect f xs + collect f ys"
  by (simp_all add: collect_def map_filter_def split: option.split)

definition mutations_in_flight :: "message queue \<Rightarrow> core \<Rightarrow> (mutation_worker_kind \<times> u64) multiset" where
  "mutations_in_flight q c = collect task_mutation (dsp_tasks (co_dispatcher c)) + collect message_mutation q"

definition checks_in_flight :: "message queue \<Rightarrow> core \<Rightarrow> (verification_purpose \<times> u64) multiset" where
  "checks_in_flight q c = collect task_check (dsp_tasks (co_dispatcher c)) +
     collect timer_check (dsp_timer_tasks (co_dispatcher c)) + collect message_check q"

definition resets_in_flight :: "message queue \<Rightarrow> core \<Rightarrow> nat" where
  "resets_in_flight q c = length (filter is_reset_task (dsp_tasks (co_dispatcher c))) +
     length (filter is_reset_completion q)"

definition live_checks :: "message queue \<Rightarrow> core \<Rightarrow> verification_purpose multiset" where
  "live_checks q c = image_mset fst (filter_mset (\<lambda>x. snd x = co_generation c) (checks_in_flight q c))"

fun fence_of :: "active_mutation_worker option \<Rightarrow> (mutation_worker_kind \<times> u64) multiset" where
  "fence_of None = {#}"
| "fence_of (Some w) = {#(amw_kind w, amw_generation w)#}"

abbreviation restoring :: "sm_state \<Rightarrow> bool" where
  "restoring st \<equiv> st \<in> {Recovery, RecoveryValidation, EventLoop}"

text \<open>Where a live check of each purpose can be pending.\<close>

fun check_expected :: "core \<Rightarrow> verification_purpose \<Rightarrow> bool" where
  "check_expected c Stabilization \<longleftrightarrow> co_check_pending c \<and> \<not> restoring (co_state c)"
| "check_expected c _ \<longleftrightarrow> co_state c = Verification"

fun worker_expected :: "sm_state \<Rightarrow> active_mutation_worker option \<Rightarrow> bool" where
  "worker_expected st None = True"
| "worker_expected st (Some w) \<longleftrightarrow>
     (if amw_kind w = Worker_Recovery then st \<in> {Recovery, RecoveryValidation} else \<not> restoring st)"

text \<open>
  \<open>n\<close> is the number of cancellations the 64-bit generation counter has room for: a generation that is
  taken again would bring cancelled work back to life.
\<close>

definition fenced :: "nat \<Rightarrow> message queue \<Rightarrow> core \<Rightarrow> bool" where
  "fenced n q c \<longleftrightarrow>
     mutations_in_flight q c = fence_of (co_worker c) \<and>
     resets_in_flight q c = of_bool (co_reset_pending c) \<and>
     (\<forall>t \<in> set (dsp_tasks (co_dispatcher c)). faithful_task t) \<and>
     (\<forall>t \<in> set (dsp_timer_tasks (co_dispatcher c)). faithful_timer_task t) \<and>
     unat (co_generation c) + n < 2 ^ 64 \<and>
     (\<forall>x \<in># checks_in_flight q c. snd x \<le> co_generation c) \<and>
     size (live_checks q c) \<le> 1 \<and>
     (co_worker c \<noteq> None \<longrightarrow> live_checks q c = {#}) \<and>
     (\<forall>p \<in># live_checks q c. check_expected c p) \<and>
     worker_expected (co_state c) (co_worker c)"

text \<open>No fence and no live check: every new operation may start.\<close>

definition calm :: "nat \<Rightarrow> message queue \<Rightarrow> core \<Rightarrow> bool" where
  "calm n q c \<longleftrightarrow> fenced n q c \<and> co_worker c = None \<and> live_checks q c = {#}"

section \<open>How the primitive steps keep the fence\<close>

lemma flight_updates [simp]:
  "mutations_in_flight q (c\<lparr>co_state := st\<rparr>) = mutations_in_flight q c"
  "mutations_in_flight q (c\<lparr>co_generation := g\<rparr>) = mutations_in_flight q c"
  "mutations_in_flight q (c\<lparr>co_worker := w\<rparr>) = mutations_in_flight q c"
  "mutations_in_flight q (c\<lparr>co_deferred := ds\<rparr>) = mutations_in_flight q c"
  "mutations_in_flight q (c\<lparr>co_reset_pending := b\<rparr>) = mutations_in_flight q c"
  "mutations_in_flight q (c\<lparr>co_check_pending := b\<rparr>) = mutations_in_flight q c"
  "checks_in_flight q (c\<lparr>co_state := st\<rparr>) = checks_in_flight q c"
  "checks_in_flight q (c\<lparr>co_generation := g\<rparr>) = checks_in_flight q c"
  "checks_in_flight q (c\<lparr>co_worker := w\<rparr>) = checks_in_flight q c"
  "checks_in_flight q (c\<lparr>co_deferred := ds\<rparr>) = checks_in_flight q c"
  "checks_in_flight q (c\<lparr>co_reset_pending := b\<rparr>) = checks_in_flight q c"
  "checks_in_flight q (c\<lparr>co_check_pending := b\<rparr>) = checks_in_flight q c"
  "resets_in_flight q (c\<lparr>co_state := st\<rparr>) = resets_in_flight q c"
  "resets_in_flight q (c\<lparr>co_generation := g\<rparr>) = resets_in_flight q c"
  "resets_in_flight q (c\<lparr>co_worker := w\<rparr>) = resets_in_flight q c"
  "resets_in_flight q (c\<lparr>co_deferred := ds\<rparr>) = resets_in_flight q c"
  "resets_in_flight q (c\<lparr>co_reset_pending := b\<rparr>) = resets_in_flight q c"
  "resets_in_flight q (c\<lparr>co_check_pending := b\<rparr>) = resets_in_flight q c"
  "live_checks q (c\<lparr>co_state := st\<rparr>) = live_checks q c"
  "live_checks q (c\<lparr>co_worker := w\<rparr>) = live_checks q c"
  "live_checks q (c\<lparr>co_deferred := ds\<rparr>) = live_checks q c"
  "live_checks q (c\<lparr>co_reset_pending := b\<rparr>) = live_checks q c"
  "live_checks q (c\<lparr>co_check_pending := b\<rparr>) = live_checks q c"
  by (simp_all add: mutations_in_flight_def checks_in_flight_def resets_in_flight_def live_checks_def)

lemma check_expected_updates [simp]:
  "check_expected (c\<lparr>co_generation := g\<rparr>) p = check_expected c p"
  "check_expected (c\<lparr>co_worker := w\<rparr>) p = check_expected c p"
  "check_expected (c\<lparr>co_dispatcher := d\<rparr>) p = check_expected c p"
  "check_expected (c\<lparr>co_deferred := ds\<rparr>) p = check_expected c p"
  "check_expected (c\<lparr>co_reset_pending := b\<rparr>) p = check_expected c p"
  by (cases p; simp)+

lemma calm_iff:
  "calm n q c \<longleftrightarrow>
     mutations_in_flight q c = {#} \<and> resets_in_flight q c = of_bool (co_reset_pending c) \<and>
     (\<forall>t \<in> set (dsp_tasks (co_dispatcher c)). faithful_task t) \<and>
     (\<forall>t \<in> set (dsp_timer_tasks (co_dispatcher c)). faithful_timer_task t) \<and>
     unat (co_generation c) + n < 2 ^ 64 \<and> (\<forall>x \<in># checks_in_flight q c. snd x \<le> co_generation c) \<and>
     co_worker c = None \<and> live_checks q c = {#}"
  unfolding calm_def fenced_def by auto

lemma calm_updates [simp]:
  "calm n q (c\<lparr>co_state := st\<rparr>) \<longleftrightarrow> calm n q c"
  "calm n q (c\<lparr>co_check_pending := b\<rparr>) \<longleftrightarrow> calm n q c"
  "calm n q (c\<lparr>co_deferred := ds\<rparr>) \<longleftrightarrow> calm n q c"
  by (simp_all add: calm_iff)

lemma fenced_deferred [simp]: "fenced n q (c\<lparr>co_deferred := ds\<rparr>) \<longleftrightarrow> fenced n q c"
  by (simp add: fenced_def)

lemma fenced_mono: "fenced n q c \<Longrightarrow> m \<le> n \<Longrightarrow> fenced m q c"
  by (simp add: fenced_def)

lemma calm_mono: "calm n q c \<Longrightarrow> m \<le> n \<Longrightarrow> calm m q c"
  by (auto simp: calm_def intro: fenced_mono)

lemma calm_fenced: "calm n q c \<Longrightarrow> fenced n q c"
  by (simp add: calm_def)

text \<open>A cancellation leaves no check alive.\<close>

lemma cancel_no_live:
  assumes "fenced (Suc n) q c"
  shows "live_checks q (c\<lparr>co_generation := co_generation c + 1\<rparr>) = {#}"
    and "\<forall>x \<in># checks_in_flight q c. snd x \<le> co_generation c + 1"
    and "unat (co_generation c + 1) + n < 2 ^ 64"
proof -
  have room: "unat (co_generation c) + 1 < 2 ^ 64" and old: "\<forall>x \<in># checks_in_flight q c. snd x \<le> co_generation c"
    using assms by (simp_all add: fenced_def)
  then have succ: "unat (co_generation c + 1) = unat (co_generation c) + 1"
    by (simp add: unat_word_ariths(1))
  then have "co_generation c < co_generation c + 1" by (simp add: word_less_nat_alt)
  with old have older: "\<forall>x \<in># checks_in_flight q c. snd x < co_generation c + 1" by fastforce
  then show "\<forall>x \<in># checks_in_flight q c. snd x \<le> co_generation c + 1" by fastforce
  have "filter_mset (\<lambda>x. snd x = co_generation c + 1) (checks_in_flight q c) = {#}"
    using older unfolding set_mset_eq_empty_iff [symmetric] by auto
  then show "live_checks q (c\<lparr>co_generation := co_generation c + 1\<rparr>) = {#}" by (simp add: live_checks_def)
  show "unat (co_generation c + 1) + n < 2 ^ 64" using assms succ by (simp add: fenced_def)
qed

lemma fenced_cancel:
  "fenced (Suc n) q c \<Longrightarrow> fenced n q (c\<lparr>co_generation := co_generation c + 1\<rparr>)"
  using cancel_no_live [of n q c] by (simp add: fenced_def)

lemma calm_cancel:
  "fenced (Suc n) q c \<Longrightarrow> co_worker c = None \<Longrightarrow> calm n q (c\<lparr>co_generation := co_generation c + 1\<rparr>)"
  using cancel_no_live(1) [of n q c] fenced_cancel [of n q c] by (simp add: calm_def)


lemma calm_again: "calm (Suc n) q c \<Longrightarrow> calm n q (c\<lparr>co_generation := co_generation c + 1\<rparr>)"
  by (rule calm_cancel) (simp_all add: calm_def)

section \<open>Dispatching\<close>

lemma core_enqueue [simp]:
  "core (enqueue t s) = (core s)\<lparr>co_dispatcher := enqueue_task t (co_dispatcher (core s))\<rparr>"
  by (simp add: enqueue_def core_fields)

lemma faithful_tasks [simp]:
  "faithful_task (Task_Apply (Token g) req d b (apply_message g))"
  "faithful_task (Task_Verification tok req ex rt (verification_message g p))"
  "faithful_task (Task_ResetStaged (reset_message g))"
  "faithful_task (Task_Recovery (Token g) d (recovery_message g))"
  "faithful_task (Task_RecoveryValidation (Token g) snap (recovery_validation_message g))"
  "faithful_task (Task_RefreshRate (Token g) dev num den (refresh_rate_message g rc))"
  by (auto simp: faithful_task_def apply_message_def verification_message_def reset_message_def
      recovery_message_def recovery_validation_message_def refresh_rate_message_def)

lemma check_verification_message [simp]: "message_check (verification_message g p b) = Some (p, g)"
  by (simp add: verification_message_def)

lemma flight_enqueue [simp]:
  "mutations_in_flight q (c\<lparr>co_dispatcher := enqueue_task t d\<rparr>) =
     (case task_mutation t of None \<Rightarrow> {#} | Some x \<Rightarrow> {#x#}) + mutations_in_flight q (c\<lparr>co_dispatcher := d\<rparr>)"
  "checks_in_flight q (c\<lparr>co_dispatcher := enqueue_task t d\<rparr>) =
     (case task_check t of None \<Rightarrow> {#} | Some x \<Rightarrow> {#x#}) + checks_in_flight q (c\<lparr>co_dispatcher := d\<rparr>)"
  "resets_in_flight q (c\<lparr>co_dispatcher := enqueue_task t d\<rparr>) =
     of_bool (is_reset_task t) + resets_in_flight q (c\<lparr>co_dispatcher := d\<rparr>)"
  "mutations_in_flight q (c\<lparr>co_dispatcher := enqueue_delayed_task tt d\<rparr>) =
     mutations_in_flight q (c\<lparr>co_dispatcher := d\<rparr>)"
  "checks_in_flight q (c\<lparr>co_dispatcher := enqueue_delayed_task tt d\<rparr>) =
     (case timer_check tt of None \<Rightarrow> {#} | Some x \<Rightarrow> {#x#}) + checks_in_flight q (c\<lparr>co_dispatcher := d\<rparr>)"
  "resets_in_flight q (c\<lparr>co_dispatcher := enqueue_delayed_task tt d\<rparr>) =
     resets_in_flight q (c\<lparr>co_dispatcher := d\<rparr>)"
  by (auto simp: mutations_in_flight_def checks_in_flight_def resets_in_flight_def enqueue_task_def
      enqueue_delayed_task_def split: option.split)

lemma live_enqueue [simp]:
  "live_checks q (c\<lparr>co_dispatcher := enqueue_task t d\<rparr>) =
     (case task_check t of None \<Rightarrow> {#} | Some x \<Rightarrow> if snd x = co_generation c then {#fst x#} else {#}) +
     live_checks q (c\<lparr>co_dispatcher := d\<rparr>)"
  "live_checks q (c\<lparr>co_dispatcher := enqueue_delayed_task tt d\<rparr>) =
     (case timer_check tt of None \<Rightarrow> {#} | Some x \<Rightarrow> if snd x = co_generation c then {#fst x#} else {#}) +
     live_checks q (c\<lparr>co_dispatcher := d\<rparr>)"
  by (simp_all add: live_checks_def split: option.split)

lemma enqueued [simp]:
  "dsp_tasks (enqueue_task t d) = dsp_tasks d @ [t]"
  "dsp_timer_tasks (enqueue_task t d) = dsp_timer_tasks d"
  "dsp_tasks (enqueue_delayed_task tt d) = dsp_tasks d"
  "dsp_timer_tasks (enqueue_delayed_task tt d) = dsp_timer_tasks d @ [tt]"
  by (simp_all add: enqueue_task_def enqueue_delayed_task_def)

lemma token_core [simp]: "token s = Token (co_generation (core s))"
  by (simp add: token_def cs_token_def core_fields)

text \<open>A mutation is dispatched only where nothing is in flight; the fence is raised with it.\<close>

lemma raise_fence:
  assumes "calm n q c" "task_mutation t = Some (k, g)" "task_check t = None" "\<not> is_reset_task t"
    and "faithful_task t" "worker_expected (co_state c) (Some \<lparr>amw_kind = k, amw_generation = g\<rparr>)"
  shows "fenced n q (c\<lparr>co_dispatcher := enqueue_task t (co_dispatcher c),
           co_worker := Some \<lparr>amw_kind = k, amw_generation = g\<rparr>\<rparr>)"
  using assms by (auto simp: calm_iff fenced_def)

lemma fenced_dispatch_apply_worker:
  "calm n q (core s) \<Longrightarrow> \<not> restoring (co_state (core s)) \<Longrightarrow> fenced n q (core (dispatch_apply_worker req d b s))"
  using raise_fence [of n q "core s" "Task_Apply (token s) req d b (apply_message (sm_generation s))"
      Worker_Apply "sm_generation s"]
  by (simp add: dispatch_apply_worker_def dispatch_apply_def core_fields split_beta Let_def)

lemma fenced_start_recovery:
  "calm n q (core s) \<Longrightarrow> fenced n q (core (start_recovery E d tr s))"
  using raise_fence [of n q "(core s)\<lparr>co_state := Recovery\<rparr>"
      "Task_Recovery (token s) d (recovery_message (sm_generation s))" Worker_Recovery "sm_generation s"]
  by (simp add: start_recovery_def dispatch_recovery_def core_fields split_beta Let_def)

text \<open>The RESET barrier is independent of the fence.\<close>

lemma core_begin_reset:
  "core (begin_staged_state_reset s) =
     (if co_reset_pending (core s) then core s
      else (core s)\<lparr>co_reset_pending := True,
              co_dispatcher := enqueue_task (Task_ResetStaged (reset_message (co_generation (core s))))
                (co_dispatcher (core s))\<rparr>)"
  by (simp add: begin_staged_state_reset_def dispatch_reset_staged_apply_state_def core_fields)

lemma fenced_begin_reset: "fenced n q (core s) \<Longrightarrow> fenced n q (core (begin_staged_state_reset s))"
  by (auto simp: core_begin_reset fenced_def)

lemma calm_begin_reset: "calm n q (core s) \<Longrightarrow> calm n q (core (begin_staged_state_reset s))"
  by (auto simp: core_begin_reset calm_iff)

text \<open>A health check is dispatched where nothing is in flight and where it is expected.\<close>

lemma core_dispatch_verification:
  "core (dispatch_verification req ex rt d p s) =
     (let k = verification_message (co_generation (core s)) p
      in (core s)\<lparr>co_dispatcher :=
           (if 0 < d then enqueue_delayed_task (Timer_Verification (token s) req ex rt d k)
            else enqueue_task (Task_Verification (token s) req ex rt k)) (co_dispatcher (core s))\<rparr>)"
  by (simp add: dispatch_verification_def core_fields Let_def)

lemma fenced_dispatch_verification:
  assumes "calm n q (core s)" "check_expected (core s) p"
  shows "fenced n q (core (dispatch_verification req ex rt d p s))"
    and "live_checks q (core (dispatch_verification req ex rt d p s)) = {#p#}"
  using assms by (auto simp: core_dispatch_verification calm_iff fenced_def faithful_timer_task_def Let_def)


section \<open>Handling a message\<close>

text \<open>Taking a completion out of the mailbox.\<close>

lemma collect_remove1:
  "m \<in> set q \<Longrightarrow> collect f q =
     (case f m of None \<Rightarrow> {#} | Some y \<Rightarrow> {#y#}) + collect f (remove1 m q)"
  by (induction q) auto

lemma flight_remove1:
  assumes "m \<in> set q"
  shows "mutations_in_flight q c =
      (case message_mutation m of None \<Rightarrow> {#} | Some x \<Rightarrow> {#x#}) + mutations_in_flight (remove1 m q) c"
    and "checks_in_flight q c =
      (case message_check m of None \<Rightarrow> {#} | Some x \<Rightarrow> {#x#}) + checks_in_flight (remove1 m q) c"
    and "resets_in_flight q c = of_bool (is_reset_completion m) + resets_in_flight (remove1 m q) c"
proof -
  have "length (filter is_reset_completion q) =
      of_bool (is_reset_completion m) + length (filter is_reset_completion (remove1 m q))"
    using assms by (induction q) auto
  then show "resets_in_flight q c = of_bool (is_reset_completion m) + resets_in_flight (remove1 m q) c"
    by (simp add: resets_in_flight_def)
  show "mutations_in_flight q c =
      (case message_mutation m of None \<Rightarrow> {#} | Some x \<Rightarrow> {#x#}) + mutations_in_flight (remove1 m q) c"
    and "checks_in_flight q c =
      (case message_check m of None \<Rightarrow> {#} | Some x \<Rightarrow> {#x#}) + checks_in_flight (remove1 m q) c"
    using collect_remove1 [OF assms, of message_mutation] collect_remove1 [OF assms, of message_check]
    by (simp_all add: mutations_in_flight_def checks_in_flight_def split: option.split)
qed

lemma take_mutation:
  assumes "fenced n q c" "m \<in> set q" "message_mutation m = Some (k, g)"
    "message_check m = None" "\<not> is_reset_completion m"
  shows "co_worker c = Some \<lparr>amw_kind = k, amw_generation = g\<rparr>"
    and "calm n (remove1 m q) (c\<lparr>co_worker := None\<rparr>)"
    and "worker_expected (co_state c) (Some \<lparr>amw_kind = k, amw_generation = g\<rparr>)"
proof -
  note flight = flight_remove1 [OF assms(2), of c]
  have live: "live_checks (remove1 m q) c = live_checks q c" using flight assms(4) by (simp add: live_checks_def)
  have "add_mset (k, g) (mutations_in_flight (remove1 m q) c) = fence_of (co_worker c)"
    using assms(1,3) flight(1) by (simp add: fenced_def)
  then obtain w where w: "co_worker c = Some w" "amw_kind w = k" "amw_generation w = g"
    and none: "mutations_in_flight (remove1 m q) c = {#}"
    by (cases "co_worker c") auto
  then show worker: "co_worker c = Some \<lparr>amw_kind = k, amw_generation = g\<rparr>"
    by (metis active_mutation_worker.surjective old.unit.exhaust)
  show "calm n (remove1 m q) (c\<lparr>co_worker := None\<rparr>)"
    using assms none live worker flight(2,3) by (auto simp: calm_iff fenced_def)
  show "worker_expected (co_state c) (Some \<lparr>amw_kind = k, amw_generation = g\<rparr>)"
    using assms(1) worker by (auto simp: fenced_def split: if_splits)
qed

lemma take_check:
  assumes "fenced n q c" "m \<in> set q" "message_check m = Some (p, g)"
    "message_mutation m = None" "\<not> is_reset_completion m"
  shows "fenced n (remove1 m q) c"
    and "g = co_generation c \<Longrightarrow> calm n (remove1 m q) c \<and> check_expected c p"
proof -
  note flight = flight_remove1 [OF assms(2), of c]
  have live: "live_checks q c = (if g = co_generation c then {#p#} else {#}) + live_checks (remove1 m q) c"
    using flight assms(3) by (simp add: live_checks_def)
  show "fenced n (remove1 m q) c" using assms live flight by (auto simp: fenced_def)
  show "calm n (remove1 m q) c \<and> check_expected c p" if "g = co_generation c"
    using assms live flight that by (auto simp: calm_iff fenced_def)
qed

lemma take_reset:
  assumes "fenced n q c" "m \<in> set q" "is_reset_completion m"
    "message_mutation m = None" "message_check m = None"
  shows "fenced n (remove1 m q) (c\<lparr>co_reset_pending := False\<rparr>)" and "co_reset_pending c"
proof -
  note flight = flight_remove1 [OF assms(2), of c]
  have live: "live_checks (remove1 m q) c = live_checks q c" using flight assms(5) by (simp add: live_checks_def)
  have count: "Suc (resets_in_flight (remove1 m q) c) = of_bool (co_reset_pending c)"
    using assms flight(3) by (simp add: fenced_def)
  then show pending: "co_reset_pending c" by (cases "co_reset_pending c") simp_all
  show "fenced n (remove1 m q) (c\<lparr>co_reset_pending := False\<rparr>)"
    using assms flight live count pending by (auto simp: fenced_def)
qed

lemma take_other:
  assumes "fenced n q c" "m \<in> set q" "\<not> is_reset_completion m" "message_mutation m = None" "message_check m = None"
  shows "fenced n (remove1 m q) c"
proof -
  note flight = flight_remove1 [OF assms(2), of c]
  have "live_checks (remove1 m q) c = live_checks q c" using flight assms(5) by (simp add: live_checks_def)
  with assms flight show ?thesis by (auto simp: fenced_def)
qed


text \<open>
  Every handler keeps the fence. A cancellation uses up one unit of room; the drain needs one for each
  command that waits.
\<close>

lemma calm_idle:
  "fenced (Suc n) q (core s) \<Longrightarrow> sm_active_mutation_worker s = None \<Longrightarrow> calm n q (core (cancel_operations s))"
  using calm_cancel [of n q "core s"] by (simp add: core_fields)

lemma fenced_queue_after:
  "fenced (Suc n) q (core s) \<Longrightarrow> fenced n q (core (queue_after_active_mutation c b s))"
  using fenced_cancel [of n q "core s"] fenced_mono [of "Suc n" q "core s" n]
  by (simp add: queue_after_active_mutation_def enqueue_deferred_mutation_command_def)

lemma fenced_enqueue_deferred:
  "fenced n q (core s) \<Longrightarrow> fenced n q (core (enqueue_deferred_mutation_command c s))"
  by (simp add: enqueue_deferred_mutation_command_def)

lemma core_small_steps [simp]:
  "core (ensure_baseline E s) = core s"
  "core (plan_stabilization cfg s) = core s"
  by (simp_all add: ensure_baseline_def plan_stabilization_def split_beta Let_def)

lemma core_begin_apply_session:
  "core (begin_apply_session E c s) = (core (cancel_operations s))\<lparr>co_check_pending := False\<rparr>"
  by (simp add: begin_apply_session_def Let_def split: option.split)

lemma fenced_run_apply_command:
  assumes "fenced (Suc n) q (core s)" "co_worker (core s) = None"
  shows "fenced n q (core (run_apply_command E c s))"
  using calm_cancel [OF assms]
  by (auto simp: run_apply_command_def core_begin_apply_session Let_def split_beta calm_fenced
      intro!: fenced_dispatch_apply_worker split: option.split)

lemma fenced_handle_apply_command:
  assumes "fenced (Suc n) q (core s)"
  shows "fenced n q (core (handle_apply_command E c s))"
  using assms fenced_mono [OF assms, of n]
  by (auto simp: handle_apply_command_def Let_def split_beta mutation_worker_active_def core_fields
      intro: fenced_queue_after fenced_enqueue_deferred fenced_run_apply_command)

lemma fenced_run_revert_command:
  assumes "fenced (Suc n) q (core s)" "co_worker (core s) = None"
  shows "fenced n q (core (run_revert_command E c s))"
  using calm_cancel [OF assms]
  by (auto simp: run_revert_command_def abandon_recovery_def begin_revert_def Let_def split_beta calm_fenced
      intro!: fenced_start_recovery split: option.split)

lemma fenced_handle_revert_command:
  assumes "fenced (Suc n) q (core s)"
  shows "fenced n q (core (handle_revert_command E c s))"
  using assms fenced_mono [OF assms, of n]
  by (auto simp: handle_revert_command_def Let_def split_beta mutation_worker_active_def core_fields
      intro: fenced_queue_after fenced_enqueue_deferred fenced_run_revert_command)

lemma fenced_handle_disarm_command:
  assumes "fenced (Suc n) q (core s)"
  shows "fenced n q (core (handle_disarm_command E c s))"
proof -
  have "fenced n q (core (run_disarm_command E s'))"
    if "fenced (Suc n) q (core s')" "co_worker (core s') = None" for s' :: "'a sm"
    using calm_cancel [OF that] by (simp add: run_disarm_command_def Let_def calm_fenced)
  with assms fenced_mono [OF assms, of n] show ?thesis
    by (auto simp: handle_disarm_command_def Let_def split_beta mutation_worker_active_def core_fields
        intro: fenced_queue_after fenced_enqueue_deferred)
qed

lemma fenced_handle_reset_command:
  assumes "fenced (Suc n) q (core s)"
  shows "fenced n q (core (handle_reset_command E c s))"
  using assms fenced_mono [OF assms, of n]
  by (auto simp: handle_reset_command_def Let_def split_beta
      intro: fenced_queue_after fenced_enqueue_deferred fenced_begin_reset)

lemma fenced_handle_deferred:
  "fenced (Suc n) q (core s) \<Longrightarrow> fenced n q (core (handle_deferred E c s))"
  by (cases c) (simp_all add: fenced_handle_apply_command fenced_handle_revert_command
      fenced_handle_disarm_command fenced_handle_reset_command)

lemma fenced_drain:
  "fenced (n + length (co_deferred (core s))) q (core s) \<Longrightarrow>
   fenced n q (core (drain_deferred_mutation_commands E s))"
proof (induction E s rule: drain_deferred_mutation_commands.induct)
  case (1 E s)
  show ?case
  proof (cases "mutation_worker_active s \<or> sm_staged_state_reset_pending s \<or> sm_deferred_mutation_commands s = []")
    case True
    with 1(2) show ?thesis
      by (subst drain_deferred_mutation_commands.simps) (auto intro: fenced_mono split: list.split)
  next
    case False
    then obtain d ds where ds: "sm_deferred_mutation_commands s = d # ds" by (cases "sm_deferred_mutation_commands s") auto
    let ?s = "s\<lparr>sm_deferred_mutation_commands := ds\<rparr>"
    have left: "co_deferred (core (handle_deferred E d ?s)) = ds"
      using False handle_deferred_idle [of ?s E d] by (simp add: mutation_worker_active_def)
    have "fenced (Suc (n + length ds)) q (core ?s)" using 1(2) ds by (simp add: core_fields)
    from fenced_handle_deferred [OF this, of E d]
    have "fenced n q (core (drain_deferred_mutation_commands E (handle_deferred E d ?s)))"
      using False by (intro 1(1) ds) (simp_all add: left)
    then show ?thesis using False ds by (subst drain_deferred_mutation_commands.simps) simp
  qed
qed


subsection \<open>Completions of an APPLY\<close>

lemma dispatch_verification_fields [simp]:
  "co_state (core (dispatch_verification req ex rt d p s)) = co_state (core s)"
  "co_generation (core (dispatch_verification req ex rt d p s)) = co_generation (core s)"
  "co_worker (core (dispatch_verification req ex rt d p s)) = co_worker (core s)"
  "co_deferred (core (dispatch_verification req ex rt d p s)) = co_deferred (core s)"
  "co_reset_pending (core (dispatch_verification req ex rt d p s)) = co_reset_pending (core s)"
  "co_check_pending (core (dispatch_verification req ex rt d p s)) = co_check_pending (core s)"
  by (simp_all add: core_dispatch_verification Let_def)

lemma next_settlement_deferred [simp]:
  "co_deferred (core (snd (dispatch_next_settlement_verification E s))) = co_deferred (core s)"
  by (simp add: dispatch_next_settlement_verification_def Let_def)

lemma next_settlement_False:
  "\<not> fst (dispatch_next_settlement_verification E s) \<Longrightarrow>
   core (snd (dispatch_next_settlement_verification E s)) = core s"
  by (auto simp: dispatch_next_settlement_verification_def Let_def split: if_splits)

lemma fenced_next_settlement:
  "calm n q (core s) \<Longrightarrow> fenced n q (core (snd (dispatch_next_settlement_verification E s)))"
  by (auto simp: dispatch_next_settlement_verification_def Let_def calm_fenced intro!: fenced_dispatch_verification(1))

lemma reset_uncommitted_deferred [simp]:
  "co_deferred (core (reset_uncommitted_staged_state_if_needed E s)) = co_deferred (core s)"
  by (simp add: reset_uncommitted_staged_state_if_needed_def)

lemma calm_reset_uncommitted:
  "calm n q (core s) \<Longrightarrow> calm n q (core (reset_uncommitted_staged_state_if_needed E s))"
  by (auto simp: reset_uncommitted_staged_state_if_needed_def intro!: calm_begin_reset)

lemma calm_drain:
  "calm (n + length (co_deferred (core s))) q (core s) \<Longrightarrow>
   fenced n q (core (drain_deferred_mutation_commands E s))"
  by (rule fenced_drain) (rule calm_fenced)

lemma fenced_apply_cancelled:
  "calm (n + length (co_deferred (core s))) q (core s) \<Longrightarrow> fenced n q (core (apply_cancelled E m s))"
  unfolding apply_cancelled_def Let_def by (rule calm_drain) (simp add: calm_reset_uncommitted)

lemma fenced_apply_succeeded:
  assumes "calm (n + length (co_deferred (core s))) q (core s)"
  shows "fenced n q (core (apply_succeeded E m s))"
proof (cases "sm_settlement_repair_in_flight s")
  case True
  let ?s = "s\<lparr>sm_settlement_repair_in_flight := False\<rparr>"
  have "calm (n + length (co_deferred (core s))) q (core ?s)" using assms by simp
  from fenced_next_settlement [OF this, of E] next_settlement_False [of E ?s] True assms show ?thesis
    by (auto simp: apply_succeeded_def Let_def split_beta intro!: calm_drain intro: fenced_mono)
next
  case False
  then show ?thesis
    using assms
    by (auto simp: apply_succeeded_def Let_def intro!: fenced_drain fenced_dispatch_verification(1))
qed

lemma fenced_apply_failed:
  "calm (n + length (co_deferred (core s))) q (core s) \<Longrightarrow> fenced n q (core (apply_failed E m s))"
  unfolding apply_failed_def Let_def by (rule calm_drain) (simp add: calm_reset_uncommitted)

lemma fenced_apply_retry:
  assumes "calm (n + length (co_deferred (core s))) q (core s)" "\<not> restoring (co_state (core s))"
  shows "fenced n q (core (apply_retry E m s))"
  using assms calm_mono [OF assms(1), of n]
  by (auto simp: apply_retry_def Let_def intro!: fenced_dispatch_apply_worker fenced_apply_failed)

lemma fenced_apply_settle_or_retry:
  assumes "calm (n + length (co_deferred (core s))) q (core s)" "\<not> restoring (co_state (core s))"
  shows "fenced n q (core (apply_settle_or_retry E m s))"
proof -
  let ?s = "s\<lparr>sm_settlement_repair_in_flight := False\<rparr>"
  have calm: "calm (n + length (co_deferred (core s))) q (core ?s)" using assms by simp
  note ns = fenced_next_settlement [OF calm, of E] next_settlement_False [of E ?s]
  show ?thesis
    using assms ns
    by (auto simp: apply_settle_or_retry_def Let_def split_beta intro!: fenced_apply_retry intro: fenced_mono)
qed

lemma fenced_apply_unsuccessful:
  assumes "calm (n + length (co_deferred (core s))) q (core s)" "\<not> restoring (co_state (core s))"
  shows "fenced n q (core (apply_unsuccessful E m s))"
  using assms calm_mono [OF assms(1), of n]
  by (auto simp: apply_unsuccessful_def Let_def split_beta
      intro!: fenced_dispatch_apply_worker fenced_apply_settle_or_retry)

lemma fenced_apply_current:
  assumes "calm (n + length (co_deferred (core s))) q (core s)" "\<not> restoring (co_state (core s))"
  shows "fenced n q (core (apply_current E m s))"
proof -
  have "fenced n q (core (if acd_status m = Status_Ok then apply_succeeded E m s' else apply_unsuccessful E m s'))"
    if "core s' = core s" for s' :: "'a sm"
    using assms that by (simp add: fenced_apply_succeeded fenced_apply_unsuccessful)
  then show ?thesis by (simp add: apply_current_def Let_def)
qed

lemma fenced_handle_apply_completed:
  assumes "fenced (n + length (co_deferred (core s))) q (core s)" "M_ApplyCompleted m \<in> set q"
  shows "fenced n (remove1 (M_ApplyCompleted m) q) (core (handle_apply_completed E m s))"
  using take_mutation [OF assms] 
  by (auto simp: handle_apply_completed_def owns_active_worker_def core_fields Let_def
      intro!: fenced_apply_cancelled fenced_apply_current)

subsection \<open>Completions of a RefreshRate and of a recovery\<close>


lemma replace_stabilization_fields [simp]:
  "co_state (core (replace_stabilization_with_settlement s)) = co_state (core s)"
  "co_worker (core (replace_stabilization_with_settlement s)) = co_worker (core s)"
  "co_deferred (core (replace_stabilization_with_settlement s)) = co_deferred (core s)"
  by (simp_all add: replace_stabilization_with_settlement_def)

lemma calm_replace_stabilization:
  "calm (Suc n) q (core s) \<Longrightarrow> calm n q (core (replace_stabilization_with_settlement s))"
  using calm_again [of n q "core s"] calm_mono [of "Suc n" q "core s" n]
  by (simp add: replace_stabilization_with_settlement_def)

lemma schedule_next_deferred [simp]:
  "co_deferred (core (schedule_next_post_apply_stabilization s)) = co_deferred (core s)"
  by (simp add: schedule_next_post_apply_stabilization_def Let_def)

lemma fenced_schedule_next:
  assumes "calm n q (core s)" "\<not> restoring (co_state (core s))"
  shows "fenced n q (core (schedule_next_post_apply_stabilization s))"
  using assms
  by (auto simp: schedule_next_post_apply_stabilization_def Let_def calm_fenced
      intro!: fenced_dispatch_verification(1))

text \<open>After the new rate has settled either a stabilization check is on its way or nothing is.\<close>

lemma settled_settlement [simp]:
  "sm_settlement_requested (refresh_rate_settled E m s) = sm_settlement_requested s"
  by (simp add: refresh_rate_settled_def replace_stabilization_with_settlement_def
      reset_post_apply_stabilization_def rewind_post_apply_stabilization_def cancel_operations_def
      schedule_next_post_apply_stabilization_def dispatch_verification_def enqueue_def Let_def)

lemma settled_deferred [simp]: "co_deferred (core (refresh_rate_settled E m s)) = co_deferred (core s)"
  by (simp add: refresh_rate_settled_def Let_def)

lemma fenced_refresh_rate_settled:
  assumes "calm (Suc (Suc n)) q (core s)" "\<not> restoring (co_state (core s))"
  shows "fenced n q (core (refresh_rate_settled E m s))"
    and "sm_settlement_requested s \<Longrightarrow> calm n q (core (refresh_rate_settled E m s))"
proof -
  have cancelled: "calm (Suc n) q ((core s)\<lparr>co_generation := co_generation (core s) + 1\<rparr>)"
    using calm_again assms(1) by blast
  show settle: "calm n q (core (refresh_rate_settled E m s))" if "sm_settlement_requested s"
    using cancelled that
    by (auto simp: refresh_rate_settled_def Let_def cancel_operations_def rewind_post_apply_stabilization_def
        cs_cancel_def core_fields intro!: calm_replace_stabilization)
  show "fenced n q (core (refresh_rate_settled E m s))"
  proof (cases "sm_settlement_requested s")
    case True
    then show ?thesis by (intro calm_fenced settle)
  next
    case False
    then show ?thesis
      using calm_mono [OF cancelled, of n] assms(2)
      by (auto simp: refresh_rate_settled_def Let_def cancel_operations_def rewind_post_apply_stabilization_def
          cs_cancel_def core_fields intro!: fenced_schedule_next)
  qed
qed

lemma fenced_handle_refresh_rate_completed:
  assumes "fenced (Suc (Suc (n + length (co_deferred (core s))))) q (core s)" "M_RefreshRateCompleted m \<in> set q"
  shows "fenced n (remove1 (M_RefreshRateCompleted m) q) (core (handle_refresh_rate_completed E m s))"
proof -
  let ?q = "remove1 (M_RefreshRateCompleted m) q" and ?s = "s\<lparr>sm_active_mutation_worker := None\<rparr>"
  let ?l = "length (co_deferred (core s))"
  have owned: "owns_active_worker Worker_RefreshRate (rrd_generation m) s"
    and state: "\<not> restoring (co_state (core s))" and calm: "calm (Suc (Suc (n + ?l))) ?q (core ?s)"
    using take_mutation [OF assms] by (simp_all add: owns_active_worker_def core_fields)
  define t where "t = (if refresh_targets_active_request (rrd_device_id m) ?s
                       then refresh_rate_settled E m ?s else ?s)"
  define u where "u = (if sm_settlement_requested t then snd (dispatch_next_settlement_verification E t) else t)"
  have calm_t: "calm (n + ?l) ?q (core t)" if "sm_settlement_requested t"
    using that calm calm_mono [OF calm, of "n + ?l"] fenced_refresh_rate_settled(2) [OF calm] state
    by (simp add: t_def split: if_splits)
  have fenced_t: "fenced (n + ?l) ?q (core t)"
    using calm_fenced [OF calm_mono [OF calm, of "n + ?l"]] fenced_refresh_rate_settled(1) [OF calm] state
    by (simp add: t_def)
  have "fenced (n + ?l) ?q (core u)" using calm_t fenced_t by (auto simp: u_def intro!: fenced_next_settlement)
  moreover have "co_deferred (core u) = co_deferred (core s)" by (simp add: u_def t_def)
  ultimately have "fenced n ?q (core (drain_deferred_mutation_commands E
      (send_refresh_rate_result E (rrd_success m) (rrd_connection_epoch m) (rrd_request_id m) u)))"
    by (intro fenced_drain) simp
  moreover have "fenced n ?q (core (drain_deferred_mutation_commands E ?s))"
    using calm_mono [OF calm, of "n + ?l"] by (intro calm_drain) simp
  moreover have "handle_refresh_rate_completed E m s =
      (if is_stale (rrd_generation m) ?s then drain_deferred_mutation_commands E ?s
       else drain_deferred_mutation_commands E
         (send_refresh_rate_result E (rrd_success m) (rrd_connection_epoch m) (rrd_request_id m) u))"
    using owned by (simp add: handle_refresh_rate_completed_def t_def u_def Let_def)
  ultimately show ?thesis by simp
qed


lemma fenced_recovery_unconfirmed:
  "calm (n + length (co_deferred (core s))) q (core s) \<Longrightarrow> fenced n q (core (recovery_unconfirmed E s))"
  unfolding recovery_unconfirmed_def by (auto simp: split_beta Let_def intro!: calm_drain)

lemma fenced_handle_recovery_completed:
  assumes "fenced (n + length (co_deferred (core s))) q (core s)" "M_RecoveryCompleted m \<in> set q"
  shows "fenced n (remove1 (M_RecoveryCompleted m) q) (core (handle_recovery_completed E m s))"
proof -
  let ?q = "remove1 (M_RecoveryCompleted m) q" and ?s = "s\<lparr>sm_active_mutation_worker := None\<rparr>"
  let ?l = "length (co_deferred (core s))"
  have worker: "sm_active_mutation_worker s = Some \<lparr>amw_kind = Worker_Recovery, amw_generation = rvd_generation m\<rparr>"
    and calm: "calm (n + ?l) ?q (core ?s)"
    using take_mutation [OF assms] by (simp_all add: core_fields)
  have validate: "fenced n ?q ((core s)\<lparr>co_state := RecoveryValidation, co_dispatcher := enqueue_task
      (Task_RecoveryValidation (Token g) snap (recovery_validation_message g)) (co_dispatcher (core s)),
      co_worker := Some \<lparr>amw_kind = Worker_Recovery, amw_generation = g\<rparr>\<rparr>)" for g snap
    using raise_fence [of n ?q "(core ?s)\<lparr>co_state := RecoveryValidation\<rparr>"
        "Task_RecoveryValidation (Token g) snap (recovery_validation_message g)" Worker_Recovery g]
      calm_mono [OF calm, of n]
    by simp
  show ?thesis
    using calm worker validate
    by (cases "rvd_success m"; cases "rvd_snapshot m")
      (auto simp: handle_recovery_completed_def owns_active_worker_def dispatch_recovery_validation_def
        Let_def split_beta core_fields intro!: calm_drain fenced_recovery_unconfirmed)
qed

lemma fenced_leave_after_restore:
  "calm (n + length (co_deferred (core s))) q (core s) \<Longrightarrow> fenced n q (core (leave_after_restore E b s))"
  unfolding leave_after_restore_def Let_def
  using calm_drain [of n "s\<lparr>sm_exit_after_staged_state_reset := x\<rparr>" q E for x] by simp

lemma fenced_recovery_confirmed:
  assumes "calm (n + length (co_deferred (core s))) q (core s)"
  shows "fenced n q (core (recovery_confirmed E s))"
  unfolding recovery_confirmed_def Let_def using assms
  by (intro fenced_leave_after_restore) (simp add: calm_begin_reset)

lemma fenced_handle_recovery_validation_completed:
  assumes "fenced (n + length (co_deferred (core s))) q (core s)" "M_RecoveryValidationCompleted m \<in> set q"
  shows "fenced n (remove1 (M_RecoveryValidationCompleted m) q) (core (handle_recovery_validation_completed E m s))"
  using take_mutation [OF assms]
  by (auto simp: handle_recovery_validation_completed_def owns_active_worker_def core_fields Let_def
      intro!: calm_drain fenced_recovery_confirmed fenced_recovery_unconfirmed)

subsection \<open>Health checks and the RESET barrier\<close>

lemma fenced_steady:
  assumes "fenced n q (core s)" "co_worker (core s) = None" "\<forall>p \<in># live_checks q (core s). p = Stabilization"
  shows "fenced n q (core (enter_steady_state E s))"
proof -
  have "\<forall>p \<in># live_checks q (core s). p = Stabilization \<and> co_check_pending (core s)"
    using assms(1,3) by (force simp: fenced_def)
  then have "\<forall>p \<in># live_checks q (core s). check_expected ((core s)\<lparr>co_state := st\<rparr>) p" if "\<not> restoring st" for st
    using that by auto
  with assms(1,2) show ?thesis by (simp add: fenced_def)
qed

lemma steady_after_schedule:
  assumes "calm n q (core s)" "\<not> restoring (co_state (core s))"
  shows "fenced n q (core (enter_steady_state E (schedule_next_post_apply_stabilization s)))"
proof (rule fenced_steady)
  show "fenced n q (core (schedule_next_post_apply_stabilization s))" by (rule fenced_schedule_next [OF assms])
  show "co_worker (core (schedule_next_post_apply_stabilization s)) = None"
    using assms(1) by (simp add: schedule_next_post_apply_stabilization_def Let_def calm_iff)
  have "live_checks q (core (schedule_next_post_apply_stabilization s)) \<subseteq># {#Stabilization#}"
    using assms by (simp add: schedule_next_post_apply_stabilization_def Let_def fenced_dispatch_verification(2)) (simp add: calm_iff)
  then show "\<forall>p \<in># live_checks q (core (schedule_next_post_apply_stabilization s)). p = Stabilization"
    by (auto dest: mset_subset_eqD)
qed


lemma next_settlement_worker [simp]:
  "co_worker (core (snd (dispatch_next_settlement_verification E s))) = co_worker (core s)"
  by (simp add: dispatch_next_settlement_verification_def Let_def)

text \<open>Where the settlement has no check left, the rest starts from the same core.\<close>

lemma settle_or:
  assumes "calm n q (core s)" "\<And>s'. core s' = core s \<Longrightarrow> fenced n q (core (f s'))"
  shows "fenced n q (core (if fst (dispatch_next_settlement_verification E s)
    then snd (dispatch_next_settlement_verification E s)
    else f (snd (dispatch_next_settlement_verification E s))))"
  using assms fenced_next_settlement [OF assms(1), of E] next_settlement_False [of E s] by simp

lemma fenced_initial_check_succeeded:
  assumes "calm n q (core s)" "\<not> restoring (co_state (core s))"
  shows "fenced n q (core (initial_check_succeeded E s))"
proof -
  define t where "t = (if sm_verification_result_sent s then s else session_verified E s)"
  have same: "core t = core s" by (simp add: t_def session_verified_def Let_def)
  have "fenced n q (core (enter_steady_state E (schedule_next_post_apply_stabilization t)))"
    using assms same by (intro steady_after_schedule) simp_all
  moreover have "fenced n q (core (if fst (dispatch_next_settlement_verification E t)
      then snd (dispatch_next_settlement_verification E t)
      else enter_steady_state E (snd (dispatch_next_settlement_verification E t))))"
    using assms same by (intro settle_or) (simp_all add: calm_fenced)
  ultimately show ?thesis
    unfolding initial_check_succeeded_def Let_def split_beta t_def [symmetric] by simp
qed

lemma fenced_stabilization_check_succeeded:
  assumes "calm n q (core s)" "\<not> restoring (co_state (core s))"
  shows "fenced n q (core (stabilization_check_succeeded E s))"
proof -
  have "fenced n q (core (if fst (dispatch_next_settlement_verification E s)
      then snd (dispatch_next_settlement_verification E s)
      else enter_steady_state E (snd (dispatch_next_settlement_verification E s))))"
    using assms by (intro settle_or) (simp_all add: calm_fenced)
  with fenced_schedule_next [OF assms] show ?thesis
    unfolding stabilization_check_succeeded_def Let_def split_beta by simp
qed

lemma fenced_next_reapply:
  assumes "calm n q (core s)"
  shows "fenced n q (core (snd (dispatch_next_verification_reapply E s)))"
    and "\<not> fst (dispatch_next_verification_reapply E s) \<Longrightarrow>
      core (snd (dispatch_next_verification_reapply E s)) = core s"
  using assms
  by (auto simp: dispatch_next_verification_reapply_def Let_def calm_fenced intro!: fenced_dispatch_apply_worker
      split: if_splits)

lemma fenced_check_failed:
  assumes "calm n q (core s)"
  shows "fenced n q (core (check_failed E b s))"
proof -
  have settle: "fenced n q (core (settle_without_check E s'))" if "core s' = core s" for s' :: "'a sm"
    using assms that by (simp add: settle_without_check_def calm_fenced)
  have settled: "fenced n q (core (if fst (dispatch_next_settlement_verification E s)
      then snd (dispatch_next_settlement_verification E s)
      else settle_without_check E (snd (dispatch_next_settlement_verification E s))))"
    using assms by (intro settle_or settle)
  have repair: "fenced n q (core (dispatch_immediate_repair_after_stabilization_failure E s))"
    using assms
    by (auto simp: dispatch_immediate_repair_after_stabilization_failure_def Let_def intro!: fenced_dispatch_apply_worker)
  have "calm n q (core (rewind_post_apply_stabilization s))" using assms by simp
  from fenced_next_reapply [OF this, of E] settled repair assms show ?thesis
    unfolding check_failed_def Let_def split_beta by (auto simp: calm_fenced)
qed

lemma fenced_settlement_check_completed:
  assumes "calm (Suc n) q (core s)"
  shows "fenced n q (core (settlement_check_completed E b s))"
  using calm_again [OF assms] calm_mono [OF assms, of n]
  by (auto simp: settlement_check_completed_def dispatch_settlement_repair_def Let_def calm_fenced
      intro!: fenced_dispatch_apply_worker)

lemma fenced_handle_verification_completed:
  assumes "fenced (Suc n) q (core s)" "M_VerificationCompleted m \<in> set q"
  shows "fenced n (remove1 (M_VerificationCompleted m) q) (core (handle_verification_completed E m s))"
proof (cases "is_stale (vcd_generation m) s")
  case True
  with take_check(1) [OF assms] show ?thesis
    by (auto simp: handle_verification_completed_def intro: fenced_mono)
next
  case False
  let ?q = "remove1 (M_VerificationCompleted m) q"
  have "vcd_generation m = co_generation (core s)" using False by (simp add: is_stale_def core_fields)
  with take_check(2) [OF assms] have calm: "calm (Suc n) ?q (core s)" and "check_expected (core s) (vcd_purpose m)"
    by simp_all
  moreover have "calm n ?q (core s)" using calm by (rule calm_mono) simp
  ultimately show ?thesis
    using False
    by (cases "vcd_purpose m") (auto simp: handle_verification_completed_def Let_def
        intro!: fenced_initial_check_succeeded fenced_stabilization_check_succeeded fenced_check_failed
          fenced_settlement_check_completed)
qed

lemma fenced_handle_reset_completed:
  assumes "fenced (n + length (co_deferred (core s))) q (core s)" "M_ResetCompleted m \<in> set q"
  shows "fenced n (remove1 (M_ResetCompleted m) q) (core (handle_reset_completed E m s))"
proof -
  let ?q = "remove1 (M_ResetCompleted m) q"
  have taken: "fenced (n + length (co_deferred (core s))) ?q ((core s)\<lparr>co_reset_pending := False\<rparr>)"
    using take_reset(1) [OF assms] by simp
  have "fenced n ?q (core (drain_deferred_mutation_commands E s'))"
    if "core s' = (core s)\<lparr>co_reset_pending := False\<rparr>" for s' :: "'a sm"
    using taken that by (intro fenced_drain) simp
  then show ?thesis
    using fenced_mono [OF taken, of n] unfolding handle_reset_completed_def Let_def by auto
qed


subsection \<open>Commands and events that start work of their own\<close>

lemma idle_calm:
  assumes "fenced n q c" "co_worker c = None" "co_state c \<noteq> Verification" "restoring (co_state c) \<or> \<not> co_check_pending c"
  shows "calm n q c"
proof -
  have "p \<notin># live_checks q c" for p using assms by (cases p) (auto simp: fenced_def)
  then have "live_checks q c = {#}" by (metis multiset_nonemptyE)
  with assms show ?thesis by (simp add: calm_def)
qed

lemma fenced_handle_refresh_rate_command:
  assumes "fenced (Suc n) q (core s)"
  shows "fenced n q (core (handle_refresh_rate_command E c s))"
proof -
  let ?s = "snd (is_stale_connection E (rr_connection_epoch c) s)"
  have same: "core ?s = core s" by simp
  have dispatch: "fenced n q (core (let (gen, s') = dispatch_refresh_rate c s' in s'\<lparr>sm_active_mutation_worker :=
      Some \<lparr>amw_kind = Worker_RefreshRate, amw_generation = gen\<rparr>\<rparr>))"
    if "calm n q (core s')" "\<not> restoring (co_state (core s'))" for s' :: "'a sm"
    using that raise_fence [of n q "core s'" "Task_RefreshRate (token s') (rr_device_id c) (rr_numerator c)
        (rr_denominator c) (refresh_rate_message (co_generation (core s')) c)" Worker_RefreshRate "co_generation (core s')"]
    by (simp add: dispatch_refresh_rate_def split_beta Let_def)
  show ?thesis
  proof (cases "apply_in_flight ?s \<or> restore_pending ?s")
    case True
    with fenced_mono [OF assms, of n] show ?thesis
      by (auto simp: handle_refresh_rate_command_def Let_def split_beta)
  next
    case False
    then have idle: "co_worker (core s) = None" "co_state (core s) \<noteq> Verification" "\<not> restoring (co_state (core s))"
      by (simp_all add: apply_in_flight_def mutation_worker_active_def restore_pending_def core_fields)
    have "calm n q (core (if sm_post_apply_check_pending ?s
        then rewind_post_apply_stabilization (cancel_operations ?s) else ?s))"
      using calm_cancel [OF assms idle(1)] idle_calm [OF assms idle(1,2)] calm_mono [of "Suc n" q "core s" n]
      by (simp add: core_fields)
    from dispatch [OF this] idle fenced_mono [OF assms, of n] show ?thesis
      unfolding handle_refresh_rate_command_def Let_def split_beta by auto
  qed
qed

lemma core_retarget [simp]: "core (snd (resolved_virtual_device E s)) = core s"
  by (simp add: resolved_virtual_device_def)

lemma fenced_queue_restart: "fenced (Suc n) q (core s) \<Longrightarrow> fenced n q (core (queue_restart E s))"
  by (simp add: queue_restart_def Let_def fenced_queue_after)

lemma fenced_event_while_monitoring:
  assumes "fenced (Suc n) q (core s)" "co_state (core s) = VirtualDisplayMonitoring"
  shows "fenced n q (core (event_while_monitoring E s))"
  using calm_cancel [OF assms(1)] idle_calm [OF fenced_mono [OF assms(1), of n]] assms fenced_mono [OF assms(1), of n]
  by (auto simp: event_while_monitoring_def Let_def split_beta mutation_worker_active_def core_fields
      intro!: fenced_queue_restart fenced_dispatch_apply_worker fenced_dispatch_verification(1))

lemma fenced_event_during_virtual_apply:
  assumes "fenced (Suc n) q (core s)"
  shows "fenced n q (core (event_during_virtual_apply E s))"
  using calm_cancel [OF assms] fenced_mono [OF assms, of n] assms
  by (auto simp: event_during_virtual_apply_def Let_def split_beta mutation_worker_active_def core_fields
      intro!: fenced_queue_restart fenced_dispatch_apply_worker)

lemma event_loop_calm:
  assumes "fenced n q c" "co_state c = EventLoop"
  shows "calm n q c"
proof (rule idle_calm [OF assms(1)])
  show "co_worker c = None" using assms by (cases "co_worker c") (auto simp: fenced_def split: if_splits)
qed (simp_all add: assms(2))

lemma fenced_handle_display_event:
  assumes "fenced (Suc n) q (core s)"
  shows "fenced n q (core (handle_display_event E m s))"
  using fenced_mono [OF assms, of n] event_loop_calm [OF fenced_mono [OF assms, of n]] assms
  by (auto simp: handle_display_event_def event_in_event_loop_def Let_def split_beta core_fields
      intro!: fenced_event_while_monitoring fenced_event_during_virtual_apply fenced_start_recovery)

lemma fenced_handle_helper_event:
  assumes "fenced (Suc n) q (core s)"
  shows "fenced n q (core (handle_helper_event E m s))"
proof -
  let ?s = "snd (is_stale_connection E (hem_connection_epoch m) s)"
  have "fenced n q (core (heartbeat_recovery E s'))" "fenced n q (core (abandon_recovery E s'))"
    if "core s' = core s" "co_worker (core s) = None" for s' :: "'a sm"
    using calm_cancel [OF assms that(2)] that
    by (auto simp: heartbeat_recovery_def abandon_recovery_def Let_def split_beta calm_fenced
        intro!: fenced_start_recovery)
  with fenced_mono [OF assms, of n] assms show ?thesis
    by (auto simp: handle_helper_event_def Let_def split_beta mutation_worker_active_def core_fields
        intro!: fenced_queue_after)
qed

lemma fenced_handle_tick:
  assumes "fenced n q (core s)"
  shows "fenced n q (core (handle_tick E s))"
  using event_loop_calm [OF assms] assms
  by (auto simp: handle_tick_def sm_try_def Let_def split_beta core_fields intro!: fenced_start_recovery
      split: option.split)

lemma fenced_begin_settlement:
  assumes "fenced (Suc n) q (core s)"
  shows "fenced n q (core (snd (begin_transient_disconnect_settlement E s)))"
proof -
  define t where "t = (snd (should_defer_disconnect_recovery E s))\<lparr>sm_settlement_requested := True\<rparr>"
  define u where "u = (if \<not> mutation_worker_active t then replace_stabilization_with_settlement t else t)"
  have t: "core t = core s" by (simp add: t_def)
  have verified: "sm_session_was_verified u = sm_session_was_verified t"
    by (simp add: u_def replace_stabilization_with_settlement_def reset_post_apply_stabilization_def cancel_operations_def)
  have fenced: "fenced n q (core s)" using assms by (rule fenced_mono) simp
  have "fenced n q (core u) \<and> (mutation_worker_active u \<or> (\<not> sm_session_was_verified u \<and> sm_state u = Verification) \<or>
      calm n q (core u))"
  proof (cases "mutation_worker_active t \<or> sm_post_apply_check_pending t \<or> (sm_session_was_verified t \<and> sm_state t = Verification)")
    case True
    then show ?thesis
      using calm_cancel [OF assms] fenced
      by (auto simp: u_def t mutation_worker_active_def core_fields replace_stabilization_with_settlement_def calm_fenced)
  next
    case False
    have "(core s)\<lparr>co_check_pending := False\<rparr> = core s" using False by (simp add: t core_fields)
    with False have "core u = core s" by (auto simp: u_def t replace_stabilization_with_settlement_def)
    then show ?thesis
      using False fenced idle_calm [OF fenced] verified
      by (auto simp: t mutation_worker_active_def core_fields)
  qed
  then have "fenced n q (core (snd (if mutation_worker_active u \<or> (\<not> sm_session_was_verified u \<and> sm_state u = Verification)
      then (True, u) else dispatch_next_settlement_verification E u)))"
    by (auto intro: fenced_next_settlement)
  with fenced show ?thesis
    unfolding begin_transient_disconnect_settlement_def Let_def split_beta t_def [symmetric] u_def [symmetric] by simp
qed

text \<open>The messages that start nothing.\<close>

lemma core_inert_commands [simp]:
  "core (handle_export_golden E eg s) = core s"
  "core (handle_snapshot_current E sc s) = core s"
  "core (handle_ping_command E pg s) = core s"
  "core (handle_stop_command E st s) = core s"
  by (simp_all add: handle_export_golden_def handle_snapshot_current_def handle_ping_command_def
      handle_stop_command_def apply_exclusions_def sm_try_def Let_def split_beta split: option.split)


section \<open>The system and its reachable states\<close>

text \<open>
  A message of the mailbox needs room for the cancellations its handler can ask for: two of its own
  and one for each command that waits.
\<close>

definition room_for :: "nat \<Rightarrow> 'w sm \<Rightarrow> bool" where
  "room_for n s \<longleftrightarrow> unat (sm_generation s) + length (sm_deferred_mutation_commands s) + n < 2 ^ 64"

lemma fenced_room:
  "fenced 0 q (core s) \<Longrightarrow> room_for n s \<Longrightarrow> fenced (n + length (co_deferred (core s))) q (core s)"
  by (simp add: fenced_def room_for_def core_fields)

lemma fenced_handle_message:
  assumes "fenced 0 q (core s)" "m \<in> set q" "room_for (k + 2) s"
  shows "fenced k (remove1 m q) (core (handle_message E m s))"
proof -
  let ?q = "remove1 m q"
  have room: "fenced (Suc (Suc (k + length (co_deferred (core s))))) q (core s)"
    using fenced_room [OF assms(1,3)] by simp
  have all: "fenced (k + length (co_deferred (core s))) q (core s)" and one: "fenced (Suc k) q (core s)"
    by (rule fenced_mono [OF room], simp)+
  show ?thesis
  proof (cases "message_mutation m = None \<and> message_check m = None \<and> \<not> is_reset_completion m")
    case True
    then have other: "fenced (Suc k) ?q (core s)" using take_other [OF one assms(2)] by simp
    then have "fenced k ?q (core s)" by (rule fenced_mono) simp
    with other True show ?thesis
      by (cases m) (simp_all add: fenced_handle_apply_command fenced_handle_revert_command
          fenced_handle_disarm_command fenced_handle_refresh_rate_command fenced_handle_reset_command
          fenced_handle_display_event fenced_handle_helper_event)
  next
    case False
    then show ?thesis
      using assms(2) room all one
      by (cases m) (simp_all add: fenced_handle_apply_completed fenced_handle_verification_completed
          fenced_handle_reset_completed fenced_handle_refresh_rate_completed fenced_handle_recovery_completed
          fenced_handle_recovery_validation_completed)
  qed
qed

text \<open>
  One step of the threads. Completions reach the mailbox only from the worker; \<open>handle\<close> takes any
  message, since \<open>process_queue\<close> serves some ahead of others. \<open>cancelled\<close> is the cancellation of
  STOP and of the exit callback, \<open>discarded\<close> the commands of a retired client, and \<open>inert\<close> whatever the
  running operation and the other threads do to the rest of the state.
\<close>

inductive sys_step :: "'w ports \<Rightarrow> 'w sm \<times> message queue \<Rightarrow> 'w sm \<times> message queue \<Rightarrow> bool"
  for E :: "'w ports" where
  post: "message_mutation m = None \<Longrightarrow> message_check m = None \<Longrightarrow> \<not> is_reset_completion m \<Longrightarrow>
    sys_step E (s, q) (s, mq_push m q)"
| handle: "m \<in> set q \<Longrightarrow> room_for 2 s \<Longrightarrow> sys_step E (s, q) (handle_message E m s, remove1 m q)"
| work: "take_task (sm_dispatcher s) = (Some t, d) \<Longrightarrow> m \<in> completions t \<Longrightarrow>
    sys_step E (s, q) (s\<lparr>sm_dispatcher := d\<rparr>, mq_push m q)"
| timer_fires: "take_timer_task (sm_dispatcher s) = (Some (Timer_Verification tok req ex rt delay k), d) \<Longrightarrow>
    sys_step E (s, q) (s\<lparr>sm_dispatcher := enqueue_task (Task_Verification tok req ex rt k) d\<rparr>, q)"
| timer_stops: "take_timer_task (sm_dispatcher s) = (Some t, d) \<Longrightarrow> sys_step E (s, q) (s\<lparr>sm_dispatcher := d\<rparr>, q)"
| tick: "sys_step E (s, q) (handle_tick E s, q)"
| disconnect: "room_for 1 s \<Longrightarrow> sys_step E (s, q) (snd (begin_transient_disconnect_settlement E s), q)"
| cancelled: "unat (sm_generation s) + 1 < 2 ^ 64 \<Longrightarrow> sys_step E (s, q) (cancel_operations s, q)"
| discarded: "m \<in> set q \<Longrightarrow> message_mutation m = None \<Longrightarrow> message_check m = None \<Longrightarrow> \<not> is_reset_completion m \<Longrightarrow>
    sys_step E (s, q) (s, remove1 m q)"
| inert: "core s' = core s \<Longrightarrow> sys_step E (s, q) (s', q)"

text \<open>The environment may be another one at every step: the epochs and the desktop change on their own.\<close>

inductive reachable :: "'w sm \<times> message queue \<Rightarrow> bool" where
  start: "reachable (initial_sm r, [])"
| step: "reachable x \<Longrightarrow> sys_step E x y \<Longrightarrow> reachable y"

inductive_cases sys_stepE
  [consumes 1, case_names post handle work timer_fires timer_stops tick disconnect cancelled discarded inert]: "sys_step E (s, q) (s', q')"

lemma collect_push [simp]:
  "collect f (mq_push m q) = (case f m of None \<Rightarrow> {#} | Some x \<Rightarrow> {#x#}) + collect f q"
  by (simp add: mq_push_def split: option.split)

lemma fenced_same_flight:
  assumes "fenced n q c" "mutations_in_flight q' (c\<lparr>co_dispatcher := d\<rparr>) = mutations_in_flight q c"
    "checks_in_flight q' (c\<lparr>co_dispatcher := d\<rparr>) \<subseteq># checks_in_flight q c"
    "resets_in_flight q' (c\<lparr>co_dispatcher := d\<rparr>) = resets_in_flight q c"
    "set (dsp_tasks d) \<subseteq> set (dsp_tasks (co_dispatcher c)) \<union> {t. faithful_task t}"
    "set (dsp_timer_tasks d) \<subseteq> set (dsp_timer_tasks (co_dispatcher c))"
  shows "fenced n q' (c\<lparr>co_dispatcher := d\<rparr>)"
proof -
  have "live_checks q' (c\<lparr>co_dispatcher := d\<rparr>) \<subseteq># live_checks q c"
    using assms(3) by (simp add: live_checks_def image_mset_subseteq_mono multiset_filter_mono)
  then have "size (live_checks q' (c\<lparr>co_dispatcher := d\<rparr>)) \<le> size (live_checks q c)"
    and "set_mset (live_checks q' (c\<lparr>co_dispatcher := d\<rparr>)) \<subseteq> set_mset (live_checks q c)"
    and "live_checks q c = {#} \<Longrightarrow> live_checks q' (c\<lparr>co_dispatcher := d\<rparr>) = {#}"
    by (auto simp: size_mset_mono dest: set_mset_mono)
  moreover have "set_mset (checks_in_flight q' (c\<lparr>co_dispatcher := d\<rparr>)) \<subseteq> set_mset (checks_in_flight q c)"
    using assms(3) by (rule set_mset_mono)
  ultimately show ?thesis using assms by (auto simp: fenced_def subset_iff)
qed


lemma fenced_post:
  assumes "fenced n q c" "message_mutation m = None" "message_check m = None" "\<not> is_reset_completion m"
  shows "fenced n (mq_push m q) c"
proof -
  have "fenced n (mq_push m q) (c\<lparr>co_dispatcher := co_dispatcher c\<rparr>)"
    using assms by (intro fenced_same_flight)
      (auto simp: mutations_in_flight_def checks_in_flight_def resets_in_flight_def mq_push_def)
  then show ?thesis by simp
qed

lemma fenced_work:
  assumes "fenced n q (core s)" "take_task (sm_dispatcher s) = (Some t, d)" "m \<in> completions t"
  shows "fenced n (mq_push m q) (core (s\<lparr>sm_dispatcher := d\<rparr>))"
proof -
  obtain ts where ts: "dsp_tasks (co_dispatcher (core s)) = t # ts" and d: "d = (co_dispatcher (core s))\<lparr>dsp_tasks := ts\<rparr>"
    using assms(2) by (auto simp: core_fields split: list.splits)
  have "faithful_task t" using assms(1) ts by (simp add: fenced_def)
  with assms(3) have "message_mutation m = task_mutation t" "message_check m = task_check t"
      "is_reset_completion m = is_reset_task t"
    by (auto simp: faithful_task_def)
  then show ?thesis
    unfolding core_updates using ts
    by (intro fenced_same_flight [OF assms(1)])
      (auto simp: d mutations_in_flight_def checks_in_flight_def resets_in_flight_def mq_push_def
        split: option.split)
qed

lemma fenced_timer:
  assumes "fenced n q (core s)" "take_timer_task (sm_dispatcher s) = (Some t, d)"
  shows "fenced n q (core (s\<lparr>sm_dispatcher := d\<rparr>))"
    and "t = Timer_Verification tok req ex rt delay k \<Longrightarrow>
      fenced n q (core (s\<lparr>sm_dispatcher := enqueue_task (Task_Verification tok req ex rt k) d\<rparr>))"
proof -
  obtain ts where ts: "dsp_timer_tasks (co_dispatcher (core s)) = t # ts"
    and d: "d = (co_dispatcher (core s))\<lparr>dsp_timer_tasks := ts\<rparr>"
    using assms(2) by (auto simp: core_fields split: list.splits)
  have t: "faithful_timer_task t" using assms(1) ts by (simp add: fenced_def)
  show "fenced n q (core (s\<lparr>sm_dispatcher := d\<rparr>))"
    unfolding core_updates using ts
    by (intro fenced_same_flight [OF assms(1)])
      (auto simp: d mutations_in_flight_def checks_in_flight_def resets_in_flight_def)
  show "fenced n q (core (s\<lparr>sm_dispatcher := enqueue_task (Task_Verification tok req ex rt k) d\<rparr>))"
    if "t = Timer_Verification tok req ex rt delay k"
    unfolding core_updates using ts t that
    by (intro fenced_same_flight [OF assms(1)])
      (auto simp: d mutations_in_flight_def checks_in_flight_def resets_in_flight_def faithful_timer_task_def
        enqueue_task_def split: option.split)
qed

lemma fenced_step:
  assumes "fenced 0 q (core s)" "sys_step E (s, q) (s', q')"
  shows "fenced 0 q' (core s')"
  using assms(2)
proof (cases rule: sys_stepE)
  case (post m)
  then show ?thesis using fenced_post [OF assms(1)] by simp
next
  case (handle m)
  then show ?thesis using fenced_handle_message [OF assms(1), of m 0] by (simp add: numeral_2_eq_2)
next
  case (work t d m)
  then show ?thesis using fenced_work [OF assms(1)] by simp
next
  case (timer_fires tok req ex rt delay k d)
  then have "take_timer_task (sm_dispatcher s) = (Some (Timer_Verification tok req ex rt delay k), d)" by simp
  from fenced_timer(2) [OF assms(1) this refl] timer_fires show ?thesis by simp
next
  case (timer_stops t d)
  then show ?thesis using fenced_timer(1) [OF assms(1)] by simp
next
  case tick
  then show ?thesis using fenced_handle_tick [OF assms(1)] by simp
next
  case disconnect
  then show ?thesis
    using fenced_begin_settlement [OF fenced_mono [OF fenced_room [OF assms(1)]], of 1] by simp
next
  case cancelled
  then have "fenced 1 q (core s)" using assms(1) by (simp add: fenced_def core_fields)
  with cancelled fenced_cancel [of 0 q "core s"] show ?thesis by simp
next
  case (discarded m)
  then show ?thesis using take_other [OF assms(1)] by simp
next
  case inert
  then show ?thesis using assms(1) by simp
qed

lemma fenced_reachable: "reachable x \<Longrightarrow> fenced 0 (snd x) (core (fst x))"
proof (induction rule: reachable.induct)
  case (start r)
  show ?case
    by (simp add: fenced_def core_def initial_sm_def initial_dispatcher_def mutations_in_flight_def
        checks_in_flight_def resets_in_flight_def live_checks_def)
next
  case (step x E y)
  then show ?case using fenced_step [of "snd x" "fst x" E "fst y" "snd y"] by simp
qed

end
