(* ===== verification/Helper_Host.thy ===== *)
theory Helper_Host
  imports SM_Invariants
begin

text \<open>
  The loop of the helper process around the state machine (\<open>tools/display_settings_helper_v2.cpp\<close>): the
  mailbox and the order in which it is served, the connection epochs that keep a retired client out, the
  timers, the exit callback and the clean-up after a disconnect. The pipes, the threads and the logging
  are left out; each function is what one thread does between two visits of the mailbox.
\<close>

section \<open>Kinds of messages\<close>

fun is_replacement_control_intent :: "message \<Rightarrow> bool" where
  "is_replacement_control_intent (M_Apply _) = True"
| "is_replacement_control_intent (M_Revert _) = True"
| "is_replacement_control_intent (M_Disarm _) = True"
| "is_replacement_control_intent (M_Reset _) = True"
| "is_replacement_control_intent _ = False"

fun is_stabilization_completion :: "message \<Rightarrow> bool" where
  "is_stabilization_completion (M_VerificationCompleted m) \<longleftrightarrow> vcd_purpose m = Stabilization"
| "is_stabilization_completion _ = False"

fun is_async_completion :: "message \<Rightarrow> bool" where
  "is_async_completion (M_ApplyCompleted _) = True"
| "is_async_completion (M_VerificationCompleted _) = True"
| "is_async_completion (M_ResetCompleted _) = True"
| "is_async_completion (M_RefreshRateCompleted _) = True"
| "is_async_completion (M_RecoveryCompleted _) = True"
| "is_async_completion (M_RecoveryValidationCompleted _) = True"
| "is_async_completion _ = False"

fun is_ipc_ingress_from_epoch :: "message \<Rightarrow> u64 \<Rightarrow> bool" where
  "is_ipc_ingress_from_epoch (M_Apply c) epoch \<longleftrightarrow> ac_connection_epoch c = epoch"
| "is_ipc_ingress_from_epoch (M_Revert c) epoch \<longleftrightarrow> rc_connection_epoch c = epoch"
| "is_ipc_ingress_from_epoch (M_Disarm c) epoch \<longleftrightarrow> dc_connection_epoch c = epoch"
| "is_ipc_ingress_from_epoch (M_ExportGolden c) epoch \<longleftrightarrow> eg_connection_epoch c = epoch"
| "is_ipc_ingress_from_epoch (M_SnapshotCurrent c) epoch \<longleftrightarrow> sc_connection_epoch c = epoch"
| "is_ipc_ingress_from_epoch (M_RefreshRate c) epoch \<longleftrightarrow> rr_connection_epoch c = epoch"
| "is_ipc_ingress_from_epoch (M_Reset c) epoch \<longleftrightarrow> rs_connection_epoch c = epoch"
| "is_ipc_ingress_from_epoch (M_Ping c) epoch \<longleftrightarrow> pg_connection_epoch c = epoch"
| "is_ipc_ingress_from_epoch (M_Stop c) epoch \<longleftrightarrow> st_connection_epoch c = epoch"
| "is_ipc_ingress_from_epoch (M_HelperEvent c) epoch \<longleftrightarrow> hem_connection_epoch c = epoch"
| "is_ipc_ingress_from_epoch _ epoch = False"

fun is_refresh_or_ping :: "message \<Rightarrow> bool" where
  "is_refresh_or_ping (M_RefreshRate _) = True"
| "is_refresh_or_ping (M_Ping _) = True"
| "is_refresh_or_ping _ = False"

text \<open>What \<open>process_queue\<close> takes out of the mailbox at once, in the order in which it handles it.\<close>

definition overtakes :: "message \<Rightarrow> message \<Rightarrow> bool" where
  "overtakes completion queued \<longleftrightarrow>
     is_replacement_control_intent queued \<or>
     (is_stabilization_completion completion \<and> is_refresh_or_ping queued)"

fun next_batch :: "message queue \<Rightarrow> message list \<times> message queue" where
  "next_batch q = (case mq_try_pop q of
      (None, q) \<Rightarrow> ([], q)
    | (Some m, q) \<Rightarrow>
        let (controls, q) = (if is_async_completion m then mq_extract_prefix_while (overtakes m) q else ([], q))
        in (controls @ [m], q))"

section \<open>The process\<close>

record 'w host =
  hst_machine :: "'w sm"
  hst_queue :: "message queue"
  hst_connection_epoch :: u64
  hst_heartbeat_disconnect_epoch :: u64
  hst_restore_origin_epoch :: u64
  hst_client_connected :: bool
  hst_running :: bool
  hst_exit_code :: int
  hst_debouncer :: debounced_trigger

definition initial_host :: "'w sm \<Rightarrow> 'w host" where
  "initial_host s =
     \<lparr>hst_machine = s, hst_queue = [], hst_connection_epoch = 0, hst_heartbeat_disconnect_epoch = 0,
      hst_restore_origin_epoch = 0, hst_client_connected = False, hst_running = True, hst_exit_code = 0,
      hst_debouncer = \<lparr>dt_delay = ms 500, dt_pending = False, dt_deadline = 0, dt_generation = 0\<rparr>\<rparr>"

text \<open>\<open>set_connection_epoch_provider\<close>: the state machine reads the process's epoch.\<close>

definition with_epoch :: "u64 \<Rightarrow> 'w ports \<Rightarrow> 'w ports" where
  "with_epoch epoch E = E\<lparr>po_connection_epoch := Some (\<lambda>w. (epoch, w))\<rparr>"

definition exit_callback :: "int \<Rightarrow> 'w host \<Rightarrow> 'w host" where
  "exit_callback code h =
     (if code = 0 \<and> hst_restore_origin_epoch h \<noteq> 0 \<and>
         hst_restore_origin_epoch h < hst_connection_epoch h \<and> hst_client_connected h
      then h\<lparr>hst_restore_origin_epoch := 0\<rparr>
      else h\<lparr>hst_exit_code := code, hst_machine := cancel_operations (hst_machine h), hst_running := False\<rparr>)"

fun exit_code_of :: "sm_output \<Rightarrow> int option" where
  "exit_code_of (O_Exit code) = Some code"
| "exit_code_of _ = None"

text \<open>
  The exit callback runs inside the handler, which does nothing more that the cancellation could reach:
  it is the last call of the handler or of the last command the drain runs.
\<close>

definition new_exits :: "'w sm \<Rightarrow> 'w sm \<Rightarrow> int list" where
  "new_exits s s' = List.map_filter exit_code_of (drop (length (sm_outputs s)) (sm_outputs s'))"

definition handle_in_host :: "'w ports \<Rightarrow> message \<Rightarrow> 'w host \<Rightarrow> 'w host" where
  "handle_in_host E m h =
     (let s = hst_machine h;
          s' = handle_message (with_epoch (hst_connection_epoch h) E) m s
      in fold exit_callback (new_exits s s') (h\<lparr>hst_machine := s'\<rparr>))"

definition check_heartbeat :: "'w ports \<Rightarrow> 'w sm \<Rightarrow> bool \<times> 'w sm" where
  "check_heartbeat E s =
     (if \<not> hb_armed (sm_heartbeat s) then (False, s)
      else let (now, s) = sm_now E s;
               (timeout, hb) = hb_check_timeout now (sm_heartbeat s)
           in (timeout, s\<lparr>sm_heartbeat := hb\<rparr>))"

definition service_timers :: "'w ports \<Rightarrow> 'w host \<Rightarrow> 'w host" where
  "service_timers E h =
     (let (timeout, s) = check_heartbeat E (hst_machine h);
          h = (if timeout \<and> hst_connection_epoch h \<noteq> 0
               then h\<lparr>hst_heartbeat_disconnect_epoch := hst_connection_epoch h\<rparr> else h);
          (now, s) = sm_now E s;
          (due, d) = dt_take_if_due now (hst_debouncer h);
          h = h\<lparr>hst_debouncer := d,
                hst_queue := (case due of
                    None \<Rightarrow> hst_queue h
                  | Some gen \<Rightarrow> mq_push (M_DisplayEvent \<lparr>dem_event = DisplayChange, dem_generation = gen\<rparr>) (hst_queue h))\<rparr>
      in h\<lparr>hst_machine := handle_tick E s\<rparr>)"

definition process_queue :: "'w ports \<Rightarrow> 'w host \<Rightarrow> 'w host" where
  "process_queue E h =
     (let (batch, q) = next_batch (hst_queue h)
      in service_timers E (fold (handle_in_host E) batch (h\<lparr>hst_queue := q\<rparr>)))"

text \<open>A display-change notification is tagged with the generation that is current when it arrives.\<close>

definition on_display_change :: "'w ports \<Rightarrow> 'w host \<Rightarrow> 'w host" where
  "on_display_change E h =
     (let (now, s) = sm_now E (hst_machine h)
      in h\<lparr>hst_machine := s, hst_debouncer := dt_notify now (sm_generation s) (hst_debouncer h)\<rparr>)"

text \<open>A new client: \<open>epoch\<close> is the value the connection's callbacks capture.\<close>

definition on_connect :: "'w ports \<Rightarrow> 'w host \<Rightarrow> u64 \<times> 'w host" where
  "on_connect E h =
     (let epoch = hst_connection_epoch h + 1
      in (epoch, h\<lparr>hst_connection_epoch := epoch, hst_heartbeat_disconnect_epoch := 0,
                   hst_client_connected := True, hst_machine := arm_heartbeat E (hst_machine h)\<rparr>))"

text \<open>\<open>retire_connection_epoch\<close>: the compare-and-exchange; the value says whether it succeeded.\<close>

definition retire_connection_epoch :: "u64 \<Rightarrow> 'w host \<Rightarrow> bool \<times> 'w host" where
  "retire_connection_epoch epoch h =
     (if hst_connection_epoch h = epoch then (True, h\<lparr>hst_connection_epoch := epoch + 1\<rparr>) else (False, h))"

definition disconnect_revert :: "u64 \<Rightarrow> revert_command" where
  "disconnect_revert gen = default_revert_command\<lparr>rc_generation := gen, rc_connection_epoch := 0, rc_from_disconnect := True\<rparr>"

text \<open>
  The block the loop runs when the connection of \<open>epoch\<close> is gone: the client is forgotten, the session
  may be kept to settle, and otherwise a REVERT of the helper's own is handled at once.
\<close>

definition forget_client :: "'w ports \<Rightarrow> u64 \<Rightarrow> 'w host \<Rightarrow> bool \<times> 'w host" where
  "forget_client E epoch h =
     (let h = h\<lparr>hst_client_connected := False\<rparr>;
          h = snd (retire_connection_epoch epoch h);
          h = h\<lparr>hst_machine := disarm_heartbeat (hst_machine h)\<rparr>;
          h = h\<lparr>hst_queue := snd (mq_extract_if (\<lambda>m. is_ipc_ingress_from_epoch m epoch) (hst_queue h))\<rparr>;
          (settled, s) = begin_transient_disconnect_settlement E (hst_machine h)
      in (settled, h\<lparr>hst_machine := s\<rparr>))"

definition clean_up_disconnect :: "'w ports \<Rightarrow> u64 \<Rightarrow> 'w host \<Rightarrow> 'w host" where
  "clean_up_disconnect E epoch h =
     (let (settled, h) = forget_client E epoch h;
          h = (if settled then h
               else if requires_disconnect_recovery (hst_machine h)
               then handle_in_host E (M_Revert (disconnect_revert (sm_generation (hst_machine h))))
                      (h\<lparr>hst_restore_origin_epoch := epoch\<rparr>)
               else h)
      in h\<lparr>hst_machine := disarm_heartbeat (hst_machine h)\<rparr>)"

text \<open>One round of the inner loop; \<open>None\<close> says that the connection is over. \<open>pipe_up\<close> is the pipe's own view.\<close>

definition serve_connection :: "'w ports \<Rightarrow> u64 \<Rightarrow> bool \<Rightarrow> 'w host \<Rightarrow> bool \<times> 'w host" where
  "serve_connection E epoch pipe_up h =
     (let h = process_queue E h;
          h = (if hst_heartbeat_disconnect_epoch h = epoch then snd (retire_connection_epoch epoch h) else h);
          connected = (pipe_up \<and> hst_connection_epoch h = epoch)
      in if connected then (True, h\<lparr>hst_client_connected := True\<rparr>) else (False, clean_up_disconnect E epoch h))"

end
