(* ===== verification/SM_Properties.thy ===== *)
theory SM_Properties
  imports SM_Invariants "HOL-Library.Sublist"
begin

text \<open>
  What the state machine guarantees: the fences in every reachable state, the recovery lease over a
  display change, isolation from retired connections, the order of the deferred commands and the
  finality of recovery. The witnesses run the machine on the simulated platform.
\<close>

section \<open>A machine to run\<close>

definition sim_ports :: "sim ports" where
  "sim_ports =
     \<lparr>po_platform = sim_platform, po_connection_epoch = Some (\<lambda>w. (7, w)), po_vdd_device_id = (\<lambda>w. (''V'', w)),
      po_create_restore_task = (\<lambda>w. (True, w)), po_delete_restore_task = (\<lambda>w. (True, w)),
      po_refresh_shell = (\<lambda>w. ((), w)), po_blank_hdr_states = (\<lambda>d w. ((), w)), po_observer = True,
      po_apply_result_callback = True, po_verification_result_callback = True,
      po_snapshot_result_callback = True, po_refresh_rate_result_callback = True, po_exit_callback = True\<rparr>"

definition sim_machine :: "sim sm" where
  "sim_machine = initial_sm (sim_run (ms 60000) empty_snapshot (\<lambda>_. None) True)"

definition sim_apply :: apply_command where
  "sim_apply = \<lparr>ac_request = sim_request, ac_generation = 0, ac_connection_epoch = 7\<rparr>"

text \<open>The machine with the APPLY in its worker.\<close>

definition sim_applying :: "sim sm" where
  "sim_applying = handle_message sim_ports (M_Apply sim_apply) sim_machine"

lemma session_request [simp]: "sm_current_request (begin_apply_session E c s) = ac_request c"
  by (simp add: begin_apply_session_def reset_post_apply_stabilization_def update_blacklist_def update_flags_def
      Let_def split: option.split)

lemma request_frames [simp]:
  "sm_current_request (snd (sm_ask f ev s)) = sm_current_request s"
  "sm_current_request (snd (sm_now E s)) = sm_current_request s"
  "sm_current_request (emit out s) = sm_current_request s"
  "sm_current_request (transition E nx tr st s) = sm_current_request s"
  "sm_current_request (ensure_baseline E s) = sm_current_request s"
  "sm_current_request (plan_stabilization cfg s) = sm_current_request s"
  "sm_current_request (apply_recovery_policy_from_current_request s) = sm_current_request s"
  by (simp_all add: sm_ask_def sm_now_def emit_def transition_def ensure_baseline_def plan_stabilization_def
      apply_recovery_policy_from_current_request_def update_flags_def split_beta Let_def)

lemma core_run_apply:
  assumes "ar_configuration (ac_request c) = Some cfg"
  shows "core (run_apply_command E c s) = (core s)\<lparr>co_generation := co_generation (core s) + 1,
     co_check_pending := False, co_state := InProgress,
     co_dispatcher := enqueue_task (Task_Apply (Token (co_generation (core s) + 1)) (ac_request c) 0 False
       (apply_message (co_generation (core s) + 1))) (co_dispatcher (core s)),
     co_worker := Some \<lparr>amw_kind = Worker_Apply, amw_generation = co_generation (core s) + 1\<rparr>\<rparr>"
  by (simp add: run_apply_command_def assms Let_def split_beta core_begin_apply_session
      dispatch_apply_worker_def dispatch_apply_def)

lemma core_sim_machine [simp]:
  "core sim_machine = \<lparr>co_state = Waiting, co_generation = 0, co_dispatcher = initial_dispatcher,
     co_worker = None, co_deferred = [], co_reset_pending = False, co_check_pending = False\<rparr>"
  by (simp add: sim_machine_def initial_sm_def core_def)

lemma core_sim_applying:
  "core sim_applying = \<lparr>co_state = InProgress, co_generation = 1,
     co_dispatcher = enqueue_task (Task_Apply (Token 1) sim_request 0 False (apply_message 1)) initial_dispatcher,
     co_worker = Some \<lparr>amw_kind = Worker_Apply, amw_generation = 1\<rparr>,
     co_deferred = [], co_reset_pending = False, co_check_pending = False\<rparr>"
proof -
  let ?s = "reset_settlement ((snd (is_stale_connection sim_ports 7 sim_machine))\<lparr>sm_explicit_recovery_required := False\<rparr>)"
  have "\<not> fst (is_stale_connection sim_ports 7 sim_machine)"
    by (simp add: is_stale_connection_def sim_ports_def sm_ask_def ask_def split_beta Let_def)
  moreover have "\<not> mutation_worker_active ?s" "\<not> sm_staged_state_reset_pending ?s"
    by (simp_all add: mutation_worker_active_def core_fields)
  ultimately have "sim_applying = run_apply_command sim_ports sim_apply ?s"
    by (simp add: sim_applying_def handle_apply_command_def sim_apply_def split_beta Let_def)
  moreover obtain cfg where "ar_configuration (ac_request sim_apply) = Some cfg"
    by (simp add: sim_apply_def sim_request_def)
  from core_run_apply [OF this, of sim_ports ?s]
  have "core (run_apply_command sim_ports sim_apply ?s) = (core sim_machine)\<lparr>co_generation := 1,
      co_check_pending := False, co_state := InProgress,
      co_dispatcher := enqueue_task (Task_Apply (Token 1) sim_request 0 False (apply_message 1)) initial_dispatcher,
      co_worker := Some \<lparr>amw_kind = Worker_Apply, amw_generation = 1\<rparr>\<rparr>"
    by (simp add: sim_apply_def)
  ultimately show ?thesis by simp
qed

lemma reachable_sim_applying: "reachable (sim_applying, [])"
proof -
  let ?m = "M_Apply sim_apply"
  have "reachable (sim_machine, [])" unfolding sim_machine_def by (rule reachable.start)
  from reachable.step [OF this sys_step.post [of ?m, where E = sim_ports]] have "reachable (sim_machine, [?m])"
    by (simp add: mq_push_def)
  from reachable.step [OF this sys_step.handle [of ?m, where E = sim_ports]] show ?thesis
    by (simp add: room_for_def core_fields sim_applying_def)
qed

text \<open>Any outcome of the APPLY can be the completion that waits.\<close>

lemma reachable_sim_completed:
  "reachable (sim_applying\<lparr>sm_dispatcher := initial_dispatcher\<rparr>, [apply_message 1 out])"
proof -
  have "take_task (sm_dispatcher sim_applying) =
      (Some (Task_Apply (Token 1) sim_request 0 False (apply_message 1)), initial_dispatcher)"
    by (simp add: core_fields core_sim_applying initial_dispatcher_def enqueue_task_def)
  from reachable.step [OF reachable_sim_applying sys_step.work [OF this, of "apply_message 1 out"]]
  show ?thesis by (simp add: mq_push_def)
qed

section \<open>The fences\<close>

text \<open>
  In every reachable state at most one operation that may change the displays is queued, running or
  waiting to be acknowledged, and it is the one that \<open>active_mutation_worker_\<close> names, with its kind and
  its generation: no second APPLY, refresh-rate change or restore is ever started beside it, and no
  completion of one is ever mistaken for another's.
\<close>

theorem one_mutation_behind_the_fence:
  assumes "reachable (s, q)"
  shows "mutations_in_flight q (core s) = fence_of (sm_active_mutation_worker s)"
  using fenced_reachable [OF assms] by (simp add: fenced_def core_fields)

theorem one_mutation_behind_the_fence_witness:
  "\<exists>(s :: sim sm) q. reachable (s, q) \<and> mutations_in_flight q (core s) = {#(Worker_Apply, 1)#}"
proof (intro exI conjI)
  show "reachable (sim_applying, [])" by (rule reachable_sim_applying)
  from one_mutation_behind_the_fence [OF this]
  show "mutations_in_flight [] (core sim_applying) = {#(Worker_Apply, 1)#}"
    by (simp add: core_fields core_sim_applying)
qed

text \<open>
  In every reachable state at most one health check belongs to the current generation, none does while
  an operation that may change the displays is in flight, and a stabilization check is live only while
  the machine waits for it outside a restore.
\<close>

theorem live_health_check_is_alone:
  assumes "reachable (s, q)"
  shows "size (live_checks q (core s)) \<le> of_bool (\<not> mutation_worker_active s) \<and>
    (Stabilization \<notin># live_checks q (core s) \<or> (sm_post_apply_check_pending s \<and> \<not> restore_pending s)) \<and>
    (Initial \<notin># live_checks q (core s) \<or> sm_state s = Verification)"
  using fenced_reachable [OF assms]
  by (auto simp: fenced_def mutation_worker_active_def restore_pending_def core_fields)

theorem live_health_check_is_alone_witness:
  "\<exists>(s :: sim sm) q. reachable (s, q) \<and> mutation_worker_active s \<and> live_checks q (core s) = {#}"
proof (intro exI conjI)
  show "reachable (sim_applying, [])" by (rule reachable_sim_applying)
  show "mutation_worker_active sim_applying" by (simp add: mutation_worker_active_def core_fields core_sim_applying)
  with live_health_check_is_alone [OF reachable_sim_applying] show "live_checks [] (core sim_applying) = {#}" by simp
qed

text \<open>
  In every reachable state the RESET barrier is up exactly while one reset of the staged state is
  queued, running or waiting to be acknowledged.
\<close>

theorem reset_barrier_matches_reset:
  assumes "reachable (s, q)"
  shows "resets_in_flight q (core s) = of_bool (sm_staged_state_reset_pending s)"
  using fenced_reachable [OF assms] by (simp add: fenced_def core_fields)


definition sim_reset :: message where
  "sim_reset = M_Reset \<lparr>rs_generation = 0, rs_connection_epoch = 0\<rparr>"

theorem reset_barrier_matches_reset_witness:
  "\<exists>(s :: sim sm) q. reachable (s, q) \<and> sm_staged_state_reset_pending s \<and> resets_in_flight q (core s) = 1"
proof -
  let ?s = "handle_message sim_ports sim_reset sim_machine"
  have "reachable (sim_machine, [])" unfolding sim_machine_def by (rule reachable.start)
  from reachable.step [OF this sys_step.post [of sim_reset, where E = sim_ports]] have "reachable (sim_machine, [sim_reset])"
    by (simp add: mq_push_def sim_reset_def)
  from reachable.step [OF this sys_step.handle [of sim_reset, where E = sim_ports]] have r: "reachable (?s, [])"
    by (simp add: room_for_def core_fields)
  have "sm_staged_state_reset_pending ?s"
    by (simp add: sim_reset_def handle_reset_command_def is_stale_connection_def core_fields
        mutation_worker_active_def begin_staged_state_reset_def dispatch_reset_staged_apply_state_def)
  with reset_barrier_matches_reset [OF r] r show ?thesis by auto
qed

section \<open>The recovery lease\<close>

text \<open>Recovery is armed, and the task that restores after a crash exists or was asked for in vain.\<close>

definition lease_held :: "'w sm \<Rightarrow> bool" where
  "lease_held s \<longleftrightarrow> sm_recovery_armed s \<and>
     (sm_restore_task_created s \<or> O_CreateRestoreTask False \<in> set (sm_outputs s))"

lemma lease_frames [simp]:
  "lease_held s \<Longrightarrow> lease_held (snd (sm_ask f ev s))"
  "lease_held s \<Longrightarrow> lease_held (snd (sm_now E s))"
  "lease_held s \<Longrightarrow> lease_held (emit out s)"
  "lease_held s \<Longrightarrow> lease_held (update_flags fl s)"
  "lease_held s \<Longrightarrow> lease_held (arm_heartbeat E s)"
  "lease_held s \<Longrightarrow> lease_held (disarm_heartbeat s)"
  "lease_held s \<Longrightarrow> lease_held (cancel_operations s)"
  "lease_held s \<Longrightarrow> lease_held (enqueue t s)"
  "lease_held s \<Longrightarrow> lease_held (s\<lparr>sm_state := st\<rparr>)"
  "lease_held s \<Longrightarrow> lease_held (s\<lparr>sm_dispatcher := d\<rparr>)"
  "lease_held s \<Longrightarrow> lease_held (s\<lparr>sm_active_mutation_worker := w\<rparr>)"
  "lease_held s \<Longrightarrow> lease_held (s\<lparr>sm_unconfirmed_cancelled_mutation := b\<rparr>)"
  "lease_held s \<Longrightarrow> lease_held (s\<lparr>sm_session_was_verified := b\<rparr>)"
  "lease_held s \<Longrightarrow> lease_held (s\<lparr>sm_settlement_repair_in_flight := b\<rparr>)"
  "lease_held s \<Longrightarrow> lease_held (s\<lparr>sm_settlement_check_pending := b\<rparr>)"
  "lease_held s \<Longrightarrow> lease_held (s\<lparr>sm_next_settlement_check := i\<rparr>)"
  "lease_held s \<Longrightarrow> lease_held (s\<lparr>sm_apply_result_sent := b\<rparr>)"
  "lease_held s \<Longrightarrow> lease_held (s\<lparr>sm_verification_result_sent := b\<rparr>)"
  "lease_held s \<Longrightarrow> lease_held (s\<lparr>sm_apply_attempt := j\<rparr>)"
  "lease_held s \<Longrightarrow> lease_held (s\<lparr>sm_virtual_hdr_fallback_attempted := b\<rparr>)"
  "lease_held s \<Longrightarrow> lease_held (s\<lparr>sm_current_request := req\<rparr>)"
  "lease_held s \<Longrightarrow> lease_held (s\<lparr>sm_last_reset := now\<rparr>)"
  "lease_held s \<Longrightarrow> lease_held (s\<lparr>sm_run := r\<rparr>)"
  by (auto simp: lease_held_def sm_ask_def sm_now_def emit_def update_flags_def arm_heartbeat_def disarm_heartbeat_def
      cancel_operations_def enqueue_def split_beta Let_def)

lemma lease_methods [simp]:
  "lease_held s \<Longrightarrow> lease_held (transition E nx tr st s)"
  "lease_held s \<Longrightarrow> lease_held (send_apply_result E status s)"
  "lease_held s \<Longrightarrow> lease_held (send_verification_result E b s)"
  "lease_held s \<Longrightarrow> lease_held (enter_steady_state E s)"
  "lease_held s \<Longrightarrow> lease_held (reset_settlement s)"
  "lease_held s \<Longrightarrow> lease_held (dispatch_apply_worker req d b s)"
  "lease_held s \<Longrightarrow> lease_held (dispatch_verification req ex rt d p s)"
  "lease_held s \<Longrightarrow> lease_held (activate_recovery_lease s)"
  by (simp_all add: transition_def send_apply_result_def send_verification_result_def enter_steady_state_def
      reset_settlement_def dispatch_apply_worker_def dispatch_apply_def dispatch_verification_def
      activate_recovery_lease_def apply_recovery_policy_from_current_request_def split_beta Let_def)
    (simp_all add: lease_held_def update_flags_def)

lemma lease_settlement [simp]:
  "lease_held s \<Longrightarrow> lease_held (snd (dispatch_next_settlement_verification E s))"
  by (simp add: dispatch_next_settlement_verification_def Let_def)

text \<open>The lease is taken with the restore task.\<close>

lemma lease_ensured [simp]: "sm_recovery_armed s \<Longrightarrow> lease_held (ensure_restore_task E s)"
  by (auto simp: ensure_restore_task_def create_restore_task_def lease_held_def emit_def sm_ask_def split_beta Let_def)

lemma armed_lease [simp]: "sm_recovery_armed (activate_recovery_lease s)"
  by (simp add: activate_recovery_lease_def apply_recovery_policy_from_current_request_def update_flags_def Let_def)

lemma drain_nothing: "co_deferred (core s) = [] \<Longrightarrow> drain_deferred_mutation_commands E s = s"
  by (subst drain_deferred_mutation_commands.simps) (simp add: core_fields)


lemma lease_apply_failed:
  "lease_held s \<Longrightarrow> co_deferred (core s) = [] \<Longrightarrow> acd_display_may_have_changed m \<Longrightarrow> lease_held (apply_failed E m s)"
  by (simp add: apply_failed_def Let_def drain_nothing)

lemma lease_apply_unsuccessful:
  assumes "lease_held s" "co_deferred (core s) = []" "acd_display_may_have_changed m"
  shows "lease_held (apply_unsuccessful E m s)"
proof -
  have retry: "lease_held (apply_retry E m s')" if "lease_held s'" "co_deferred (core s') = []" for s' :: "'a sm"
    using that assms(3) by (simp add: apply_retry_def Let_def lease_apply_failed)
  show ?thesis
    using assms(1,2) by (simp add: apply_unsuccessful_def apply_settle_or_retry_def Let_def split_beta retry)
qed

lemma lease_apply_succeeded:
  "lease_held s \<Longrightarrow> co_deferred (core s) = [] \<Longrightarrow> lease_held (apply_succeeded E m s)"
  by (simp add: apply_succeeded_def Let_def split_beta drain_nothing)

lemma lease_apply_current:
  assumes "acd_status m = Status_Ok \<or> acd_display_may_have_changed m" "co_deferred (core s) = []"
  shows "lease_held (apply_current E m s)"
  using assms by (auto simp: apply_current_def Let_def intro!: lease_apply_succeeded lease_apply_unsuccessful)

lemma lease_apply_cancelled:
  assumes "acd_display_may_have_changed m" "co_deferred (core s) = []"
  shows "lease_held (apply_cancelled E m s)"
proof -
  have "lease_held (retain_recovery_after_display_mutation E m s)"
    unfolding retain_recovery_after_display_mutation_def Let_def
    by (rule lease_ensured) simp
  then show ?thesis using assms by (simp add: apply_cancelled_def Let_def drain_nothing)
qed




section \<open>The deferred commands\<close>

text \<open>
  C24: Of the commands queued behind a busy worker every RESET is kept, in the order of arrival, while of
  all the others only the newest survives: it has replaced the intents before it and runs after the
  RESETs that came before it and before those that came after.
\<close>

theorem newest_intent_wins:
  assumes "filter (\<lambda>c. \<not> is_reset c) cs = intents @ [newest]"
  shows "let before = sm_deferred_mutation_commands s @ cs;
             queued = sm_deferred_mutation_commands (fold enqueue_deferred_mutation_command cs s)
         in filter is_reset queued = filter is_reset before \<and>
            filter (\<lambda>c. \<not> is_reset c) queued = [newest] \<and> subseq queued before"
proof -
  have "let before = sm_deferred_mutation_commands s @ cs;
            queued = sm_deferred_mutation_commands (fold enqueue_deferred_mutation_command cs s)
        in filter is_reset queued = filter is_reset before \<and> subseq queued before \<and>
           (\<forall>is n. filter (\<lambda>c. \<not> is_reset c) cs = is @ [n] \<longrightarrow> filter (\<lambda>c. \<not> is_reset c) queued = [n])"
  proof (induction cs rule: rev_induct)
    case Nil
    show ?case by simp
  next
    case (snoc c cs)
    let ?before = "sm_deferred_mutation_commands s"
    have "subseq (filter is_reset (?before @ cs) @ [c]) ((?before @ cs) @ [c])"
      by (rule list_emb_append_mono [OF subseq_filter_left]) simp
    moreover have "subseq xs (?before @ cs) \<Longrightarrow> subseq (xs @ [c]) ((?before @ cs) @ [c])" for xs
      by (rule list_emb_append_mono) simp_all
    ultimately show ?case
      using snoc by (auto simp: enqueue_deferred_mutation_command_def Let_def)
  qed
  with assms show ?thesis by (simp add: Let_def)
qed

theorem newest_intent_wins_witness:
  "sm_deferred_mutation_commands (fold enqueue_deferred_mutation_command
     [D_Disarm (heartbeat_disarm 1), D_Reset \<lparr>rs_generation = 0, rs_connection_epoch = 0\<rparr>, D_Apply sim_apply]
     sim_machine) = [D_Reset \<lparr>rs_generation = 0, rs_connection_epoch = 0\<rparr>, D_Apply sim_apply]"
proof -
  let ?r = "D_Reset \<lparr>rs_generation = 0, rs_connection_epoch = 0\<rparr>"
  let ?cs = "[D_Disarm (heartbeat_disarm 1), ?r, D_Apply sim_apply]"
  have "filter (\<lambda>c. \<not> is_reset c) ?cs = [D_Disarm (heartbeat_disarm 1)] @ [D_Apply sim_apply]"
    by (simp add: is_reset_def)
  from newest_intent_wins [OF this, of sim_machine] show ?thesis
    by (simp add: enqueue_deferred_mutation_command_def core_fields is_reset_def)
qed



section \<open>A DISARM that races the start of a restore\<close>

text \<open>
  A DISARM that arrives while the restore waits out its grace is queued and cancels it. When the restore
  had just entered its operation (\<open>restore_attempted_unconfirmed\<close> is set and the desktop may have
  changed), the queued DISARM is refused as it runs, and the machine stays in \<open>Recovery\<close> with no worker.
\<close>

lemma flags_of_updates [simp]:
  "restore_flags (arm_heartbeat E s) = restore_flags s" 
  "restore_flags (snd (sm_ask f ev s)) = restore_flags s"
  by (simp_all add: arm_heartbeat_def sm_now_def sm_ask_def ask_def split_beta Let_def)

lemma disarm_race_strands_recovery:
  assumes "sm_active_mutation_worker s = Some \<lparr>amw_kind = Worker_Recovery, amw_generation = rvd_generation m\<rparr>"
    and "is_stale (rvd_generation m) s" "sm_state s = Recovery" "\<not> sm_staged_state_reset_pending s"
    and "sm_deferred_mutation_commands s = [D_Disarm c]" "dc_connection_epoch c = 0"
    and "rst_restore_attempted_unconfirmed (restore_flags s)" "rvd_display_may_have_changed m"
  shows "let s' = handle_message E (M_RecoveryCompleted m) s
    in sm_state s' = Recovery \<and> sm_recovery_armed s' \<and> sm_active_mutation_worker s' = None \<and>
       sm_deferred_mutation_commands s' = [] \<and> \<not> sm_staged_state_reset_pending s'"
proof -
  let ?r = "retain_recovery_after_cancelled_recovery E (s\<lparr>sm_active_mutation_worker := None\<rparr>)"
  let ?t = "?r\<lparr>sm_deferred_mutation_commands := []\<rparr>"
  have armed: "sm_recovery_armed ?r"
    by (simp add: retain_recovery_after_cancelled_recovery_def arm_heartbeat_def sm_now_def sm_ask_def split_beta Let_def)
  have flag: "restore_flags ?r = restore_flags s" by (simp add: retain_recovery_after_cancelled_recovery_def)
  have "restore_pending ?t \<and> rst_restore_attempted_unconfirmed (restore_flags ?t)"
    using assms(3,7) flag by (simp add: restore_pending_def core_fields)
  then have disarm: "handle_deferred E (D_Disarm c) ?t = ?t"
    using assms(6) by (simp add: handle_disarm_command_def is_stale_connection_def)
  have "drain_deferred_mutation_commands E ?r = drain_deferred_mutation_commands E (handle_deferred E (D_Disarm c) ?t)"
    using assms(4,5) by (subst drain_deferred_mutation_commands.simps) (simp add: mutation_worker_active_def core_fields)
  also have "\<dots> = ?t" unfolding disarm by (rule drain_nothing) simp
  finally have "handle_message E (M_RecoveryCompleted m) s = ?t"
    using assms(1,2,8) by (simp add: handle_recovery_completed_def owns_active_worker_def is_stale_def)
  with armed assms(3,4) show ?thesis by (simp add: core_fields)
qed

text \<open>
  Nothing the helper does on its own leaves that state: the tick, the display events, the heartbeat and
  the REVERT of a disconnect all take the restore for a running one.
\<close>

lemma stranded_recovery_stays:
  assumes "sm_state s = Recovery"
  shows "handle_tick E s = s"
    and "handle_message E (M_DisplayEvent e) s = s"
    and "core (handle_message E (M_HelperEvent h) s) = core s"
    and "rc_from_disconnect c \<Longrightarrow> core (handle_message E (M_Revert c) s) = core s"
  using assms
  by (simp_all add: handle_tick_def handle_display_event_def handle_helper_event_def handle_revert_command_def
      recovery_worker_in_progress_def core_fields split_beta Let_def)

text \<open>
  A repair APPLY after a disconnect that settles leaves the commands queued behind it waiting although no
  fence is up: \<open>apply_succeeded\<close> returns without the drain when another settlement check is dispatched.
\<close>

definition settlement_due :: "'w sm \<Rightarrow> bool" where
  "settlement_due s \<longleftrightarrow> sm_settlement_repair_in_flight s \<and> sm_settlement_requested s \<and>
     sm_next_settlement_check s < length kSettlementDelays \<and> ar_configuration (sm_current_request s) \<noteq> None"

lemma due_frames [simp]:
  "settlement_due (activate_recovery_lease s) = settlement_due s"
  "settlement_due (ensure_restore_task E s) = settlement_due s"
  "settlement_due (s\<lparr>sm_restore_task_created := b\<rparr>) = settlement_due s"
  "settlement_due (s\<lparr>sm_expected_topology := ex, sm_resolved_target := rt\<rparr>) = settlement_due s"
  "settlement_due (s\<lparr>sm_active_mutation_worker := w, sm_staged_state_prepared := b\<rparr>) = settlement_due s"
  by (simp_all add: settlement_due_def activate_recovery_lease_def apply_recovery_policy_from_current_request_def
      update_flags_def ensure_restore_task_def create_restore_task_def emit_def sm_ask_def split_beta Let_def)

lemma due_repair_does_not_drain:
  assumes "settlement_due s"
  shows "co_deferred (core (apply_succeeded E m s)) = co_deferred (core s)"
    and "co_worker (core (apply_succeeded E m s)) = co_worker (core s)"
  using assms
  by (auto simp: apply_succeeded_def settlement_due_def dispatch_next_settlement_verification_def Let_def)

lemma settlement_repair_strands_deferred:
  assumes "owns_active_worker Worker_Apply (acd_generation m) s" "\<not> is_stale (acd_generation m) s"
    and "acd_status m = Status_Ok" "settlement_due s"
  shows "let s' = handle_message E (M_ApplyCompleted m) s
    in sm_deferred_mutation_commands s' = sm_deferred_mutation_commands s \<and> sm_active_mutation_worker s' = None"
  using assms
  by (simp add: handle_apply_completed_def is_stale_def apply_current_def core_fields due_repair_does_not_drain Let_def)

end
