(* ===== verification/Host_Properties.thy ===== *)
theory Host_Properties
  imports Helper_Host SM_Properties
begin

text \<open>
  What the helper process guarantees: the order in which the mailbox is served, the isolation of a
  retired client, when the process exits, and that its loop is a run of the system of
  \<open>SM_Invariants\<close>, so that the fences hold in it.
\<close>

section \<open>The order of service\<close>

text \<open>The messages in the order in which successive visits of the mailbox handle them.\<close>

lemma next_batch_shorter: "length (snd (next_batch (m # q))) < Suc (length q)"
  by (simp add: mq_extract_prefix_while_eq length_dropWhile_le less_Suc_eq_le)

function service_order :: "message queue \<Rightarrow> message list" where
  "service_order [] = []"
| "service_order (m # q) = fst (next_batch (m # q)) @ service_order (snd (next_batch (m # q)))"
  by pat_completeness auto
termination
  by (relation "measure length") (use next_batch_shorter in auto)

declare next_batch.simps [simp del] service_order.simps(2) [simp del]

lemma next_batch_Cons:
  "next_batch (m # q) =
     (if is_async_completion m then (takeWhile (overtakes m) q @ [m], dropWhile (overtakes m) q) else ([m], q))"
  by (simp add: next_batch.simps mq_extract_prefix_while_eq)

lemma mset_next_batch: "mset (fst (next_batch q)) + mset (snd (next_batch q)) = mset q"
proof (cases q)
  case (Cons m q')
  have "mset (takeWhile p xs) + mset (dropWhile p xs) = mset xs" for p :: "message \<Rightarrow> bool" and xs
    by (metis mset_append takeWhile_dropWhile_id)
  with Cons show ?thesis by (simp add: next_batch_Cons)
qed (simp add: next_batch.simps)

text \<open>A message that overtakes is a command of the client, and none that overtakes is a completion.\<close>

lemma overtakes_kinds:
  "overtakes c m \<Longrightarrow> (is_replacement_control_intent m \<or> is_refresh_or_ping m) \<and> \<not> is_async_completion m"
  by (cases m) (auto simp: overtakes_def)

lemma filter_service_order:
  assumes "\<And>c m. is_async_completion c \<Longrightarrow> overtakes c m \<Longrightarrow> \<not> p m \<or> \<not> p c"
  shows "filter p (service_order q) = filter p q"
proof (induction q rule: service_order.induct)
  case (2 m q)
  have split: "filter p (takeWhile (overtakes m) q) @ filter p (dropWhile (overtakes m) q) = filter p q"
    by (metis filter_append takeWhile_dropWhile_id)
  have "filter p (takeWhile (overtakes m) q) = []" if "is_async_completion m" "p m"
    using assms [of m] that by (auto simp: filter_empty_conv dest: set_takeWhileD)
  with 2 split show ?case by (auto simp: service_order.simps(2) next_batch_Cons)
qed simp

text \<open>
  The mailbox loses and duplicates nothing, and commands overtake completions only: the commands and
  events among themselves, the completions among themselves, and the snapshot requests relative to the
  completions keep their order of arrival.
\<close>

theorem mailbox_order:
  "mset (service_order q) = mset q \<and>
   filter (\<lambda>m. \<not> is_async_completion m) (service_order q) = filter (\<lambda>m. \<not> is_async_completion m) q \<and>
   filter is_async_completion (service_order q) = filter is_async_completion q \<and>
   filter (\<lambda>m. \<not> is_replacement_control_intent m \<and> \<not> is_refresh_or_ping m) (service_order q) =
     filter (\<lambda>m. \<not> is_replacement_control_intent m \<and> \<not> is_refresh_or_ping m) q"
proof (intro conjI)
  show "mset (service_order q) = mset q"
  proof (induction q rule: service_order.induct)
    case (2 m q)
    then show ?case using mset_next_batch [of "m # q"] by (simp add: service_order.simps(2))
  qed simp
qed (rule filter_service_order, use overtakes_kinds in blast)+

section \<open>A retired client\<close>

text \<open>
  C22: A command or heartbeat event whose connection is no longer the current one changes nothing: at most
  the machine has looked at the current epoch.
\<close>

theorem retired_connection_is_ignored:
  assumes "is_ipc_ingress_from_epoch m epoch" "epoch \<noteq> 0" "epoch \<noteq> current"
  shows "handle_message (with_epoch current E) m s \<in> {s, snd (sm_ask (\<lambda>w. (current, w)) (\<lambda>_. C_Observe) s)}"
proof -
  have stale: "is_stale_connection (with_epoch current E) epoch s =
      (True, snd (sm_ask (\<lambda>w. (current, w)) (\<lambda>_. C_Observe) s))"
    using assms(2,3) by (simp add: is_stale_connection_def with_epoch_def sm_ask_def ask_def split_beta Let_def)
  with assms(1) show ?thesis
    by (cases m) (auto simp: handle_apply_command_def handle_revert_command_def handle_disarm_command_def
        handle_export_golden_def handle_snapshot_current_def handle_refresh_rate_command_def
        handle_reset_command_def handle_ping_command_def handle_stop_command_def handle_helper_event_def)
qed

theorem retired_connection_is_ignored_witness:
  "sm_state (handle_message (with_epoch 8 sim_ports) (M_Apply sim_apply) sim_machine) = Waiting"
proof -
  have "is_ipc_ingress_from_epoch (M_Apply sim_apply) 7" by (simp add: sim_apply_def)
  from retired_connection_is_ignored [OF this, of 8 sim_ports sim_machine] show ?thesis
    by (auto simp: core_fields)
qed


lemma exit_callbacks_keep [simp]:
  "hst_queue (fold exit_callback codes h) = hst_queue h"
  "hst_connection_epoch (fold exit_callback codes h) = hst_connection_epoch h"
  by (induction codes arbitrary: h) (simp_all add: exit_callback_def)

lemma handle_keeps [simp]:
  "hst_queue (handle_in_host E m h) = hst_queue h"
  "hst_connection_epoch (handle_in_host E m h) = hst_connection_epoch h"
  by (simp_all add: handle_in_host_def Let_def)

text \<open>
  After the clean-up of a lost connection its epoch is not the current one, every command and event
  its client had queued is gone from the mailbox, and everything else in the mailbox, the completions of
  running operations above all, is still there in order.
\<close>

theorem disconnect_forgets_the_client:
  "let h' = clean_up_disconnect E epoch h
   in hst_connection_epoch h' \<noteq> epoch \<and>
      filter (\<lambda>m. is_ipc_ingress_from_epoch m epoch) (hst_queue h') = [] \<and>
      filter is_async_completion (hst_queue h') = filter is_async_completion (hst_queue h) \<and>
      hst_queue h' = filter (\<lambda>m. \<not> is_ipc_ingress_from_epoch m epoch) (hst_queue h)"
proof -
  have "is_async_completion m \<Longrightarrow> \<not> is_ipc_ingress_from_epoch m epoch" for m by (cases m) auto
  then have "filter is_async_completion (filter (\<lambda>m. \<not> is_ipc_ingress_from_epoch m epoch) q) =
      filter is_async_completion q" for q
    by (simp add: filter_filter) (metis (mono_tags) filter_cong)
  then show ?thesis
    by (simp add: clean_up_disconnect_def forget_client_def retire_connection_epoch_def mq_extract_if_eq split_beta Let_def)
qed

section \<open>The end of the process\<close>

text \<open>A part of a handler that does not call the exit callback.\<close>

definition no_exit :: "'w sm \<Rightarrow> 'w sm \<Rightarrow> bool" where
  "no_exit s s' \<longleftrightarrow> (\<exists>es. sm_outputs s' = sm_outputs s @ es \<and> List.map_filter exit_code_of es = [])"

lemma no_exit_trans [trans]: "no_exit s s' \<Longrightarrow> no_exit s' s'' \<Longrightarrow> no_exit s s''"
  by (auto simp: no_exit_def map_filter_def)

lemma no_exit_steps [simp]:
  "no_exit s s"
  "no_exit s (update_scheduler f s)" "no_exit s (update_flags g s)" "no_exit s (disarm_heartbeat s)"
  "no_exit s (refresh_shell E s)" "no_exit s (delete_restore_task E s)" "no_exit s (transition E nx tr st s)"
  by (auto simp: no_exit_def update_scheduler_def update_flags_def disarm_heartbeat_def refresh_shell_def
      delete_restore_task_def transition_def emit_def sm_ask_def sm_now_def map_filter_def split_beta Let_def)

definition reset_left :: "'w sm \<Rightarrow> bool" where
  "reset_left s \<longleftrightarrow> sm_staged_state_prepared s \<and> sm_recovery_staged_state_reset_succeeded s = Some False"

lemma recovery_confirmed_exits:
  assumes "\<not> reset_left s" "sm_deferred_mutation_commands s = []" "\<not> sm_staged_state_reset_pending s"
  shows "\<exists>t. recovery_confirmed E s = call_exit E 0 t \<and> no_exit s t \<and>
    core t = (core s)\<lparr>co_state := Waiting\<rparr> \<and> \<not> sm_recovery_armed t"
proof -
  define b where "b = disarm_heartbeat (update_flags reset_request_progress (update_scheduler sch_disarm
    (s\<lparr>sm_recovery_armed := False, sm_display_changes_pending_recovery := False,
       sm_unconfirmed_cancelled_mutation := False\<rparr>)))"
  define c where "c = (delete_restore_task E (refresh_shell E b))\<lparr>sm_restore_task_created := False\<rparr>"
  define d where "d = transition E Waiting Action_Revert (Some Status_Ok) (c\<lparr>sm_staged_state_prepared := False\<rparr>)"
  have left: "reset_left c = reset_left s"
    by (simp add: reset_left_def c_def b_def delete_restore_task_def refresh_shell_def emit_def sm_ask_def
        disarm_heartbeat_def update_flags_def update_scheduler_def split_beta Let_def)
  have core: "core d = (core s)\<lparr>co_state := Waiting\<rparr>" by (simp add: d_def c_def b_def)
  have armed: "\<not> sm_recovery_armed d"
    by (simp add: d_def c_def b_def transition_def delete_restore_task_def refresh_shell_def emit_def sm_ask_def
        sm_now_def disarm_heartbeat_def update_flags_def update_scheduler_def split_beta Let_def)
  have "no_exit s (update_scheduler sch_disarm (s\<lparr>sm_recovery_armed := False,
      sm_display_changes_pending_recovery := False, sm_unconfirmed_cancelled_mutation := False\<rparr>))"
    by (simp add: no_exit_def update_scheduler_def map_filter_def)
  also have "no_exit \<dots> (update_flags reset_request_progress \<dots>)" by simp
  also have "no_exit \<dots> (disarm_heartbeat \<dots>)" by simp
  finally have "no_exit s b" by (simp only: b_def)
  also have "no_exit b (refresh_shell E b)" by simp
  also have "no_exit \<dots> (delete_restore_task E \<dots>)" by simp
  also have "no_exit \<dots> (c\<lparr>sm_staged_state_prepared := False\<rparr>)" by (simp add: no_exit_def c_def map_filter_def)
  also have "no_exit \<dots> d" by (simp add: d_def)
  finally have quiet: "no_exit s d" .
  have "recovery_confirmed E s = leave_after_restore E (reset_left c) d"
    using assms(1) left unfolding recovery_confirmed_def Let_def b_def [symmetric] c_def [symmetric]
      reset_left_def [symmetric] d_def by simp
  also have "\<dots> = call_exit E 0 (d\<lparr>sm_exit_after_staged_state_reset := False\<rparr>)"
    using assms left core
    by (simp add: leave_after_restore_def deferred_followup_mutation_def drain_nothing core_fields Let_def)
  finally show ?thesis
    using core armed quiet by (intro exI [of _ "d\<lparr>sm_exit_after_staged_state_reset := False\<rparr>"]) (simp add: no_exit_def)
qed

text \<open>
  C23: A restore that is confirmed while nothing is queued behind it disarms recovery and ends the process
  with exit code 0, and cancels what may still run; but when a client has connected since the restore was
  asked for, the process keeps running for it and nothing is cancelled.
\<close>

theorem confirmed_restore_exits_unless_newer_client:
  assumes "owns_active_worker Worker_Recovery (rvv_generation m) (hst_machine h)"
    and "\<not> is_stale (rvv_generation m) (hst_machine h)" "rvv_success m" "\<not> reset_left (hst_machine h)"
    and "sm_deferred_mutation_commands (hst_machine h) = []"
    and "\<not> sm_staged_state_reset_pending (hst_machine h)" "po_exit_callback E"
  shows "let h' = handle_in_host E (M_RecoveryValidationCompleted m) h;
             newer = (hst_restore_origin_epoch h \<noteq> 0 \<and>
               hst_restore_origin_epoch h < hst_connection_epoch h \<and> hst_client_connected h)
         in sm_state (hst_machine h') = Waiting \<and> \<not> sm_recovery_armed (hst_machine h') \<and>
            hst_running h' = (newer \<and> hst_running h) \<and>
            hst_exit_code h' = (if newer then hst_exit_code h else 0) \<and>
            sm_generation (hst_machine h') = sm_generation (hst_machine h) + of_bool (\<not> newer)"
proof -
  let ?E = "with_epoch (hst_connection_epoch h) E" and ?s = "hst_machine h"
  let ?u = "?s\<lparr>sm_active_mutation_worker := None\<rparr>"
  obtain t where t: "recovery_confirmed ?E ?u = call_exit ?E 0 t" "no_exit ?u t"
      "core t = (core ?u)\<lparr>co_state := Waiting\<rparr>" "\<not> sm_recovery_armed t"
    using recovery_confirmed_exits [of ?u ?E] assms(4-6) by (auto simp: reset_left_def)
  obtain es where es: "sm_outputs t = sm_outputs ?s @ es" "List.map_filter exit_code_of es = []"
    using t(2) by (auto simp: no_exit_def)
  have s': "handle_message ?E (M_RecoveryValidationCompleted m) ?s = emit (O_Exit 0) t"
    using assms(1-3,7) t(1)
    by (simp add: handle_recovery_validation_completed_def is_stale_def call_exit_def with_epoch_def Let_def)
  have "new_exits ?s (emit (O_Exit 0) t) = [0]"
    using es by (simp add: new_exits_def emit_def map_filter_def)
  then have "handle_in_host E (M_RecoveryValidationCompleted m) h = exit_callback 0 (h\<lparr>hst_machine := emit (O_Exit 0) t\<rparr>)"
    unfolding handle_in_host_def Let_def s' by simp
  then show ?thesis
    using t(3,4) by (auto simp: exit_callback_def core_fields Let_def) (simp_all add: emit_def cancel_operations_def)
qed

theorem confirmed_restore_exits_unless_newer_client_witness:
  "\<not> hst_running (handle_in_host sim_ports (M_RecoveryValidationCompleted \<lparr>rvv_success = True, rvv_generation = 0\<rparr>)
     (initial_host (sim_machine\<lparr>sm_active_mutation_worker :=
        Some \<lparr>amw_kind = Worker_Recovery, amw_generation = 0\<rparr>\<rparr>)))"
proof -
  let ?s = "sim_machine\<lparr>sm_active_mutation_worker := Some \<lparr>amw_kind = Worker_Recovery, amw_generation = 0\<rparr>\<rparr>"
  have "\<not> reset_left ?s" by (simp add: reset_left_def sim_machine_def initial_sm_def)
  then show ?thesis
    using confirmed_restore_exits_unless_newer_client [of "\<lparr>rvv_success = True, rvv_generation = 0\<rparr>"
        "initial_host ?s" sim_ports]
    by (simp add: initial_host_def owns_active_worker_def is_stale_def core_fields sim_ports_def Let_def)
qed


section \<open>The loop is a run of the system\<close>

text \<open>
  One step of the process. \<open>batch\<close> holds the messages a visit of the mailbox has taken and not handled
  yet: the other threads go on between two of them.
\<close>

inductive host_step :: "'w ports \<Rightarrow> 'w host \<times> message list \<Rightarrow> 'w host \<times> message list \<Rightarrow> bool"
  for E :: "'w ports" where
  visit: "host_step E (h, []) (h\<lparr>hst_queue := snd (next_batch (hst_queue h))\<rparr>, fst (next_batch (hst_queue h)))"
| serve: "room_for (length (new_exits (hst_machine h)
      (handle_message (with_epoch (hst_connection_epoch h) E) m (hst_machine h))) + 2) (hst_machine h) \<Longrightarrow>
    host_step E (h, m # batch) (handle_in_host E m h, batch)"
| timers: "host_step E (h, []) (service_timers E h, [])"
| ingress: "\<not> is_async_completion m \<Longrightarrow> host_step E (h, batch) (h\<lparr>hst_queue := mq_push m (hst_queue h)\<rparr>, batch)"
| completion: "take_task (sm_dispatcher (hst_machine h)) = (Some t, d) \<Longrightarrow> m \<in> completions t \<Longrightarrow>
    host_step E (h, batch) (h\<lparr>hst_machine := (hst_machine h)\<lparr>sm_dispatcher := d\<rparr>,
      hst_queue := mq_push m (hst_queue h)\<rparr>, batch)"
| timer_thread: "take_timer_task (sm_dispatcher (hst_machine h)) =
      (Some (Timer_Verification tok req ex rt delay k), d) \<Longrightarrow>
    d' \<in> {d, enqueue_task (Task_Verification tok req ex rt k) d} \<Longrightarrow>
    host_step E (h, batch) (h\<lparr>hst_machine := (hst_machine h)\<lparr>sm_dispatcher := d'\<rparr>\<rparr>, batch)"
| worker_runs: "host_step E (h, batch) (h\<lparr>hst_machine := (hst_machine h)\<lparr>sm_run := r\<rparr>\<rparr>, batch)"
| display_change: "host_step E (h, batch) (on_display_change E h, batch)"
| connects: "host_step E (h, batch) (snd (on_connect E h), batch)"
| pipe_breaks: "host_step E (h, batch) (snd (retire_connection_epoch epoch h), batch)"
| stops: "unat (sm_generation (hst_machine h)) + 1 < 2 ^ 64 \<Longrightarrow>
    host_step E (h, batch) (h\<lparr>hst_machine := cancel_operations (hst_machine h), hst_running := False\<rparr>, batch)"
| cleans_up: "room_for 1 (hst_machine h) \<Longrightarrow>
    (\<And>m h'. h' = snd (forget_client E epoch h) \<Longrightarrow> m = M_Revert (disconnect_revert (sm_generation (hst_machine h'))) \<Longrightarrow>
      room_for (length (new_exits (hst_machine h')
        (handle_message (with_epoch (hst_connection_epoch h') E) m (hst_machine h'))) + 2) (hst_machine h')) \<Longrightarrow>
    host_step E (h, []) (clean_up_disconnect E epoch h, [])"

inductive host_reachable :: "'w host \<times> message list \<Rightarrow> bool" where
  start: "host_reachable (initial_host (initial_sm r), [])"
| step: "host_reachable x \<Longrightarrow> host_step E x y \<Longrightarrow> host_reachable y"

text \<open>The abstraction forgets the order of the mailbox.\<close>

definition reach :: "'w sm \<Rightarrow> message multiset \<Rightarrow> bool" where
  "reach s Q \<longleftrightarrow> (\<exists>q. reachable (s, q) \<and> mset q = Q)"

lemma reach_via:
  assumes "reach s Q" "\<And>q. mset q = Q \<Longrightarrow> sys_step E (s, q) (s', f q)" "\<And>q. mset q = Q \<Longrightarrow> mset (f q) = Q'"
  shows "reach s' Q'"
  using assms reachable.step unfolding reach_def by metis

lemma member_mset: "mset q = add_mset m Q \<Longrightarrow> m \<in> set q"
  by (metis set_mset_mset union_single_eq_member)

lemma async_completion_kinds:
  "\<not> is_async_completion m \<Longrightarrow> message_mutation m = None \<and> message_check m = None \<and> \<not> is_reset_completion m"
  by (cases m) auto

lemma reach_inert: "reach (s :: 'w sm) Q \<Longrightarrow> core (s' :: 'w sm) = core s \<Longrightarrow> reach s' Q"
  by (rule reach_via [where f = "\<lambda>q. q"], assumption, rule sys_step.inert, assumption, assumption)

lemma reach_tick: "reach s Q \<Longrightarrow> reach (handle_tick E s) Q"
  by (rule reach_via [where f = "\<lambda>q. q"], assumption, rule sys_step.tick, assumption)

lemma reach_cancel: "reach s Q \<Longrightarrow> unat (sm_generation s) + 1 < 2 ^ 64 \<Longrightarrow> reach (cancel_operations s) Q"
  by (rule reach_via [where f = "\<lambda>q. q"], assumption, rule sys_step.cancelled, assumption, assumption)

lemma reach_settlement: "reach s Q \<Longrightarrow> room_for 1 s \<Longrightarrow> reach (snd (begin_transient_disconnect_settlement E s)) Q"
  by (rule reach_via [where f = "\<lambda>q. q"], assumption, rule sys_step.disconnect, assumption, assumption)

lemma reach_post: "reach s Q \<Longrightarrow> \<not> is_async_completion m \<Longrightarrow> reach s (add_mset m Q)"
  by (rule reach_via [where f = "mq_push m"], assumption, rule sys_step.post)
    (simp_all add: async_completion_kinds mq_push_def)

lemma reach_discard: "reach s (add_mset m Q) \<Longrightarrow> \<not> is_async_completion m \<Longrightarrow> reach s Q"
  by (rule reach_via [where f = "remove1 m"], assumption, rule sys_step.discarded)
    (simp_all add: async_completion_kinds member_mset)

lemma reach_work:
  "reach s Q \<Longrightarrow> take_task (sm_dispatcher s) = (Some t, d) \<Longrightarrow> m \<in> completions t \<Longrightarrow>
   reach (s\<lparr>sm_dispatcher := d\<rparr>) (add_mset m Q)"
  by (rule reach_via [where f = "mq_push m"], assumption, rule sys_step.work, assumption, assumption)
    (simp add: mq_push_def)

lemma reach_timer:
  assumes "reach s Q" "take_timer_task (sm_dispatcher s) = (Some (Timer_Verification tok req ex rt delay k), d)"
    and "d' \<in> {d, enqueue_task (Task_Verification tok req ex rt k) d}"
  shows "reach (s\<lparr>sm_dispatcher := d'\<rparr>) Q"
  using assms(3)
    reach_via [where f = "\<lambda>q. q", OF assms(1) sys_step.timer_fires [OF assms(2)]]
    reach_via [where f = "\<lambda>q. q", OF assms(1) sys_step.timer_stops [OF assms(2)]]
  by blast

lemma reach_room:
  assumes "reach s (add_mset m Q)" "room_for (k + 2) s"
  shows "unat (sm_generation (handle_message E m s)) + k < 2 ^ 64"
proof -
  from assms(1) obtain q where q: "reachable (s, q)" "mset q = add_mset m Q" by (auto simp: reach_def)
  have "fenced 0 q (core s)" using fenced_reachable [OF q(1)] by simp
  from fenced_handle_message [OF this member_mset [OF q(2)] assms(2), of E] show ?thesis
    by (simp add: fenced_def core_fields)
qed

lemma reach_handle: "reach s (add_mset m Q) \<Longrightarrow> room_for 2 s \<Longrightarrow> reach (handle_message E m s) Q"
  by (rule reach_via [where f = "remove1 m"], assumption, rule sys_step.handle) (simp_all add: member_mset)

lemma reach_exits:
  "reach (hst_machine h) Q \<Longrightarrow> unat (sm_generation (hst_machine h)) + length codes < 2 ^ 64 \<Longrightarrow>
   reach (hst_machine (fold exit_callback codes h)) Q"
proof (induction codes arbitrary: h)
  case (Cons code codes)
  let ?h = "exit_callback code h"
  have one: "unat (sm_generation (hst_machine h) + 1) \<le> unat (sm_generation (hst_machine h)) + 1"
    by (simp add: unat_word_ariths(1))
  have "reach (hst_machine ?h) Q"
    using Cons.prems by (auto simp: exit_callback_def intro!: reach_cancel)
  moreover have "unat (sm_generation (hst_machine ?h)) + length codes < 2 ^ 64"
    using Cons.prems(2) one by (simp add: exit_callback_def cancel_operations_def cs_cancel_def)
  ultimately show ?case using Cons.IH by simp
qed simp

lemma reach_handle_in_host:
  assumes "reach (hst_machine h) (add_mset m Q)"
    and "room_for (length (new_exits (hst_machine h)
      (handle_message (with_epoch (hst_connection_epoch h) E) m (hst_machine h))) + 2) (hst_machine h)"
  shows "reach (hst_machine (handle_in_host E m h)) Q"
proof -
  have two: "room_for 2 (hst_machine h)" using assms(2) by (simp add: room_for_def)
  show ?thesis
    unfolding handle_in_host_def Let_def
    by (rule reach_exits) (use reach_handle [OF assms(1) two] reach_room [OF assms] in simp_all)
qed


lemma core_host_steps:
  "core (snd (check_heartbeat E s)) = core s"
  "core (hst_machine (on_display_change E h)) = core (hst_machine h)"
  "core (hst_machine (snd (on_connect E h))) = core (hst_machine h)"
  "core (hst_machine (snd (retire_connection_epoch epoch h))) = core (hst_machine h)"
  by (simp_all add: check_heartbeat_def on_display_change_def on_connect_def retire_connection_epoch_def
      split_beta Let_def)

text \<open>The timers: a tick, and at most one event for the mailbox.\<close>

lemma reach_timers:
  assumes "reach (hst_machine h) (mset (hst_queue h))"
  shows "reach (hst_machine (service_timers E h)) (mset (hst_queue (service_timers E h)))"
proof -
  let ?s = "snd (sm_now E (snd (check_heartbeat E (hst_machine h))))"
  have "reach ?s (mset (hst_queue h))"
    by (rule reach_inert [OF assms]) (simp add: core_host_steps)
  then have tick: "reach (handle_tick E ?s) (mset (hst_queue h))" by (rule reach_tick)
  then have "reach (handle_tick E ?s) (mset (mq_push (M_DisplayEvent e) (hst_queue h)))" for e
    using reach_post [OF tick, of "M_DisplayEvent e"] by (simp add: mq_push_def)
  with tick show ?thesis by (simp add: service_timers_def split_beta Let_def split: option.split)
qed

text \<open>Discarding messages that are not completions.\<close>

lemma reach_filtered:
  assumes "\<And>m. \<not> p m \<Longrightarrow> \<not> is_async_completion m"
  shows "reach s (mset q + Q) \<Longrightarrow> reach s (mset (filter p q) + Q)"
proof (induction q arbitrary: Q)
  case (Cons m q)
  then show ?case
    using assms [of m] reach_discard [of s m "mset q + Q"] Cons.IH [of "add_mset m Q"] by (cases "p m") auto
qed simp

lemma reach_forget_client:
  assumes "reach (hst_machine h) (mset (hst_queue h))" "room_for 1 (hst_machine h)"
  shows "reach (hst_machine (snd (forget_client E epoch h))) (mset (hst_queue (snd (forget_client E epoch h))))"
proof -
  let ?p = "\<lambda>m. \<not> is_ipc_ingress_from_epoch m epoch" and ?s = "disarm_heartbeat (hst_machine h)"
  have "\<not> ?p m \<Longrightarrow> \<not> is_async_completion m" for m by (cases m) auto
  then have "reach (hst_machine h) (mset (filter ?p (hst_queue h)))"
    using reach_filtered [of ?p "hst_machine h" "hst_queue h" "{#}"] assms(1) by simp
  then have "reach ?s (mset (filter ?p (hst_queue h)))" by (rule reach_inert) simp
  moreover have "room_for 1 ?s" using assms(2) by (simp add: room_for_def disarm_heartbeat_def)
  ultimately have "reach (snd (begin_transient_disconnect_settlement E ?s)) (mset (filter ?p (hst_queue h)))"
    by (rule reach_settlement)
  then show ?thesis
    by (simp add: forget_client_def retire_connection_epoch_def mq_extract_if_eq split_beta Let_def)
qed

lemma reach_clean_up:
  assumes "reach (hst_machine h) (mset (hst_queue h))" "room_for 1 (hst_machine h)"
    and "\<And>m h'. h' = snd (forget_client E epoch h) \<Longrightarrow> m = M_Revert (disconnect_revert (sm_generation (hst_machine h'))) \<Longrightarrow>
      room_for (length (new_exits (hst_machine h')
        (handle_message (with_epoch (hst_connection_epoch h') E) m (hst_machine h'))) + 2) (hst_machine h')"
  shows "reach (hst_machine (clean_up_disconnect E epoch h)) (mset (hst_queue (clean_up_disconnect E epoch h)))"
proof -
  let ?h = "snd (forget_client E epoch h)"
  let ?m = "M_Revert (disconnect_revert (sm_generation (hst_machine ?h)))"
  let ?o = "?h\<lparr>hst_restore_origin_epoch := epoch\<rparr>"
  have forgot: "reach (hst_machine ?h) (mset (hst_queue ?h))" by (rule reach_forget_client [OF assms(1,2)])
  then have "reach (hst_machine ?o) (add_mset ?m (mset (hst_queue ?h)))" by (simp add: reach_post)
  from reach_handle_in_host [OF this] assms(3) [of ?h ?m]
  have "reach (hst_machine (handle_in_host E ?m ?o)) (mset (hst_queue ?h))" by simp
  with forgot show ?thesis
    unfolding clean_up_disconnect_def Let_def split_beta
    by (auto intro: reach_inert)
qed

lemma collect_perm: "mset q = mset q' \<Longrightarrow> collect f q = collect f q'"
  by (simp add: collect_def map_filter_def mset_map mset_filter del: image_mset_filter_mset_swap)

lemma mset_filter_length: "mset q = mset q' \<Longrightarrow> length (filter p q) = length (filter p q')"
  by (metis mset_filter size_mset)

lemma host_reach: "host_reachable x \<Longrightarrow> reach (hst_machine (fst x)) (mset (snd x @ hst_queue (fst x)))"
proof (induction rule: host_reachable.induct)
  case (start r)
  show ?case
    using reachable.start [of r] by (auto simp: reach_def initial_host_def)
next
  case (step x E y)
  from step(2,3) show ?case
  proof (cases rule: host_step.cases)
    case (visit h)
    then show ?thesis using step(3) mset_next_batch [of "hst_queue h"] by simp
  next
    case (serve h m batch)
    then show ?thesis using step(3) reach_handle_in_host [of h m "mset (batch @ hst_queue h)" E] by simp
  next
    case (timers h)
    then show ?thesis using step(3) reach_timers by simp
  next
    case (ingress m h batch)
    then show ?thesis using step(3) reach_post [of "hst_machine h" "mset (batch @ hst_queue h)" m]
      by (simp add: mq_push_def)
  next
    case (completion h t d m batch)
    then show ?thesis using step(3) reach_work [of "hst_machine h" "mset (batch @ hst_queue h)" t d m]
      by (simp add: mq_push_def)
  next
    case (timer_thread h tok req ex rt delay k d d' batch)
    then show ?thesis using step(3) reach_timer by simp
  next
    case (worker_runs h r batch)
    then show ?thesis using step(3) by (auto intro: reach_inert)
  next
    case (display_change h batch)
    then show ?thesis
      using step(3) reach_inert [of "hst_machine h" "mset (batch @ hst_queue h)" "snd (sm_now E (hst_machine h))"]
      by (simp add: on_display_change_def split_beta Let_def)
  next
    case (connects h batch)
    then show ?thesis
      using step(3) reach_inert [of "hst_machine h" "mset (batch @ hst_queue h)" "arm_heartbeat E (hst_machine h)"]
      by (simp add: on_connect_def Let_def)
  next
    case (pipe_breaks h batch epoch)
    then show ?thesis using step(3) by (simp add: retire_connection_epoch_def)
  next
    case (stops h batch)
    then show ?thesis using step(3) reach_cancel by simp
  next
    case (cleans_up h epoch)
    then show ?thesis using step(3) reach_clean_up [of h E epoch] by simp
  qed
qed


text \<open>The process with one refresh-rate command received, taken from the mailbox and handled.\<close>

definition sim_rate :: refresh_rate_command where
  "sim_rate = \<lparr>rr_device_id = ''B'', rr_numerator = 120, rr_denominator = 1, rr_generation = 0,
     rr_connection_epoch = 0, rr_request_id = 1\<rparr>"

definition sim_host :: "sim host" where
  "sim_host = handle_in_host sim_ports (M_RefreshRate sim_rate) (initial_host sim_machine)"

definition rate_worker :: "sim sm" where
  "rate_worker = (enqueue (Task_RefreshRate (Token 0) ''B'' 120 1 (refresh_rate_message 0 sim_rate)) sim_machine)
     \<lparr>sm_active_mutation_worker := Some \<lparr>amw_kind = Worker_RefreshRate, amw_generation = 0\<rparr>\<rparr>"

lemma handle_sim_rate: "handle_message E (M_RefreshRate sim_rate) sim_machine = rate_worker"
proof -
  have idle: "\<not> apply_in_flight sim_machine" "\<not> restore_pending sim_machine" "\<not> sm_post_apply_check_pending sim_machine"
    by (simp_all add: apply_in_flight_def mutation_worker_active_def restore_pending_def core_fields)
  have gen: "sm_generation sim_machine = 0" by (simp add: core_fields)
  show ?thesis
    by (simp add: handle_refresh_rate_command_def is_stale_connection_def idle Let_def)
      (simp add: sim_rate_def dispatch_refresh_rate_def rate_worker_def token_def cs_token_def gen Let_def)
qed

lemma no_exits_sim_rate: "new_exits sim_machine rate_worker = []"
  by (simp add: new_exits_def rate_worker_def enqueue_def map_filter_def)

lemma sim_host_fields:
  "hst_machine sim_host = rate_worker" "hst_queue sim_host = []"
  using handle_sim_rate [of "with_epoch 0 sim_ports"]
  by (simp_all add: sim_host_def handle_in_host_def initial_host_def no_exits_sim_rate Let_def)

lemma host_reachable_sim: "host_reachable (sim_host, [])"
proof -
  let ?m = "M_RefreshRate sim_rate" and ?h = "initial_host sim_machine"
  have "host_reachable (?h, [])" unfolding sim_machine_def by (rule host_reachable.start)
  from host_reachable.step [OF this host_step.ingress [of ?m, where E = sim_ports]]
  have "host_reachable (?h\<lparr>hst_queue := [?m]\<rparr>, [])" by (simp add: initial_host_def mq_push_def)
  from host_reachable.step [OF this host_step.visit [where E = sim_ports]]
  have served: "host_reachable (?h, [?m])" by (simp add: next_batch_Cons initial_host_def)
  have "room_for 2 sim_machine" by (simp add: room_for_def core_fields)
  then have "room_for (length (new_exits (hst_machine ?h)
      (handle_message (with_epoch (hst_connection_epoch ?h) sim_ports) ?m (hst_machine ?h))) + 2) (hst_machine ?h)"
    unfolding initial_host_def host.simps handle_sim_rate no_exits_sim_rate by (simp add: numeral_2_eq_2)
  from host_reachable.step [OF served host_step.serve [OF this]] show ?thesis by (simp add: sim_host_def)
qed


text \<open>
  C2: In every state the process can reach, the operations that may change the displays and are queued,
  running, in the mailbox or about to be acknowledged are exactly the one the fence names, and the RESET
  barrier is up exactly while one reset is on its way.
\<close>

theorem process_keeps_the_fences:
  assumes "host_reachable (h, batch)"
  shows "mutations_in_flight (batch @ hst_queue h) (core (hst_machine h)) =
      fence_of (sm_active_mutation_worker (hst_machine h)) \<and>
    resets_in_flight (batch @ hst_queue h) (core (hst_machine h)) =
      of_bool (sm_staged_state_reset_pending (hst_machine h))"
proof -
  have "reach (hst_machine h) (mset (batch @ hst_queue h))"
    using host_reach [OF assms] by simp
  then obtain q where q: "reachable (hst_machine h, q)" "mset q = mset (batch @ hst_queue h)"
    by (auto simp: reach_def)
  have "mutations_in_flight (batch @ hst_queue h) c = mutations_in_flight q c" for c
    using collect_perm [OF q(2), of message_mutation] unfolding mutations_in_flight_def by simp
  moreover have "resets_in_flight (batch @ hst_queue h) c = resets_in_flight q c" for c
    using mset_filter_length [OF q(2), of is_reset_completion] unfolding resets_in_flight_def by simp
  ultimately show ?thesis using fenced_reachable [OF q(1)] by (simp add: fenced_def core_fields)
qed

theorem process_keeps_the_fences_witness:
  "mutations_in_flight [] (core rate_worker) = {#(Worker_RefreshRate, 0)#}"
  using process_keeps_the_fences [OF host_reachable_sim]
  by (simp add: sim_host_fields) (simp add: rate_worker_def)

end
