(* ===== verification/Pipe_Framing.thy ===== *)
theory Pipe_Framing
  imports Prelude "HOL-Library.Sublist"
begin

text \<open>
  The bytes on the control pipe: little-endian fields (\<open>display_settings_client.cpp\<close> writes them,
  \<open>display_settings_helper_v2.cpp\<close> reads them, and the other way round), the length-prefixed frames of
  \<open>FramedPipe\<close> (\<open>pipes.cpp\<close>), and the helper's own reading of a frame. A byte is an 8-bit word; the
  hosts are little-endian, so the \<open>memcpy\<close> of a length is its little-endian form.
\<close>

unbundle bit_operations_syntax

type_synonym byte = "8 word"
type_synonym bytes = "byte list"

section \<open>Little-endian fields\<close>

definition append_u32_le :: "bytes \<Rightarrow> u32 \<Rightarrow> bytes" where
  "append_u32_le payload value = payload @
     [ucast (value AND 0xff), ucast (drop_bit 8 value AND 0xff), ucast (drop_bit 16 value AND 0xff),
      ucast (drop_bit 24 value AND 0xff)]"

definition append_u64_le :: "bytes \<Rightarrow> u64 \<Rightarrow> bytes" where
  "append_u64_le payload value =
     payload @ map (\<lambda>i. ucast (drop_bit (8 * i) value AND 0xff)) [0..<8]"

definition u32_of :: "byte \<Rightarrow> byte \<Rightarrow> byte \<Rightarrow> byte \<Rightarrow> u32" where
  "u32_of b0 b1 b2 b3 = ucast b0 OR push_bit 8 (ucast b1) OR push_bit 16 (ucast b2) OR push_bit 24 (ucast b3)"

definition read_u32_le :: "bytes \<Rightarrow> nat \<Rightarrow> u32 option" where
  "read_u32_le payload offset =
     (if length payload < offset + 4 then None
      else Some (u32_of (payload ! offset) (payload ! (offset + 1)) (payload ! (offset + 2)) (payload ! (offset + 3))))"

definition read_u64_le :: "bytes \<Rightarrow> nat \<Rightarrow> u64 option" where
  "read_u64_le payload offset =
     (if length payload < offset + 8 then None
      else Some (fold (\<lambda>i value. value OR push_bit (8 * i) (ucast (payload ! (offset + i)))) [0..<8] 0))"

lemma byte_mask: "(0xff :: 'a::len word) = mask 8" if "8 \<le> LENGTH('a)"
  by (simp add: mask_eq_exp_minus_1)

lemma u32_of_bytes [simp]:
  "u32_of (ucast (v AND 0xff)) (ucast (drop_bit 8 v AND 0xff)) (ucast (drop_bit 16 v AND 0xff))
     (ucast (drop_bit 24 v AND 0xff)) = v"
proof (rule bit_word_eqI)
  fix n assume n: "n < LENGTH(32)"
  then consider "n < 8" | "8 \<le> n \<and> n < 16" | "16 \<le> n \<and> n < 24" | "24 \<le> n \<and> n < 32" by fastforce
  then show "bit (u32_of (ucast (v AND 0xff)) (ucast (drop_bit 8 v AND 0xff)) (ucast (drop_bit 16 v AND 0xff))
     (ucast (drop_bit 24 v AND 0xff))) n = bit v n"
    using n by cases (auto simp: u32_of_def byte_mask bit_simps)
qed

lemma read_append_u32 [simp]:
  "length payload = offset \<Longrightarrow> read_u32_le (append_u32_le payload v @ rest) offset = Some v"
  by (simp add: read_u32_le_def append_u32_le_def nth_append)

definition le_value :: "bytes \<Rightarrow> u64" where
  "le_value bs = fold (\<lambda>i value. value OR push_bit (8 * i) (ucast (bs ! i))) [0..<8] 0"

lemma bit_le_fold:
  "bit (fold (\<lambda>i value. value OR push_bit (8 * i) (f i)) [0..<k] (0 :: u64)) n \<longleftrightarrow>
     n < 64 \<and> (\<exists>i<k. 8 * i \<le> n \<and> bit (f i) (n - 8 * i))"
  by (induction k) (auto simp: bit_simps less_Suc_eq)

lemma le_value_bytes: "le_value (map (\<lambda>i. ucast (drop_bit (8 * i) v AND 0xff)) [0..<8]) = v"
proof (rule bit_word_eqI)
  fix n assume n: "n < LENGTH(64)"
  let ?f = "\<lambda>i. ucast (map (\<lambda>i. ucast (drop_bit (8 * i) v AND 0xff) :: byte) [0..<8] ! i) :: u64"
  have "bit (?f i) m \<longleftrightarrow> m < 8 \<and> bit v (8 * i + m)" if "i < 8" for i m
    using that by (auto simp: byte_mask bit_simps dest: bit_imp_le_length)
  then have "(\<exists>i<8. 8 * i \<le> n \<and> bit (?f i) (n - 8 * i)) \<longleftrightarrow> (\<exists>i<8. 8 * i \<le> n \<and> n - 8 * i < 8 \<and> bit v n)"
    by (metis le_add_diff_inverse)
  also have "\<dots> \<longleftrightarrow> bit v n"
  proof
    assume "bit v n"
    with n show "\<exists>i<8. 8 * i \<le> n \<and> n - 8 * i < 8 \<and> bit v n" by (intro exI [of _ "n div 8"]) auto
  qed blast
  finally show "bit (le_value (map (\<lambda>i. ucast (drop_bit (8 * i) v AND 0xff)) [0..<8])) n = bit v n"
    using n unfolding le_value_def bit_le_fold by simp
qed

lemma read_u64_le_value:
  "read_u64_le payload offset =
     (if length payload < offset + 8 then None else Some (le_value (drop offset payload)))"
  by (simp add: read_u64_le_def le_value_def upt_rec)

lemma read_append_u64 [simp]:
  "length payload = offset \<Longrightarrow> read_u64_le (append_u64_le payload v @ rest) offset = Some v"
proof -
  assume "length payload = offset"
  then have "read_u64_le (append_u64_le payload v @ rest) offset =
      Some (le_value (map (\<lambda>i. ucast (drop_bit (8 * i) v AND 0xff)) [0..<8] @ rest))"
    by (simp add: read_u64_le_value append_u64_le_def)
  also have "\<dots> = Some (le_value (map (\<lambda>i. ucast (drop_bit (8 * i) v AND 0xff)) [0..<8]))"
    by (simp add: le_value_def nth_append upt_rec)
  finally show ?thesis by (simp only: le_value_bytes)
qed

lemma length_append_le [simp]:
  "length (append_u32_le payload v) = length payload + 4" "length (append_u64_le payload w) = length payload + 8"
  by (simp_all add: append_u32_le_def append_u64_le_def)

section \<open>Frames\<close>

definition kMaxFrameLen :: nat where "kMaxFrameLen = 2 * 1024 * 1024"

text \<open>\<open>FramedPipe::send\<close>: the length as a 32-bit integer, then the bytes.\<close>

definition frame_bytes :: "bytes \<Rightarrow> bytes" where
  "frame_bytes bs = append_u32_le [] (word_of_nat (length bs)) @ bs"

definition frame_length :: "bytes \<Rightarrow> nat" where
  "frame_length rx = unat (u32_of (rx ! 0) (rx ! 1) (rx ! 2) (rx ! 3))"

text \<open>
  \<open>try_decode_one_frame\<close> on the receive buffer: \<open>room\<close> is the size of the caller's buffer. A length that
  cannot be right costs one byte, to find the next frame.
\<close>

function try_decode_one_frame :: "nat \<Rightarrow> bytes \<Rightarrow> bytes option \<times> bytes" where
  "try_decode_one_frame room rx =
     (if length rx < 4 then (None, rx)
      else let len = frame_length rx
           in if len = 0 \<or> kMaxFrameLen < len then try_decode_one_frame room (tl rx)
              else if length rx < 4 + len then (None, rx)
              else if room < len then (None, rx)
              else (Some (take len (drop 4 rx)), drop (4 + len) rx))"
  by pat_completeness auto
termination
  by (relation "measure (\<lambda>(room, rx). length rx)") auto

declare try_decode_one_frame.simps [simp del]

text \<open>\<open>FramedPipe::receive\<close>: \<open>script\<close> is what the inner pipe returns to the next reads; it then times out.\<close>

datatype pipe_result = Pipe_Success | Pipe_Timeout | Pipe_Disconnected | Pipe_BrokenPipe | Pipe_Error

type_synonym inner_reads = "(pipe_result \<times> bytes) list"

fun receive_loop :: "nat \<Rightarrow> inner_reads \<Rightarrow> bytes \<Rightarrow> (pipe_result \<times> bytes) \<times> bytes \<times> inner_reads" where
  "receive_loop room [] rx = ((Pipe_Timeout, []), snd (try_decode_one_frame room rx), [])"
| "receive_loop room ((Pipe_Success, chunk) # script) rx =
     (if chunk = [] then ((Pipe_Disconnected, []), rx, script)
      else case try_decode_one_frame room (rx @ chunk) of
             (Some bs, rx) \<Rightarrow> ((Pipe_Success, bs), rx, script)
           | (None, rx) \<Rightarrow> receive_loop room script rx)"
| "receive_loop room ((Pipe_Timeout, chunk) # script) rx =
     (case try_decode_one_frame room rx of
        (Some bs, rx) \<Rightarrow> ((Pipe_Success, bs), rx, script)
      | (None, rx) \<Rightarrow> ((Pipe_Timeout, []), rx, script))"
| "receive_loop room ((res, chunk) # script) rx = ((res, []), rx, script)"

definition framed_receive :: "nat \<Rightarrow> inner_reads \<Rightarrow> bytes \<Rightarrow> (pipe_result \<times> bytes) \<times> bytes \<times> inner_reads" where
  "framed_receive room script rx =
     (case try_decode_one_frame room rx of
        (Some bs, rx) \<Rightarrow> ((Pipe_Success, bs), rx, script)
      | (None, rx) \<Rightarrow> receive_loop room script rx)"

text \<open>What a reader has received after \<open>n\<close> calls, if it goes on after each timeout.\<close>

primrec receive_frames :: "nat \<Rightarrow> nat \<Rightarrow> inner_reads \<Rightarrow> bytes \<Rightarrow> bytes list" where
  "receive_frames room 0 script rx = []"
| "receive_frames room (Suc n) script rx =
     (case framed_receive room script rx of
        ((Pipe_Success, bs), rx, script) \<Rightarrow> bs # receive_frames room n script rx
      | ((Pipe_Timeout, _), rx, script) \<Rightarrow> receive_frames room n script rx
      | _ \<Rightarrow> [])"

section \<open>Frames survive the stream\<close>

lemma frame_length_frame_bytes:
  "length bs < 2 ^ 32 \<Longrightarrow> frame_length (frame_bytes bs @ rest) = length bs"
  by (simp add: frame_length_def frame_bytes_def append_u32_le_def nth_append take_bit_nat_eq_self unat_of_nat)

lemma frame_length_append: "4 \<le> length rx \<Longrightarrow> frame_length (rx @ more) = frame_length rx"
  by (cases "rx = []") (simp_all add: frame_length_def nth_append del: One_nat_def)

lemma length_frame_bytes [simp]: "length (frame_bytes bs) = 4 + length bs"
  by (simp add: frame_bytes_def)

lemma drop_frame_bytes [simp]: "drop 4 (frame_bytes bs) = bs"
  by (simp add: frame_bytes_def append_u32_le_def)

definition fits :: "nat \<Rightarrow> bytes \<Rightarrow> bool" where
  "fits room bs \<longleftrightarrow> bs \<noteq> [] \<and> length bs \<le> kMaxFrameLen \<and> length bs \<le> room"

lemma decode_frame: "fits room bs \<Longrightarrow> try_decode_one_frame room (frame_bytes bs @ rest) = (Some bs, rest)"
proof -
  assume bs: "fits room bs"
  then have "length bs < 2 ^ 32" by (simp add: fits_def kMaxFrameLen_def)
  from frame_length_frame_bytes [OF this] have len: "frame_length (frame_bytes bs @ rest) = length bs" by simp
  have "drop (4 + length bs) (frame_bytes bs @ rest) = drop (length bs) (drop 4 (frame_bytes bs @ rest))"
    by (simp only: drop_drop add.commute)
  then have "drop (4 + length bs) (frame_bytes bs @ rest) = rest" by simp
  with bs len show ?thesis by (subst try_decode_one_frame.simps) (simp add: fits_def)
qed

text \<open>More bytes never change what has been decoded, and what was left undecoded is decoded as before.\<close>

definition bad_header :: "bytes \<Rightarrow> bool" where
  "bad_header rx \<longleftrightarrow> 4 \<le> length rx \<and> (frame_length rx = 0 \<or> kMaxFrameLen < frame_length rx)"

lemma bad_header_append: "bad_header rx \<Longrightarrow> bad_header (rx @ more)"
  by (simp add: bad_header_def frame_length_append)

lemma decode_bad: "bad_header rx \<Longrightarrow> try_decode_one_frame room rx = try_decode_one_frame room (tl rx)"
  by (subst try_decode_one_frame.simps) (auto simp: Let_def bad_header_def)

lemma decode_good:
  "\<not> bad_header rx \<Longrightarrow> try_decode_one_frame room rx =
     (if length rx < 4 \<or> length rx < 4 + frame_length rx \<or> room < frame_length rx then (None, rx)
      else (Some (take (frame_length rx) (drop 4 rx)), drop (4 + frame_length rx) rx))"
  by (subst try_decode_one_frame.simps) (auto simp: Let_def bad_header_def)

lemma decode_Nil [simp]: "try_decode_one_frame room [] = (None, [])"
  by (subst try_decode_one_frame.simps) simp

lemma tl_append_bad: "bad_header rx \<Longrightarrow> tl (rx @ more) = tl rx @ more"
  by (cases rx) (auto simp: bad_header_def)

lemma decode_bad_append:
  "bad_header rx \<Longrightarrow> try_decode_one_frame room (rx @ more) = try_decode_one_frame room (tl rx @ more)"
  using decode_bad [OF bad_header_append] tl_append_bad by simp

lemma decode_induct [case_names bad good]:
  assumes "\<And>rx. bad_header rx \<Longrightarrow> P (tl rx) \<Longrightarrow> P rx" and "\<And>rx. \<not> bad_header rx \<Longrightarrow> P rx"
  shows "P rx"
proof (induction "length rx" arbitrary: rx rule: less_induct)
  case less
  show ?case
  proof (cases "bad_header rx")
    case True
    then have "length (tl rx) < length rx" by (cases rx) (auto simp: bad_header_def)
    from less [OF this] assms(1) [OF True] show ?thesis by blast
  qed (rule assms(2))
qed

lemma decode_more_Some:
  "try_decode_one_frame room rx = (Some bs, rx') \<Longrightarrow> try_decode_one_frame room (rx @ more) = (Some bs, rx' @ more)"
proof (induction rx rule: decode_induct)
  case (bad rx)
  then show ?case by (simp add: decode_bad decode_bad_append)
next
  case (good rx)
  from good(2) have len: "4 \<le> length rx" "4 + frame_length rx \<le> length rx" "frame_length rx \<le> room"
    unfolding decode_good [OF good(1)] by (auto split: if_splits)
  from good(1) len(1) have "\<not> bad_header (rx @ more)" by (simp add: bad_header_def frame_length_append)
  from good(2) len show ?case
    unfolding decode_good [OF good(1)] decode_good [OF \<open>\<not> bad_header (rx @ more)\<close>]
    by (auto simp: frame_length_append)
qed

lemma decode_more_None:
  "try_decode_one_frame room rx = (None, rx') \<Longrightarrow> try_decode_one_frame room (rx @ more) = try_decode_one_frame room (rx' @ more)"
proof (induction rx rule: decode_induct)
  case (bad rx)
  then show ?case by (simp add: decode_bad decode_bad_append)
next
  case (good rx)
  then show ?case by (auto simp: decode_good split: if_splits)
qed

text \<open>What the inner pipe may return while it is connected: bytes, or a timeout.\<close>

definition live_reads :: "inner_reads \<Rightarrow> bool" where
  "live_reads script \<longleftrightarrow> list_all (\<lambda>(res, chunk). (res = Pipe_Success \<and> chunk \<noteq> []) \<or> (res = Pipe_Timeout \<and> chunk = [])) script"

definition stream :: "inner_reads \<Rightarrow> bytes" where
  "stream script = concat (map snd script)"

lemma live_reads_simps [simp]:
  "live_reads []" "live_reads ((Pipe_Success, chunk) # script) \<longleftrightarrow> chunk \<noteq> [] \<and> live_reads script"
  "live_reads ((Pipe_Timeout, chunk) # script) \<longleftrightarrow> chunk = [] \<and> live_reads script"
  by (auto simp: live_reads_def)

lemma stream_simps [simp]: "stream [] = []" "stream ((res, chunk) # script) = chunk @ stream script"
  by (simp_all add: stream_def)

lemma live_reads_cases:
  assumes "live_reads script"
  obtains "script = []"
  | chunk rest where "script = (Pipe_Success, chunk) # rest" "chunk \<noteq> []" "live_reads rest"
  | rest where "script = (Pipe_Timeout, []) # rest" "live_reads rest"
  using assms by (cases script) (auto simp: live_reads_def)

text \<open>The head of a stream of frames: decoded when it is there whole, and otherwise left alone.\<close>

lemma decode_head:
  assumes "rx @ more = frame_bytes m @ rest" and fits: "fits room m"
  obtains rx' where "try_decode_one_frame room rx = (Some m, rx')" "rx' @ more = rest"
  | "try_decode_one_frame room rx = (None, rx)" "length rx < 4 + length m"
proof (cases "4 + length m \<le> length rx")
  case True
  let ?r = "drop (4 + length m) rx"
  have "take (4 + length m) rx = take (4 + length m) (rx @ more)" using True by simp
  then have "take (4 + length m) rx = frame_bytes m" by (simp only: assms(1)) simp
  then have "rx = frame_bytes m @ ?r" by (metis append_take_drop_id)
  then obtain r where r: "rx = frame_bytes m @ r" by blast
  with assms(1) have "r @ more = rest" by simp
  with r decode_frame [OF fits] show ?thesis by (intro that(1)) auto
next
  case False
  have "try_decode_one_frame room rx = (None, rx)"
  proof (cases "4 \<le> length rx")
    case long: True
    from fits have m: "length m < 2 ^ 32" "m \<noteq> []" "length m \<le> kMaxFrameLen"
      by (simp_all add: fits_def kMaxFrameLen_def)
    from long have "frame_length rx = frame_length (rx @ more)" by (simp add: frame_length_append)
    also have "\<dots> = length m" by (simp only: assms(1) frame_length_frame_bytes [OF m(1)])
    finally have "frame_length rx = length m" .
    with m False show ?thesis by (subst decode_good) (auto simp: bad_header_def)
  qed (simp add: decode_good bad_header_def)
  with False show ?thesis by (intro that(2)) auto
qed

lemma receive_loop_frame:
  assumes "live_reads script" "rx @ stream script = frame_bytes m @ rest" "fits room m"
    "try_decode_one_frame room rx = (None, rx)"
  shows "(\<exists>rx' script'. receive_loop room script rx = ((Pipe_Success, m), rx', script') \<and>
            live_reads script' \<and> rx' @ stream script' = rest \<and> length script' < length script) \<or>
         (\<exists>rx' script'. receive_loop room script rx = ((Pipe_Timeout, []), rx', script') \<and>
            live_reads script' \<and> rx' @ stream script' = frame_bytes m @ rest \<and> length script' < length script)"
  using assms
proof (induction script arbitrary: rx)
  case Nil
  then have "rx = frame_bytes m @ rest" by simp
  with Nil decode_frame show ?case by simp
next
  case (Cons read script)
  from \<open>live_reads (read # script)\<close> show ?case
  proof (cases rule: live_reads_cases)
    case (2 chunk)
    from Cons(3) 2 have split: "(rx @ chunk) @ stream script = frame_bytes m @ rest" by simp
    show ?thesis
    proof (rule decode_head [OF split Cons(4)])
      fix rx' assume "try_decode_one_frame room (rx @ chunk) = (Some m, rx')" "rx' @ stream script = rest"
      with 2 show ?thesis by simp
    next
      assume none: "try_decode_one_frame room (rx @ chunk) = (None, rx @ chunk)"
      from Cons.IH [of "rx @ chunk"] Cons(4) 2 split none show ?thesis by (auto intro: less_SucI)
    qed
  next
    case (3 rest')
    with Cons show ?thesis by simp
  qed simp
qed

lemma framed_receive_frame:
  assumes "live_reads script" "rx @ stream script = frame_bytes m @ rest" "fits room m"
  shows "(\<exists>rx' script'. framed_receive room script rx = ((Pipe_Success, m), rx', script') \<and>
            live_reads script' \<and> rx' @ stream script' = rest \<and> length script' \<le> length script) \<or>
         (\<exists>rx' script'. framed_receive room script rx = ((Pipe_Timeout, []), rx', script') \<and>
            live_reads script' \<and> rx' @ stream script' = frame_bytes m @ rest \<and> length script' < length script)"
proof (rule decode_head [OF assms(2,3)])
  fix rx' assume "try_decode_one_frame room rx = (Some m, rx')" "rx' @ stream script = rest"
  with assms(1) show ?thesis by (auto simp: framed_receive_def)
next
  assume none: "try_decode_one_frame room rx = (None, rx)"
  with receive_loop_frame [OF assms none] show ?thesis by (auto simp: framed_receive_def)
qed

lemma receive_nothing:
  assumes "live_reads script" "stream script = []"
  shows "receive_frames room n script [] = []"
  using assms
proof (induction n arbitrary: script)
  case (Suc n)
  have "framed_receive room script [] = ((Pipe_Timeout, []), [], tl script)"
    using Suc(2) by (rule live_reads_cases) (use Suc(3) in \<open>simp_all add: framed_receive_def\<close>)
  moreover have "live_reads (tl script)" "stream (tl script) = []"
    using Suc(2,3) by (cases script; simp add: live_reads_def stream_def)+
  ultimately show ?case using Suc.IH by simp
qed simp

text \<open>
  C17: the frames sent reach the reader whole and in the order they were sent, however the byte pipe cuts them
  into chunks and wherever its reads time out, provided each is non-empty, no larger than the frame limit and
  no larger than the reader's buffer, and the reader calls often enough (once per frame and once per timeout).
\<close>

theorem frames_arrive_in_order:
  assumes "live_reads script" "stream script = concat (map frame_bytes sent)" "list_all (fits room) sent"
    and "length sent + length script \<le> calls"
  shows "receive_frames room calls script [] = sent"
proof -
  have "receive_frames room calls script rx = sent"
    if "live_reads script" "rx @ stream script = concat (map frame_bytes sent)" "list_all (fits room) sent"
      "length sent + length script \<le> calls" for calls script rx sent
    using that
  proof (induction calls arbitrary: script rx sent)
    case (Suc n)
    show ?case
    proof (cases sent)
      case Nil
      with Suc(2,3) receive_nothing [of script room "Suc n"] show ?thesis by (simp del: receive_frames.simps)
    next
      case (Cons m ms)
      with Suc(3,4) have head: "rx @ stream script = frame_bytes m @ concat (map frame_bytes ms)" "fits room m"
        and ms: "list_all (fits room) ms" by simp_all
      from framed_receive_frame [OF Suc(2) head] show ?thesis
        using Suc.IH [of _ _ ms] Suc.IH [of _ _ sent] Suc(4,5) Cons ms by fastforce
    qed
  qed simp
  from this [of script "[]"] assms show ?thesis by simp
qed

theorem frames_arrive_in_order_witness:
  "receive_frames 2048 5
     [(Pipe_Success, [2, 0]), (Pipe_Timeout, []), (Pipe_Success, [0, 0, 7, 8, 1, 0, 0, 0, 254])] [] = [[7, 8], [254]]"
  by (rule frames_arrive_in_order)
    (simp_all add: live_reads_def stream_def fits_def kMaxFrameLen_def frame_bytes_def append_u32_le_def drop_bit_Suc)

text \<open>
  A frame the reader's buffer cannot hold is never dropped: nothing behind it is ever delivered.
\<close>

lemma oversized_frame_wedges:
  assumes "length m \<le> kMaxFrameLen" "room < length m"
  shows "try_decode_one_frame room (frame_bytes m @ rest) = (None, frame_bytes m @ rest)"
proof -
  from assms have "length m < 2 ^ 32" by (simp add: kMaxFrameLen_def)
  from frame_length_frame_bytes [OF this] assms show ?thesis by (subst decode_good) (auto simp: bad_header_def)
qed

end
