(* ===== verification/Helper_Wire.thy ===== *)
theory Helper_Wire
  imports Helper_Host Pipe_Framing
begin

text \<open>
  What the control pipe carries (\<open>tools/display_settings_helper_v2.cpp\<close>, \<open>display_settings_client.cpp\<close>):
  the message types, the helper's reading of a frame, its JSON payloads, its handler for a frame and its
  replies. The JSON library and \<open>display_device::fromJson\<close> are not part of the sources: they are the
  parameter \<open>json_lib\<close>.
\<close>

section \<open>Message types and frames\<close>

datatype msg_type =
  Msg_Apply | Msg_Revert | Msg_Reset | Msg_ExportGolden | Msg_LogLevel | Msg_ApplyResult | Msg_Disarm
| Msg_SnapshotCurrent | Msg_VerificationResult | Msg_RefreshRate | Msg_RefreshRateResult | Msg_SnapshotResult
| Msg_Ping | Msg_Stop | Msg_Unknown byte

fun msg_type_code :: "msg_type \<Rightarrow> byte" where
  "msg_type_code Msg_Apply = 1"
| "msg_type_code Msg_Revert = 2"
| "msg_type_code Msg_Reset = 3"
| "msg_type_code Msg_ExportGolden = 4"
| "msg_type_code Msg_LogLevel = 5"
| "msg_type_code Msg_ApplyResult = 6"
| "msg_type_code Msg_Disarm = 7"
| "msg_type_code Msg_SnapshotCurrent = 8"
| "msg_type_code Msg_VerificationResult = 9"
| "msg_type_code Msg_RefreshRate = 10"
| "msg_type_code Msg_RefreshRateResult = 11"
| "msg_type_code Msg_SnapshotResult = 12"
| "msg_type_code Msg_Ping = 0xFE"
| "msg_type_code Msg_Stop = 0xFF"
| "msg_type_code (Msg_Unknown b) = b"

definition named_msg_types :: "msg_type list" where
  "named_msg_types =
     [Msg_Apply, Msg_Revert, Msg_Reset, Msg_ExportGolden, Msg_LogLevel, Msg_ApplyResult, Msg_Disarm,
      Msg_SnapshotCurrent, Msg_VerificationResult, Msg_RefreshRate, Msg_RefreshRateResult, Msg_SnapshotResult,
      Msg_Ping, Msg_Stop]"

definition msg_type_of :: "byte \<Rightarrow> msg_type" where
  "msg_type_of b = (case find (\<lambda>t. msg_type_code t = b) named_msg_types of Some t \<Rightarrow> t | None \<Rightarrow> Msg_Unknown b)"

lemma msg_type_of_code [simp]: "t \<in> set named_msg_types \<Longrightarrow> msg_type_of (msg_type_code t) = t"
  by (auto simp: msg_type_of_def named_msg_types_def)

lemma msg_type_code_of [simp]: "msg_type_code (msg_type_of b) = b"
  by (auto simp: msg_type_of_def find_Some_iff split: option.splits)

lemma named_msg_type [simp]: "t \<in> set named_msg_types \<longleftrightarrow> (\<forall>b. t \<noteq> Msg_Unknown b)"
  by (cases t) (auto simp: named_msg_types_def)

text \<open>\<open>send_message\<close> of the client and \<open>send_framed_content\<close> of the helper: the type, then the payload.\<close>

definition message_bytes :: "msg_type \<Rightarrow> bytes \<Rightarrow> bytes" where
  "message_bytes t payload = msg_type_code t # payload"

text \<open>
  \<open>parse_frame\<close>: a frame may carry a length of its own. The addition \<open>4u + len\<close> is a 32-bit one; when it
  wraps, the payload reaches beyond the frame.
\<close>

datatype parsed_frame = Frame_Rejected | Frame_OutOfBounds | Frame msg_type bytes

definition parse_frame :: "bytes \<Rightarrow> parsed_frame" where
  "parse_frame frame =
     (if frame = [] then Frame_Rejected
      else let len = u32_of (frame ! 0) (frame ! 1) (frame ! 2) (frame ! 3)
           in if 5 \<le> length frame \<and> len > 0 \<and> unat (4 + len) \<le> length frame
              then if length frame < 4 + unat len then Frame_OutOfBounds
                   else Frame (msg_type_of (frame ! 4)) (take (unat len - 1) (drop 5 frame))
              else Frame (msg_type_of (hd frame)) (tl frame))"

text \<open>A length close to \<open>2 ^ 32\<close> passes the test: five bytes suffice.\<close>

lemma parse_frame_wraps: "parse_frame [0xFC, 0xFF, 0xFF, 0xFF, 1] = Frame_OutOfBounds"
proof -
  have "u32_of 0xFC 0xFF 0xFF 0xFF = 0xFFFFFFFC" by code_simp
  then show ?thesis by (simp add: parse_frame_def)
qed

section \<open>Payloads\<close>

definition bytes_string :: "bytes \<Rightarrow> string" where
  "bytes_string bs = map (\<lambda>b. char_of (unat b)) bs"

definition string_bytes :: "string \<Rightarrow> bytes" where
  "string_bytes s = map (\<lambda>c. word_of_nat (of_char c)) s"

lemma bytes_string_inverse [simp]: "bytes_string (string_bytes s) = s"
proof -
  have "unat (word_of_nat (of_char c) :: byte) = of_char c" for c
    by (simp add: unat_of_nat take_bit_nat_eq_self)
  then show ?thesis by (simp add: bytes_string_def string_bytes_def map_idI)
qed

text \<open>The libraries the payload parsers use.\<close>

record json_lib =
  jl_parse :: "string \<Rightarrow> json option"
  jl_dump :: "json \<Rightarrow> string"
  jl_configuration :: "string \<Rightarrow> string + single_display_configuration"

fun is_number_unsigned :: "json \<Rightarrow> bool" where
  "is_number_unsigned (J_Int v) \<longleftrightarrow> 0 \<le> v"
| "is_number_unsigned _ = False"

fun json_bool :: "json \<Rightarrow> bool option" where
  "json_bool (J_Bool b) = Some b"
| "json_bool _ = None"

fun json_string :: "json \<Rightarrow> string option" where
  "json_string (J_String s) = Some s"
| "json_string _ = None"

fun json_strings :: "json list \<Rightarrow> string list" where
  "json_strings vs = List.map_filter json_string vs"

text \<open>\<open>parse_snapshot_exclude_json_node\<close>.\<close>

fun exclude_id :: "json \<Rightarrow> string option" where
  "exclude_id (J_String s) = Some s"
| "exclude_id (J_Object m) =
     (case map_of m ''device_id'' of
        Some (J_String s) \<Rightarrow> Some s
      | _ \<Rightarrow> (case map_of m ''id'' of Some (J_String s) \<Rightarrow> Some s | _ \<Rightarrow> None))"
| "exclude_id _ = None"

fun exclude_node :: "json \<Rightarrow> json" where
  "exclude_node (J_Object m) =
     (case map_of m ''exclude_devices'' of
        Some v \<Rightarrow> v
      | None \<Rightarrow> (case map_of m ''devices'' of Some v \<Rightarrow> v | None \<Rightarrow> J_Object m))"
| "exclude_node v = v"

definition parse_snapshot_exclude_json_node :: "json \<Rightarrow> string list" where
  "parse_snapshot_exclude_json_node node =
     (case exclude_node node of J_Array vs \<Rightarrow> List.map_filter exclude_id vs | _ \<Rightarrow> [])"

definition parse_snapshot_exclude_payload :: "json_lib \<Rightarrow> bytes \<Rightarrow> string list option" where
  "parse_snapshot_exclude_payload L payload =
     (if payload = [] then None
      else case jl_parse L (bytes_string payload) of
             None \<Rightarrow> None
           | Some (J_Object m) \<Rightarrow>
               (if map_of m ''exclude_devices'' = None \<and> map_of m ''devices'' = None then None
                else Some (parse_snapshot_exclude_json_node (J_Object m)))
           | Some j \<Rightarrow> Some (parse_snapshot_exclude_json_node j))"

definition parse_snapshot_request_id :: "json_lib \<Rightarrow> bytes \<Rightarrow> u64" where
  "parse_snapshot_request_id L payload =
     (if payload = [] then 0
      else case jl_parse L (bytes_string payload) of
             Some (J_Object m) \<Rightarrow>
               (case map_of m ''sunshine_snapshot_id'' of
                  Some (J_Int v) \<Rightarrow> if 0 \<le> v then word_of_int v else 0
                | _ \<Rightarrow> 0)
           | _ \<Rightarrow> 0)"

definition snapshot_payload_of :: "json_lib \<Rightarrow> bytes \<Rightarrow> snapshot_command_payload" where
  "snapshot_payload_of L payload =
     (case parse_snapshot_exclude_payload L payload of
        Some ids \<Rightarrow> \<lparr>scp_exclude_devices = ids, scp_update_exclusions = True\<rparr>
      | None \<Rightarrow> \<lparr>scp_exclude_devices = [], scp_update_exclusions = False\<rparr>)"

definition parse_revert_payload :: "json_lib \<Rightarrow> bytes \<Rightarrow> revert_command \<Rightarrow> revert_command" where
  "parse_revert_payload L payload out =
     (if payload = [] then out
      else case jl_parse L (bytes_string payload) of
             Some (J_Object m) \<Rightarrow>
               (let out = (case Option.bind (map_of m ''sunshine_prefer_golden_if_current_missing'') json_bool of
                             Some b \<Rightarrow> out\<lparr>rc_prefer_golden_if_current_missing := b\<rparr>
                           | None \<Rightarrow> out)
                in case Option.bind (map_of m ''sunshine_always_restore_from_golden'') json_bool of
                     Some b \<Rightarrow> out\<lparr>rc_always_restore_from_golden := Some b\<rparr>
                   | None \<Rightarrow> out)
           | _ \<Rightarrow> out)"

text \<open>
  \<open>load_vibeshine_snapshot_exclusions\<close> on the content of the state file (\<open>None\<close>: no such file). The value
  says whether the file held a list.
\<close>

fun is_array :: "json \<Rightarrow> bool" where
  "is_array (J_Array _) = True"
| "is_array _ = False"

definition add_missing :: "string list \<Rightarrow> string list \<Rightarrow> string list" where
  "add_missing ids new = fold (\<lambda>id ids. if id \<in> set ids then ids else ids @ [id]) new ids"

definition load_vibeshine_snapshot_exclusions :: "json_lib \<Rightarrow> string option \<Rightarrow> bool \<times> string list" where
  "load_vibeshine_snapshot_exclusions L content =
     (case Option.bind content (jl_parse L) of
        Some (J_Object j) \<Rightarrow>
          (case map_of j ''root'' of
             Some (J_Object root) \<Rightarrow>
               (let (found, ids) = (case map_of root ''snapshot_exclude_devices'' of
                       None \<Rightarrow> (False, [])
                     | Some v \<Rightarrow> let ids = parse_snapshot_exclude_json_node v in (ids \<noteq> [] \<or> is_array v, ids))
                in case map_of root ''virtual_display_devices'' of
                     None \<Rightarrow> (found, ids)
                   | Some v \<Rightarrow> let ids = add_missing ids (parse_snapshot_exclude_json_node v)
                               in (found \<or> ids \<noteq> [], ids))
           | _ \<Rightarrow> (False, []))
      | _ \<Rightarrow> (False, []))"

subsection \<open>APPLY\<close>

text \<open>
  The fields \<open>parse_apply_payload\<close> moves from the JSON object into the request, one function each, in
  the order of the source. Each takes and gives the object that is left and the request.
\<close>

type_synonym apply_fields = "json smap \<times> apply_request"

definition erase :: "string \<Rightarrow> json smap \<Rightarrow> json smap" where
  "erase k m = filter (\<lambda>kv. fst kv \<noteq> k) m"

fun take_apply_id :: "apply_fields \<Rightarrow> apply_fields" where
  "take_apply_id (j, r) =
     (case map_of j ''sunshine_apply_id'' of
        Some (J_Int v) \<Rightarrow>
          if 0 \<le> v then (erase ''sunshine_apply_id'' j, r\<lparr>ar_request_id := word_of_int v\<rparr>) else (j, r)
      | _ \<Rightarrow> (j, r))"

fun take_omit_reapply :: "apply_fields \<Rightarrow> apply_fields" where
  "take_omit_reapply (j, r) =
     (case map_of j ''sunshine_omit_final_initial_hdr_reapply'' of
        None \<Rightarrow> (j, r)
      | Some v \<Rightarrow> (erase ''sunshine_omit_final_initial_hdr_reapply'' j,
                   r\<lparr>ar_omit_final_initial_hdr_reapply := (json_bool v = Some True)\<rparr>))"

text \<open>The only field whose type is not checked first: \<open>None\<close> is the exception.\<close>

fun take_hdr_blank :: "apply_fields \<Rightarrow> apply_fields option" where
  "take_hdr_blank (j, r) =
     (case map_of j ''wa_hdr_toggle'' of
        None \<Rightarrow> Some (j, r)
      | Some v \<Rightarrow> (case json_bool v of
                     None \<Rightarrow> None
                   | Some b \<Rightarrow> Some (erase ''wa_hdr_toggle'' j, r\<lparr>ar_hdr_blank := b\<rparr>)))"

fun take_virtual_layout :: "apply_fields \<Rightarrow> apply_fields" where
  "take_virtual_layout (j, r) =
     (case map_of j ''sunshine_virtual_layout'' of
        Some (J_String s) \<Rightarrow> (erase ''sunshine_virtual_layout'' j, r\<lparr>ar_virtual_layout := Some s\<rparr>)
      | _ \<Rightarrow> (j, r))"

fun position_entry :: "string \<times> json \<Rightarrow> (device_id \<times> point) option" where
  "position_entry (k, J_Object m) =
     (case (map_of m ''x'', map_of m ''y'') of
        (Some (J_Int x), Some (J_Int y)) \<Rightarrow> Some (k, \<lparr>pt_x = json_get_int x, pt_y = json_get_int y\<rparr>)
      | _ \<Rightarrow> None)"
| "position_entry _ = None"

fun take_monitor_positions :: "apply_fields \<Rightarrow> apply_fields" where
  "take_monitor_positions (j, r) =
     (case map_of j ''sunshine_monitor_positions'' of
        Some (J_Object m) \<Rightarrow>
          (erase ''sunshine_monitor_positions'' j,
           r\<lparr>ar_monitor_positions := ar_monitor_positions r @ List.map_filter position_entry m\<rparr>)
      | _ \<Rightarrow> (j, r))"

fun take_snapshot_exclusions :: "apply_fields \<Rightarrow> apply_fields" where
  "take_snapshot_exclusions (j, r) =
     (case map_of j ''sunshine_snapshot_exclude_devices'' of
        Some v \<Rightarrow> (erase ''sunshine_snapshot_exclude_devices'' j,
                   r\<lparr>ar_snapshot_exclusions := Some (parse_snapshot_exclude_json_node v)\<rparr>)
      | None \<Rightarrow> (j, r))"

fun topology_group :: "json \<Rightarrow> device_id list option" where
  "topology_group (J_Array vs) = (let ids = json_strings vs in if ids = [] then None else Some ids)"
| "topology_group _ = None"

fun take_topology :: "apply_fields \<Rightarrow> apply_fields" where
  "take_topology (j, r) =
     (case map_of j ''sunshine_topology'' of
        Some (J_Array gs) \<Rightarrow>
          (let topo = List.map_filter topology_group gs
           in (erase ''sunshine_topology'' j, if topo = [] then r else r\<lparr>ar_topology := Some topo\<rparr>))
      | _ \<Rightarrow> (j, r))"

fun take_prefer_golden :: "apply_fields \<Rightarrow> apply_fields" where
  "take_prefer_golden (j, r) =
     (case map_of j ''sunshine_always_restore_from_golden'' of
        Some (J_Bool b) \<Rightarrow> (erase ''sunshine_always_restore_from_golden'' j, r\<lparr>ar_prefer_golden_first := b\<rparr>)
      | _ \<Rightarrow> (j, r))"

fun take_restore_on_disconnect :: "apply_fields \<Rightarrow> apply_fields" where
  "take_restore_on_disconnect (j, r) =
     (case map_of j ''sunshine_restore_on_disconnect'' of
        Some (J_Bool b) \<Rightarrow> (erase ''sunshine_restore_on_disconnect'' j, r\<lparr>ar_restore_on_disconnect := b\<rparr>)
      | _ \<Rightarrow> (j, r\<lparr>ar_restore_on_disconnect := True\<rparr>))"

fun override_entry :: "string \<times> json \<Rightarrow> (device_id \<times> (u32 \<times> u32)) option" where
  "override_entry (k, J_Object m) =
     (case (map_of m ''num'', map_of m ''den'') of
        (Some (J_Int n), Some (J_Int d)) \<Rightarrow>
          if 0 \<le> n \<and> 0 \<le> d then Some (k, (word_of_int n, word_of_int d)) else None
      | _ \<Rightarrow> None)"
| "override_entry _ = None"

fun take_refresh_overrides :: "apply_fields \<Rightarrow> apply_fields" where
  "take_refresh_overrides (j, r) =
     (case map_of j ''sunshine_device_refresh_rate_overrides'' of
        Some (J_Object m) \<Rightarrow>
          (erase ''sunshine_device_refresh_rate_overrides'' j,
           r\<lparr>ar_refresh_rate_overrides := ar_refresh_rate_overrides r @ List.map_filter override_entry m\<rparr>)
      | _ \<Rightarrow> (j, r))"

definition take_after_hdr :: "apply_fields \<Rightarrow> apply_fields" where
  "take_after_hdr x =
     take_refresh_overrides (take_restore_on_disconnect (take_prefer_golden (take_topology
       (take_snapshot_exclusions (take_monitor_positions (take_virtual_layout x))))))"

text \<open>
  The text \<open>fromJson\<close> reads and the request so far. An exception leaves the text as it came, with the
  fields that were moved before it.
\<close>

definition sanitize_apply :: "json_lib \<Rightarrow> string \<Rightarrow> apply_request \<Rightarrow> string \<times> apply_request" where
  "sanitize_apply L json r =
     (case jl_parse L json of
        Some (J_Object j) \<Rightarrow>
          (let x = take_omit_reapply (take_apply_id (j, r))
           in case take_hdr_blank x of
                None \<Rightarrow> (json, snd x)
              | Some x \<Rightarrow> let (j, r) = take_after_hdr x in (jl_dump L (J_Object j), r))
      | _ \<Rightarrow> (json, r))"

definition parse_apply_payload :: "json_lib \<Rightarrow> bytes \<Rightarrow> apply_request \<Rightarrow> (string option) \<times> apply_request" where
  "parse_apply_payload L payload r =
     (let (json, r) = sanitize_apply L (bytes_string payload) r
      in case jl_configuration L json of
           Inl parse_error \<Rightarrow> (Some parse_error, r)
         | Inr cfg \<Rightarrow> (None, r\<lparr>ar_configuration := Some cfg\<rparr>))"

section \<open>The helper's side of the pipe\<close>

text \<open>\<open>ActivePipeResponder\<close>: the connected pipe is its epoch; \<open>rsp_sent\<close> is what went through it.\<close>

record responder =
  rsp_pipe :: bool
  rsp_epoch :: u64
  rsp_sent :: "(u64 \<times> bytes) list"

definition rsp_bind :: "u64 \<Rightarrow> responder \<Rightarrow> responder" where
  "rsp_bind epoch r = r\<lparr>rsp_pipe := True, rsp_epoch := epoch\<rparr>"

definition rsp_clear :: "u64 \<Rightarrow> responder \<Rightarrow> responder" where
  "rsp_clear epoch r = (if rsp_epoch r = epoch then r\<lparr>rsp_pipe := False, rsp_epoch := 0\<rparr> else r)"

definition send_for_epoch :: "u64 \<Rightarrow> msg_type \<Rightarrow> bytes \<Rightarrow> responder \<Rightarrow> responder" where
  "send_for_epoch epoch t payload r =
     (if \<not> rsp_pipe r \<or> rsp_epoch r \<noteq> epoch then r
      else r\<lparr>rsp_sent := rsp_sent r @ [(epoch, message_bytes t payload)]\<rparr>)"

text \<open>The process with its pipe: the connection it serves, its replies and the level of its log.\<close>

record 'w endpoint =
  ep_host :: "'w host"
  ep_responder :: responder
  ep_log_level :: nat

definition push_message :: "message \<Rightarrow> 'w host \<Rightarrow> 'w host" where
  "push_message m h = h\<lparr>hst_queue := mq_push m (hst_queue h)\<rparr>"

definition kV2RefreshRateMagic :: u32 where "kV2RefreshRateMagic = 0x32524653"

text \<open>
  \<open>RefreshRate\<close>: the fields of the payload, the correlated (v2) form first. A missing field reads as
  \<open>None\<close>; what follows the fields is the device.
\<close>

record refresh_fields =
  rf_numerator :: "u32 option"
  rf_denominator :: "u32 option"
  rf_request_id :: u64
  rf_device_id :: device_id

definition read_refresh_fields :: "bytes \<Rightarrow> refresh_fields" where
  "read_refresh_fields payload =
     (let correlated_v2 = (read_u32_le payload 0 = Some kV2RefreshRateMagic);
          rate_offset = (if correlated_v2 then 4 else 0);
          device_offset = (if correlated_v2 then rate_offset + 16 else 8)
      in \<lparr>rf_numerator = read_u32_le payload rate_offset,
          rf_denominator = read_u32_le payload (rate_offset + 4),
          rf_request_id = (if correlated_v2 then (case read_u64_le payload (rate_offset + 8) of Some v \<Rightarrow> v | None \<Rightarrow> 0) else 0),
          rf_device_id = bytes_string (drop device_offset payload)\<rparr>)"

definition refresh_reply :: "bool \<Rightarrow> u64 \<Rightarrow> bytes" where
  "refresh_reply success request_id =
     (if request_id = 0 then [of_bool success] else append_u64_le [of_bool success] request_id)"

definition on_refresh_rate :: "u64 \<Rightarrow> bytes \<Rightarrow> 'w endpoint \<Rightarrow> 'w endpoint" where
  "on_refresh_rate epoch payload p =
     (let f = read_refresh_fields payload
      in case (rf_numerator f, rf_denominator f) of
           (Some n, Some d) \<Rightarrow>
             if n = 0 \<or> d = 0 \<or> rf_device_id f = []
             then p\<lparr>ep_responder := send_for_epoch epoch Msg_RefreshRateResult (refresh_reply False (rf_request_id f)) (ep_responder p)\<rparr>
             else p\<lparr>ep_host := push_message (M_RefreshRate
                     \<lparr>rr_device_id = rf_device_id f, rr_numerator = n, rr_denominator = d,
                      rr_generation = sm_generation (hst_machine (ep_host p)), rr_connection_epoch = epoch,
                      rr_request_id = rf_request_id f\<rparr>) (ep_host p)\<rparr>
         | _ \<Rightarrow> p\<lparr>ep_responder := send_for_epoch epoch Msg_RefreshRateResult (refresh_reply False (rf_request_id f)) (ep_responder p)\<rparr>)"

definition on_apply :: "json_lib \<Rightarrow> u64 \<Rightarrow> bytes \<Rightarrow> 'w endpoint \<Rightarrow> 'w endpoint" where
  "on_apply L epoch payload p =
     (case parse_apply_payload L payload default_apply_request of
        (Some parse_failure, r) \<Rightarrow>
          p\<lparr>ep_responder := send_for_epoch epoch Msg_ApplyResult
                (append_u64_le [0] (ar_request_id r) @ string_bytes parse_failure) (ep_responder p)\<rparr>
      | (None, r) \<Rightarrow>
          p\<lparr>ep_host := push_message (M_Apply
                \<lparr>ac_request = r, ac_generation = sm_generation (hst_machine (ep_host p)),
                 ac_connection_epoch = epoch\<rparr>) (ep_host p)\<rparr>)"

text \<open>The rest of \<open>on_message\<close>: what each kind of frame does to the process.\<close>

definition on_frame :: "'w ports \<Rightarrow> json_lib \<Rightarrow> u64 \<Rightarrow> msg_type \<Rightarrow> bytes \<Rightarrow> 'w endpoint \<Rightarrow> 'w endpoint" where
  "on_frame E L epoch t payload p =
     (let h = ep_host p; gen = sm_generation (hst_machine h) in
      case t of
        Msg_Apply \<Rightarrow> on_apply L epoch payload p
      | Msg_Revert \<Rightarrow>
          p\<lparr>ep_host := push_message (M_Revert
               ((parse_revert_payload L payload (default_revert_command\<lparr>rc_generation := gen\<rparr>))\<lparr>rc_connection_epoch := epoch\<rparr>))
               (h\<lparr>hst_restore_origin_epoch := epoch\<rparr>)\<rparr>
      | Msg_Disarm \<Rightarrow> p\<lparr>ep_host := push_message (M_Disarm \<lparr>dc_generation = gen, dc_connection_epoch = epoch\<rparr>) h\<rparr>
      | Msg_ExportGolden \<Rightarrow>
          p\<lparr>ep_host := push_message (M_ExportGolden
               \<lparr>eg_payload = snapshot_payload_of L payload, eg_generation = gen, eg_connection_epoch = epoch\<rparr>) h\<rparr>
      | Msg_SnapshotCurrent \<Rightarrow>
          p\<lparr>ep_host := push_message (M_SnapshotCurrent
               \<lparr>sc_payload = snapshot_payload_of L payload, sc_generation = gen, sc_connection_epoch = epoch,
                sc_request_id = parse_snapshot_request_id L payload\<rparr>) h\<rparr>
      | Msg_RefreshRate \<Rightarrow> on_refresh_rate epoch payload p
      | Msg_Reset \<Rightarrow> p\<lparr>ep_host := push_message (M_Reset \<lparr>rs_generation = gen, rs_connection_epoch = epoch\<rparr>) h\<rparr>
      | Msg_Ping \<Rightarrow>
          p\<lparr>ep_host := h\<lparr>hst_machine := record_ping E (hst_machine h)\<rparr>,
             ep_responder := send_for_epoch epoch Msg_Ping [] (ep_responder p)\<rparr>
      | Msg_LogLevel \<Rightarrow> if payload = [] then p else p\<lparr>ep_log_level := min 6 (unat (hd payload))\<rparr>
      | Msg_Stop \<Rightarrow> p\<lparr>ep_host := h\<lparr>hst_machine := cancel_operations (hst_machine h), hst_running := False\<rparr>\<rparr>
      | _ \<Rightarrow> p)"

text \<open>\<open>on_message\<close>: \<open>None\<close> stands for the read beyond the frame.\<close>

definition on_message :: "'w ports \<Rightarrow> json_lib \<Rightarrow> u64 \<Rightarrow> bytes \<Rightarrow> 'w endpoint \<Rightarrow> 'w endpoint option" where
  "on_message E L epoch frame p =
     (if hst_connection_epoch (ep_host p) \<noteq> epoch then Some p
      else case parse_frame frame of
             Frame_Rejected \<Rightarrow> Some p
           | Frame_OutOfBounds \<Rightarrow> None
           | Frame t payload \<Rightarrow> Some (on_frame E L epoch t payload p))"

text \<open>The result callbacks: the reply that leaves the process for an output of the state machine.\<close>

fun reply_to :: "sm_output \<Rightarrow> (u64 \<times> msg_type \<times> bytes) option" where
  "reply_to (O_ApplyResult status epoch request_id) =
     Some (epoch, Msg_ApplyResult, append_u64_le [of_bool (status = Status_Ok)] request_id)"
| "reply_to (O_VerificationResult success epoch request_id) =
     Some (epoch, Msg_VerificationResult, append_u64_le [of_bool success] request_id)"
| "reply_to (O_SnapshotResult success epoch request_id) =
     (if request_id = 0 then None else Some (epoch, Msg_SnapshotResult, append_u64_le [of_bool success] request_id))"
| "reply_to (O_RefreshRateResult success epoch request_id) =
     Some (epoch, Msg_RefreshRateResult, refresh_reply success request_id)"
| "reply_to _ = None"

definition send_replies :: "sm_output list \<Rightarrow> responder \<Rightarrow> responder" where
  "send_replies outputs r =
     fold (\<lambda>(epoch, t, payload). send_for_epoch epoch t payload) (List.map_filter reply_to outputs) r"

section \<open>The client's requests\<close>

text \<open>The payload \<open>send_refresh_rate\<close> builds; \<open>Some\<close> request id on a helper known to speak v2.\<close>

definition refresh_rate_payload :: "u64 option \<Rightarrow> u32 \<Rightarrow> u32 \<Rightarrow> device_id \<Rightarrow> bytes" where
  "refresh_rate_payload request_id numerator denominator device =
     (let payload = (if request_id \<noteq> None then append_u32_le [] kV2RefreshRateMagic else []);
          payload = append_u32_le (append_u32_le payload numerator) denominator;
          payload = (case request_id of Some v \<Rightarrow> append_u64_le payload v | None \<Rightarrow> payload)
      in payload @ string_bytes device)"

lemma u32_of_sum:
  "u32_of b0 b1 b2 b3 = ucast b0 + push_bit 8 (ucast b1) + push_bit 16 (ucast b2) + push_bit 24 (ucast b3)"
proof -
  have no: "\<not> bit b n" if "8 \<le> n" for b :: byte and n using that by (simp add: bit_word_def not_le impossible_bit)
  have a: "ucast b0 AND push_bit 8 (ucast b1 :: u32) = (0 :: u32)"
    by (rule bit_word_eqI) (use no in \<open>auto simp: bit_simps\<close>)
  have b: "(ucast b0 OR push_bit 8 (ucast b1)) AND push_bit 16 (ucast b2 :: u32) = (0 :: u32)"
    by (rule bit_word_eqI) (use no in \<open>auto simp: bit_simps\<close>)
  have c: "(ucast b0 OR push_bit 8 (ucast b1) OR push_bit 16 (ucast b2)) AND push_bit 24 (ucast b3 :: u32) = (0 :: u32)"
    by (rule bit_word_eqI) (use no in \<open>auto simp: bit_simps\<close>)
  show ?thesis unfolding u32_of_def
    by (simp only: disjunctive_add_eq_or [OF a] disjunctive_add_eq_or [OF b] disjunctive_add_eq_or [OF c] or.assoc)
qed

lemma unat_byte: "unat (b :: byte) < 256"
  using unsigned_less [of b, where 'a = nat] by simp

lemma unat_small_u32: "n < 2 ^ 32 \<Longrightarrow> unat (word_of_nat n :: u32) = n"
  by (simp add: unat_of_nat take_bit_nat_eq_self)

lemma unat_u32_of: "unat (u32_of b0 b1 b2 b3) = unat b0 + 2 ^ 8 * unat b1 + 2 ^ 16 * unat b2 + 2 ^ 24 * unat b3"
proof -
  have "u32_of b0 b1 b2 b3 = word_of_nat (unat b0 + 2 ^ 8 * unat b1 + 2 ^ 16 * unat b2 + 2 ^ 24 * unat b3)"
    by (simp add: u32_of_sum push_bit_eq_mult ac_simps)
  moreover have "unat b0 + 2 ^ 8 * unat b1 + 2 ^ 16 * unat b2 + 2 ^ 24 * unat b3 < 2 ^ 32"
    using unat_byte [of b0] unat_byte [of b1] unat_byte [of b2] unat_byte [of b3] by simp
  ultimately show ?thesis by (simp only: unat_small_u32)
qed

lemma messages_parse:
  assumes "t \<in> set named_msg_types"
    and "length payload < 4 \<or> payload ! 2 \<notin> {0, 255} \<and> length payload \<le> 2 ^ 24"
  shows "parse_frame (message_bytes t payload) = Frame t payload"
proof (cases "length payload < 4")
  case True
  with assms(1) show ?thesis by (simp add: parse_frame_def message_bytes_def)
next
  case False
  with assms(2) have third: "payload ! 2 \<noteq> 0" "payload ! 2 \<noteq> 255" "length payload \<le> 2 ^ 24" by auto
  define len where "len = u32_of (msg_type_code t) (payload ! 0) (payload ! 1) (payload ! 2)"
  have len: "unat len = unat (msg_type_code t) + 2 ^ 8 * unat (payload ! 0) + 2 ^ 16 * unat (payload ! 1) + 2 ^ 24 * unat (payload ! 2)"
    by (simp only: len_def unat_u32_of)
  have "unat (payload ! 2) \<noteq> 0" "unat (payload ! 2) \<noteq> 255"
    using third(1,2) by (auto simp: unat_eq_0 dest: arg_cong [of _ _ "word_of_nat :: nat \<Rightarrow> byte"])
  with unat_byte [of "payload ! 2"] have "0 < unat (payload ! 2)" "unat (payload ! 2) < 255" by linarith+
  with len unat_byte [of "msg_type_code t"] unat_byte [of "payload ! 0"] unat_byte [of "payload ! 1"]
  have bounds: "2 ^ 24 \<le> unat len" "unat len + 4 < 2 ^ 32" by simp_all
  then have "unat (4 + len) = 4 + unat len" by (subst unat_plus_simple [THEN iffD1]) (auto simp: word_le_nat_alt unat_word_ariths)
  with bounds third(3) have "\<not> unat (4 + len) \<le> length (message_bytes t payload)" by (simp add: message_bytes_def)
  with assms(1) show ?thesis by (simp add: parse_frame_def message_bytes_def len_def numeral_2_eq_2 numeral_3_eq_3)
qed

text \<open>
  A message reads back as it was sent (type and payload), unless its payload could pass for a frame of its
  own: that takes a payload of four bytes or more whose third byte is 0 or 255, or 16 MiB of it.
\<close>

theorem messages_read_back:
  assumes "t \<in> set named_msg_types"
    and "length payload < 4 \<or> payload ! 2 \<notin> {0, 255} \<and> length payload \<le> 2 ^ 24"
  shows "parse_frame (message_bytes t payload) = Frame t payload"
  using assms by (rule messages_parse)

theorem messages_read_back_witness:
  "parse_frame (message_bytes Msg_Revert [123, 34, 97, 34, 125]) = Frame Msg_Revert [123, 34, 97, 34, 125]"
  by (rule messages_read_back) simp_all

text \<open>The fields of a refresh-rate request read back.\<close>

lemma read_skip_u32: "length a \<le> n \<Longrightarrow> read_u32_le (a @ b) n = read_u32_le b (n - length a)"
  by (auto simp: read_u32_le_def nth_append dest!: le_Suc_ex)

lemma read_skip_u64: "length a \<le> n \<Longrightarrow> read_u64_le (a @ b) n = read_u64_le b (n - length a)"
  by (auto simp: read_u64_le_value)

lemma append_le_append: "append_u32_le a v @ b = a @ append_u32_le [] v @ b" "append_u64_le a w @ b = a @ append_u64_le [] w @ b"
  by (simp_all add: append_u32_le_def append_u64_le_def)

lemma read_u32_head: "read_u32_le (append_u32_le [] v @ b) 0 = Some v" and read_u64_head: "read_u64_le (append_u64_le [] w @ b) 0 = Some w"
  by simp_all

lemma refresh_payload_v2:
  "refresh_rate_payload (Some req) n d device =
     append_u32_le [] kV2RefreshRateMagic @ append_u32_le [] n @ append_u32_le [] d @ append_u64_le [] req @ string_bytes device"
  by (simp add: refresh_rate_payload_def append_u32_le_def append_u64_le_def Let_def)

lemma refresh_payload_legacy:
  "refresh_rate_payload None n d device = append_u32_le [] n @ append_u32_le [] d @ string_bytes device"
  by (simp add: refresh_rate_payload_def append_u32_le_def Let_def)

lemma read_refresh_v2:
  "read_refresh_fields (refresh_rate_payload (Some req) n d device) =
     \<lparr>rf_numerator = Some n, rf_denominator = Some d, rf_request_id = req, rf_device_id = device\<rparr>"
  unfolding read_refresh_fields_def refresh_payload_v2
  by (simp add: read_u32_head read_u64_head read_skip_u32 read_skip_u64)

lemma read_refresh_legacy:
  "n \<noteq> kV2RefreshRateMagic \<Longrightarrow> read_refresh_fields (refresh_rate_payload None n d device) =
     \<lparr>rf_numerator = Some n, rf_denominator = Some d, rf_request_id = 0, rf_device_id = device\<rparr>"
  unfolding read_refresh_fields_def refresh_payload_legacy
  by (simp add: read_u32_head read_skip_u32)

lemma magic_bytes: "append_u32_le [] kV2RefreshRateMagic = [0x53, 0x46, 0x52, 0x32]"
  by code_simp

lemma length_string_bytes [simp]: "length (string_bytes s) = length s"
  by (simp add: string_bytes_def)

end
