(* ===== verification/Response_Routing.thy ===== *)
theory Response_Routing
  imports Helper_Wire
begin

text \<open>
  The client's side of the replies (\<open>ipc/display_settings_client.cpp\<close>): the state of a connection, the
  decoding of an APPLY reply under each protocol, the inbox that keeps the replies of other requests, and
  the loops that wait for a reply. The response lock makes one thread at a time the reader of a connection,
  so a loop owns the session while it runs.
\<close>

section \<open>A connection\<close>

datatype response_protocol = Proto_Unknown | Proto_Legacy | Proto_V2

record apply_result =
  ares_success :: bool
  ares_protocol :: response_protocol

record session =
  ss_generation :: u64
  ss_protocol :: response_protocol
  ss_untagged_pending :: bool
  ss_inbox :: "bytes list"

definition new_session :: "u64 \<Rightarrow> session" where
  "new_session gen = \<lparr>ss_generation = gen, ss_protocol = Proto_Unknown, ss_untagged_pending = False, ss_inbox = []\<rparr>"

definition kMaxBufferedResponses :: nat where "kMaxBufferedResponses = 32"
definition kMaxIssuedApplyRequestIds :: nat where "kMaxIssuedApplyRequestIds = 64"

text \<open>A bounded \<open>deque\<close>: a full one loses its oldest element.\<close>

definition push_bounded :: "nat \<Rightarrow> 'a \<Rightarrow> 'a list \<Rightarrow> 'a list" where
  "push_bounded limit x xs = (if length xs = limit then tl xs else xs) @ [x]"

definition remember_issued_apply_request_id :: "u64 \<Rightarrow> u64 list \<Rightarrow> u64 list" where
  "remember_issued_apply_request_id req ids = push_bounded kMaxIssuedApplyRequestIds req ids"

definition was_issued_apply_request_id :: "u64 \<Rightarrow> u64 list \<Rightarrow> bool" where
  "was_issued_apply_request_id req ids \<longleftrightarrow> req \<in> set ids"

definition is_bufferable_response :: "byte \<Rightarrow> bool" where
  "is_bufferable_response t \<longleftrightarrow>
     t = msg_type_code Msg_ApplyResult \<or> t = msg_type_code Msg_VerificationResult \<or>
     t = msg_type_code Msg_RefreshRateResult \<or> t = msg_type_code Msg_SnapshotResult"

definition buffer_response :: "bytes \<Rightarrow> session \<Rightarrow> session" where
  "buffer_response bs s =
     (if bs = [] \<or> \<not> is_bufferable_response (hd bs) then s
      else s\<lparr>ss_inbox := push_bounded kMaxBufferedResponses bs (ss_inbox s)\<rparr>)"

definition remember_apply_response_protocol :: "response_protocol \<Rightarrow> session \<Rightarrow> session" where
  "remember_apply_response_protocol protocol s =
     (if protocol = Proto_Unknown \<or> ss_protocol s \<noteq> Proto_Unknown then s else s\<lparr>ss_protocol := protocol\<rparr>)"

definition take_buffered_response :: "msg_type \<Rightarrow> (bytes \<Rightarrow> bool) \<Rightarrow> session \<Rightarrow> bytes option \<times> session" where
  "take_buffered_response t matches s =
     (case List.extract (\<lambda>r. r \<noteq> [] \<and> hd r = msg_type_code t \<and> matches r) (ss_inbox s) of
        None \<Rightarrow> (None, s)
      | Some (before, bs, after) \<Rightarrow> (Some bs, s\<lparr>ss_inbox := before @ after\<rparr>))"

definition response_request_id :: "bytes \<Rightarrow> u64 option" where
  "response_request_id bs = read_u64_le bs 2"

definition response_success :: "bytes \<Rightarrow> bool" where
  "response_success bs \<longleftrightarrow> bs ! 1 \<noteq> 0"

definition decode_apply_response :: "u64 list \<Rightarrow> bytes \<Rightarrow> u64 \<Rightarrow> response_protocol \<Rightarrow> apply_result option" where
  "decode_apply_response issued bs expected protocol =
     (if length bs < 2 then None
      else let legacy = \<lparr>ares_success = response_success bs, ares_protocol = Proto_Legacy\<rparr>;
               v2 = \<lparr>ares_success = response_success bs, ares_protocol = Proto_V2\<rparr>
           in case protocol of
                Proto_Legacy \<Rightarrow> Some legacy
              | Proto_V2 \<Rightarrow> if response_request_id bs = Some expected then Some v2 else None
              | Proto_Unknown \<Rightarrow>
                  (case response_request_id bs of
                     None \<Rightarrow> Some legacy
                   | Some req \<Rightarrow>
                       if req = expected then Some v2
                       else if was_issued_apply_request_id req issued then None
                       else if bs ! 1 = 0 then Some \<lparr>ares_success = False, ares_protocol = Proto_Legacy\<rparr>
                       else None))"

definition matches_verification_response :: "bytes \<Rightarrow> u64 \<Rightarrow> bool" where
  "matches_verification_response bs expected \<longleftrightarrow> response_request_id bs = Some expected"

definition matches_refresh_response :: "bytes \<Rightarrow> u64 option \<Rightarrow> bool" where
  "matches_refresh_response bs expected \<longleftrightarrow> 2 \<le> length bs \<and> response_request_id bs = expected"

definition matches_snapshot_response :: "bytes \<Rightarrow> u64 \<Rightarrow> bool" where
  "matches_snapshot_response bs expected \<longleftrightarrow> 2 \<le> length bs \<and> response_request_id bs = Some expected"

section \<open>Waiting for a reply\<close>

text \<open>
  A loop runs while the deadline lies ahead: the list holds its rounds, and ends at the deadline. A round
  has the answers of the cancellation predicate (before the inbox is looked at, after the read, and before
  a reply is returned) and what the read of the pipe gives. The list a loop returns starts with the first
  round whose read has not taken place.
\<close>

record wait_round =
  wr_cancelled :: bool
  wr_result :: pipe_result
  wr_frame :: bytes
  wr_cancelled_after :: bool
  wr_cancelled_late :: bool

fun wait_for_apply_result_locked ::
  "u64 list \<Rightarrow> u64 \<Rightarrow> response_protocol \<Rightarrow> wait_round list \<Rightarrow> session \<Rightarrow> apply_result option \<times> session \<times> wait_round list" where
  "wait_for_apply_result_locked issued expected protocol [] s = (None, s, [])"
| "wait_for_apply_result_locked issued expected protocol (r # rounds) s =
     (if wr_cancelled r then (None, s, r # rounds)
      else case take_buffered_response Msg_ApplyResult
                  (\<lambda>bs. decode_apply_response issued bs expected protocol \<noteq> None) s of
        (Some bs, s) \<Rightarrow>
          (case decode_apply_response issued bs expected protocol of
             None \<Rightarrow> wait_for_apply_result_locked issued expected protocol rounds s
           | Some result \<Rightarrow>
               (Some result, (remember_apply_response_protocol (ares_protocol result) s)\<lparr>ss_untagged_pending := False\<rparr>, r # rounds))
      | (None, s) \<Rightarrow>
          if wr_result r = Pipe_Timeout then wait_for_apply_result_locked issued expected protocol rounds s
          else if wr_cancelled_after r \<or> wr_result r \<noteq> Pipe_Success \<or> wr_frame r = [] then (None, s, rounds)
          else if hd (wr_frame r) = msg_type_code Msg_ApplyResult
          then (case decode_apply_response issued (wr_frame r) expected protocol of
                  None \<Rightarrow> wait_for_apply_result_locked issued expected protocol rounds (buffer_response (wr_frame r) s)
                | Some result \<Rightarrow>
                    (Some result, (remember_apply_response_protocol (ares_protocol result) s)\<lparr>ss_untagged_pending := False\<rparr>, rounds))
          else wait_for_apply_result_locked issued expected protocol rounds (buffer_response (wr_frame r) s))"

fun wait_for_verification_result_locked ::
  "u64 \<Rightarrow> wait_round list \<Rightarrow> session \<Rightarrow> bool option \<times> session \<times> wait_round list" where
  "wait_for_verification_result_locked expected [] s = (None, s, [])"
| "wait_for_verification_result_locked expected (r # rounds) s =
     (if wr_cancelled r then (None, s, r # rounds)
      else case take_buffered_response Msg_VerificationResult (\<lambda>bs. matches_verification_response bs expected) s of
        (Some bs, s) \<Rightarrow> (if wr_cancelled_late r then None else Some (response_success bs), s, r # rounds)
      | (None, s) \<Rightarrow>
          if wr_result r = Pipe_Timeout then wait_for_verification_result_locked expected rounds s
          else if wr_cancelled_after r \<or> wr_result r \<noteq> Pipe_Success \<or> wr_frame r = [] then (None, s, rounds)
          else if hd (wr_frame r) = msg_type_code Msg_VerificationResult
          then (if length (wr_frame r) < 10 then wait_for_verification_result_locked expected rounds s
                else if \<not> matches_verification_response (wr_frame r) expected
                then wait_for_verification_result_locked expected rounds (buffer_response (wr_frame r) s)
                else (if wr_cancelled_late r then None else Some (response_success (wr_frame r)), s, rounds))
          else wait_for_verification_result_locked expected rounds (buffer_response (wr_frame r) s))"

fun wait_for_refresh_rate_result_locked ::
  "u64 option \<Rightarrow> wait_round list \<Rightarrow> session \<Rightarrow> bool option \<times> session \<times> wait_round list" where
  "wait_for_refresh_rate_result_locked expected [] s = (None, s, [])"
| "wait_for_refresh_rate_result_locked expected (r # rounds) s =
     (if wr_cancelled r then (None, s, r # rounds)
      else case take_buffered_response Msg_RefreshRateResult (\<lambda>bs. matches_refresh_response bs expected) s of
        (Some bs, s) \<Rightarrow> (if wr_cancelled_late r then None else Some (response_success bs), s, r # rounds)
      | (None, s) \<Rightarrow>
          if wr_result r = Pipe_Timeout then wait_for_refresh_rate_result_locked expected rounds s
          else if wr_cancelled_after r \<or> wr_result r \<noteq> Pipe_Success \<or> wr_frame r = [] then (None, s, rounds)
          else if hd (wr_frame r) = msg_type_code Msg_RefreshRateResult
          then (if matches_refresh_response (wr_frame r) expected then (Some (response_success (wr_frame r)), s, rounds)
                else wait_for_refresh_rate_result_locked expected rounds
                       (if response_request_id (wr_frame r) \<noteq> None then buffer_response (wr_frame r) s else s))
          else wait_for_refresh_rate_result_locked expected rounds (buffer_response (wr_frame r) s))"

fun snapshot_result_rounds ::
  "u64 \<Rightarrow> wait_round list \<Rightarrow> session \<Rightarrow> bool option \<times> session \<times> wait_round list" where
  "snapshot_result_rounds expected [] s = (None, s, [])"
| "snapshot_result_rounds expected (r # rounds) s =
     (if wr_cancelled r then (None, s, r # rounds)
      else case take_buffered_response Msg_SnapshotResult (\<lambda>bs. matches_snapshot_response bs expected) s of
        (Some bs, s) \<Rightarrow> (if wr_cancelled_late r then None else Some (response_success bs), s, r # rounds)
      | (None, s) \<Rightarrow>
          if wr_result r = Pipe_Timeout then snapshot_result_rounds expected rounds s
          else if wr_cancelled_after r \<or> wr_result r \<noteq> Pipe_Success \<or> wr_frame r = [] then (None, s, rounds)
          else if hd (wr_frame r) = msg_type_code Msg_SnapshotResult
          then (if matches_snapshot_response (wr_frame r) expected then (Some (response_success (wr_frame r)), s, rounds)
                else snapshot_result_rounds expected rounds
                       (if response_request_id (wr_frame r) \<noteq> None then buffer_response (wr_frame r) s else s))
          else snapshot_result_rounds expected rounds (buffer_response (wr_frame r) s))"

definition wait_for_snapshot_result_locked ::
  "u64 \<Rightarrow> wait_round list \<Rightarrow> session \<Rightarrow> bool option \<times> session \<times> wait_round list" where
  "wait_for_snapshot_result_locked expected rounds s =
     (if expected = 0 then (None, s, rounds) else snapshot_result_rounds expected rounds s)"

section \<open>What every loop does\<close>

text \<open>A reply that says which request it answers.\<close>

definition tagged :: "bytes \<Rightarrow> bool" where
  "tagged bs \<longleftrightarrow> bs \<noteq> [] \<and> is_bufferable_response (hd bs) \<and> response_request_id bs \<noteq> None"

text \<open>The frames the rounds that are over have read.\<close>

definition frames_read :: "wait_round list \<Rightarrow> bytes list" where
  "frames_read rounds = map wr_frame (filter (\<lambda>r. wr_result r = Pipe_Success) rounds)"

definition rounds_run :: "wait_round list \<Rightarrow> wait_round list \<Rightarrow> wait_round list" where
  "rounds_run rounds rest = take (length rounds - length rest) rounds"

definition undisturbed :: "wait_round \<Rightarrow> bool" where
  "undisturbed r \<longleftrightarrow> \<not> wr_cancelled_after r \<and> \<not> wr_cancelled_late r"

lemma frames_read_simps [simp]:
  "frames_read [] = []"
  "frames_read (r # rounds) = (if wr_result r = Pipe_Success then wr_frame r # frames_read rounds else frames_read rounds)"
  by (simp_all add: frames_read_def)

definition tagged_of :: "bytes list \<Rightarrow> bytes multiset" where
  "tagged_of xs = filter_mset tagged (mset xs)"

lemma tagged_of_simps [simp]:
  "tagged_of [] = {#}" "tagged_of (x # xs) = (if tagged x then add_mset x (tagged_of xs) else tagged_of xs)"
  "tagged_of (xs @ ys) = tagged_of xs + tagged_of ys"
  by (simp_all add: tagged_of_def)

lemma rounds_run_Cons: "length rest \<le> length rounds \<Longrightarrow> rounds_run (r # rounds) rest = r # rounds_run rounds rest"
  by (simp add: rounds_run_def Suc_diff_le)

lemma extract_Some:
  "List.extract P xs = Some (ys, x, zs) \<Longrightarrow> xs = ys @ x # zs \<and> P x"
  by (simp add: extract_Some_iff)

lemma push_bounded_room: "length xs < limit \<Longrightarrow> push_bounded limit x xs = xs @ [x]"
  by (simp add: push_bounded_def)

text \<open>
  The four loops share one body. \<open>accepts\<close> is the reply it waits for, \<open>answer\<close> what it returns then,
  \<open>settle\<close> what it records of the connection, \<open>keeps\<close> which other replies of the same type go to the
  inbox; \<open>late_buffered\<close> and \<open>late_read\<close> say which returns look at the predicate once more.
\<close>

locale reply_loop =
  fixes loop :: "wait_round list \<Rightarrow> session \<Rightarrow> 'a option \<times> session \<times> wait_round list"
    and reply :: msg_type
    and accepts :: "bytes \<Rightarrow> bool"
    and answer :: "bytes \<Rightarrow> 'a"
    and settle :: "bytes \<Rightarrow> session \<Rightarrow> session"
    and late_buffered :: "wait_round \<Rightarrow> bool"
    and late_read :: "wait_round \<Rightarrow> bool"
    and keeps :: "bytes \<Rightarrow> bool"
  assumes loop_Nil: "loop [] s = (None, s, [])"
    and loop_Cons: "loop (r # rounds) s =
      (if wr_cancelled r then (None, s, r # rounds)
       else case take_buffered_response reply accepts s of
         (Some bs, s) \<Rightarrow> (if late_buffered r then None else Some (answer bs), settle bs s, r # rounds)
       | (None, s) \<Rightarrow>
           if wr_result r = Pipe_Timeout then loop rounds s
           else if wr_cancelled_after r \<or> wr_result r \<noteq> Pipe_Success \<or> wr_frame r = [] then (None, s, rounds)
           else if hd (wr_frame r) = msg_type_code reply
           then (if accepts (wr_frame r)
                 then (if late_read r then None else Some (answer (wr_frame r)), settle (wr_frame r) s, rounds)
                 else loop rounds (if keeps (wr_frame r) then buffer_response (wr_frame r) s else s))
           else loop rounds (buffer_response (wr_frame r) s))"
    and settle_inbox: "ss_inbox (settle bs s) = ss_inbox s"
    and keeps_tagged: "tagged bs \<Longrightarrow> hd bs = msg_type_code reply \<Longrightarrow> \<not> accepts bs \<Longrightarrow> keeps bs"
    and late: "late_buffered r \<Longrightarrow> wr_cancelled_late r" "late_read r \<Longrightarrow> wr_cancelled_late r"
begin

lemma take_buffered_cases:
  obtains "take_buffered_response reply accepts s = (None, s)"
  | before bs after where
    "take_buffered_response reply accepts s = (Some bs, s\<lparr>ss_inbox := before @ after\<rparr>)"
    "ss_inbox s = before @ bs # after" "bs \<noteq> []" "hd bs = msg_type_code reply" "accepts bs"
proof (cases "List.extract (\<lambda>r. r \<noteq> [] \<and> hd r = msg_type_code reply \<and> accepts r) (ss_inbox s)")
  case None
  then show ?thesis by (intro that(1)) (simp add: take_buffered_response_def)
next
  case (Some x)
  obtain before bs after where x: "x = (before, bs, after)" by (cases x)
  from extract_Some [OF Some [unfolded x]] Some x show ?thesis
    by (intro that(2) [of bs before after]) (auto simp: take_buffered_response_def)
qed

lemma buffered_frames: "set (ss_inbox (buffer_response bs s)) \<subseteq> insert bs (set (ss_inbox s))"
  by (cases "ss_inbox s") (auto simp: buffer_response_def push_bounded_def)

text \<open>An answer comes from a reply of the right type that the request accepts.\<close>

lemma answer_origin:
  assumes "loop rounds s = (Some a, s', rest)"
  shows "\<exists>bs \<in> set (ss_inbox s) \<union> set (frames_read rounds).
           bs \<noteq> [] \<and> hd bs = msg_type_code reply \<and> accepts bs \<and> a = answer bs"
  using assms
proof (induction rounds arbitrary: s)
  case Nil
  then show ?case by (simp add: loop_Nil)
next
  case (Cons r rounds)
  show ?case
  proof (cases rule: take_buffered_cases [of s])
    case 1
    let ?run = "loop (r # rounds) s"
    have "(?run = loop rounds s \<or> wr_result r = Pipe_Success \<and> ?run = loop rounds (buffer_response (wr_frame r) s)) \<or>
        fst ?run = None \<or>
        (fst ?run = Some (answer (wr_frame r)) \<and> wr_result r = Pipe_Success \<and> wr_frame r \<noteq> [] \<and>
         hd (wr_frame r) = msg_type_code reply \<and> accepts (wr_frame r))"
      unfolding loop_Cons 1 by simp
    then consider t where "?run = loop rounds t" "set (ss_inbox t) \<subseteq> set (ss_inbox s) \<union> set (frames_read [r])"
      | "fst ?run = None"
      | "fst ?run = Some (answer (wr_frame r))" "wr_result r = Pipe_Success" "wr_frame r \<noteq> []"
        "hd (wr_frame r) = msg_type_code reply" "accepts (wr_frame r)"
      using buffered_frames [of "wr_frame r" s] by fastforce
    then show ?thesis
    proof cases
      case (1 t)
      with Cons.prems have "loop rounds t = (Some a, s', rest)" by simp
      from Cons.IH [OF this] 1(2) show ?thesis by (auto split: if_splits)
    qed (use Cons.prems in auto)
  next
    case (2 before bs after)
    with Cons.prems show ?thesis unfolding loop_Cons 2(1) by (auto split: if_splits)
  qed
qed

text \<open>One round that is not cancelled.\<close>

lemma one_round:
  assumes "loop [r] s = (res, s', rest)" "\<not> wr_cancelled r" "undisturbed r"
    "wr_result r = Pipe_Timeout \<or> wr_result r = Pipe_Success \<and> wr_frame r \<noteq> []"
  obtains (buffered) before bs after where "ss_inbox s = before @ bs # after" "bs \<noteq> []" "hd bs = msg_type_code reply"
      "accepts bs" "res = Some (answer bs)" "s' = settle bs (s\<lparr>ss_inbox := before @ after\<rparr>)" "rest = [r]"
  | (idle) "wr_result r = Pipe_Timeout" "res = None" "s' = s" "rest = []"
  | (own) "wr_result r = Pipe_Success" "hd (wr_frame r) = msg_type_code reply" "accepts (wr_frame r)"
      "res = Some (answer (wr_frame r))" "s' = settle (wr_frame r) s" "rest = []"
  | (other) "wr_result r = Pipe_Success" "res = None" "rest = []"
      "hd (wr_frame r) \<noteq> msg_type_code reply \<or> \<not> accepts (wr_frame r)" "s' = s \<or> s' = buffer_response (wr_frame r) s"
proof (cases rule: take_buffered_cases [of s])
  case 1
  from assms(2-4) consider "wr_result r = Pipe_Timeout"
    | "wr_result r = Pipe_Success" "wr_frame r \<noteq> []" "hd (wr_frame r) = msg_type_code reply" "accepts (wr_frame r)"
    | "wr_result r = Pipe_Success" "wr_frame r \<noteq> []" "hd (wr_frame r) \<noteq> msg_type_code reply \<or> \<not> accepts (wr_frame r)"
    by blast
  then show ?thesis
  proof cases
    case 1
    with assms(1,2) \<open>take_buffered_response reply accepts s = (None, s)\<close> show ?thesis
      by (intro idle) (simp_all add: loop_Cons loop_Nil)
  next
    case 2
    with assms \<open>take_buffered_response reply accepts s = (None, s)\<close> late [of r] show ?thesis
      by (intro own) (auto simp: loop_Cons undisturbed_def split: if_splits)
  next
    case 3
    with assms \<open>take_buffered_response reply accepts s = (None, s)\<close> show ?thesis
      by (intro other) (auto simp: loop_Cons loop_Nil undisturbed_def split: if_splits)
  qed
next
  case (2 before bs after)
  with assms(1-3) late [of r] show ?thesis
    by (intro buffered [of before bs after]) (auto simp: loop_Cons undisturbed_def split: if_splits)
qed

lemma loop_rest: "loop rounds s = (res, s', rest) \<Longrightarrow> length rest \<le> length rounds"
proof (induction rounds arbitrary: s)
  case (Cons r rounds)
  then show ?case
    unfolding loop_Cons by (auto split: if_splits option.splits prod.splits dest: Cons.IH intro: le_SucI)
qed (simp add: loop_Nil)

text \<open>Until then it keeps every tagged reply it does not return.\<close>

lemma tagged_replies_kept:
  assumes "loop rounds s = (res, s', rest)" "list_all undisturbed rounds"
    "length (ss_inbox s) + length (frames_read rounds) \<le> kMaxBufferedResponses"
  shows "\<exists>taken. tagged_of (ss_inbox s) + tagged_of (frames_read (rounds_run rounds rest)) =
                 tagged_of (ss_inbox s') + tagged_of taken \<and>
           (case res of None \<Rightarrow> taken = [] | Some a \<Rightarrow> \<exists>bs. taken = [bs] \<and> accepts bs \<and> a = answer bs)"
  using assms
proof (induction rounds arbitrary: s)
  case Nil
  then show ?case by (simp add: loop_Nil rounds_run_def)
next
  case (Cons r rounds)
  show ?case
  proof (cases rule: take_buffered_cases [of s])
    case 1
    have go_on: ?thesis if looped: "loop rounds t = (res, s', rest)" and
      room: "length (ss_inbox t) + length (frames_read rounds) \<le> kMaxBufferedResponses" and
      same: "tagged_of (ss_inbox t) = tagged_of (ss_inbox s) + tagged_of (frames_read [r])" for t
    proof -
      obtain taken where taken: "tagged_of (ss_inbox t) + tagged_of (frames_read (rounds_run rounds rest)) =
          tagged_of (ss_inbox s') + tagged_of taken"
        "case res of None \<Rightarrow> taken = [] | Some a \<Rightarrow> \<exists>bs. taken = [bs] \<and> accepts bs \<and> a = answer bs"
        using Cons.IH [OF looped _ room] Cons.prems(2) by auto
      have "rounds_run (r # rounds) rest = r # rounds_run rounds rest" using loop_rest [OF looped] by (rule rounds_run_Cons)
      with taken(1) same have "tagged_of (ss_inbox s) + tagged_of (frames_read (rounds_run (r # rounds) rest)) =
          tagged_of (ss_inbox s') + tagged_of taken"
        by (simp add: add.assoc split: if_splits)
      with taken(2) show ?thesis by blast
    qed
    have frame: "tagged_of (ss_inbox (buffer_response bs s)) = tagged_of (ss_inbox s) + tagged_of [bs]"
      "length (ss_inbox (buffer_response bs s)) \<le> Suc (length (ss_inbox s))"
      if "length (ss_inbox s) < kMaxBufferedResponses" for bs
      using that by (auto simp: buffer_response_def push_bounded_room tagged_def)
    consider (stop) "wr_cancelled r" | (time) "\<not> wr_cancelled r" "wr_result r = Pipe_Timeout"
      | (gone) "\<not> wr_cancelled r" "wr_result r \<noteq> Pipe_Timeout" "wr_result r \<noteq> Pipe_Success \<or> wr_frame r = []"
      | (mine) "\<not> wr_cancelled r" "wr_result r = Pipe_Success" "wr_frame r \<noteq> []"
          "hd (wr_frame r) = msg_type_code reply" "accepts (wr_frame r)"
      | (dropped) "\<not> wr_cancelled r" "wr_result r = Pipe_Success" "wr_frame r \<noteq> []"
          "hd (wr_frame r) = msg_type_code reply" "\<not> accepts (wr_frame r)" "\<not> keeps (wr_frame r)"
      | (kept) "\<not> wr_cancelled r" "wr_result r = Pipe_Success" "wr_frame r \<noteq> []"
          "hd (wr_frame r) \<noteq> msg_type_code reply \<or> \<not> accepts (wr_frame r) \<and> keeps (wr_frame r)"
      by blast
    then show ?thesis
    proof cases
      case stop
      with Cons.prems show ?thesis unfolding loop_Cons by (simp add: rounds_run_def)
    next
      case time
      with Cons.prems 1 show ?thesis by (intro go_on [of s]) (simp_all add: loop_Cons)
    next
      case gone
      with Cons.prems 1 show ?thesis unfolding loop_Cons by (auto simp: rounds_run_def tagged_def)
    next
      case mine
      with Cons.prems 1 have "res = Some (answer (wr_frame r))" "s' = settle (wr_frame r) s" "rest = rounds"
        unfolding loop_Cons by (auto simp: undisturbed_def dest: late split: if_splits)
      with mine show ?thesis by (intro exI [of _ "[wr_frame r]"]) (simp add: rounds_run_def settle_inbox)
    next
      case dropped
      then have "\<not> tagged (wr_frame r)" using keeps_tagged by blast
      with dropped Cons.prems 1 show ?thesis by (intro go_on [of s]) (auto simp: loop_Cons undisturbed_def)
    next
      case kept
      with Cons.prems 1 have "loop rounds (buffer_response (wr_frame r) s) = (res, s', rest)"
        unfolding loop_Cons by (auto simp: undisturbed_def split: if_splits)
      with kept Cons.prems 1 frame [of "wr_frame r"] show ?thesis
        by (intro go_on [of "buffer_response (wr_frame r) s"]) auto
    qed
  next
    case (2 before bs after)
    show ?thesis
    proof (cases "wr_cancelled r")
      case False
      with Cons.prems 2 have "res = Some (answer bs)" "s' = settle bs (s\<lparr>ss_inbox := before @ after\<rparr>)" "rest = r # rounds"
        unfolding loop_Cons by (auto simp: undisturbed_def dest: late split: if_splits)
      with 2 show ?thesis by (intro exI [of _ "[bs]"]) (simp add: rounds_run_def settle_inbox)
    qed (use Cons.prems in \<open>simp add: loop_Cons rounds_run_def\<close>)
  qed
qed

end

section \<open>The four loops\<close>

abbreviation settled :: "u64 list \<Rightarrow> u64 \<Rightarrow> response_protocol \<Rightarrow> bytes \<Rightarrow> session \<Rightarrow> session" where
  "settled issued expected protocol bs s \<equiv>
     (remember_apply_response_protocol (ares_protocol (the (decode_apply_response issued bs expected protocol))) s)
       \<lparr>ss_untagged_pending := False\<rparr>"

lemma remember_keeps_inbox [simp]: "ss_inbox (remember_apply_response_protocol protocol s) = ss_inbox s"
  by (simp add: remember_apply_response_protocol_def)

lemma matches_length [simp]: "matches_verification_response bs expected \<Longrightarrow> \<not> length bs < 10"
  by (auto simp: matches_verification_response_def response_request_id_def read_u64_le_def)

lemma tagged_length: "tagged bs \<Longrightarrow> 10 \<le> length bs"
  by (auto simp: tagged_def response_request_id_def read_u64_le_def split: if_splits)

lemma take_buffered_accepts:
  "take_buffered_response t P s = (Some bs, s') \<Longrightarrow> P bs"
  by (auto simp: take_buffered_response_def dest: extract_Some split: option.splits prod.splits)

interpretation apply_wait: reply_loop
  "wait_for_apply_result_locked issued expected protocol" Msg_ApplyResult
  "\<lambda>bs. decode_apply_response issued bs expected protocol \<noteq> None"
  "\<lambda>bs. the (decode_apply_response issued bs expected protocol)" "settled issued expected protocol"
  "\<lambda>r. False" "\<lambda>r. False" "\<lambda>bs. True"
  for issued expected protocol
proof (unfold_locales, goal_cases)
  case (2 r rounds s)
  show ?case by (auto split: option.splits prod.splits dest: take_buffered_accepts)
qed simp_all

interpretation verification_wait: reply_loop
  "wait_for_verification_result_locked expected" Msg_VerificationResult
  "\<lambda>bs. matches_verification_response bs expected" response_success "\<lambda>bs s. s"
  wr_cancelled_late wr_cancelled_late "\<lambda>bs. 10 \<le> length bs"
  for expected
proof (unfold_locales, goal_cases)
  case (2 r rounds s)
  show ?case by (auto split: option.splits prod.splits)
qed (simp_all add: tagged_length)

interpretation refresh_wait: reply_loop
  "wait_for_refresh_rate_result_locked expected" Msg_RefreshRateResult
  "\<lambda>bs. matches_refresh_response bs expected" response_success "\<lambda>bs s. s"
  wr_cancelled_late "\<lambda>r. False" "\<lambda>bs. response_request_id bs \<noteq> None"
  for expected
proof (unfold_locales, goal_cases)
  case (2 r rounds s)
  show ?case by (auto split: option.splits prod.splits)
qed (simp_all add: tagged_def)

interpretation snapshot_wait: reply_loop
  "snapshot_result_rounds expected" Msg_SnapshotResult
  "\<lambda>bs. matches_snapshot_response bs expected" response_success "\<lambda>bs s. s"
  wr_cancelled_late "\<lambda>r. False" "\<lambda>bs. response_request_id bs \<noteq> None"
  for expected
proof (unfold_locales, goal_cases)
  case (2 r rounds s)
  show ?case by (auto split: option.splits prod.splits)
qed (simp_all add: tagged_def)

section \<open>Replies go to the request they answer\<close>

lemma v2_accepts:
  "decode_apply_response issued bs expected Proto_V2 = Some a \<longleftrightarrow>
     response_request_id bs = Some expected \<and> a = \<lparr>ares_success = response_success bs, ares_protocol = Proto_V2\<rparr>"
  by (auto simp: decode_apply_response_def Let_def response_request_id_def read_u64_le_def split: if_splits)

text \<open>
  On a connection known to speak v2, the wait for an APPLY result returns only an APPLY reply that carries
  the request's own id, and the verdict is that reply's: a late reply of a superseded request is never taken
  for the new one's.
\<close>

theorem v2_apply_answer_is_its_own:
  assumes "wait_for_apply_result_locked issued expected Proto_V2 rounds s = (Some result, s', rest)"
  shows "\<exists>bs \<in> set (ss_inbox s) \<union> set (frames_read rounds).
    hd bs = msg_type_code Msg_ApplyResult \<and> response_request_id bs = Some expected \<and>
    result = \<lparr>ares_success = response_success bs, ares_protocol = Proto_V2\<rparr>"
proof -
  obtain bs where bs: "bs \<in> set (ss_inbox s) \<union> set (frames_read rounds)" "hd bs = msg_type_code Msg_ApplyResult"
    "decode_apply_response issued bs expected Proto_V2 \<noteq> None" "result = the (decode_apply_response issued bs expected Proto_V2)"
    using apply_wait.answer_origin [OF assms] by blast
  then obtain a where "decode_apply_response issued bs expected Proto_V2 = Some a" by blast
  with bs show ?thesis by (intro bexI [OF _ bs(1)]) (simp add: v2_accepts)
qed

text \<open>
  A thread that waits for one request's verification keeps the replies of the others: every tagged reply
  that was in the inbox or came off the pipe meanwhile is in the inbox afterwards, except the answer the wait
  returns, which carries its id (as long as the inbox has room and the wait is not cancelled after a read).
\<close>

theorem verification_wait_keeps_other_replies:
  assumes "wait_for_verification_result_locked expected rounds s = (res, s', rest)"
    and "list_all undisturbed rounds"
    and "length (ss_inbox s) + length (frames_read rounds) \<le> kMaxBufferedResponses"
  shows "\<exists>taken. tagged_of (ss_inbox s) + tagged_of (frames_read (rounds_run rounds rest)) =
                 tagged_of (ss_inbox s') + tagged_of taken \<and>
           (case res of None \<Rightarrow> taken = []
            | Some ok \<Rightarrow> \<exists>bs. taken = [bs] \<and> response_request_id bs = Some expected \<and> ok = response_success bs)"
  using verification_wait.tagged_replies_kept [OF assms] unfolding matches_verification_response_def .

text \<open>What the helper sends for a request is the reply its client recognises, and no other client's wait does.\<close>

lemma failure_reply_tag:
  "response_request_id (message_bytes t (append_u64_le [b] req @ detail)) = Some req"
  "response_success (message_bytes t (append_u64_le [b] req @ detail)) \<longleftrightarrow> b \<noteq> 0"
proof -
  have "message_bytes t (append_u64_le [b] req @ detail) = [msg_type_code t, b] @ append_u64_le [] req @ detail"
    by (simp add: message_bytes_def append_u64_le_def)
  then show "response_request_id (message_bytes t (append_u64_le [b] req @ detail)) = Some req"
    using read_skip_u64 [of "[msg_type_code t, b]" 2 "append_u64_le [] req @ detail"] read_u64_head [of req detail]
    by (simp add: response_request_id_def)
  show "response_success (message_bytes t (append_u64_le [b] req @ detail)) \<longleftrightarrow> b \<noteq> 0"
    by (simp add: response_success_def message_bytes_def append_u64_le_def)
qed

lemmas helper_reply_tag [simp] = failure_reply_tag [where detail = "[]", simplified]

lemma helper_apply_reply_decodes:
  assumes "reply_to (O_ApplyResult status epoch req) = Some (epoch, t, payload)"
  shows "decode_apply_response issued (message_bytes t payload) expected Proto_V2 =
           (if expected = req then Some \<lparr>ares_success = (status = Status_Ok), ares_protocol = Proto_V2\<rparr> else None)"
proof -
  have m: "t = Msg_ApplyResult" "payload = append_u64_le [of_bool (status = Status_Ok)] req" using assms by auto
  have "2 \<le> length (message_bytes t payload)" by (simp add: m message_bytes_def)
  then show ?thesis unfolding m decode_apply_response_def Let_def by simp
qed

end
