(* ===== verification/Wire_Properties.thy ===== *)
theory Wire_Properties
  imports Host_Properties Response_Routing
begin

text \<open>
  What holds of a message from one end of the pipe to the other: the request the client sends, the command
  the helper queues for it and the reply the client takes for its answer.
\<close>

text \<open>
  C18: a correlated refresh-rate request of the client reaches the helper's mailbox as the command it describes:
  the same device, rate and request id, under the connection's epoch and the current generation.
\<close>

theorem refresh_request_arrives:
  assumes "hst_connection_epoch (ep_host p) = epoch" "n \<noteq> 0" "d \<noteq> 0" "device \<noteq> []" "length device < 2 ^ 20"
  shows "on_message E L epoch (message_bytes Msg_RefreshRate (refresh_rate_payload (Some req) n d device)) p =
    Some (p\<lparr>ep_host := push_message (M_RefreshRate
      \<lparr>rr_device_id = device, rr_numerator = n, rr_denominator = d,
       rr_generation = sm_generation (hst_machine (ep_host p)), rr_connection_epoch = epoch,
       rr_request_id = req\<rparr>) (ep_host p)\<rparr>)"
proof -
  let ?payload = "refresh_rate_payload (Some req) n d device"
  have "length ?payload = 20 + length device" by (simp add: refresh_payload_v2)
  moreover have "?payload ! 2 = 0x52"
    by (simp add: refresh_payload_v2 magic_bytes numeral_2_eq_2)
  ultimately have "parse_frame (message_bytes Msg_RefreshRate ?payload) = Frame Msg_RefreshRate ?payload"
    using assms(5) by (intro messages_parse) simp_all
  with assms show ?thesis
    by (simp add: on_message_def on_frame_def on_refresh_rate_def read_refresh_v2)
qed

definition sim_endpoint :: "sim endpoint" where
  "sim_endpoint = \<lparr>ep_host = sim_host\<lparr>hst_connection_epoch := 1\<rparr>,
     ep_responder = rsp_bind 1 \<lparr>rsp_pipe = False, rsp_epoch = 0, rsp_sent = []\<rparr>, ep_log_level = 2\<rparr>"

theorem refresh_request_arrives_witness:
  "\<forall>L. on_message sim_ports L 1
      (message_bytes Msg_RefreshRate (refresh_rate_payload (Some 7) 120000 1001 ''{D}'')) sim_endpoint =
    Some (sim_endpoint\<lparr>ep_host := push_message (M_RefreshRate
      \<lparr>rr_device_id = ''{D}'', rr_numerator = 120000, rr_denominator = 1001,
       rr_generation = sm_generation (hst_machine (ep_host sim_endpoint)), rr_connection_epoch = 1,
       rr_request_id = 7\<rparr>) (ep_host sim_endpoint)\<rparr>)"
  by (rule allI, rule refresh_request_arrives) (simp_all add: sim_endpoint_def)

section \<open>An APPLY keeps its id\<close>

lemma take_keep_id [simp]:
  "ar_request_id (snd (take_omit_reapply x)) = ar_request_id (snd x)"
  "ar_request_id (snd (take_virtual_layout x)) = ar_request_id (snd x)"
  "ar_request_id (snd (take_monitor_positions x)) = ar_request_id (snd x)"
  "ar_request_id (snd (take_snapshot_exclusions x)) = ar_request_id (snd x)"
  "ar_request_id (snd (take_topology x)) = ar_request_id (snd x)"
  "ar_request_id (snd (take_prefer_golden x)) = ar_request_id (snd x)"
  "ar_request_id (snd (take_restore_on_disconnect x)) = ar_request_id (snd x)"
  "ar_request_id (snd (take_refresh_overrides x)) = ar_request_id (snd x)"
  by (cases x; auto simp: Let_def split: option.splits json.splits)+

lemma take_hdr_keeps_id: "take_hdr_blank x = Some y \<Longrightarrow> ar_request_id (snd y) = ar_request_id (snd x)"
  by (cases x) (auto split: option.splits)

declare take_apply_id.simps [simp del] take_omit_reapply.simps [simp del] take_hdr_blank.simps [simp del]

lemma take_after_hdr_keeps_id [simp]: "ar_request_id (snd (take_after_hdr x)) = ar_request_id (snd x)"
  by (simp only: take_after_hdr_def take_keep_id)

lemma sanitize_request:
  assumes "jl_parse L json = Some (J_Object j)"
  shows "snd (sanitize_apply L json r) =
    (let x = take_omit_reapply (take_apply_id (j, r))
     in case take_hdr_blank x of None \<Rightarrow> snd x | Some y \<Rightarrow> snd (take_after_hdr y))"
  using assms by (simp add: sanitize_apply_def Let_def split: option.split prod.split)

lemma sanitize_keeps_id:
  assumes "jl_parse L json = Some (J_Object j)" "map_of j ''sunshine_apply_id'' = Some (J_Int (uint req))"
  shows "ar_request_id (snd (sanitize_apply L json r)) = req"
proof -
  define x where "x = take_omit_reapply (take_apply_id (j, r))"
  have id: "ar_request_id (snd x) = req" using assms(2) unfolding x_def take_keep_id by (simp add: take_apply_id.simps)
  show ?thesis
  proof (cases "take_hdr_blank x")
    case None
    with id assms(1) show ?thesis by (simp add: sanitize_request Let_def flip: x_def)
  next
    case (Some y)
    with id assms(1) take_hdr_keeps_id [OF Some] show ?thesis by (simp add: sanitize_request Let_def flip: x_def)
  qed
qed

lemma parse_apply_keeps_id:
  assumes "jl_parse L (bytes_string payload) = Some (J_Object j)"
    and "map_of j ''sunshine_apply_id'' = Some (J_Int (uint req))"
  shows "ar_request_id (snd (parse_apply_payload L payload r)) = req"
  using sanitize_keeps_id [OF assms, of r]
  by (auto simp: parse_apply_payload_def split: prod.split sum.split)

text \<open>
  C19: an APPLY that carries an id is either queued under that id, or refused with a reply that the client's
  wait for that id decodes, as a failure; whatever else the payload holds.
\<close>

theorem apply_id_is_kept:
  assumes "jl_parse L (bytes_string payload) = Some (J_Object j)"
    and "map_of j ''sunshine_apply_id'' = Some (J_Int (uint req))"
    and "rsp_pipe (ep_responder p)" "rsp_epoch (ep_responder p) = epoch"
  shows "(\<exists>c. on_apply L epoch payload p = p\<lparr>ep_host := push_message (M_Apply c) (ep_host p)\<rparr> \<and>
              ar_request_id (ac_request c) = req \<and> ac_connection_epoch c = epoch) \<or>
         (\<exists>bs. on_apply L epoch payload p =
              p\<lparr>ep_responder := (ep_responder p)\<lparr>rsp_sent := rsp_sent (ep_responder p) @ [(epoch, bs)]\<rparr>\<rparr> \<and>
              decode_apply_response issued bs req Proto_V2 = Some \<lparr>ares_success = False, ares_protocol = Proto_V2\<rparr>)"
proof -
  obtain f r where fr: "parse_apply_payload L payload default_apply_request = (f, r)" by fastforce
  with parse_apply_keeps_id [OF assms(1,2), of default_apply_request] have id: "ar_request_id r = req" by simp
  show ?thesis
  proof (cases f)
    case None
    let ?c = "\<lparr>ac_request = r, ac_generation = sm_generation (hst_machine (ep_host p)), ac_connection_epoch = epoch\<rparr>"
    from fr id None show ?thesis by (intro disjI1 exI [of _ ?c]) (simp add: on_apply_def)
  next
    case (Some e)
    let ?bs = "message_bytes Msg_ApplyResult (append_u64_le [0] req @ string_bytes e)"
    have "decode_apply_response issued ?bs req Proto_V2 = Some \<lparr>ares_success = False, ares_protocol = Proto_V2\<rparr>"
      by (simp add: v2_accepts failure_reply_tag)
    with fr id Some assms(3,4) show ?thesis by (intro disjI2) (auto simp: on_apply_def send_for_epoch_def)
  qed
qed

definition sim_lib :: json_lib where
  "sim_lib = \<lparr>jl_parse = (\<lambda>_. Some (J_Object [(''sunshine_apply_id'', J_Int 5)])), jl_dump = (\<lambda>_. ''{}''),
                jl_configuration = (\<lambda>_. Inl ''no device'')\<rparr>"

theorem apply_id_is_kept_witness:
  "(\<exists>c. on_apply sim_lib 1 [123, 125] sim_endpoint = sim_endpoint\<lparr>ep_host := push_message (M_Apply c) (ep_host sim_endpoint)\<rparr> \<and>
        ar_request_id (ac_request c) = 5 \<and> ac_connection_epoch c = 1) \<or>
   (\<exists>bs. on_apply sim_lib 1 [123, 125] sim_endpoint =
        sim_endpoint\<lparr>ep_responder := (ep_responder sim_endpoint)\<lparr>rsp_sent := rsp_sent (ep_responder sim_endpoint) @ [(1, bs)]\<rparr>\<rparr> \<and>
        decode_apply_response [] bs 5 Proto_V2 = Some \<lparr>ares_success = False, ares_protocol = Proto_V2\<rparr>)"
  by (rule apply_id_is_kept [where j = "[(''sunshine_apply_id'', J_Int 5)]"])
    (simp_all add: sim_lib_def sim_endpoint_def rsp_bind_def)

section \<open>What reaches the mailbox\<close>

definition int32 :: "int \<Rightarrow> bool" where
  "int32 v \<longleftrightarrow> - (2 ^ 31) \<le> v \<and> v < 2 ^ 31"

definition fields_wf :: "apply_request \<Rightarrow> bool" where
  "fields_wf r \<longleftrightarrow>
     (case ar_topology r of None \<Rightarrow> True | Some t \<Rightarrow> t \<noteq> [] \<and> [] \<notin> set t) \<and>
     list_all (\<lambda>(d, p). int32 (pt_x p) \<and> int32 (pt_y p)) (ar_monitor_positions r)"

fun message_wf :: "message \<Rightarrow> bool" where
  "message_wf (M_Apply c) \<longleftrightarrow> fields_wf (ac_request c) \<and> ar_configuration (ac_request c) \<noteq> None"
| "message_wf (M_RefreshRate c) \<longleftrightarrow> rr_device_id c \<noteq> [] \<and> rr_numerator c \<noteq> 0 \<and> rr_denominator c \<noteq> 0"
| "message_wf _ \<longleftrightarrow> True"

lemma json_get_int_range [simp]: "int32 (json_get_int v)"
  using signed_take_bit_int_greater_eq_minus_exp [of 31 v] signed_take_bit_int_less_exp [of 31 v]
  by (simp add: int32_def json_get_int_def)

lemma position_entry_range: "position_entry kv = Some (d, p) \<Longrightarrow> int32 (pt_x p) \<and> int32 (pt_y p)"
  by (cases kv rule: position_entry.cases) (auto split: option.splits json.splits)

lemma topology_group_nonempty: "topology_group v = Some g \<Longrightarrow> g \<noteq> []"
  by (cases v) (auto simp: Let_def split: if_splits)

lemma set_map_filter: "x \<in> set (List.map_filter f xs) \<longleftrightarrow> (\<exists>y \<in> set xs. f y = Some x)"
  by (induction xs) (auto simp: map_filter_simps split: option.splits)

lemma take_keep_wf [simp]:
  "fields_wf (snd x) \<Longrightarrow> fields_wf (snd (take_apply_id x))"
  "fields_wf (snd x) \<Longrightarrow> fields_wf (snd (take_omit_reapply x))"
  "fields_wf (snd x) \<Longrightarrow> fields_wf (snd (take_virtual_layout x))"
  "fields_wf (snd x) \<Longrightarrow> fields_wf (snd (take_monitor_positions x))"
  "fields_wf (snd x) \<Longrightarrow> fields_wf (snd (take_snapshot_exclusions x))"
  "fields_wf (snd x) \<Longrightarrow> fields_wf (snd (take_topology x))"
  "fields_wf (snd x) \<Longrightarrow> fields_wf (snd (take_prefer_golden x))"
  "fields_wf (snd x) \<Longrightarrow> fields_wf (snd (take_restore_on_disconnect x))"
  "fields_wf (snd x) \<Longrightarrow> fields_wf (snd (take_refresh_overrides x))"
  by (cases x; auto simp: fields_wf_def take_apply_id.simps take_omit_reapply.simps Let_def list_all_iff set_map_filter
      dest: position_entry_range topology_group_nonempty split: option.splits json.splits)+

lemma take_hdr_keeps_wf: "take_hdr_blank x = Some y \<Longrightarrow> fields_wf (snd x) \<Longrightarrow> fields_wf (snd y)"
  by (cases x) (auto simp: fields_wf_def take_hdr_blank.simps split: option.splits)

lemma take_after_hdr_keeps_wf [simp]: "fields_wf (snd x) \<Longrightarrow> fields_wf (snd (take_after_hdr x))"
  by (simp add: take_after_hdr_def del: take_virtual_layout.simps take_monitor_positions.simps)

lemma sanitize_keeps_wf: "fields_wf r \<Longrightarrow> fields_wf (snd (sanitize_apply L json r))"
proof -
  assume r: "fields_wf r"
  show ?thesis
  proof (cases "\<exists>j. jl_parse L json = Some (J_Object j)")
    case True
    then obtain j where j: "jl_parse L json = Some (J_Object j)" by blast
    define x where "x = take_omit_reapply (take_apply_id (j, r))"
    with r have "fields_wf (snd x)" by simp
    with sanitize_request [OF j] show ?thesis
      by (auto simp: Let_def dest: take_hdr_keeps_wf split: option.split simp flip: x_def)
  next
    case False
    with r show ?thesis by (auto simp: sanitize_apply_def split: option.split json.split)
  qed
qed

lemma parse_apply_wf:
  assumes "parse_apply_payload L payload default_apply_request = (None, r)"
  shows "fields_wf r \<and> ar_configuration r \<noteq> None"
proof -
  have "fields_wf default_apply_request" by (simp add: fields_wf_def default_apply_request_def)
  from sanitize_keeps_wf [OF this, of L "bytes_string payload"] assms show ?thesis
    by (auto simp: parse_apply_payload_def fields_wf_def split: prod.splits sum.splits)
qed

text \<open>
  C20: whatever bytes a client sends, the commands the helper queues are well formed: an APPLY has a
  configuration, positions that fit 32 bits and a topology of non-empty groups, if any; a refresh-rate request
  has a device and a rate whose terms are not zero.
\<close>

theorem queued_commands_well_formed:
  assumes "list_all message_wf (hst_queue (ep_host p))" "on_message E L epoch frame p = Some p'"
  shows "list_all message_wf (hst_queue (ep_host p'))"
proof (cases "hst_connection_epoch (ep_host p) = epoch \<and> (\<exists>t payload. parse_frame frame = Frame t payload)")
  case True
  then obtain t payload where "p' = on_frame E L epoch t payload p"
    using assms(2) by (auto simp: on_message_def)
  moreover have "list_all message_wf (hst_queue (ep_host (on_apply L epoch payload p)))"
    using assms(1) parse_apply_wf [of L payload]
    by (auto simp: on_apply_def push_message_def mq_push_def split: prod.split option.split)
  moreover have "list_all message_wf (hst_queue (ep_host (on_refresh_rate epoch payload p)))"
    using assms(1) by (auto simp: on_refresh_rate_def push_message_def mq_push_def Let_def split: option.split)
  ultimately show ?thesis
    using assms(1) by (auto simp: on_frame_def push_message_def mq_push_def Let_def split: msg_type.split)
next
  case False
  then show ?thesis using assms by (auto simp: on_message_def split: if_splits parsed_frame.splits)
qed

theorem queued_commands_well_formed_witness:
  "list_all message_wf (hst_queue (ep_host
     (sim_endpoint\<lparr>ep_host := push_message (M_Disarm \<lparr>dc_generation = sm_generation (hst_machine (ep_host sim_endpoint)), dc_connection_epoch = 1\<rparr>)
        (ep_host sim_endpoint)\<rparr>)))"
proof (rule queued_commands_well_formed)
  show "list_all message_wf (hst_queue (ep_host sim_endpoint))"
    by (simp add: sim_endpoint_def sim_host_def initial_host_def)
  show "on_message sim_ports sim_lib 1 (message_bytes Msg_Disarm []) sim_endpoint =
      Some (sim_endpoint\<lparr>ep_host := push_message (M_Disarm \<lparr>dc_generation = sm_generation (hst_machine (ep_host sim_endpoint)),
        dc_connection_epoch = 1\<rparr>) (ep_host sim_endpoint)\<rparr>)"
    using messages_parse [of Msg_Disarm "[]"] by (simp add: on_message_def on_frame_def sim_endpoint_def)
qed

section \<open>Witnesses of the routing\<close>

definition sim_reply :: "u64 \<Rightarrow> bytes" where
  "sim_reply req = message_bytes Msg_ApplyResult (append_u64_le [1] req)"

definition sim_round :: "bytes \<Rightarrow> wait_round" where
  "sim_round bs = \<lparr>wr_cancelled = False, wr_result = Pipe_Success, wr_frame = bs,
                   wr_cancelled_after = False, wr_cancelled_late = False\<rparr>"

definition sim_session :: session where
  "sim_session = (new_session 1)\<lparr>ss_protocol := Proto_V2, ss_inbox := [sim_reply 4]\<rparr>"

theorem v2_apply_answer_is_its_own_witness:
  "\<exists>bs \<in> set (ss_inbox sim_session) \<union> set (frames_read [sim_round (sim_reply 3), sim_round (sim_reply 5)]).
    hd bs = msg_type_code Msg_ApplyResult \<and> response_request_id bs = Some 5 \<and>
    \<lparr>ares_success = True, ares_protocol = Proto_V2\<rparr> = \<lparr>ares_success = response_success bs, ares_protocol = Proto_V2\<rparr>"
proof (rule v2_apply_answer_is_its_own)
  show "wait_for_apply_result_locked [3, 4, 5] 5 Proto_V2 [sim_round (sim_reply 3), sim_round (sim_reply 5)] sim_session =
      (Some \<lparr>ares_success = True, ares_protocol = Proto_V2\<rparr>,
       sim_session\<lparr>ss_inbox := [sim_reply 4, sim_reply 3]\<rparr>, [])"
    by code_simp
qed

definition sim_verified :: bytes where
  "sim_verified = message_bytes Msg_VerificationResult (append_u64_le [1] 5)"

theorem verification_wait_keeps_other_replies_witness:
  "\<exists>taken. tagged_of (ss_inbox sim_session) + tagged_of (frames_read (rounds_run [sim_round (sim_reply 3), sim_round sim_verified] [])) =
           tagged_of [sim_reply 4, sim_reply 3] + tagged_of taken \<and>
           (case Some True of None \<Rightarrow> taken = []
            | Some ok \<Rightarrow> \<exists>bs. taken = [bs] \<and> response_request_id bs = Some 5 \<and> ok = response_success bs)"
proof -
  have "wait_for_verification_result_locked 5 [sim_round (sim_reply 3), sim_round sim_verified] sim_session =
      (Some True, sim_session\<lparr>ss_inbox := [sim_reply 4, sim_reply 3]\<rparr>, [])"
    by code_simp
  from verification_wait_keeps_other_replies [OF this] show ?thesis
    by (simp add: undisturbed_def sim_round_def sim_session_def kMaxBufferedResponses_def)
qed

end
