(* ===== verification/Client_Sessions.thy ===== *)
theory Client_Sessions
  imports Response_Routing
begin

text \<open>
  The client's connection and its requests (\<open>ipc/display_settings_client.cpp\<close>): which session is current,
  the generations that retire a session and supersede a waiting request, the serialized writes, and the
  threads that send an APPLY or a refresh-rate change and wait for its result. A function that holds the
  write and the connection mutex is one step; the loops that wait for a mutex are left out, with what they
  end with (\<open>got_lock\<close>, a deadline or the caller's cancellation) as an argument.
\<close>

section \<open>The connection\<close>

text \<open>A session is named by its generation, which no other session ever gets; 0 names none.\<close>

record client =
  cl_sessions :: "u64 \<Rightarrow> session"
  cl_session :: "u64 option"
  cl_connection_generation :: u64
  cl_next_connection_generation :: u64
  cl_wait_generation :: u64
  cl_next_apply_request_id :: u64
  cl_next_auxiliary_request_id :: u64
  cl_issued :: "u64 list"
  cl_last_log_level :: "nat option"

definition initial_client :: client where
  "initial_client =
     \<lparr>cl_sessions = new_session, cl_session = None, cl_connection_generation = 0,
      cl_next_connection_generation = 1, cl_wait_generation = 0, cl_next_apply_request_id = 1,
      cl_next_auxiliary_request_id = 1, cl_issued = [], cl_last_log_level = None\<rparr>"

definition update_session :: "u64 \<Rightarrow> (session \<Rightarrow> session) \<Rightarrow> client \<Rightarrow> client" where
  "update_session g f c = c\<lparr>cl_sessions := (cl_sessions c)(g := f (cl_sessions c g))\<rparr>"

definition session_is_current :: "u64 \<Rightarrow> client \<Rightarrow> bool" where
  "session_is_current g c \<longleftrightarrow> cl_connection_generation c = ss_generation (cl_sessions c g)"

definition retire_session_locked :: "client \<Rightarrow> u64 option \<times> client" where
  "retire_session_locked c =
     (cl_session c,
      if cl_session c = None then c else c\<lparr>cl_session := None, cl_connection_generation := 0\<rparr>)"

definition retire_untagged_response_session_if_needed_locked :: "client \<Rightarrow> u64 option \<times> client" where
  "retire_untagged_response_session_if_needed_locked c =
     (case cl_session c of
        None \<Rightarrow> (None, c)
      | Some g \<Rightarrow>
          let s = cl_sessions c g
          in if ss_protocol s = Proto_V2 \<or> \<not> ss_untagged_pending s then (None, c)
             else retire_session_locked (update_session g (\<lambda>s. s\<lparr>ss_untagged_pending := False\<rparr>) c))"

definition reset_log_level_cache :: "client \<Rightarrow> client" where
  "reset_log_level_cache c = c\<lparr>cl_last_log_level := None\<rparr>"

definition cancel_or_begin_apply_wait_cancellable :: "bool \<Rightarrow> client \<Rightarrow> u64 option \<times> client" where
  "cancel_or_begin_apply_wait_cancellable got_lock c =
     (if \<not> got_lock then (None, c)
      else let (retired, c) = retire_untagged_response_session_if_needed_locked c;
               gen = cl_wait_generation c + 1;
               c = c\<lparr>cl_wait_generation := gen\<rparr>
           in (Some gen, if retired = None then c else reset_log_level_cache c))"

text \<open>
  \<open>ensure_connected_locked\<close>: \<open>refused\<close> is a shutdown or a cancellation, \<open>alive\<close> the current pipe's own
  view, \<open>made\<close> whether one of the two transports connects in time.
\<close>

definition ensure_connected_locked :: "bool \<Rightarrow> bool \<Rightarrow> bool \<Rightarrow> client \<Rightarrow> bool \<times> client" where
  "ensure_connected_locked refused alive made c =
     (if refused then (False, c)
      else if cl_session c \<noteq> None \<and> alive then (True, c)
      else let c = (if cl_session c = None then c else reset_log_level_cache (snd (retire_session_locked c)));
               gen = cl_next_connection_generation c
           in if \<not> made then (False, c)
              else (True, c\<lparr>cl_next_connection_generation := gen + 1,
                            cl_sessions := (cl_sessions c)(gen := new_session gen),
                            cl_session := Some gen, cl_connection_generation := gen\<rparr>))"

definition connected_session :: "bool \<Rightarrow> bool \<Rightarrow> bool \<Rightarrow> client \<Rightarrow> u64 option \<times> client" where
  "connected_session refused alive made c =
     (let (ok, c) = ensure_connected_locked refused alive made c
      in (if ok then cl_session c else None, c))"

text \<open>
  \<open>send_serialized\<close>, and \<open>send_serialized_within\<close>, which differs in the deadlines only: \<open>sent\<close> is what
  \<open>send_message\<close> returns.
\<close>

definition send_serialized :: "u64 \<Rightarrow> u64 option \<Rightarrow> bool \<Rightarrow> bool \<Rightarrow> bool \<Rightarrow> client \<Rightarrow> bool \<times> client" where
  "send_serialized g expected begins_untagged got_lock sent c =
     (if \<not> got_lock \<or> cl_session c \<noteq> Some g \<or> \<not> session_is_current g c \<or>
         (case expected of None \<Rightarrow> False | Some w \<Rightarrow> cl_wait_generation c \<noteq> w)
      then (False, c)
      else let reserve = (begins_untagged \<and> ss_protocol (cl_sessions c g) = Proto_Unknown);
               c = (if reserve then update_session g (\<lambda>s. s\<lparr>ss_untagged_pending := True\<rparr>) c else c);
               c = (if \<not> sent \<and> reserve then update_session g (\<lambda>s. s\<lparr>ss_untagged_pending := False\<rparr>) c else c)
           in (sent, c))"

definition drop_connection_if_current :: "u64 \<Rightarrow> client \<Rightarrow> client" where
  "drop_connection_if_current g c =
     (if cl_session c = Some g then reset_log_level_cache (snd (retire_session_locked c)) else c)"

text \<open>The variant with a deadline gives up without the locks.\<close>

definition drop_connection_if_current_within :: "u64 \<Rightarrow> bool \<Rightarrow> client \<Rightarrow> client" where
  "drop_connection_if_current_within g got_lock c = (if got_lock then drop_connection_if_current g c else c)"

definition reset_connection_cancellable :: "bool \<Rightarrow> client \<Rightarrow> bool \<times> client" where
  "reset_connection_cancellable got_lock c =
     (if \<not> got_lock then (False, c)
      else let c = c\<lparr>cl_wait_generation := cl_wait_generation c + 1\<rparr>;
               (retired, c) = (if cl_session c = None then (None, c) else retire_session_locked c)
           in (True, if retired = None then c else reset_log_level_cache c))"

definition send_log_level :: "int \<Rightarrow> u64 option \<Rightarrow> bool \<Rightarrow> bool \<Rightarrow> client \<Rightarrow> bool \<times> client" where
  "send_log_level level session got_lock sent c =
     (let clamped = nat (max 0 (min 6 level))
      in if cl_last_log_level c = Some clamped then (True, c)
         else case session of
                None \<Rightarrow> (False, c)
              | Some g \<Rightarrow> let (ok, c) = send_serialized g None False got_lock sent c
                         in (ok, if ok then c\<lparr>cl_last_log_level := Some clamped\<rparr> else c))"

section \<open>A request and its result\<close>

text \<open>
  \<open>send_apply_json\<close> and \<open>send_refresh_rate\<close> as the steps between which other threads run: the wait
  generation and the id, the connection, the protocol, the response lock, the write, the wait, and what is
  done about a missing result.
\<close>

datatype request_kind = Request_Apply | Request_Refresh

datatype request_point = At_Start | At_Connect | At_Protocol | At_Lock | At_Send | At_Wait | At_Missing | At_End

record request =
  rq_kind :: request_kind
  rq_at :: request_point
  rq_wait :: u64
  rq_id :: u64
  rq_session :: u64
  rq_protocol :: response_protocol
  rq_result :: "bool option"

definition request_begin :: "bool \<Rightarrow> request \<Rightarrow> client \<Rightarrow> request \<times> client" where
  "request_begin got_lock rq c =
     (case rq_kind rq of
        Request_Apply \<Rightarrow>
          (case cancel_or_begin_apply_wait_cancellable got_lock c of
             (None, c) \<Rightarrow> (rq\<lparr>rq_at := At_End\<rparr>, c)
           | (Some w, c) \<Rightarrow> (rq\<lparr>rq_at := At_Connect, rq_wait := w, rq_id := cl_next_apply_request_id c\<rparr>,
                            c\<lparr>cl_next_apply_request_id := cl_next_apply_request_id c + 1\<rparr>))
      | Request_Refresh \<Rightarrow> (rq\<lparr>rq_at := At_Connect, rq_wait := cl_wait_generation c\<rparr>, c))"

definition request_connect :: "bool \<Rightarrow> bool \<Rightarrow> bool \<Rightarrow> request \<Rightarrow> client \<Rightarrow> request \<times> client" where
  "request_connect refused alive made rq c =
     (case connected_session refused alive made c of
        (None, c) \<Rightarrow> (rq\<lparr>rq_at := At_End\<rparr>, c)
      | (Some g, c) \<Rightarrow> (rq\<lparr>rq_at := At_Protocol, rq_session := g\<rparr>, c))"

definition request_protocol :: "request \<Rightarrow> client \<Rightarrow> request \<times> client" where
  "request_protocol rq c =
     (let rq = rq\<lparr>rq_at := At_Lock, rq_protocol := ss_protocol (cl_sessions c (rq_session rq))\<rparr>
      in if rq_kind rq = Request_Refresh \<and> rq_protocol rq = Proto_V2
         then (rq\<lparr>rq_id := cl_next_auxiliary_request_id c\<rparr>,
               c\<lparr>cl_next_auxiliary_request_id := cl_next_auxiliary_request_id c + 1\<rparr>)
         else (rq, c))"

text \<open>The predicates with which the two functions give up, the caller's own wishes apart.\<close>

definition lock_cancelled :: "request \<Rightarrow> client \<Rightarrow> bool" where
  "lock_cancelled rq c \<longleftrightarrow>
     \<not> session_is_current (rq_session rq) c \<or>
     ((rq_kind rq = Request_Apply \<or> rq_protocol rq = Proto_V2) \<and> cl_wait_generation c \<noteq> rq_wait rq)"

definition wait_cancelled :: "request \<Rightarrow> client \<Rightarrow> bool" where
  "wait_cancelled rq c \<longleftrightarrow>
     \<not> session_is_current (rq_session rq) c \<or>
     ((case rq_kind rq of Request_Apply \<Rightarrow> rq_protocol rq \<noteq> Proto_Legacy | Request_Refresh \<Rightarrow> rq_protocol rq = Proto_V2) \<and>
      cl_wait_generation c \<noteq> rq_wait rq)"

definition begins_untagged :: "request \<Rightarrow> bool" where
  "begins_untagged rq \<longleftrightarrow> rq_kind rq = Request_Apply \<or> rq_protocol rq \<noteq> Proto_V2"

definition request_send :: "bool \<Rightarrow> bool \<Rightarrow> request \<Rightarrow> client \<Rightarrow> request \<times> client" where
  "request_send got_lock sent rq c =
     (case send_serialized (rq_session rq) (Some (rq_wait rq)) (begins_untagged rq) got_lock sent c of
        (False, c) \<Rightarrow> (rq\<lparr>rq_at := At_End\<rparr>, c)
      | (True, c) \<Rightarrow> (rq\<lparr>rq_at := At_Wait\<rparr>,
                      if rq_kind rq = Request_Apply
                      then c\<lparr>cl_issued := remember_issued_apply_request_id (rq_id rq) (cl_issued c)\<rparr> else c))"

definition expected_refresh :: "request \<Rightarrow> u64 option" where
  "expected_refresh rq = (if rq_protocol rq = Proto_V2 then Some (rq_id rq) else None)"

text \<open>One round of the wait: the verdict of the reply, the session and whether the frame was read.\<close>

definition request_round :: "request \<Rightarrow> u64 list \<Rightarrow> wait_round \<Rightarrow> session \<Rightarrow> bool option \<times> session \<times> wait_round list" where
  "request_round rq issued r s =
     (case rq_kind rq of
        Request_Apply \<Rightarrow>
          let (res, s, rest) = wait_for_apply_result_locked issued (rq_id rq) (rq_protocol rq) [r] s
          in (map_option ares_success res, s, rest)
      | Request_Refresh \<Rightarrow>
          let (res, s, rest) = wait_for_refresh_rate_result_locked (expected_refresh rq) [r] s
          in (res, if res = None then s else s\<lparr>ss_untagged_pending := False\<rparr>, rest))"

text \<open>
  A missing result: a superseded request leaves the connection alone, any other retires it, so that a late
  reply finds no reader. An APPLY with a deadline tries for the locks for 250 ms more (\<open>got_lock\<close>, always true
  without one).
\<close>

definition request_missing :: "bool \<Rightarrow> request \<Rightarrow> client \<Rightarrow> client" where
  "request_missing got_lock rq c =
     (case rq_kind rq of
        Request_Apply \<Rightarrow>
          if rq_protocol rq \<noteq> Proto_Legacy \<and> cl_wait_generation c \<noteq> rq_wait rq then c
          else drop_connection_if_current_within (rq_session rq) got_lock c
      | Request_Refresh \<Rightarrow> if wait_cancelled rq c then c else drop_connection_if_current (rq_session rq) c)"

end
