(* ===== verification/Client_Requests.thy ===== *)
theory Client_Requests
  imports Client_Sessions
begin

text \<open>
  The requests of the client as threads: every interleaving of their steps, of the other commands of the
  client and of a helper that answers, legacy or v2. That no request ever takes
  the reply to another one for its own is proved in \<open>Client_Properties\<close>.
\<close>

section \<open>The system\<close>

datatype helper_kind = Helper_Legacy | Helper_V2

text \<open>
  \<open>wd_reader\<close> is the holder of each session's response mutex. A frame on the wire remembers the request it
  answers, if any; \<open>wd_replied\<close> is every reply a helper has ever sent.
\<close>

record world =
  wd_client :: client
  wd_requests :: "nat \<Rightarrow> request"
  wd_reader :: "u64 \<Rightarrow> nat option"
  wd_unanswered :: "u64 \<Rightarrow> nat list"
  wd_wire :: "u64 \<Rightarrow> (nat option \<times> bytes) list"
  wd_replied :: "(u64 \<times> nat \<times> bytes) set"

definition set_request :: "nat \<Rightarrow> request \<Rightarrow> world \<Rightarrow> world" where
  "set_request t rq w = w\<lparr>wd_requests := (wd_requests w)(t := rq)\<rparr>"

definition set_reader :: "u64 \<Rightarrow> nat option \<Rightarrow> world \<Rightarrow> world" where
  "set_reader g t w = w\<lparr>wd_reader := (wd_reader w)(g := t)\<rparr>"

definition at_step :: "nat \<Rightarrow> request \<times> client \<Rightarrow> world \<Rightarrow> world" where
  "at_step t x w = set_request t (fst x) (w\<lparr>wd_client := snd x\<rparr>)"

abbreviation request_of :: "world \<Rightarrow> nat \<Rightarrow> request" where
  "request_of w t \<equiv> wd_requests w t"

definition reply_type :: "request_kind \<Rightarrow> byte" where
  "reply_type k = msg_type_code (case k of Request_Apply \<Rightarrow> Msg_ApplyResult | Request_Refresh \<Rightarrow> Msg_RefreshRateResult)"

text \<open>Whether a v2 helper puts the request's id into its reply.\<close>

definition correlated :: "request \<Rightarrow> bool" where
  "correlated rq \<longleftrightarrow> rq_kind rq = Request_Apply \<or> rq_protocol rq = Proto_V2"

text \<open>
  The replies of the two helpers. A legacy one has no id; a failed APPLY may carry a text, and eight bytes
  of text read as an integer far beyond the ids a client ever issues.
\<close>

definition fits_reply :: "helper_kind \<Rightarrow> request \<Rightarrow> bytes \<Rightarrow> bool" where
  "fits_reply k rq bs \<longleftrightarrow>
     2 \<le> length bs \<and> hd bs = reply_type (rq_kind rq) \<and>
     (case k of
        Helper_V2 \<Rightarrow> response_request_id bs = (if correlated rq then Some (rq_id rq) else None)
      | Helper_Legacy \<Rightarrow>
          response_request_id bs = None \<or>
          (rq_kind rq = Request_Apply \<and> bs ! 1 = 0 \<and> (\<exists>v. response_request_id bs = Some v \<and> 2 ^ 32 \<le> unat v)))"

text \<open>The frames of other conversations.\<close>

definition unrelated :: "bytes \<Rightarrow> bool" where
  "unrelated bs \<longleftrightarrow> bs \<noteq> [] \<and> hd bs \<noteq> reply_type Request_Apply \<and> hd bs \<noteq> reply_type Request_Refresh"

definition reading_round :: "bytes \<Rightarrow> wait_round" where
  "reading_round bs = \<lparr>wr_cancelled = False, wr_result = Pipe_Success, wr_frame = bs,
                      wr_cancelled_after = False, wr_cancelled_late = False\<rparr>"

definition idle_round :: wait_round where
  "idle_round = \<lparr>wr_cancelled = False, wr_result = Pipe_Timeout, wr_frame = [],
                wr_cancelled_after = False, wr_cancelled_late = False\<rparr>"

text \<open>A round of a wait that is not cancelled: a frame if there is one, otherwise a timeout.\<close>

definition next_round :: "(nat option \<times> bytes) list \<Rightarrow> wait_round" where
  "next_round frames = (case frames of [] \<Rightarrow> idle_round | (owner, bs) # _ \<Rightarrow> reading_round bs)"

definition round_step :: "nat \<Rightarrow> world \<Rightarrow> world" where
  "round_step t w =
     (let rq = request_of w t; g = rq_session rq; c = wd_client w;
          (res, s, rest) = request_round rq (cl_issued c) (next_round (wd_wire w g)) (cl_sessions c g);
          c = c\<lparr>cl_sessions := (cl_sessions c)(g := s)\<rparr>;
          w = w\<lparr>wd_client := c, wd_wire := (wd_wire w)(g := (if rest = [] then tl (wd_wire w g) else wd_wire w g))\<rparr>
      in if res = None then w
         else set_reader g None (set_request t (rq\<lparr>rq_at := At_End, rq_result := res\<rparr>) w))"

text \<open>
  Ids, wait generations and session generations do not wrap in the life of a client: \<open>roomy\<close> bounds them.
\<close>

definition roomy :: "client \<Rightarrow> bool" where
  "roomy c \<longleftrightarrow> unat (cl_next_connection_generation c) + 1 < 2 ^ 64 \<and> unat (cl_wait_generation c) + 1 < 2 ^ 64 \<and>
     unat (cl_next_apply_request_id c) + 1 < 2 ^ 32 \<and> unat (cl_next_auxiliary_request_id c) + 1 < 2 ^ 64"

inductive client_step :: "(u64 \<Rightarrow> helper_kind) \<Rightarrow> world \<Rightarrow> world \<Rightarrow> bool" for K where
  begins: "rq_at (request_of w t) = At_Start \<Longrightarrow> roomy (wd_client w) \<Longrightarrow>
    client_step K w (at_step t (request_begin got_lock ((request_of w t)\<lparr>rq_kind := k\<rparr>) (wd_client w)) w)"
| connects: "rq_at (request_of w t) = At_Connect \<Longrightarrow> roomy (wd_client w) \<Longrightarrow>
    client_step K w (at_step t (request_connect refused alive made (request_of w t) (wd_client w)) w)"
| reads_protocol: "rq_at (request_of w t) = At_Protocol \<Longrightarrow> roomy (wd_client w) \<Longrightarrow>
    client_step K w (at_step t (request_protocol (request_of w t) (wd_client w)) w)"
| locks: "rq_at (request_of w t) = At_Lock \<Longrightarrow> \<not> lock_cancelled (request_of w t) (wd_client w) \<Longrightarrow>
    wd_reader w (rq_session (request_of w t)) = None \<Longrightarrow>
    client_step K w (set_reader (rq_session (request_of w t)) (Some t)
      (set_request t ((request_of w t)\<lparr>rq_at := At_Send\<rparr>) w))"
| aborts: "rq_at (request_of w t) \<in> {At_Connect, At_Protocol, At_Lock} \<Longrightarrow>
    client_step K w (set_request t ((request_of w t)\<lparr>rq_at := At_End\<rparr>) w)"
| sends: "rq_at (request_of w t) = At_Send \<Longrightarrow>
    request_send got_lock sent (request_of w t) (wd_client w) = (rq, c) \<Longrightarrow> rq_at rq = At_Wait \<Longrightarrow>
    client_step K w (at_step t (rq, c)
      (w\<lparr>wd_unanswered := (wd_unanswered w)(rq_session rq := wd_unanswered w (rq_session rq) @ [t])\<rparr>))"
| send_fails: "rq_at (request_of w t) = At_Send \<Longrightarrow>
    request_send got_lock sent (request_of w t) (wd_client w) = (rq, c) \<Longrightarrow> rq_at rq = At_End \<Longrightarrow>
    client_step K w (set_reader (rq_session rq) None (at_step t (rq, c) w))"
| waits: "rq_at (request_of w t) = At_Wait \<Longrightarrow> \<not> wait_cancelled (request_of w t) (wd_client w) \<Longrightarrow>
    client_step K w (round_step t w)"
| gives_up: "rq_at (request_of w t) = At_Wait \<Longrightarrow>
    client_step K w (set_request t ((request_of w t)\<lparr>rq_at := At_Missing\<rparr>) w)"
| misses: "rq_at (request_of w t) = At_Missing \<Longrightarrow>
    client_step K w (set_reader (rq_session (request_of w t)) None
      (at_step t ((request_of w t)\<lparr>rq_at := At_End\<rparr>, request_missing True (request_of w t) (wd_client w)) w))"
| control: "roomy (wd_client w) \<Longrightarrow>
    client_step K w (w\<lparr>wd_client := snd (cancel_or_begin_apply_wait_cancellable got_lock (wd_client w))\<rparr>)"
| reconnects: "roomy (wd_client w) \<Longrightarrow>
    client_step K w (w\<lparr>wd_client := snd (connected_session refused alive made (wd_client w))\<rparr>)"
| resets: "roomy (wd_client w) \<Longrightarrow>
    client_step K w (w\<lparr>wd_client := snd (reset_connection_cancellable got_lock (wd_client w))\<rparr>)"
| drops: "client_step K w (w\<lparr>wd_client := drop_connection_if_current g (wd_client w)\<rparr>)"
| replies: "wd_unanswered w g = before @ t # after \<Longrightarrow> fits_reply (K g) (request_of w t) bs \<Longrightarrow>
    client_step K w (w\<lparr>wd_unanswered := (wd_unanswered w)(g := before @ after),
      wd_wire := (wd_wire w)(g := wd_wire w g @ [(Some t, bs)]), wd_replied := insert (g, t, bs) (wd_replied w)\<rparr>)"
| announces: "unrelated bs \<Longrightarrow> g < cl_next_connection_generation (wd_client w) \<Longrightarrow>
    client_step K w (w\<lparr>wd_wire := (wd_wire w)(g := wd_wire w g @ [(None, bs)])\<rparr>)"
| others_take: "wd_reader w g = None \<Longrightarrow> ss_inbox (cl_sessions (wd_client w) g) = before @ bs # after \<Longrightarrow> unrelated bs \<Longrightarrow>
    client_step K w (w\<lparr>wd_client := update_session g (\<lambda>s. s\<lparr>ss_inbox := before @ after\<rparr>) (wd_client w)\<rparr>)"
| others_read: "wd_reader w g = None \<Longrightarrow> wd_wire w g = (owner, bs) # frames \<Longrightarrow>
    client_step K w (w\<lparr>wd_wire := (wd_wire w)(g := frames),
      wd_client := (if keep then update_session g (buffer_response bs) (wd_client w) else wd_client w)\<rparr>)"

text \<open>A client that has just started, with no request begun.\<close>

definition idle_world :: "world \<Rightarrow> bool" where
  "idle_world w \<longleftrightarrow> wd_client w = initial_client \<and> (\<forall>t. rq_at (request_of w t) = At_Start \<and> rq_result (request_of w t) = None \<and>
        rq_wait (request_of w t) = 0 \<and> rq_id (request_of w t) = 0) \<and>
     wd_reader w = (\<lambda>_. None) \<and> wd_unanswered w = (\<lambda>_. []) \<and> wd_wire w = (\<lambda>_. []) \<and> wd_replied w = {}"

definition client_reachable :: "(u64 \<Rightarrow> helper_kind) \<Rightarrow> world \<Rightarrow> bool" where
  "client_reachable K w \<longleftrightarrow> (\<exists>w0. idle_world w0 \<and> (client_step K)\<^sup>*\<^sup>* w0 w)"

end
