(* ===== verification/Client_Invariants.thy ===== *)
theory Client_Invariants
  imports Client_Requests
begin

text \<open>
  The invariant of the client's requests: the definition, part by part, and the rules with which the steps
  of the system are shown to keep it.
\<close>

section \<open>What every reachable world keeps\<close>

definition open_at :: "world \<Rightarrow> u64 \<Rightarrow> nat list" where
  "open_at w g = wd_unanswered w g @ List.map_filter fst (wd_wire w g)"

definition current :: "world \<Rightarrow> u64 \<Rightarrow> bool" where
  "current w g \<longleftrightarrow> cl_session (wd_client w) = Some g"

abbreviation session_of :: "world \<Rightarrow> u64 \<Rightarrow> session" where
  "session_of w g \<equiv> cl_sessions (wd_client w) g"

text \<open>Where a request stands.\<close>

definition underway :: "request \<Rightarrow> bool" where
  "underway rq \<longleftrightarrow> rq_at rq \<notin> {At_Start, At_End}"

definition has_session :: "request \<Rightarrow> bool" where
  "has_session rq \<longleftrightarrow> rq_at rq \<in> {At_Protocol, At_Lock, At_Send, At_Wait, At_Missing}"

definition knows_protocol :: "request \<Rightarrow> bool" where
  "knows_protocol rq \<longleftrightarrow> rq_at rq \<in> {At_Lock, At_Send, At_Wait, At_Missing}"

definition may_send :: "request \<Rightarrow> bool" where
  "may_send rq \<longleftrightarrow> rq_at rq \<in> {At_Lock, At_Send}"

definition reading :: "request \<Rightarrow> bool" where
  "reading rq \<longleftrightarrow> rq_at rq \<in> {At_Send, At_Wait, At_Missing}"

definition awaits :: "request \<Rightarrow> bool" where
  "awaits rq \<longleftrightarrow> rq_at rq \<in> {At_Wait, At_Missing}"

definition was_sent :: "request \<Rightarrow> bool" where
  "was_sent rq \<longleftrightarrow> rq_at rq \<in> {At_Wait, At_Missing, At_End}"

lemmas point_defs = underway_def has_session_def knows_protocol_def may_send_def reading_def awaits_def was_sent_def

lemma points [intro]:
  "awaits rq \<Longrightarrow> reading rq" "reading rq \<Longrightarrow> knows_protocol rq" "may_send rq \<Longrightarrow> knows_protocol rq"
  "knows_protocol rq \<Longrightarrow> has_session rq" "has_session rq \<Longrightarrow> underway rq" "awaits rq \<Longrightarrow> was_sent rq"
  by (auto simp: point_defs)

text \<open>The generations of the connection.\<close>

definition inv_client :: "client \<Rightarrow> bool" where
  "inv_client c \<longleftrightarrow>
     (\<forall>g. ss_generation (cl_sessions c g) = g) \<and>
     cl_connection_generation c = (case cl_session c of None \<Rightarrow> 0 | Some g \<Rightarrow> g) \<and>
     (\<forall>g. cl_session c = Some g \<longrightarrow> 0 < g \<and> g < cl_next_connection_generation c) \<and>
     0 < cl_next_connection_generation c \<and>
     (\<forall>g. cl_next_connection_generation c \<le> g \<longrightarrow> cl_sessions c g = new_session g) \<and>
     0 < cl_next_apply_request_id c \<and> unat (cl_next_apply_request_id c) < 2 ^ 32 \<and>
     0 < cl_next_auxiliary_request_id c \<and>
     (\<forall>i \<in> set (cl_issued c). unat i < 2 ^ 32)"

text \<open>Numbers that name one request each.\<close>

definition inv_numbers :: "client \<Rightarrow> (nat \<Rightarrow> request) \<Rightarrow> bool" where
  "inv_numbers c Q \<longleftrightarrow>
     (\<forall>t. rq_at (Q t) = At_Start \<longrightarrow> rq_wait (Q t) = 0 \<and> rq_id (Q t) = 0) \<and>
     (\<forall>t. rq_kind (Q t) = Request_Apply \<longrightarrow>
        rq_wait (Q t) \<le> cl_wait_generation c \<and> rq_id (Q t) < cl_next_apply_request_id c \<and>
        (underway (Q t) \<longrightarrow> rq_wait (Q t) \<noteq> 0 \<and> rq_id (Q t) \<noteq> 0)) \<and>
     (\<forall>t. rq_kind (Q t) = Request_Refresh \<longrightarrow>
        rq_id (Q t) < cl_next_auxiliary_request_id c \<and>
        (knows_protocol (Q t) \<and> rq_protocol (Q t) = Proto_V2 \<longrightarrow> rq_id (Q t) \<noteq> 0)) \<and>
     (\<forall>t t'. t \<noteq> t' \<longrightarrow> rq_kind (Q t) = rq_kind (Q t') \<longrightarrow> rq_id (Q t) \<noteq> 0 \<longrightarrow> rq_id (Q t) \<noteq> rq_id (Q t')) \<and>
     (\<forall>t t'. t \<noteq> t' \<longrightarrow> rq_kind (Q t) = Request_Apply \<longrightarrow> rq_kind (Q t') = Request_Apply \<longrightarrow>
        rq_wait (Q t) \<noteq> 0 \<longrightarrow> rq_wait (Q t) \<noteq> rq_wait (Q t')) \<and>
     (\<forall>t. has_session (Q t) \<longrightarrow>
        0 < rq_session (Q t) \<and> rq_session (Q t) < cl_next_connection_generation c)"

text \<open>One reader for each session.\<close>

definition inv_reader :: "(nat \<Rightarrow> request) \<Rightarrow> (u64 \<Rightarrow> nat option) \<Rightarrow> bool" where
  "inv_reader Q R \<longleftrightarrow>
     (\<forall>g t. R g = Some t \<longleftrightarrow> reading (Q t) \<and> rq_session (Q t) = g)"

text \<open>What is known of a session's protocol, and until when an untagged reply is reserved.\<close>

definition proto_fits :: "helper_kind \<Rightarrow> response_protocol \<Rightarrow> bool" where
  "proto_fits k p \<longleftrightarrow> p = Proto_Unknown \<or> p = (case k of Helper_Legacy \<Rightarrow> Proto_Legacy | Helper_V2 \<Rightarrow> Proto_V2)"

definition inv_protocol :: "(u64 \<Rightarrow> helper_kind) \<Rightarrow> client \<Rightarrow> (nat \<Rightarrow> request) \<Rightarrow> bool" where
  "inv_protocol K c Q \<longleftrightarrow>
     (\<forall>g. proto_fits (K g) (ss_protocol (cl_sessions c g))) \<and>
     (\<forall>t. knows_protocol (Q t) \<longrightarrow> rq_protocol (Q t) \<noteq> Proto_Unknown \<longrightarrow>
        ss_protocol (cl_sessions c (rq_session (Q t))) = rq_protocol (Q t)) \<and>
     (\<forall>t. rq_kind (Q t) = Request_Apply \<longrightarrow> rq_protocol (Q t) = Proto_Unknown \<longrightarrow>
        cl_session c = Some (rq_session (Q t)) \<longrightarrow>
        (may_send (Q t) \<and> cl_wait_generation c = rq_wait (Q t) \<longrightarrow>
           ss_protocol (cl_sessions c (rq_session (Q t))) = Proto_Unknown) \<and>
        (awaits (Q t) \<longrightarrow>
           cl_wait_generation c = rq_wait (Q t) \<and>
           ss_protocol (cl_sessions c (rq_session (Q t))) = Proto_Unknown \<and>
           ss_untagged_pending (cl_sessions c (rq_session (Q t)))))"

text \<open>
  Requests on their way. On the current connection, a request whose reply could be taken for another's
  is the one that holds the response mutex.
\<close>

definition confusable :: "(u64 \<Rightarrow> helper_kind) \<Rightarrow> client \<Rightarrow> u64 \<Rightarrow> request \<Rightarrow> bool" where
  "confusable K c g rq \<longleftrightarrow>
     K g = Helper_Legacy \<or> \<not> correlated rq \<or>
     (rq_kind rq = Request_Apply \<and> ss_protocol (cl_sessions c g) = Proto_Unknown)"

definition inv_open :: "(u64 \<Rightarrow> helper_kind) \<Rightarrow> world \<Rightarrow> bool" where
  "inv_open K w \<longleftrightarrow>
     (\<forall>g. distinct (open_at w g)) \<and>
     (\<forall>g t. t \<in> set (open_at w g) \<longrightarrow>
        rq_session (request_of w t) = g \<and> was_sent (request_of w t) \<and>
        g < cl_next_connection_generation (wd_client w) \<and> (correlated (request_of w t) \<longrightarrow> rq_id (request_of w t) \<noteq> 0)) \<and>
     (\<forall>g t. current w g \<longrightarrow> t \<in> set (open_at w g) \<longrightarrow> confusable K (wd_client w) g (request_of w t) \<longrightarrow>
        wd_reader w g = Some t)"

definition inv_frames :: "(u64 \<Rightarrow> helper_kind) \<Rightarrow> world \<Rightarrow> bool" where
  "inv_frames K w \<longleftrightarrow>
     (\<forall>g t bs. (Some t, bs) \<in> set (wd_wire w g) \<longrightarrow> (g, t, bs) \<in> wd_replied w) \<and>
     (\<forall>g bs. (None, bs) \<in> set (wd_wire w g) \<longrightarrow> unrelated bs) \<and>
     (\<forall>g. wd_wire w g \<noteq> [] \<longrightarrow> g < cl_next_connection_generation (wd_client w)) \<and>
     (\<forall>g t bs. (g, t, bs) \<in> wd_replied w \<longrightarrow>
        rq_session (request_of w t) = g \<and> was_sent (request_of w t) \<and>
        fits_reply (K g) (request_of w t) bs \<and> (correlated (request_of w t) \<longrightarrow> rq_id (request_of w t) \<noteq> 0))"

text \<open>The inbox of the current connection holds no reply that could be taken for another's.\<close>

definition inv_inbox :: "(u64 \<Rightarrow> helper_kind) \<Rightarrow> world \<Rightarrow> bool" where
  "inv_inbox K w \<longleftrightarrow>
     (\<forall>g bs. current w g \<longrightarrow> bs \<in> set (ss_inbox (session_of w g)) \<longrightarrow> \<not> unrelated bs \<longrightarrow>
        (\<exists>t. (g, t, bs) \<in> wd_replied w \<and> \<not> confusable K (wd_client w) g (request_of w t)))"

definition inv_results :: "world \<Rightarrow> bool" where
  "inv_results w \<longleftrightarrow>
     (\<forall>t ok. rq_result (request_of w t) = Some ok \<longrightarrow> rq_at (request_of w t) = At_End \<and>
        (\<exists>bs. (rq_session (request_of w t), t, bs) \<in> wd_replied w \<and> ok = response_success bs))"

definition inv :: "(u64 \<Rightarrow> helper_kind) \<Rightarrow> world \<Rightarrow> bool" where
  "inv K w \<longleftrightarrow>
     inv_client (wd_client w) \<and> inv_numbers (wd_client w) (wd_requests w) \<and>
     inv_reader (wd_requests w) (wd_reader w) \<and> inv_protocol K (wd_client w) (wd_requests w) \<and>
     inv_open K w \<and> inv_frames K w \<and> inv_inbox K w \<and> inv_results w"

lemma invI:
  "inv_client (wd_client w) \<Longrightarrow> inv_numbers (wd_client w) (wd_requests w) \<Longrightarrow>
   inv_reader (wd_requests w) (wd_reader w) \<Longrightarrow> inv_protocol K (wd_client w) (wd_requests w) \<Longrightarrow>
   inv_open K w \<Longrightarrow> inv_frames K w \<Longrightarrow> inv_inbox K w \<Longrightarrow> inv_results w \<Longrightarrow> inv K w"
  by (simp add: inv_def)

lemma invD:
  assumes "inv K w"
  shows "inv_client (wd_client w)" "inv_numbers (wd_client w) (wd_requests w)"
    "inv_reader (wd_requests w) (wd_reader w)" "inv_protocol K (wd_client w) (wd_requests w)"
    "inv_open K w" "inv_frames K w" "inv_inbox K w" "inv_results w"
  using assms by (simp_all add: inv_def)

lemma inv_idle: "idle_world w \<Longrightarrow> inv K w"
  by (rule invI)
    (auto simp: idle_world_def initial_client_def new_session_def inv_client_def inv_numbers_def inv_reader_def point_defs
      inv_protocol_def proto_fits_def inv_open_def open_at_def map_filter_simps inv_frames_def inv_inbox_def current_def
      inv_results_def)

text \<open>
  A change of the connection: sessions are retired and made, the wait generation goes on, but a session
  that stays current under a new generation has no untagged reply reserved.
\<close>

definition evolves :: "client \<Rightarrow> client \<Rightarrow> bool" where
  "evolves c c' \<longleftrightarrow>
     inv_client c' \<and>
     cl_next_connection_generation c \<le> cl_next_connection_generation c' \<and>
     cl_wait_generation c \<le> cl_wait_generation c' \<and>
     cl_next_apply_request_id c \<le> cl_next_apply_request_id c' \<and>
     cl_next_auxiliary_request_id c \<le> cl_next_auxiliary_request_id c' \<and>
     (\<forall>g. ss_protocol (cl_sessions c' g) = ss_protocol (cl_sessions c g) \<and> ss_inbox (cl_sessions c' g) = ss_inbox (cl_sessions c g)) \<and>
     (\<forall>g. cl_session c' = Some g \<longrightarrow> g < cl_next_connection_generation c \<longrightarrow>
        cl_session c = Some g \<and> cl_sessions c' g = cl_sessions c g \<and>
        (cl_wait_generation c' = cl_wait_generation c \<or>
         ss_protocol (cl_sessions c g) = Proto_V2 \<or> \<not> ss_untagged_pending (cl_sessions c g)))"

lemma evolves_refl: "inv_client c \<Longrightarrow> evolves c c"
  by (simp add: evolves_def inv_client_def)

lemma numbersD:
  assumes "inv_numbers c Q"
  shows "rq_at (Q t) = At_Start \<Longrightarrow> rq_wait (Q t) = 0 \<and> rq_id (Q t) = 0"
    "rq_kind (Q t) = Request_Apply \<Longrightarrow> rq_wait (Q t) \<le> cl_wait_generation c"
    "rq_kind (Q t) = Request_Apply \<Longrightarrow> rq_id (Q t) < cl_next_apply_request_id c"
    "rq_kind (Q t) = Request_Apply \<Longrightarrow> underway (Q t) \<Longrightarrow> rq_wait (Q t) \<noteq> 0 \<and> rq_id (Q t) \<noteq> 0"
    "rq_kind (Q t) = Request_Refresh \<Longrightarrow> rq_id (Q t) < cl_next_auxiliary_request_id c"
    "rq_kind (Q t) = Request_Refresh \<Longrightarrow> knows_protocol (Q t) \<Longrightarrow> rq_protocol (Q t) = Proto_V2 \<Longrightarrow> rq_id (Q t) \<noteq> 0"
    "rq_kind (Q t) = rq_kind (Q t') \<Longrightarrow> rq_id (Q t) \<noteq> 0 \<Longrightarrow> rq_id (Q t) = rq_id (Q t') \<Longrightarrow> t = t'"
    "rq_kind (Q t) = Request_Apply \<Longrightarrow> rq_kind (Q t') = Request_Apply \<Longrightarrow> rq_wait (Q t) \<noteq> 0 \<Longrightarrow>
       rq_wait (Q t) = rq_wait (Q t') \<Longrightarrow> t = t'"
    "has_session (Q t) \<Longrightarrow> 0 < rq_session (Q t) \<and> rq_session (Q t) < cl_next_connection_generation c"
  using assms unfolding inv_numbers_def by blast+

lemma numbersI:
  assumes "\<And>t. rq_at (Q t) = At_Start \<Longrightarrow> rq_wait (Q t) = 0 \<and> rq_id (Q t) = 0"
    and "\<And>t. rq_kind (Q t) = Request_Apply \<Longrightarrow> rq_wait (Q t) \<le> cl_wait_generation c"
    and "\<And>t. rq_kind (Q t) = Request_Apply \<Longrightarrow> rq_id (Q t) < cl_next_apply_request_id c"
    and "\<And>t. rq_kind (Q t) = Request_Apply \<Longrightarrow> underway (Q t) \<Longrightarrow> rq_wait (Q t) \<noteq> 0 \<and> rq_id (Q t) \<noteq> 0"
    and "\<And>t. rq_kind (Q t) = Request_Refresh \<Longrightarrow> rq_id (Q t) < cl_next_auxiliary_request_id c"
    and "\<And>t. rq_kind (Q t) = Request_Refresh \<Longrightarrow> knows_protocol (Q t) \<Longrightarrow> rq_protocol (Q t) = Proto_V2 \<Longrightarrow> rq_id (Q t) \<noteq> 0"
    and "\<And>t t'. rq_kind (Q t) = rq_kind (Q t') \<Longrightarrow> rq_id (Q t) \<noteq> 0 \<Longrightarrow> rq_id (Q t) = rq_id (Q t') \<Longrightarrow> t = t'"
    and "\<And>t t'. rq_kind (Q t) = Request_Apply \<Longrightarrow> rq_kind (Q t') = Request_Apply \<Longrightarrow> rq_wait (Q t) \<noteq> 0 \<Longrightarrow>
       rq_wait (Q t) = rq_wait (Q t') \<Longrightarrow> t = t'"
    and "\<And>t. has_session (Q t) \<Longrightarrow> 0 < rq_session (Q t) \<and> rq_session (Q t) < cl_next_connection_generation c"
  shows "inv_numbers c Q"
  unfolding inv_numbers_def by (intro conjI allI impI) (use assms in blast)+

lemma protocolD:
  assumes "inv_protocol K c Q"
  shows "proto_fits (K g) (ss_protocol (cl_sessions c g))"
    "knows_protocol (Q t) \<Longrightarrow> rq_protocol (Q t) \<noteq> Proto_Unknown \<Longrightarrow>
       ss_protocol (cl_sessions c (rq_session (Q t))) = rq_protocol (Q t)"
    "rq_kind (Q t) = Request_Apply \<Longrightarrow> rq_protocol (Q t) = Proto_Unknown \<Longrightarrow> cl_session c = Some (rq_session (Q t)) \<Longrightarrow>
       may_send (Q t) \<Longrightarrow> cl_wait_generation c = rq_wait (Q t) \<Longrightarrow>
       ss_protocol (cl_sessions c (rq_session (Q t))) = Proto_Unknown"
    "rq_kind (Q t) = Request_Apply \<Longrightarrow> rq_protocol (Q t) = Proto_Unknown \<Longrightarrow> cl_session c = Some (rq_session (Q t)) \<Longrightarrow>
       awaits (Q t) \<Longrightarrow> cl_wait_generation c = rq_wait (Q t) \<and>
       ss_protocol (cl_sessions c (rq_session (Q t))) = Proto_Unknown \<and>
       ss_untagged_pending (cl_sessions c (rq_session (Q t)))"
  using assms unfolding inv_protocol_def by blast+

lemma protocolI:
  assumes "\<And>g. proto_fits (K g) (ss_protocol (cl_sessions c g))"
    and "\<And>t. knows_protocol (Q t) \<Longrightarrow> rq_protocol (Q t) \<noteq> Proto_Unknown \<Longrightarrow>
       ss_protocol (cl_sessions c (rq_session (Q t))) = rq_protocol (Q t)"
    and "\<And>t. rq_kind (Q t) = Request_Apply \<Longrightarrow> rq_protocol (Q t) = Proto_Unknown \<Longrightarrow> cl_session c = Some (rq_session (Q t)) \<Longrightarrow>
       may_send (Q t) \<Longrightarrow> cl_wait_generation c = rq_wait (Q t) \<Longrightarrow>
       ss_protocol (cl_sessions c (rq_session (Q t))) = Proto_Unknown"
    and "\<And>t. rq_kind (Q t) = Request_Apply \<Longrightarrow> rq_protocol (Q t) = Proto_Unknown \<Longrightarrow> cl_session c = Some (rq_session (Q t)) \<Longrightarrow>
       awaits (Q t) \<Longrightarrow> cl_wait_generation c = rq_wait (Q t) \<and>
       ss_protocol (cl_sessions c (rq_session (Q t))) = Proto_Unknown \<and>
       ss_untagged_pending (cl_sessions c (rq_session (Q t)))"
  shows "inv_protocol K c Q"
  using assms unfolding inv_protocol_def by blast

lemma evolvesD:
  assumes "evolves c c'"
  shows "inv_client c'" "cl_next_connection_generation c \<le> cl_next_connection_generation c'"
    "cl_wait_generation c \<le> cl_wait_generation c'"
    "cl_next_apply_request_id c \<le> cl_next_apply_request_id c'"
    "cl_next_auxiliary_request_id c \<le> cl_next_auxiliary_request_id c'"
    "ss_protocol (cl_sessions c' g) = ss_protocol (cl_sessions c g)"
    "ss_inbox (cl_sessions c' g) = ss_inbox (cl_sessions c g)"
    "cl_session c' = Some g \<Longrightarrow> g < cl_next_connection_generation c \<Longrightarrow>
        cl_session c = Some g \<and> cl_sessions c' g = cl_sessions c g \<and>
        (cl_wait_generation c' = cl_wait_generation c \<or>
         ss_protocol (cl_sessions c g) = Proto_V2 \<or> \<not> ss_untagged_pending (cl_sessions c g))"
  using assms unfolding evolves_def by blast+

lemma inv_numbers_evolves:
  assumes N: "inv_numbers c Q" and E: "evolves c c'"
  shows "inv_numbers c' Q"
proof (rule numbersI)
  note E = evolvesD(2-5) [OF E] and N = numbersD [OF N]
  fix t
  show "rq_at (Q t) = At_Start \<Longrightarrow> rq_wait (Q t) = 0 \<and> rq_id (Q t) = 0" by (rule N(1))
  show "rq_kind (Q t) = Request_Apply \<Longrightarrow> rq_wait (Q t) \<le> cl_wait_generation c'" using N(2) E(2) by (rule order_trans)
  show "rq_kind (Q t) = Request_Apply \<Longrightarrow> rq_id (Q t) < cl_next_apply_request_id c'" using N(3) E(3) by (rule order_less_le_trans)
  show "rq_kind (Q t) = Request_Refresh \<Longrightarrow> rq_id (Q t) < cl_next_auxiliary_request_id c'" using N(5) E(4) by (rule order_less_le_trans)
  show "has_session (Q t) \<Longrightarrow> 0 < rq_session (Q t) \<and> rq_session (Q t) < cl_next_connection_generation c'"
    using N(9) [of t] E(1) by (blast intro: order_less_le_trans)
qed (rule numbersD [OF N]; assumption)+

lemma inv_protocol_evolves:
  assumes P: "inv_protocol K c Q" and N: "inv_numbers c Q" and E: "evolves c c'"
  shows "inv_protocol K c' Q"
proof (rule protocolI)
  note E' = evolvesD [OF E] and P' = protocolD [OF P] and N' = numbersD [OF N]
  show "proto_fits (K g) (ss_protocol (cl_sessions c' g))" for g using P'(1) by (simp only: E'(6))
  fix t
  have known: "rq_session (Q t) < cl_next_connection_generation c" if "knows_protocol (Q t)"
    using that N'(9) by blast
  show "ss_protocol (cl_sessions c' (rq_session (Q t))) = rq_protocol (Q t)"
    if "knows_protocol (Q t)" "rq_protocol (Q t) \<noteq> Proto_Unknown"
    using P'(2) that by (simp only: E'(6))
  assume t: "rq_kind (Q t) = Request_Apply" "rq_protocol (Q t) = Proto_Unknown" "cl_session c' = Some (rq_session (Q t))"
  {
    assume *: "may_send (Q t)" "cl_wait_generation c' = rq_wait (Q t)"
    with N'(2) [OF t(1)] E'(3) have "cl_wait_generation c = rq_wait (Q t)" by (simp only: order_antisym)
    with * t P'(3) [of t] E'(8) [OF t(3)] known show "ss_protocol (cl_sessions c' (rq_session (Q t))) = Proto_Unknown"
      by (simp add: E'(6) points)
  next
    assume *: "awaits (Q t)"
    then have "knows_protocol (Q t)" by blast
    from E'(8) [OF t(3) known [OF this]] P'(4) [OF t(1,2) _ *]
    show "cl_wait_generation c' = rq_wait (Q t) \<and> ss_protocol (cl_sessions c' (rq_session (Q t))) = Proto_Unknown \<and>
      ss_untagged_pending (cl_sessions c' (rq_session (Q t)))" by auto
  }
qed

lemma confusable_evolves: "evolves c c' \<Longrightarrow> confusable K c' g rq = confusable K c g rq"
  by (simp add: confusable_def evolves_def)

lemma inv_evolves:
  assumes inv: "inv K w" and E: "evolves (wd_client w) c'"
  shows "inv K (w\<lparr>wd_client := c'\<rparr>)"
proof (rule invI)
  note D = invD [OF inv]
  have cur: "cl_session (wd_client w) = Some g" if "cl_session c' = Some g" "g < cl_next_connection_generation (wd_client w)" for g
    using that E by (auto simp: evolves_def)
  have inbox: "ss_inbox (cl_sessions c' g) = ss_inbox (session_of w g)" for g using E by (simp add: evolves_def)
  have fresh: "ss_inbox (session_of w g) = []" if "\<not> g < cl_next_connection_generation (wd_client w)" for g
    using that D(1) by (simp add: inv_client_def new_session_def)
  show "inv_client (wd_client (w\<lparr>wd_client := c'\<rparr>))" using E by (simp add: evolves_def)
  show "inv_numbers (wd_client (w\<lparr>wd_client := c'\<rparr>)) (wd_requests (w\<lparr>wd_client := c'\<rparr>))"
    using inv_numbers_evolves [OF D(2) E] by simp
  show "inv_reader (wd_requests (w\<lparr>wd_client := c'\<rparr>)) (wd_reader (w\<lparr>wd_client := c'\<rparr>))" using D(3) by simp
  show "inv_protocol K (wd_client (w\<lparr>wd_client := c'\<rparr>)) (wd_requests (w\<lparr>wd_client := c'\<rparr>))"
    using inv_protocol_evolves [OF D(4,2) E] by simp
  have grown: "g < cl_next_connection_generation c'" if "g < cl_next_connection_generation (wd_client w)" for g
    using that E by (auto simp: evolves_def)
  then show "inv_open K (w\<lparr>wd_client := c'\<rparr>)"
    using D(5) cur by (simp add: inv_open_def open_at_def current_def confusable_evolves [OF E])
  show "inv_frames K (w\<lparr>wd_client := c'\<rparr>)" using D(6) grown by (simp add: inv_frames_def)
  show "inv_inbox K (w\<lparr>wd_client := c'\<rparr>)"
    using D(7) cur fresh by (fastforce simp: inv_inbox_def current_def inbox confusable_evolves [OF E])
  show "inv_results (w\<lparr>wd_client := c'\<rparr>)" using D(8) by (simp add: inv_results_def)
qed

section \<open>The steps of the connection\<close>

lemma inv_clientD:
  assumes "inv_client c"
  shows "ss_generation (cl_sessions c g) = g"
    "cl_connection_generation c = (case cl_session c of None \<Rightarrow> 0 | Some g \<Rightarrow> g)"
    "cl_session c = Some g \<Longrightarrow> 0 < g \<and> g < cl_next_connection_generation c"
    "0 < cl_next_connection_generation c"
    "cl_next_connection_generation c \<le> g \<Longrightarrow> cl_sessions c g = new_session g"
    "0 < cl_next_apply_request_id c" "unat (cl_next_apply_request_id c) < 2 ^ 32"
    "0 < cl_next_auxiliary_request_id c" "i \<in> set (cl_issued c) \<Longrightarrow> unat i < 2 ^ 32"
  using assms unfolding inv_client_def by blast+

lemma session_is_current_iff: "inv_client c \<Longrightarrow> 0 < g \<Longrightarrow> session_is_current g c \<longleftrightarrow> cl_session c = Some g"
  by (auto simp: session_is_current_def inv_clientD split: option.splits dest: inv_clientD(3))

lemma evolves_retire: "inv_client c \<Longrightarrow> evolves c (snd (retire_session_locked c))"
  by (auto simp: evolves_def retire_session_locked_def inv_client_def)

lemma evolves_reset_log: "evolves c c' \<Longrightarrow> evolves c (reset_log_level_cache c')"
  by (simp add: evolves_def reset_log_level_cache_def inv_client_def)

lemma evolves_drop: "inv_client c \<Longrightarrow> evolves c (drop_connection_if_current g c)"
  by (simp add: drop_connection_if_current_def evolves_reset_log evolves_retire evolves_refl)

lemma word_less_Suc: "unat (x :: 'a::len word) + 1 < 2 ^ LENGTH('a) \<Longrightarrow> x < x + 1"
  by (simp add: word_less_nat_alt unat_word_ariths take_bit_nat_eq_self)

lemma roomyD:
  assumes "roomy c"
  shows "cl_next_connection_generation c < cl_next_connection_generation c + 1"
    "cl_wait_generation c < cl_wait_generation c + 1"
    "cl_next_apply_request_id c < cl_next_apply_request_id c + 1"
    "unat (cl_next_apply_request_id c + 1) < 2 ^ 32"
    "cl_next_auxiliary_request_id c < cl_next_auxiliary_request_id c + 1"
  using assms by (auto simp: roomy_def intro!: word_less_Suc simp: unat_word_ariths take_bit_nat_eq_self)

lemma evolves_wait_generation:
  assumes "inv_client c" "roomy c"
    and "\<And>g. cl_session c = Some g \<Longrightarrow> ss_protocol (cl_sessions c g) = Proto_V2 \<or> \<not> ss_untagged_pending (cl_sessions c g)"
  shows "evolves c (c\<lparr>cl_wait_generation := cl_wait_generation c + 1\<rparr>)"
  using assms roomyD(2) [OF assms(2)] by (auto simp: evolves_def inv_client_def)

lemma evolves_trans_none:
  assumes "evolves c c1" "cl_session c1 = None" "roomy c1"
  shows "evolves c (c1\<lparr>cl_wait_generation := cl_wait_generation c1 + 1\<rparr>)"
  using assms roomyD(2) [OF assms(3)] by (auto simp: evolves_def inv_client_def)

lemma retire_untagged_cases:
  assumes "inv_client c" "retire_untagged_response_session_if_needed_locked c = (retired, c')"
  shows "(retired = None \<and> c' = c \<and>
            (\<forall>g. cl_session c = Some g \<longrightarrow> ss_protocol (cl_sessions c g) = Proto_V2 \<or> \<not> ss_untagged_pending (cl_sessions c g))) \<or>
         (evolves c c' \<and> cl_session c' = None \<and> (roomy c \<longrightarrow> roomy c'))"
  using assms(2) inv_clientD [OF assms(1)]
  by (auto simp: retire_untagged_response_session_if_needed_locked_def retire_session_locked_def update_session_def Let_def
      evolves_def inv_client_def roomy_def split: option.splits if_splits)

lemma evolves_begin:
  assumes "inv_client c" "roomy c"
  shows "evolves c (snd (cancel_or_begin_apply_wait_cancellable got_lock c))"
proof (cases got_lock)
  case True
  obtain retired c1 where r: "retire_untagged_response_session_if_needed_locked c = (retired, c1)" by fastforce
  from retire_untagged_cases [OF assms(1) r] assms(2)
  have "evolves c (c1\<lparr>cl_wait_generation := cl_wait_generation c1 + 1\<rparr>)"
    by (auto intro: evolves_wait_generation [OF assms] evolves_trans_none)
  with True r show ?thesis
    by (simp add: cancel_or_begin_apply_wait_cancellable_def Let_def evolves_reset_log)
qed (simp add: cancel_or_begin_apply_wait_cancellable_def evolves_refl assms)

lemma evolves_connected:
  assumes "inv_client c" "roomy c"
  shows "evolves c (snd (connected_session refused alive made c))"
proof -
  have new: "evolves c (c1\<lparr>cl_next_connection_generation := gen + 1, cl_sessions := (cl_sessions c1)(gen := new_session gen),
      cl_session := Some gen, cl_connection_generation := gen\<rparr>)"
    if "evolves c c1" "cl_session c1 = None" "gen = cl_next_connection_generation c1" "cl_next_connection_generation c1 = cl_next_connection_generation c"
    for c1 gen
    using that roomyD(1) [OF assms(2)] inv_clientD [OF evolvesD(1) [OF that(1)]] evolvesD(6,7) [OF that(1)] inv_clientD [OF assms(1)]
    by (auto simp: evolves_def inv_client_def new_session_def)
  define c1 where "c1 = (if cl_session c = None then c else reset_log_level_cache (snd (retire_session_locked c)))"
  have c1: "evolves c c1" "cl_session c1 = None" "cl_next_connection_generation c1 = cl_next_connection_generation c"
    using assms(1) by (auto simp: c1_def evolves_refl evolves_reset_log evolves_retire)
      (auto simp: reset_log_level_cache_def retire_session_locked_def)
  from new [OF c1(1,2) refl c1(3)] c1(1) assms(1) show ?thesis
    unfolding connected_session_def ensure_connected_locked_def
    by (auto simp: Let_def evolves_refl c1_def split: prod.split)
qed

lemma connected_session_current:
  "connected_session refused alive made c = (Some g, c') \<Longrightarrow> cl_session c' = Some g"
  by (auto simp: connected_session_def split: prod.splits if_splits)

lemma evolves_reset:
  assumes "inv_client c" "roomy c"
  shows "evolves c (snd (reset_connection_cancellable got_lock c))"
proof (cases "got_lock \<and> cl_session c \<noteq> None")
  case True
  then show ?thesis using assms roomyD(2) [OF assms(2)]
    by (auto simp: reset_connection_cancellable_def retire_session_locked_def evolves_def inv_client_def reset_log_level_cache_def)
next
  case False
  then show ?thesis using assms
    by (auto simp: reset_connection_cancellable_def evolves_refl Let_def intro: evolves_wait_generation)
qed

section \<open>The steps of a request\<close>

lemma numbers_set:
  assumes N: "inv_numbers c Q"
    and le: "cl_next_connection_generation c \<le> cl_next_connection_generation c'" "cl_wait_generation c \<le> cl_wait_generation c'"
      "cl_next_apply_request_id c \<le> cl_next_apply_request_id c'" "cl_next_auxiliary_request_id c \<le> cl_next_auxiliary_request_id c'"
    and started: "rq_at rq \<noteq> At_Start"
    and applied: "rq_kind rq = Request_Apply \<Longrightarrow> rq_wait rq \<le> cl_wait_generation c' \<and> rq_id rq < cl_next_apply_request_id c' \<and>
      (underway rq \<longrightarrow> rq_wait rq \<noteq> 0 \<and> rq_id rq \<noteq> 0)"
    and refresh: "rq_kind rq = Request_Refresh \<Longrightarrow> rq_id rq < cl_next_auxiliary_request_id c' \<and>
      (knows_protocol rq \<and> rq_protocol rq = Proto_V2 \<longrightarrow> rq_id rq \<noteq> 0)"
    and id: "\<And>t'. t' \<noteq> t \<Longrightarrow> rq_kind (Q t') = rq_kind rq \<Longrightarrow> rq_id rq \<noteq> 0 \<Longrightarrow> rq_id (Q t') \<noteq> rq_id rq"
    and wait: "\<And>t'. t' \<noteq> t \<Longrightarrow> rq_kind (Q t') = Request_Apply \<Longrightarrow> rq_kind rq = Request_Apply \<Longrightarrow> rq_wait rq \<noteq> 0 \<Longrightarrow>
      rq_wait (Q t') \<noteq> rq_wait rq"
    and session: "has_session rq \<Longrightarrow> 0 < rq_session rq \<and> rq_session rq < cl_next_connection_generation c'"
  shows "inv_numbers c' (Q(t := rq))"
proof (rule numbersI)
  note N = numbersD [OF N]
  fix u
  show "rq_at ((Q(t := rq)) u) = At_Start \<Longrightarrow> rq_wait ((Q(t := rq)) u) = 0 \<and> rq_id ((Q(t := rq)) u) = 0"
    using started N(1) [of u] by (cases "u = t") simp_all
  show "rq_kind ((Q(t := rq)) u) = Request_Apply \<Longrightarrow> rq_wait ((Q(t := rq)) u) \<le> cl_wait_generation c'"
    using applied order_trans [OF N(2) [of u] le(2)] by (cases "u = t") simp_all
  show "rq_kind ((Q(t := rq)) u) = Request_Apply \<Longrightarrow> rq_id ((Q(t := rq)) u) < cl_next_apply_request_id c'"
    using applied order_less_le_trans [OF N(3) [of u] le(3)] by (cases "u = t") simp_all
  show "rq_kind ((Q(t := rq)) u) = Request_Apply \<Longrightarrow> underway ((Q(t := rq)) u) \<Longrightarrow>
      rq_wait ((Q(t := rq)) u) \<noteq> 0 \<and> rq_id ((Q(t := rq)) u) \<noteq> 0"
    using applied N(4) [of u] by (cases "u = t") simp_all
  show "rq_kind ((Q(t := rq)) u) = Request_Refresh \<Longrightarrow> rq_id ((Q(t := rq)) u) < cl_next_auxiliary_request_id c'"
    using refresh order_less_le_trans [OF N(5) [of u] le(4)] by (cases "u = t") simp_all
  show "rq_kind ((Q(t := rq)) u) = Request_Refresh \<Longrightarrow> knows_protocol ((Q(t := rq)) u) \<Longrightarrow>
      rq_protocol ((Q(t := rq)) u) = Proto_V2 \<Longrightarrow> rq_id ((Q(t := rq)) u) \<noteq> 0"
    using refresh N(6) [of u] by (cases "u = t") simp_all
  show "has_session ((Q(t := rq)) u) \<Longrightarrow> 0 < rq_session ((Q(t := rq)) u) \<and>
      rq_session ((Q(t := rq)) u) < cl_next_connection_generation c'"
    using session N(9) [of u] le(1) by (cases "u = t") (simp_all, metis order_less_le_trans)
  fix v
  show "rq_kind ((Q(t := rq)) u) = rq_kind ((Q(t := rq)) v) \<Longrightarrow> rq_id ((Q(t := rq)) u) \<noteq> 0 \<Longrightarrow>
      rq_id ((Q(t := rq)) u) = rq_id ((Q(t := rq)) v) \<Longrightarrow> u = v"
    using id [of u] id [of v] N(7) [of u v] by (cases "u = t"; cases "v = t") simp_all
  show "rq_kind ((Q(t := rq)) u) = Request_Apply \<Longrightarrow> rq_kind ((Q(t := rq)) v) = Request_Apply \<Longrightarrow>
      rq_wait ((Q(t := rq)) u) \<noteq> 0 \<Longrightarrow> rq_wait ((Q(t := rq)) u) = rq_wait ((Q(t := rq)) v) \<Longrightarrow> u = v"
    using wait [of u] wait [of v] N(8) [of u v] by (cases "u = t"; cases "v = t") simp_all
qed

text \<open>A request that keeps its numbers.\<close>

lemma numbers_move:
  assumes N: "inv_numbers c Q"
    and same: "rq_kind rq = rq_kind (Q t)" "rq_wait rq = rq_wait (Q t)" "rq_id rq = rq_id (Q t)"
    and started: "rq_at (Q t) \<noteq> At_Start" "rq_at rq \<noteq> At_Start" "underway rq \<Longrightarrow> underway (Q t)"
    and proto: "rq_kind rq = Request_Refresh \<Longrightarrow> knows_protocol rq \<Longrightarrow> rq_protocol rq = Proto_V2 \<Longrightarrow> rq_id (Q t) \<noteq> 0"
    and session: "has_session rq \<Longrightarrow> 0 < rq_session rq \<and> rq_session rq < cl_next_connection_generation c"
  shows "inv_numbers c (Q(t := rq))"
proof (rule numbers_set [OF N order_refl order_refl order_refl order_refl started(2)])
  note N = numbersD [OF N]
  show "rq_kind rq = Request_Apply \<Longrightarrow> rq_wait rq \<le> cl_wait_generation c \<and> rq_id rq < cl_next_apply_request_id c \<and>
      (underway rq \<longrightarrow> rq_wait rq \<noteq> 0 \<and> rq_id rq \<noteq> 0)"
    using N(2-4) [of t] same started(3) by simp
  show "rq_kind rq = Request_Refresh \<Longrightarrow> rq_id rq < cl_next_auxiliary_request_id c \<and>
      (knows_protocol rq \<and> rq_protocol rq = Proto_V2 \<longrightarrow> rq_id rq \<noteq> 0)"
    using N(5) [of t] same proto by simp
  show "rq_id (Q t') \<noteq> rq_id rq" if "t' \<noteq> t" "rq_kind (Q t') = rq_kind rq" "rq_id rq \<noteq> 0" for t'
    using N(7) [of t' t] that same by auto
  show "rq_wait (Q t') \<noteq> rq_wait rq"
    if "t' \<noteq> t" "rq_kind (Q t') = Request_Apply" "rq_kind rq = Request_Apply" "rq_wait rq \<noteq> 0" for t'
    using N(8) [of t' t] that same by auto
qed (fact session)

lemma reader_set:
  assumes "inv_reader Q R"
  shows "\<not> reading (Q t) \<Longrightarrow> \<not> reading rq \<Longrightarrow> inv_reader (Q(t := rq)) R"
    "\<not> reading (Q t) \<Longrightarrow> reading rq \<Longrightarrow> R (rq_session rq) = None \<Longrightarrow> inv_reader (Q(t := rq)) (R(rq_session rq := Some t))"
    "reading (Q t) \<Longrightarrow> reading rq \<Longrightarrow> rq_session rq = rq_session (Q t) \<Longrightarrow> inv_reader (Q(t := rq)) R"
    "reading (Q t) \<Longrightarrow> \<not> reading rq \<Longrightarrow> inv_reader (Q(t := rq)) (R(rq_session (Q t) := None))"
  using assms unfolding inv_reader_def by (auto split: if_splits) (metis option.inject option.distinct(1))+

lemma protocol_set:
  assumes P: "inv_protocol K c Q"
    and known: "knows_protocol rq \<Longrightarrow> rq_protocol rq \<noteq> Proto_Unknown \<Longrightarrow> ss_protocol (cl_sessions c (rq_session rq)) = rq_protocol rq"
    and sending: "rq_kind rq = Request_Apply \<Longrightarrow> rq_protocol rq = Proto_Unknown \<Longrightarrow> cl_session c = Some (rq_session rq) \<Longrightarrow>
       may_send rq \<Longrightarrow> cl_wait_generation c = rq_wait rq \<Longrightarrow> ss_protocol (cl_sessions c (rq_session rq)) = Proto_Unknown"
    and awaiting: "rq_kind rq = Request_Apply \<Longrightarrow> rq_protocol rq = Proto_Unknown \<Longrightarrow> cl_session c = Some (rq_session rq) \<Longrightarrow>
       awaits rq \<Longrightarrow> cl_wait_generation c = rq_wait rq \<and> ss_protocol (cl_sessions c (rq_session rq)) = Proto_Unknown \<and>
         ss_untagged_pending (cl_sessions c (rq_session rq))"
  shows "inv_protocol K c (Q(t := rq))"
proof (rule protocolI)
  note P = protocolD [OF P]
  show "proto_fits (K g) (ss_protocol (cl_sessions c g))" for g by (rule P(1))
  fix u
  show "knows_protocol ((Q(t := rq)) u) \<Longrightarrow> rq_protocol ((Q(t := rq)) u) \<noteq> Proto_Unknown \<Longrightarrow>
      ss_protocol (cl_sessions c (rq_session ((Q(t := rq)) u))) = rq_protocol ((Q(t := rq)) u)"
    using known P(2) [of u] by (cases "u = t") simp_all
  assume "rq_kind ((Q(t := rq)) u) = Request_Apply" "rq_protocol ((Q(t := rq)) u) = Proto_Unknown"
    "cl_session c = Some (rq_session ((Q(t := rq)) u))"
  then show "may_send ((Q(t := rq)) u) \<Longrightarrow> cl_wait_generation c = rq_wait ((Q(t := rq)) u) \<Longrightarrow>
      ss_protocol (cl_sessions c (rq_session ((Q(t := rq)) u))) = Proto_Unknown"
    "awaits ((Q(t := rq)) u) \<Longrightarrow> cl_wait_generation c = rq_wait ((Q(t := rq)) u) \<and>
      ss_protocol (cl_sessions c (rq_session ((Q(t := rq)) u))) = Proto_Unknown \<and>
      ss_untagged_pending (cl_sessions c (rq_session ((Q(t := rq)) u)))"
    using sending awaiting P(3,4) [of u] by (cases "u = t"; simp)+
qed

end
