(* ===== verification/Client_Steps.thy ===== *)
theory Client_Steps
  imports Client_Invariants
begin

text \<open>
  Every step of the client, of its requests and of the helper keeps the invariant; what follows for the
  result of a request.
\<close>

text \<open>A request that has not been sent is on no wire.\<close>

lemma not_sent_not_open:
  assumes "inv K w" "\<not> was_sent (request_of w t)"
  shows "t \<notin> set (open_at w g)" "(g, t, bs) \<notin> wd_replied w" "rq_result (request_of w t) = None"
proof -
  note D = invD [OF assms(1)]
  show "t \<notin> set (open_at w g)" using D(5) assms(2) unfolding inv_open_def by blast
  show "(g, t, bs) \<notin> wd_replied w" using D(6) assms(2) unfolding inv_frames_def by blast
  have "rq_at (request_of w t) \<noteq> At_End" using assms(2) by (simp add: point_defs)
  then show "rq_result (request_of w t) = None" using D(8) by (cases "rq_result (request_of w t)") (auto simp: inv_results_def)
qed

lemma open_at_update [simp]:
  "open_at (w\<lparr>wd_requests := Q\<rparr>) g = open_at w g" "open_at (w\<lparr>wd_reader := R\<rparr>) g = open_at w g"
  "open_at (w\<lparr>wd_client := c\<rparr>) g = open_at w g"
  by (simp_all add: open_at_def)

lemma current_update [simp]:
  "current (w\<lparr>wd_requests := Q\<rparr>) g = current w g" "current (w\<lparr>wd_reader := R\<rparr>) g = current w g"
  by (simp_all add: current_def)

lemma inv_request_fresh:
  assumes inv: "inv K w" and fresh: "\<not> was_sent (request_of w t)" and res: "rq_result rq = None"
    and numbers: "inv_numbers (wd_client w) ((wd_requests w)(t := rq))"
    and reader: "inv_reader ((wd_requests w)(t := rq)) R"
    and protocol: "inv_protocol K (wd_client w) ((wd_requests w)(t := rq))"
    and others: "\<And>g u. u \<noteq> t \<Longrightarrow> wd_reader w g = Some u \<Longrightarrow> R g = Some u"
  shows "inv K (w\<lparr>wd_requests := (wd_requests w)(t := rq), wd_reader := R\<rparr>)"
proof (rule invI)
  note D = invD [OF inv] and no = not_sent_not_open [OF inv fresh]
  let ?w = "w\<lparr>wd_requests := (wd_requests w)(t := rq), wd_reader := R\<rparr>"
  show "inv_client (wd_client ?w)" "inv_numbers (wd_client ?w) (wd_requests ?w)" "inv_reader (wd_requests ?w) (wd_reader ?w)"
    "inv_protocol K (wd_client ?w) (wd_requests ?w)"
    using D(1) numbers reader protocol by simp_all
  have other: "u \<noteq> t" if "u \<in> set (open_at w g)" for u g using that no(1) by blast
  show "inv_open K ?w" using D(5) other others unfolding inv_open_def by (simp; metis)
  have other: "u \<noteq> t" if "(g, u, bs) \<in> wd_replied w" for u g bs using that no(2) by blast
  show "inv_frames K ?w" using D(6) other unfolding inv_frames_def by (simp; metis)
  show "inv_inbox K ?w" using D(7) other unfolding inv_inbox_def by (simp; metis)
  show "inv_results ?w" using D(8) res unfolding inv_results_def by simp
qed

lemma inv_request_sent:
  assumes inv: "inv K w" and sent: "was_sent (request_of w t)" "was_sent rq"
    and same: "rq_kind rq = rq_kind (request_of w t)" "rq_protocol rq = rq_protocol (request_of w t)"
      "rq_id rq = rq_id (request_of w t)" "rq_session rq = rq_session (request_of w t)"
    and res: "\<And>ok. rq_result rq = Some ok \<Longrightarrow> rq_at rq = At_End \<and>
      (\<exists>bs. (rq_session rq, t, bs) \<in> wd_replied w \<and> ok = response_success bs)"
    and numbers: "inv_numbers (wd_client w) ((wd_requests w)(t := rq))"
    and reader: "inv_reader ((wd_requests w)(t := rq)) R"
    and protocol: "inv_protocol K (wd_client w) ((wd_requests w)(t := rq))"
    and others: "\<And>g u. u \<noteq> t \<Longrightarrow> wd_reader w g = Some u \<Longrightarrow> R g = Some u"
    and own: "\<And>g. current w g \<Longrightarrow> t \<in> set (open_at w g) \<Longrightarrow> confusable K (wd_client w) g rq \<Longrightarrow> R g = Some t"
  shows "inv K (w\<lparr>wd_requests := (wd_requests w)(t := rq), wd_reader := R\<rparr>)"
proof (rule invI)
  note D = invD [OF inv]
  let ?w = "w\<lparr>wd_requests := (wd_requests w)(t := rq), wd_reader := R\<rparr>"
  have c: "correlated rq = correlated (request_of w t)" using same by (simp add: correlated_def)
  have f: "fits_reply k rq = fits_reply k (request_of w t)" for k
    unfolding fits_reply_def c unfolding same ..
  have cf: "confusable K (wd_client w) g rq = confusable K (wd_client w) g (request_of w t)" for g
    by (simp add: confusable_def same c)
  show "inv_client (wd_client ?w)" "inv_numbers (wd_client ?w) (wd_requests ?w)" "inv_reader (wd_requests ?w) (wd_reader ?w)"
    "inv_protocol K (wd_client ?w) (wd_requests ?w)"
    using D(1) numbers reader protocol by simp_all
  show "inv_open K ?w" using D(5) sent same c cf others own unfolding inv_open_def by (auto simp: split: if_splits)
  show "inv_frames K ?w" using D(6) sent same c f unfolding inv_frames_def by auto
  show "inv_inbox K ?w" using D(7) cf unfolding inv_inbox_def by (simp; metis)
  show "inv_results ?w" using D(8) res unfolding inv_results_def by simp
qed

lemma at_step_eq: "at_step t (rq, c) w = w\<lparr>wd_client := c, wd_requests := (wd_requests w)(t := rq)\<rparr>"
  by (simp add: at_step_def set_request_def)

text \<open>The change of the connection first, then the request.\<close>

lemma step_fresh:
  assumes inv: "inv K w" and E: "evolves (wd_client w) c" and fresh: "\<not> was_sent (request_of w t)"
    and res: "rq_result rq = None" and quiet: "\<not> reading (request_of w t)" "\<not> reading rq"
    and numbers: "inv_numbers c ((wd_requests w)(t := rq))"
    and known: "knows_protocol rq \<Longrightarrow> ss_protocol (cl_sessions c (rq_session rq)) = rq_protocol rq"
  shows "inv K (at_step t (rq, c) w)"
proof -
  note I = inv_evolves [OF inv E] and D = invD [OF inv_evolves [OF inv E]]
  have "inv K ((w\<lparr>wd_client := c\<rparr>)\<lparr>wd_requests := (wd_requests (w\<lparr>wd_client := c\<rparr>))(t := rq), wd_reader := wd_reader w\<rparr>)"
  proof (rule inv_request_fresh [OF I])
    show "inv_reader ((wd_requests (w\<lparr>wd_client := c\<rparr>))(t := rq)) (wd_reader w)"
      using reader_set(1) [OF D(3)] quiet by simp
    show "inv_protocol K (wd_client (w\<lparr>wd_client := c\<rparr>)) ((wd_requests (w\<lparr>wd_client := c\<rparr>))(t := rq))"
      using quiet known by (intro protocol_set [OF D(4)]) (auto simp: point_defs)
  qed (use fresh res numbers in simp_all)
  then show ?thesis by (simp add: at_step_eq)
qed

lemma keeps_begins:
  assumes inv: "inv K w" and start: "rq_at (request_of w t) = At_Start" and roomy: "roomy (wd_client w)"
  shows "inv K (at_step t (request_begin got_lock ((request_of w t)\<lparr>rq_kind := k\<rparr>) (wd_client w)) w)"
proof -
  note D = invD [OF inv] and N = numbersD [OF invD(2) [OF inv]]
  let ?c = "wd_client w" and ?rq = "(request_of w t)\<lparr>rq_kind := k\<rparr>"
  have fresh: "\<not> was_sent (request_of w t)" "\<not> reading (request_of w t)" using start by (simp_all add: point_defs)
  note res = not_sent_not_open(3) [OF inv fresh(1)] and zero = N(1) [OF start]
  obtain g c1 where b: "cancel_or_begin_apply_wait_cancellable got_lock ?c = (g, c1)" by fastforce
  have E: "evolves ?c c1" using evolves_begin [OF D(1) roomy, of got_lock] b by simp
  note E' = evolvesD [OF E]
  consider (refresh) "k = Request_Refresh" | (none) "k = Request_Apply" "g = None" | (begun) v where "k = Request_Apply" "g = Some v"
    by (cases k; cases g) auto
  then show ?thesis
  proof cases
    case refresh
    let ?new = "?rq\<lparr>rq_at := At_Connect, rq_wait := cl_wait_generation ?c\<rparr>"
    have "inv K (at_step t (?new, ?c) w)"
      using fresh res refresh zero inv_clientD(8) [OF D(1)]
      by (intro step_fresh [OF inv evolves_refl [OF D(1)]] numbers_set [OF D(2)]) (simp_all add: point_defs)
    with refresh show ?thesis by (simp add: request_begin_def)
  next
    case none
    let ?new = "?rq\<lparr>rq_at := At_End\<rparr>"
    have "inv K (at_step t (?new, c1) w)"
      using fresh res none zero E' inv_clientD(6) [OF E'(1)]
      by (intro step_fresh [OF inv E] numbers_set [OF D(2)]) (simp_all add: point_defs)
    with none b show ?thesis by (simp add: request_begin_def)
  next
    case begun
    have v: "v = cl_wait_generation c1" "cl_wait_generation ?c < v" "cl_next_apply_request_id c1 = cl_next_apply_request_id ?c"
      using b begun(2) roomyD(2) [OF roomy]
      by (auto simp: cancel_or_begin_apply_wait_cancellable_def retire_untagged_response_session_if_needed_locked_def
          retire_session_locked_def reset_log_level_cache_def update_session_def Let_def split: if_splits option.splits)
    let ?c2 = "c1\<lparr>cl_next_apply_request_id := cl_next_apply_request_id c1 + 1\<rparr>"
    let ?new = "?rq\<lparr>rq_at := At_Connect, rq_wait := v, rq_id := cl_next_apply_request_id c1\<rparr>"
    have n: "cl_next_apply_request_id c1 < cl_next_apply_request_id c1 + 1" "unat (cl_next_apply_request_id c1 + 1) < 2 ^ 32"
      using roomyD(3,4) [OF roomy] v(3) by simp_all
    have E2: "evolves ?c ?c2"
      using E n E'(4) by (auto simp: evolves_def inv_client_def intro: order_trans less_imp_le order_less_trans)
    have "inv K (at_step t (?new, ?c2) w)"
    proof (rule step_fresh [OF inv E2 fresh(1)])
      show "inv_numbers ?c2 ((wd_requests w)(t := ?new))"
      proof (rule numbers_set [OF D(2)])
        show "rq_id (request_of w u) \<noteq> rq_id ?new" if "rq_kind (request_of w u) = rq_kind ?new" for u
          using N(3) [of u] that begun v(3) by auto
        show "rq_wait (request_of w u) \<noteq> rq_wait ?new" if "rq_kind (request_of w u) = Request_Apply" for u
          using N(2) [OF that] v(2) by auto
      qed (use begun v n E' inv_clientD(6) [OF E'(1)] in \<open>auto simp: point_defs intro: order_trans less_imp_le\<close>)
    qed (use fresh res in \<open>simp_all add: point_defs\<close>)
    with begun b show ?thesis by (simp add: request_begin_def)
  qed
qed

lemma keeps_connects:
  assumes inv: "inv K w" and at: "rq_at (request_of w t) = At_Connect" and roomy: "roomy (wd_client w)"
  shows "inv K (at_step t (request_connect refused alive made (request_of w t) (wd_client w)) w)"
proof -
  note D = invD [OF inv] and N = numbersD [OF invD(2) [OF inv]]
  have fresh: "\<not> was_sent (request_of w t)" "\<not> reading (request_of w t)" using at by (simp_all add: point_defs)
  note res = not_sent_not_open(3) [OF inv fresh(1)]
  obtain g c where c: "connected_session refused alive made (wd_client w) = (g, c)" by fastforce
  have E: "evolves (wd_client w) c" using evolves_connected [OF D(1) roomy, of refused alive made] c by simp
  note num = numbers_move [OF inv_numbers_evolves [OF D(2) E], where t = t]
  show ?thesis
  proof (cases g)
    case None
    have "inv K (at_step t ((request_of w t)\<lparr>rq_at := At_End\<rparr>, c) w)"
      using fresh res at by (intro step_fresh [OF inv E] num) (simp_all add: point_defs)
    with None c show ?thesis by (simp add: request_connect_def)
  next
    case (Some g)
    with c have "cl_session c = Some g" using connected_session_current by blast
    with inv_clientD(3) [OF evolvesD(1) [OF E]] have "0 < g \<and> g < cl_next_connection_generation c" by blast
    then have "inv K (at_step t ((request_of w t)\<lparr>rq_at := At_Protocol, rq_session := g\<rparr>, c) w)"
      using fresh res at by (intro step_fresh [OF inv E] num) (simp_all add: point_defs)
    with Some c show ?thesis by (simp add: request_connect_def)
  qed
qed

lemma keeps_reads_protocol:
  assumes inv: "inv K w" and at: "rq_at (request_of w t) = At_Protocol" and roomy: "roomy (wd_client w)"
  shows "inv K (at_step t (request_protocol (request_of w t) (wd_client w)) w)"
proof -
  note D = invD [OF inv] and N = numbersD [OF invD(2) [OF inv]]
  let ?c = "wd_client w" and ?p = "ss_protocol (session_of w (rq_session (request_of w t)))"
  let ?rq = "(request_of w t)\<lparr>rq_at := At_Lock, rq_protocol := ?p\<rparr>"
  have fresh: "\<not> was_sent (request_of w t)" "\<not> reading (request_of w t)" using at by (simp_all add: point_defs)
  note res = not_sent_not_open(3) [OF inv fresh(1)]
  have "has_session (request_of w t)" using at by (simp add: point_defs)
  note session = N(9) [OF this]
  show ?thesis
  proof (cases "rq_kind (request_of w t) = Request_Refresh \<and> ?p = Proto_V2")
    case True
    let ?c2 = "?c\<lparr>cl_next_auxiliary_request_id := cl_next_auxiliary_request_id ?c + 1\<rparr>"
    let ?new = "?rq\<lparr>rq_id := cl_next_auxiliary_request_id ?c\<rparr>"
    note n = roomyD(5) [OF roomy]
    have E: "evolves ?c ?c2" using evolves_refl [OF D(1)] n by (auto simp: evolves_def inv_client_def)
    have "inv K (at_step t (?new, ?c2) w)"
    proof (rule step_fresh [OF inv E fresh(1)])
      show "inv_numbers ?c2 ((wd_requests w)(t := ?new))"
      proof (rule numbers_set [OF D(2)])
        show "rq_id (request_of w u) \<noteq> rq_id ?new" if "rq_kind (request_of w u) = rq_kind ?new" for u
          using N(5) [of u] that True by auto
      qed (use True n session inv_clientD(8) [OF D(1)] in \<open>auto simp: point_defs\<close>)
    qed (use fresh res in \<open>simp_all add: point_defs\<close>)
    with True show ?thesis by (simp add: request_protocol_def)
  next
    case False
    have "inv K (at_step t (?rq, ?c) w)"
      using fresh res at session False
      by (intro step_fresh [OF inv evolves_refl [OF D(1)]] numbers_move [OF D(2)]) (simp_all add: point_defs)
    with False show ?thesis by (auto simp: request_protocol_def Let_def)
  qed
qed

lemma keeps_locks:
  assumes inv: "inv K w" and at: "rq_at (request_of w t) = At_Lock"
    and free: "wd_reader w (rq_session (request_of w t)) = None"
  shows "inv K (set_reader (rq_session (request_of w t)) (Some t) (set_request t ((request_of w t)\<lparr>rq_at := At_Send\<rparr>) w))"
proof -
  note D = invD [OF inv] and N = numbersD [OF invD(2) [OF inv]] and P = protocolD [OF invD(4) [OF inv]]
  let ?rq = "(request_of w t)\<lparr>rq_at := At_Send\<rparr>"
  have fresh: "\<not> was_sent (request_of w t)" "\<not> reading (request_of w t)" "reading ?rq" using at by (simp_all add: point_defs)
  have pts: "has_session (request_of w t)" "knows_protocol (request_of w t)" "may_send (request_of w t)"
    using at by (simp_all add: point_defs)
  note res = not_sent_not_open(3) [OF inv fresh(1)]
  have "inv K (w\<lparr>wd_requests := (wd_requests w)(t := ?rq), wd_reader := (wd_reader w)(rq_session ?rq := Some t)\<rparr>)"
  proof (rule inv_request_fresh [OF inv fresh(1)])
    show "inv_numbers (wd_client w) ((wd_requests w)(t := ?rq))"
      using at N(6) [of t] N(9) [OF pts(1)] pts by (intro numbers_move [OF D(2)]) (simp_all add: point_defs)
    show "inv_reader ((wd_requests w)(t := ?rq)) ((wd_reader w)(rq_session ?rq := Some t))"
      using reader_set(2) [OF D(3) fresh(2,3)] free by simp
    show "inv_protocol K (wd_client w) ((wd_requests w)(t := ?rq))"
      using P(2,3) [of t] pts by (intro protocol_set [OF D(4)]) (simp_all add: point_defs)
    show "((wd_reader w)(rq_session ?rq := Some t)) g = Some u" if "wd_reader w g = Some u" for g u
      using that free by auto
  qed (use res in simp_all)
  then show ?thesis by (simp add: set_reader_def set_request_def)
qed

lemma keeps_aborts:
  assumes inv: "inv K w" and at: "rq_at (request_of w t) \<in> {At_Connect, At_Protocol, At_Lock}"
  shows "inv K (set_request t ((request_of w t)\<lparr>rq_at := At_End\<rparr>) w)"
proof -
  note D = invD [OF inv]
  have fresh: "\<not> was_sent (request_of w t)" "\<not> reading (request_of w t)" "underway (request_of w t)" "rq_at (request_of w t) \<noteq> At_Start"
    using at by (auto simp: point_defs)
  have "inv K (at_step t ((request_of w t)\<lparr>rq_at := At_End\<rparr>, wd_client w) w)"
    using fresh not_sent_not_open(3) [OF inv fresh(1)]
    by (intro step_fresh [OF inv evolves_refl [OF D(1)]] numbers_move [OF D(2)]) (simp_all add: point_defs)
  then show ?thesis by (simp add: at_step_def)
qed

lemma keeps_gives_up:
  assumes inv: "inv K w" and at: "rq_at (request_of w t) = At_Wait"
  shows "inv K (set_request t ((request_of w t)\<lparr>rq_at := At_Missing\<rparr>) w)"
proof -
  note D = invD [OF inv] and N = numbersD [OF invD(2) [OF inv]] and P = protocolD [OF invD(4) [OF inv]]
  let ?rq = "(request_of w t)\<lparr>rq_at := At_Missing\<rparr>"
  have pts: "was_sent (request_of w t)" "has_session (request_of w t)" "knows_protocol (request_of w t)" "awaits (request_of w t)"
    "reading (request_of w t)" "reading ?rq" using at by (simp_all add: point_defs)
  have res: "rq_result (request_of w t) = None" using D(8) at by (cases "rq_result (request_of w t)") (auto simp: inv_results_def)
  have "inv K (w\<lparr>wd_requests := (wd_requests w)(t := ?rq), wd_reader := wd_reader w\<rparr>)"
  proof (rule inv_request_sent [OF inv pts(1)])
    show "inv_numbers (wd_client w) ((wd_requests w)(t := ?rq))"
      using at N(6) [of t] N(9) [OF pts(2)] pts by (intro numbers_move [OF D(2)]) (simp_all add: point_defs)
    show "inv_reader ((wd_requests w)(t := ?rq)) (wd_reader w)" using reader_set(3) [OF D(3) pts(5,6)] by simp
    show "inv_protocol K (wd_client w) ((wd_requests w)(t := ?rq))"
      using P(2,4) [of t] pts by (intro protocol_set [OF D(4)]) (simp_all add: point_defs)
    show "wd_reader w g = Some t" if "current w g" "t \<in> set (open_at w g)" for g
      using that D(3,5) pts(5) unfolding inv_open_def inv_reader_def by blast
  qed (use res in \<open>simp_all add: point_defs\<close>)
  then show ?thesis by (simp add: set_request_def)
qed

lemma reader_unique: "inv_reader Q R \<Longrightarrow> reading (Q t) \<Longrightarrow> R (rq_session (Q t)) = Some u \<Longrightarrow> u = t"
  by (metis inv_reader_def option.inject)

lemma evolves_missing: "inv_client c \<Longrightarrow> evolves c (request_missing True rq c)"
  by (simp add: request_missing_def drop_connection_if_current_within_def evolves_refl evolves_drop split: request_kind.split)

lemma dropped_not_current: "inv_client c \<Longrightarrow> cl_session (drop_connection_if_current g c) \<noteq> Some g"
  by (simp add: drop_connection_if_current_def reset_log_level_cache_def retire_session_locked_def)

lemma v2_not_confusable:
  assumes "proto_fits (K g) (ss_protocol (cl_sessions c g))" "ss_protocol (cl_sessions c g) = Proto_V2" "correlated rq"
  shows "\<not> confusable K c g rq"
  using assms by (cases "K g") (simp_all add: confusable_def proto_fits_def)

lemma missing_not_confusable:
  assumes inv: "inv K w" and at: "rq_at (request_of w t) = At_Missing"
    and cur: "cl_session (request_missing True (request_of w t) (wd_client w)) = Some (rq_session (request_of w t))"
  shows "\<not> confusable K (wd_client w) (rq_session (request_of w t)) (request_of w t)"
proof -
  note D = invD [OF inv] and N = numbersD [OF invD(2) [OF inv]] and P = protocolD [OF invD(4) [OF inv]]
  let ?rq = "request_of w t" and ?c = "wd_client w"
  have pts: "has_session ?rq" "knows_protocol ?rq" "awaits ?rq" using at by (simp_all add: point_defs)
  have kept: "request_missing True ?rq ?c = ?c" and given_up: "case rq_kind ?rq of
      Request_Apply \<Rightarrow> rq_protocol ?rq \<noteq> Proto_Legacy \<and> cl_wait_generation ?c \<noteq> rq_wait ?rq
    | Request_Refresh \<Rightarrow> wait_cancelled ?rq ?c"
    using cur dropped_not_current [OF D(1), of "rq_session ?rq"] by (auto simp: request_missing_def drop_connection_if_current_within_def split: request_kind.splits if_splits)
  from cur kept have current: "cl_session ?c = Some (rq_session ?rq)" by simp
  have "rq_protocol ?rq = Proto_V2"
  proof (cases "rq_kind ?rq")
    case Request_Apply
    with given_up P(4) [OF Request_Apply _ current pts(3)] show ?thesis by (cases "rq_protocol ?rq") auto
  next
    case Request_Refresh
    with given_up current N(9) [OF pts(1)] show ?thesis
      by (auto simp: wait_cancelled_def session_is_current_iff [OF D(1)])
  qed
  then have v2: "ss_protocol (cl_sessions ?c (rq_session ?rq)) = Proto_V2" "correlated ?rq"
    using P(2) [of t] pts by (simp_all add: correlated_def)
  show ?thesis using P(1) [of "rq_session ?rq"] v2 by (rule v2_not_confusable [where c = ?c])
qed

lemma keeps_misses:
  assumes inv: "inv K w" and at: "rq_at (request_of w t) = At_Missing"
  shows "inv K (set_reader (rq_session (request_of w t)) None
      (at_step t ((request_of w t)\<lparr>rq_at := At_End\<rparr>, request_missing True (request_of w t) (wd_client w)) w))"
proof -
  let ?rq = "(request_of w t)\<lparr>rq_at := At_End\<rparr>" and ?c = "request_missing True (request_of w t) (wd_client w)"
  let ?w = "w\<lparr>wd_client := ?c\<rparr>" and ?R = "(wd_reader w)(rq_session (request_of w t) := None)"
  note E = evolves_missing [OF invD(1) [OF inv], of "request_of w t"]
  note I = inv_evolves [OF inv E] and D = invD [OF inv_evolves [OF inv E]]
  have pts: "was_sent (request_of w t)" "reading (request_of w t)" "underway (request_of w t)" "\<not> reading ?rq"
    using at by (simp_all add: point_defs)
  have res: "rq_result (request_of w t) = None" using invD(8) [OF inv] at
    by (cases "rq_result (request_of w t)") (auto simp: inv_results_def)
  have "inv K (?w\<lparr>wd_requests := (wd_requests ?w)(t := ?rq), wd_reader := ?R\<rparr>)"
  proof (rule inv_request_sent [OF I])
    show "inv_numbers (wd_client ?w) ((wd_requests ?w)(t := ?rq))"
      using at pts by (intro numbers_move [OF D(2)]) (simp_all add: point_defs)
    show "inv_reader ((wd_requests ?w)(t := ?rq)) ?R" using reader_set(4) [OF D(3), of t] pts by simp
    show "inv_protocol K (wd_client ?w) ((wd_requests ?w)(t := ?rq))"
      by (intro protocol_set [OF D(4)]) (simp_all add: point_defs)
    show "?R g = Some u" if "u \<noteq> t" "wd_reader ?w g = Some u" for g u
      using that reader_unique [OF invD(3) [OF inv] pts(2)] by auto
    show "?R g = Some t" if "current ?w g" "t \<in> set (open_at ?w g)" "confusable K (wd_client ?w) g ?rq" for g
    proof -
      have g: "rq_session (request_of w t) = g" using that(2) invD(5) [OF inv] unfolding inv_open_def by simp
      have "confusable K (wd_client w) g (request_of w t)"
        using that(3) confusable_evolves [OF E, of K g] by (simp add: confusable_def correlated_def)
      with missing_not_confusable [OF inv at] that(1) g show ?thesis by (simp add: current_def)
    qed
  qed (use pts res in \<open>simp_all add: point_defs\<close>)
  then show ?thesis by (simp add: set_reader_def at_step_def set_request_def)
qed

section \<open>The steps of the helper\<close>

lemma keeps_replies:
  assumes inv: "inv K w" and open_request: "wd_unanswered w g = before @ t # after"
    and fits: "fits_reply (K g) (request_of w t) bs"
  shows "inv K (w\<lparr>wd_unanswered := (wd_unanswered w)(g := before @ after),
      wd_wire := (wd_wire w)(g := wd_wire w g @ [(Some t, bs)]), wd_replied := insert (g, t, bs) (wd_replied w)\<rparr>)"
    (is "inv K ?w")
proof (rule invI)
  note D = invD [OF inv]
  have op: "mset (open_at ?w h) = mset (open_at w h)" for h
    using open_request by (simp add: open_at_def map_filter_def)
  then have same: "set (open_at ?w h) = set (open_at w h)" "distinct (open_at ?w h) = distinct (open_at w h)" for h
    by (metis mset_eq_setD, metis mset_eq_imp_distinct_iff)
  have t: "t \<in> set (open_at w g)" using open_request by (simp add: open_at_def)
  then have own: "rq_session (request_of w t) = g" "was_sent (request_of w t)" "g < cl_next_connection_generation (wd_client w)"
    "correlated (request_of w t) \<longrightarrow> rq_id (request_of w t) \<noteq> 0"
    using D(5) unfolding inv_open_def by blast+
  show "inv_open K ?w" using D(5) unfolding inv_open_def same by (simp add: current_def)
  show "inv_frames K ?w" using D(6) own fits unfolding inv_frames_def by (auto split: if_splits)
  show "inv_inbox K ?w" using D(7) unfolding inv_inbox_def current_def by (simp; blast)
  show "inv_results ?w" using D(8) unfolding inv_results_def by (simp; blast)
qed (use invD [OF inv] in simp_all)

lemma keeps_announces:
  assumes inv: "inv K w" and "unrelated bs" "g < cl_next_connection_generation (wd_client w)"
  shows "inv K (w\<lparr>wd_wire := (wd_wire w)(g := wd_wire w g @ [(None, bs)])\<rparr>)" (is "inv K ?w")
proof (rule invI)
  note D = invD [OF inv]
  have op: "open_at ?w h = open_at w h" for h by (simp add: open_at_def map_filter_def)
  show "inv_open K ?w" using D(5) unfolding inv_open_def op by (simp add: current_def)
  show "inv_frames K ?w" using D(6) assms(2,3) unfolding inv_frames_def by (auto split: if_splits)
  show "inv_inbox K ?w" using D(7) unfolding inv_inbox_def current_def by simp
  show "inv_results ?w" using D(8) unfolding inv_results_def by simp
qed (use invD [OF inv] in simp_all)


section \<open>A session changes in the hands of its reader\<close>

lemma inv_session:
  assumes inv: "inv K w" and gen: "ss_generation s = g" "g < cl_next_connection_generation (wd_client w)"
    and fits: "proto_fits (K g) (ss_protocol s)"
    and proto: "ss_protocol (session_of w g) \<noteq> Proto_Unknown \<Longrightarrow> ss_protocol s = ss_protocol (session_of w g)"
    and sending: "\<And>t. rq_kind (request_of w t) = Request_Apply \<Longrightarrow> rq_protocol (request_of w t) = Proto_Unknown \<Longrightarrow>
      rq_session (request_of w t) = g \<Longrightarrow> current w g \<Longrightarrow> may_send (request_of w t) \<Longrightarrow>
      cl_wait_generation (wd_client w) = rq_wait (request_of w t) \<Longrightarrow> ss_protocol s = Proto_Unknown"
    and awaiting: "\<And>t. rq_kind (request_of w t) = Request_Apply \<Longrightarrow> rq_protocol (request_of w t) = Proto_Unknown \<Longrightarrow>
      rq_session (request_of w t) = g \<Longrightarrow> current w g \<Longrightarrow> awaits (request_of w t) \<Longrightarrow>
      ss_protocol s = Proto_Unknown \<and> ss_untagged_pending s"
    and inbox: "\<And>bs. current w g \<Longrightarrow> bs \<in> set (ss_inbox s) \<Longrightarrow> \<not> unrelated bs \<Longrightarrow>
      \<exists>t. (g, t, bs) \<in> wd_replied w \<and> \<not> confusable K (wd_client w) g (request_of w t)"
  shows "inv K (w\<lparr>wd_client := (wd_client w)\<lparr>cl_sessions := (cl_sessions (wd_client w))(g := s)\<rparr>\<rparr>)" (is "inv K ?w")
proof (rule invI)
  note D = invD [OF inv] and P = protocolD [OF invD(4) [OF inv]]
  have less: "confusable K (wd_client w) h rq" if "confusable K (wd_client ?w) h rq" for h rq
    using that proto by (cases "ss_protocol (session_of w g) = Proto_Unknown") (auto simp: confusable_def split: if_splits)
  show "inv_client (wd_client ?w)" using D(1) gen by (auto simp: inv_client_def)
  show "inv_numbers (wd_client ?w) (wd_requests ?w)" using D(2) by (simp add: inv_numbers_def)
  show "inv_reader (wd_requests ?w) (wd_reader ?w)" using D(3) by simp
  show "inv_protocol K (wd_client ?w) (wd_requests ?w)"
  proof (rule protocolI)
    show "proto_fits (K h) (ss_protocol (session_of ?w h))" for h using P(1) [of h] fits by simp
    show "knows_protocol (request_of ?w t) \<Longrightarrow> rq_protocol (request_of ?w t) \<noteq> Proto_Unknown \<Longrightarrow>
        ss_protocol (session_of ?w (rq_session (request_of ?w t))) = rq_protocol (request_of ?w t)" for t
      using P(2) [of t] proto by auto
  next
    fix t
    assume t: "rq_kind (request_of ?w t) = Request_Apply" "rq_protocol (request_of ?w t) = Proto_Unknown"
      "cl_session (wd_client ?w) = Some (rq_session (request_of ?w t))"
    show "may_send (request_of ?w t) \<Longrightarrow> cl_wait_generation (wd_client ?w) = rq_wait (request_of ?w t) \<Longrightarrow>
        ss_protocol (session_of ?w (rq_session (request_of ?w t))) = Proto_Unknown"
      using t sending [of t] P(3) [of t] by (simp add: current_def)
    show "awaits (request_of ?w t) \<Longrightarrow> cl_wait_generation (wd_client ?w) = rq_wait (request_of ?w t) \<and>
        ss_protocol (session_of ?w (rq_session (request_of ?w t))) = Proto_Unknown \<and>
        ss_untagged_pending (session_of ?w (rq_session (request_of ?w t)))"
      using t awaiting [of t] P(4) [of t] by (simp add: current_def)
  qed
  show "inv_open K ?w" using D(5) less unfolding inv_open_def current_def by (simp; blast)
  show "inv_frames K ?w" using D(6) by (simp add: inv_frames_def)
  show "inv_inbox K ?w"
    unfolding inv_inbox_def
  proof (intro allI impI)
    fix h bs
    assume h: "current ?w h" "bs \<in> set (ss_inbox (session_of ?w h))" "\<not> unrelated bs"
    have "\<exists>t. (h, t, bs) \<in> wd_replied w \<and> \<not> confusable K (wd_client w) h (request_of w t)"
      using h inbox D(7) by (cases "h = g") (simp_all add: inv_inbox_def current_def)
    with less show "\<exists>t. (h, t, bs) \<in> wd_replied ?w \<and> \<not> confusable K (wd_client ?w) h (request_of ?w t)" by fastforce
  qed
  show "inv_results ?w" using D(8) by (simp add: inv_results_def)
qed

text \<open>A frame leaves the wire.\<close>

lemma inv_pop:
  assumes inv: "inv K w" and wire: "wd_wire w g = (owner, bs) # frames"
  shows "inv K (w\<lparr>wd_wire := (wd_wire w)(g := frames)\<rparr>)"
    and "owner = Some u \<Longrightarrow> u \<notin> set (open_at (w\<lparr>wd_wire := (wd_wire w)(g := frames)\<rparr>) g)"
proof -
  note D = invD [OF inv]
  let ?w = "w\<lparr>wd_wire := (wd_wire w)(g := frames)\<rparr>"
  have op: "set (open_at ?w h) \<subseteq> set (open_at w h)" "distinct (open_at w h) \<Longrightarrow> distinct (open_at ?w h)" for h
    using wire by (auto simp: open_at_def map_filter_simps split: option.splits)
  have wires: "x \<in> set (wd_wire ?w h) \<Longrightarrow> x \<in> set (wd_wire w h)" "wd_wire ?w h \<noteq> [] \<Longrightarrow> wd_wire w h \<noteq> []" for x h
    using wire by (auto split: if_splits)
  show "inv K ?w"
  proof (rule invI)
    show "inv_open K ?w" using D(5) op unfolding inv_open_def current_def by (simp; blast)
    have "inv_frames K (w\<lparr>wd_wire := W\<rparr>)"
      if "\<And>h x. x \<in> set (W h) \<Longrightarrow> x \<in> set (wd_wire w h)" "\<And>h. W h \<noteq> [] \<Longrightarrow> wd_wire w h \<noteq> []" for W
      using D(6) that unfolding inv_frames_def by (simp; blast)
    from this [of "(wd_wire w)(g := frames)"] wires show "inv_frames K ?w" by simp
    show "inv_inbox K ?w" using D(7) by (simp add: inv_inbox_def current_def)
    show "inv_results ?w" using D(8) by (simp add: inv_results_def)
  qed (use D in simp_all)
  have "distinct (open_at w g)" using D(5) by (simp add: inv_open_def)
  then show "owner = Some u \<Longrightarrow> u \<notin> set (open_at ?w g)"
    using wire by (auto simp: open_at_def map_filter_simps)
qed

text \<open>What is known of a frame on the wire of the current connection.\<close>

lemma frame_owner:
  assumes inv: "inv K w" and wire: "(owner, bs) \<in> set (wd_wire w g)"
  shows "unrelated bs \<or> (\<exists>u. owner = Some u \<and> (g, u, bs) \<in> wd_replied w \<and>
    (current w g \<longrightarrow> confusable K (wd_client w) g (request_of w u) \<longrightarrow> wd_reader w g = Some u))"
proof (cases owner)
  case None
  then show ?thesis using invD(6) [OF inv] wire unfolding inv_frames_def by blast
next
  case (Some u)
  then have "u \<in> set (open_at w g)" using wire by (force simp: open_at_def map_filter_def)
  with Some invD(5,6) [OF inv] wire show ?thesis unfolding inv_open_def inv_frames_def by blast
qed

lemma buffer_response_simps [simp]:
  "ss_generation (buffer_response bs s) = ss_generation s" "ss_protocol (buffer_response bs s) = ss_protocol s"
  "ss_untagged_pending (buffer_response bs s) = ss_untagged_pending s"
  by (simp_all add: buffer_response_def)

lemma buffer_response_inbox: "set (ss_inbox (buffer_response bs s)) \<subseteq> insert bs (set (ss_inbox s))"
  by (cases "ss_inbox s") (auto simp: buffer_response_def push_bounded_def)

text \<open>A frame that goes to the inbox.\<close>

lemma inv_buffer:
  assumes inv: "inv K w" and gen: "g < cl_next_connection_generation (wd_client w)"
    and bs: "unrelated bs \<or> (\<exists>u. (g, u, bs) \<in> wd_replied w \<and> (current w g \<longrightarrow> \<not> confusable K (wd_client w) g (request_of w u)))"
  shows "inv K (w\<lparr>wd_client := (wd_client w)\<lparr>cl_sessions := (cl_sessions (wd_client w))(g := buffer_response bs (session_of w g))\<rparr>\<rparr>)"
proof -
  note D = invD [OF inv] and P = protocolD [OF invD(4) [OF inv]]
  show ?thesis
  proof (rule inv_session [OF inv])
    show "ss_protocol (buffer_response bs (session_of w g)) = Proto_Unknown"
      if "rq_kind (request_of w t) = Request_Apply" "rq_protocol (request_of w t) = Proto_Unknown"
        "rq_session (request_of w t) = g" "current w g" "may_send (request_of w t)"
        "cl_wait_generation (wd_client w) = rq_wait (request_of w t)" for t
      using that P(3) [of t] by (simp add: current_def)
    show "ss_protocol (buffer_response bs (session_of w g)) = Proto_Unknown \<and> ss_untagged_pending (buffer_response bs (session_of w g))"
      if "rq_kind (request_of w t) = Request_Apply" "rq_protocol (request_of w t) = Proto_Unknown"
        "rq_session (request_of w t) = g" "current w g" "awaits (request_of w t)" for t
      using that P(4) [of t] by (simp add: current_def)
    show "\<exists>t. (g, t, b) \<in> wd_replied w \<and> \<not> confusable K (wd_client w) g (request_of w t)"
      if "current w g" "b \<in> set (ss_inbox (buffer_response bs (session_of w g)))" "\<not> unrelated b" for b
      using that bs D(7) buffer_response_inbox unfolding inv_inbox_def by blast
  qed (use gen P(1) inv_clientD(1) [OF D(1)] in simp_all)
qed

lemma keeps_others_read:
  assumes inv: "inv K w" and free: "wd_reader w g = None" and wire: "wd_wire w g = (owner, bs) # frames"
  shows "inv K (w\<lparr>wd_wire := (wd_wire w)(g := frames),
      wd_client := (if keep then update_session g (buffer_response bs) (wd_client w) else wd_client w)\<rparr>)"
proof (cases keep)
  case True
  have gen: "g < cl_next_connection_generation (wd_client w)"
    using invD(6) [OF inv] wire unfolding inv_frames_def by force
  have "unrelated bs \<or> (\<exists>u. (g, u, bs) \<in> wd_replied w \<and> (current w g \<longrightarrow> \<not> confusable K (wd_client w) g (request_of w u)))"
    using frame_owner [OF inv, of owner bs g] wire free by auto
  with True inv_buffer [OF inv_pop(1) [OF inv wire]] gen show ?thesis by (simp add: update_session_def current_def)
qed (use inv_pop(1) [OF inv wire] in simp)


lemma keeps_others_take:
  assumes inv: "inv K w" and inbox: "ss_inbox (session_of w g) = before @ bs # after"
  shows "inv K (w\<lparr>wd_client := update_session g (\<lambda>s. s\<lparr>ss_inbox := before @ after\<rparr>) (wd_client w)\<rparr>)"
  unfolding update_session_def
proof (rule inv_session [OF inv])
  note D = invD [OF inv] and P = protocolD [OF invD(4) [OF inv]]
  let ?s = "(session_of w g)\<lparr>ss_inbox := before @ after\<rparr>"
  show "g < cl_next_connection_generation (wd_client w)"
    using inbox inv_clientD(5) [OF D(1), of g] by (force simp: new_session_def not_less)
  show "ss_protocol ?s = Proto_Unknown"
    if "rq_kind (request_of w u) = Request_Apply" "rq_protocol (request_of w u) = Proto_Unknown"
      "rq_session (request_of w u) = g" "current w g" "may_send (request_of w u)"
      "cl_wait_generation (wd_client w) = rq_wait (request_of w u)" for u
    using that P(3) [of u] by (simp add: current_def)
  show "ss_protocol ?s = Proto_Unknown \<and> ss_untagged_pending ?s"
    if "rq_kind (request_of w u) = Request_Apply" "rq_protocol (request_of w u) = Proto_Unknown"
      "rq_session (request_of w u) = g" "current w g" "awaits (request_of w u)" for u
    using that P(4) [of u] by (simp add: current_def)
  show "\<exists>t. (g, t, b) \<in> wd_replied w \<and> \<not> confusable K (wd_client w) g (request_of w t)"
    if "current w g" "b \<in> set (ss_inbox ?s)" "\<not> unrelated b" for b
    using that D(7) inbox unfolding inv_inbox_def by simp
qed (use protocolD(1) [OF invD(4) [OF inv]] inv_clientD(1) [OF invD(1) [OF inv]] in simp_all)

section \<open>Writing a request\<close>

text \<open>The holder of the response mutex may reserve the untagged reply before it has sent its request.\<close>

lemma inv_reserve:
  assumes inv: "inv K w" and at: "rq_at (request_of w t) = At_Send"
  shows "inv K (w\<lparr>wd_client := update_session (rq_session (request_of w t)) (\<lambda>s. s\<lparr>ss_untagged_pending := b\<rparr>) (wd_client w)\<rparr>)"
  unfolding update_session_def
proof (rule inv_session [OF inv])
  note D = invD [OF inv] and N = numbersD [OF invD(2) [OF inv]] and P = protocolD [OF invD(4) [OF inv]]
  let ?g = "rq_session (request_of w t)"
  let ?s = "(session_of w ?g)\<lparr>ss_untagged_pending := b\<rparr>"
  have t: "reading (request_of w t)" "has_session (request_of w t)" "\<not> awaits (request_of w t)" using at by (simp_all add: point_defs)
  then show "?g < cl_next_connection_generation (wd_client w)" using N(9) [OF t(2)] by blast
  show "ss_protocol ?s = Proto_Unknown"
    if "rq_kind (request_of w u) = Request_Apply" "rq_protocol (request_of w u) = Proto_Unknown"
      "rq_session (request_of w u) = ?g" "current w ?g" "may_send (request_of w u)"
      "cl_wait_generation (wd_client w) = rq_wait (request_of w u)" for u
    using that P(3) [of u] by (simp add: current_def)
  show "ss_protocol ?s = Proto_Unknown \<and> ss_untagged_pending ?s"
    if "rq_session (request_of w u) = ?g" "awaits (request_of w u)" for u
  proof -
    from that have "wd_reader w ?g = Some u" using D(3) unfolding inv_reader_def by blast
    with reader_unique [OF D(3) t(1)] that t(3) show ?thesis by blast
  qed
  show "\<exists>t. (?g, t, bs) \<in> wd_replied w \<and> \<not> confusable K (wd_client w) ?g (request_of w t)"
    if "current w ?g" "bs \<in> set (ss_inbox ?s)" "\<not> unrelated bs" for bs
    using that D(7) unfolding inv_inbox_def by simp
qed (use protocolD(1) [OF invD(4) [OF inv]] inv_clientD(1) [OF invD(1) [OF inv]] in simp_all)

text \<open>A request goes to the helper.\<close>

lemma inv_deliver:
  assumes inv: "inv K w" and t: "rq_at (request_of w t) = At_Wait" "rq_session (request_of w t) = g"
    and new: "t \<notin> set (open_at w g)"
  shows "inv K (w\<lparr>wd_unanswered := (wd_unanswered w)(g := wd_unanswered w g @ [t])\<rparr>)" (is "inv K ?w")
proof (rule invI)
  note D = invD [OF inv] and N = numbersD [OF invD(2) [OF inv]]
  have pts: "was_sent (request_of w t)" "reading (request_of w t)" "has_session (request_of w t)"
    "underway (request_of w t)" "knows_protocol (request_of w t)"
    using t(1) by (simp_all add: point_defs)
  have op: "set (open_at ?w h) = (if h = g then insert t (set (open_at w h)) else set (open_at w h))"
    "distinct (open_at w h) \<Longrightarrow> distinct (open_at ?w h)" for h
    using new by (auto simp: open_at_def)
  have own: "rq_session (request_of w t) < cl_next_connection_generation (wd_client w)" "wd_reader w g = Some t"
    using N(9) [OF pts(3)] D(3) pts(2) t(2) unfolding inv_reader_def by blast+
  have num: "correlated (request_of w t) \<Longrightarrow> rq_id (request_of w t) \<noteq> 0"
    using N(4) [of t] N(6) [of t] pts by (cases "rq_kind (request_of w t)") (auto simp: correlated_def)
  have known: "rq_session (request_of w u) = h \<and> was_sent (request_of w u) \<and> h < cl_next_connection_generation (wd_client w) \<and>
      (correlated (request_of w u) \<longrightarrow> rq_id (request_of w u) \<noteq> 0)" if "u \<in> set (open_at ?w h)" for u h
  proof (cases "u = t")
    case True
    with that new t(2) D(5) have "h = g" unfolding op(1) inv_open_def by (auto split: if_splits)
    with True own num pts(1) t(2) show ?thesis by simp
  next
    case False
    with that have "u \<in> set (open_at w h)" unfolding op(1) by (simp split: if_splits)
    with D(5) show ?thesis unfolding inv_open_def by blast
  qed
  have holder: "wd_reader w h = Some u" if "current w h" "u \<in> set (open_at ?w h)" "confusable K (wd_client w) h (request_of w u)" for u h
  proof (cases "u = t")
    case True
    with known [OF that(2)] own t(2) show ?thesis by simp
  next
    case False
    with that have "u \<in> set (open_at w h)" unfolding op(1) by (simp split: if_splits)
    with D(5) that show ?thesis unfolding inv_open_def by blast
  qed
  have "distinct (open_at ?w h)" for h using D(5) op(2) by (simp only: inv_open_def)
  then show "inv_open K ?w" using known holder unfolding inv_open_def by (simp add: current_def)
  show "inv_frames K ?w" using D(6) by (simp add: inv_frames_def)
  show "inv_inbox K ?w" using D(7) by (simp add: inv_inbox_def current_def)
  show "inv_results ?w" using D(8) by (simp add: inv_results_def)
qed (use invD [OF inv] in simp_all)

lemma evolves_issued: "inv_client c \<Longrightarrow> \<forall>i \<in> set ids. unat i < 2 ^ 32 \<Longrightarrow> evolves c (c\<lparr>cl_issued := ids\<rparr>)"
  by (simp add: evolves_def inv_client_def)

lemma remember_issued_set: "set (remember_issued_apply_request_id req ids) \<subseteq> insert req (set ids)"
  by (cases ids) (auto simp: remember_issued_apply_request_id_def push_bounded_def)

text \<open>The two outcomes of the write.\<close>

definition reserved :: "bool \<Rightarrow> request \<Rightarrow> client \<Rightarrow> client" where
  "reserved b rq c =
     (if begins_untagged rq \<and> ss_protocol (cl_sessions c (rq_session rq)) = Proto_Unknown
      then update_session (rq_session rq) (\<lambda>s. s\<lparr>ss_untagged_pending := b\<rparr>) c else c)"

lemma reserved_simps [simp]:
  "cl_issued (reserved b rq c) = cl_issued c" "cl_session (reserved b rq c) = cl_session c"
  "cl_wait_generation (reserved b rq c) = cl_wait_generation c"
  by (simp_all add: reserved_def update_session_def)

lemma send_serialized_reserved:
  "send_serialized (rq_session rq) (Some (rq_wait rq)) (begins_untagged rq) got_lock sent c =
     (if \<not> got_lock \<or> cl_session c \<noteq> Some (rq_session rq) \<or> \<not> session_is_current (rq_session rq) c \<or> cl_wait_generation c \<noteq> rq_wait rq
      then (False, c) else (sent, reserved sent rq c))"
  by (simp add: send_serialized_def reserved_def update_session_def Let_def)

lemma request_send_cases:
  assumes "request_send got_lock sent rq c = (rq', c')"
  obtains (sent) "rq' = rq\<lparr>rq_at := At_Wait\<rparr>" "cl_session c = Some (rq_session rq)" "cl_wait_generation c = rq_wait rq"
      "c' = (if rq_kind rq = Request_Apply
        then (reserved True rq c)\<lparr>cl_issued := remember_issued_apply_request_id (rq_id rq) (cl_issued c)\<rparr>
        else reserved True rq c)"
  | (failed) "rq' = rq\<lparr>rq_at := At_End\<rparr>" "c' = c \<or> c' = reserved False rq c"
proof -
  let ?refused = "\<not> got_lock \<or> cl_session c \<noteq> Some (rq_session rq) \<or> \<not> session_is_current (rq_session rq) c \<or> cl_wait_generation c \<noteq> rq_wait rq"
  consider (refused) ?refused | (yes) "\<not> ?refused" sent | (no) "\<not> ?refused" "\<not> sent" by blast
  then show ?thesis
  proof cases
    case refused
    with assms show ?thesis by (intro failed) (auto simp: request_send_def send_serialized_reserved simp del: de_Morgan_disj)
  next
    case yes
    with assms show ?thesis by (intro sent) (auto simp: request_send_def send_serialized_reserved)
  next
    case no
    with assms show ?thesis by (intro failed) (simp_all add: request_send_def send_serialized_reserved)
  qed
qed

lemma inv_reserved:
  "inv K w \<Longrightarrow> rq_at (request_of w t) = At_Send \<Longrightarrow> inv K (w\<lparr>wd_client := reserved b (request_of w t) (wd_client w)\<rparr>)"
  by (simp add: reserved_def inv_reserve)

lemma keeps_send_fails:
  assumes inv: "inv K w" and at: "rq_at (request_of w t) = At_Send"
    and step: "request_send got_lock sent (request_of w t) (wd_client w) = (rq, c)" "rq_at rq = At_End"
  shows "inv K (set_reader (rq_session rq) None (at_step t (rq, c) w))"
proof -
  have rq: "rq = (request_of w t)\<lparr>rq_at := At_End\<rparr>" and c: "c = wd_client w \<or> c = reserved False (request_of w t) (wd_client w)"
    using step by (auto elim: request_send_cases)
  from c inv_reserved [OF inv at, of False] inv have I: "inv K (w\<lparr>wd_client := c\<rparr>)" by auto
  note D = invD [OF I]
  have fresh: "\<not> was_sent (request_of w t)" "reading (request_of w t)" "\<not> reading rq" "underway (request_of w t)"
    using at rq by (simp_all add: point_defs)
  let ?w = "w\<lparr>wd_client := c\<rparr>" and ?R = "(wd_reader w)(rq_session rq := None)"
  have "inv K (?w\<lparr>wd_requests := (wd_requests ?w)(t := rq), wd_reader := ?R\<rparr>)"
  proof (rule inv_request_fresh [OF I])
    show "inv_numbers (wd_client ?w) ((wd_requests ?w)(t := rq))"
      using D(2) fresh at rq by (intro numbers_move [OF D(2)]) (simp_all add: point_defs)
    show "inv_reader ((wd_requests ?w)(t := rq)) ?R" using reader_set(4) [OF D(3), of t rq] fresh rq by simp
    show "inv_protocol K (wd_client ?w) ((wd_requests ?w)(t := rq))"
      by (intro protocol_set [OF D(4)]) (simp_all add: rq point_defs)
    show "?R g = Some u" if "u \<noteq> t" "wd_reader ?w g = Some u" for g u
      using that reader_unique [OF invD(3) [OF inv] fresh(2)] rq by auto
  qed (use fresh rq not_sent_not_open(3) [OF inv fresh(1)] in simp_all)
  then show ?thesis by (simp add: set_reader_def at_step_eq)
qed

lemma keeps_sends:
  assumes inv: "inv K w" and at: "rq_at (request_of w t) = At_Send"
    and step: "request_send got_lock sent (request_of w t) (wd_client w) = (rq, c)" "rq_at rq = At_Wait"
  shows "inv K (at_step t (rq, c) (w\<lparr>wd_unanswered := (wd_unanswered w)(rq_session rq := wd_unanswered w (rq_session rq) @ [t])\<rparr>))"
proof -
  let ?old = "request_of w t"
  note N = numbersD [OF invD(2) [OF inv]] and P = protocolD [OF invD(4) [OF inv]]
  have rq: "rq = ?old\<lparr>rq_at := At_Wait\<rparr>" and cur: "cl_session (wd_client w) = Some (rq_session ?old)"
    and gen: "cl_wait_generation (wd_client w) = rq_wait ?old"
    and c: "c = (if rq_kind ?old = Request_Apply
        then (reserved True ?old (wd_client w))\<lparr>cl_issued := remember_issued_apply_request_id (rq_id ?old) (cl_issued (wd_client w))\<rparr>
        else reserved True ?old (wd_client w))"
    using step by (auto elim: request_send_cases)
  have fresh: "\<not> was_sent ?old" "reading ?old" "reading rq" "underway ?old" "has_session ?old" "knows_protocol ?old" "may_send ?old"
    using at rq by (simp_all add: point_defs)
  note R = inv_reserved [OF inv at, of True]
  have "evolves (reserved True ?old (wd_client w)) c"
  proof (cases "rq_kind ?old = Request_Apply")
    case True
    have "unat (rq_id ?old) < 2 ^ 32"
      using N(3) [OF True] inv_clientD(7) [OF invD(1) [OF inv]] by (meson order_less_trans word_less_nat_alt)
    with inv_clientD(9) [OF invD(1) [OF inv]] remember_issued_set
    have "\<forall>i \<in> set (remember_issued_apply_request_id (rq_id ?old) (cl_issued (wd_client w))). unat i < 2 ^ 32" by blast
    with evolves_issued [OF invD(1) [OF R]] True c show ?thesis by simp
  qed (use c evolves_refl [OF invD(1) [OF R]] in simp)
  with inv_evolves [OF R, of c] have I: "inv K (w\<lparr>wd_client := c\<rparr>)" by simp
  note D = invD [OF I] and P' = protocolD [OF invD(4) [OF I]]
  let ?w = "w\<lparr>wd_client := c\<rparr>"
  have same: "cl_session c = cl_session (wd_client w)" "cl_wait_generation c = cl_wait_generation (wd_client w)"
    unfolding c by (simp_all add: reserved_def update_session_def)
  have pending: "ss_untagged_pending (cl_sessions c (rq_session ?old))"
    if "rq_kind ?old = Request_Apply" "ss_protocol (cl_sessions c (rq_session ?old)) = Proto_Unknown"
    using that unfolding c by (auto simp: reserved_def update_session_def begins_untagged_def split: if_splits)
  have J: "inv K (?w\<lparr>wd_requests := (wd_requests ?w)(t := rq), wd_reader := wd_reader ?w\<rparr>)"
  proof (rule inv_request_fresh [OF I])
    show "inv_numbers (wd_client ?w) ((wd_requests ?w)(t := rq))"
      using numbersD(6) [OF D(2), of t] numbersD(9) [OF D(2), of t] fresh at rq
      by (intro numbers_move [OF D(2)]) (simp_all add: point_defs)
    show "inv_reader ((wd_requests ?w)(t := rq)) (wd_reader ?w)" using reader_set(3) [OF D(3), of t rq] fresh rq by simp
    show "inv_protocol K (wd_client ?w) ((wd_requests ?w)(t := rq))"
    proof (rule protocol_set [OF D(4)])
      show "rq_protocol rq \<noteq> Proto_Unknown \<Longrightarrow>
          ss_protocol (cl_sessions (wd_client ?w) (rq_session rq)) = rq_protocol rq"
        using P'(2) [of t] fresh(6) rq by simp
      show "cl_wait_generation (wd_client ?w) = rq_wait rq \<and> ss_protocol (cl_sessions (wd_client ?w) (rq_session rq)) = Proto_Unknown \<and>
          ss_untagged_pending (cl_sessions (wd_client ?w) (rq_session rq))"
        if "rq_kind rq = Request_Apply" "rq_protocol rq = Proto_Unknown"
        using P'(3) [of t] that fresh(7) gen cur same pending rq by simp
    qed (simp add: rq point_defs)
  qed (use fresh rq not_sent_not_open(3) [OF inv fresh(1)] in simp_all)
  have "inv K ((?w\<lparr>wd_requests := (wd_requests ?w)(t := rq), wd_reader := wd_reader ?w\<rparr>)
      \<lparr>wd_unanswered := (wd_unanswered w)(rq_session rq := wd_unanswered w (rq_session rq) @ [t])\<rparr>)" (is "inv K ?v")
    using inv_deliver [OF J, of t "rq_session rq"] rq not_sent_not_open(1) [OF inv fresh(1)] by simp
  moreover have "?v = at_step t (rq, c) (w\<lparr>wd_unanswered := (wd_unanswered w)(rq_session rq := wd_unanswered w (rq_session rq) @ [t])\<rparr>)"
    by (cases w) (simp add: at_step_eq)
  ultimately show ?thesis by simp
qed


section \<open>One round of a wait\<close>

text \<open>The reply a request takes.\<close>

definition takes :: "u64 list \<Rightarrow> request \<Rightarrow> bytes \<Rightarrow> bool" where
  "takes issued rq bs \<longleftrightarrow>
     hd bs = reply_type (rq_kind rq) \<and>
     (case rq_kind rq of
        Request_Apply \<Rightarrow> decode_apply_response issued bs (rq_id rq) (rq_protocol rq) \<noteq> None
      | Request_Refresh \<Rightarrow> matches_refresh_response bs (expected_refresh rq))"

text \<open>A request that waits takes no reply but its own, and its own if that could be taken for another's.\<close>

lemma taken_is_own:
  assumes inv: "inv K w" and at: "rq_at (request_of w t) = At_Wait" and cur: "current w (rq_session (request_of w t))"
    and bs: "(rq_session (request_of w t), u, bs) \<in> wd_replied w" "takes issued (request_of w t) bs"
    and holder: "confusable K (wd_client w) (rq_session (request_of w t)) (request_of w u) \<Longrightarrow>
      wd_reader w (rq_session (request_of w t)) = Some u"
  shows "u = t"
proof (cases "confusable K (wd_client w) (rq_session (request_of w t)) (request_of w u)")
  case True
  have "reading (request_of w t)" using at by (simp add: point_defs)
  from reader_unique [OF invD(3) [OF inv] this holder [OF True]] show ?thesis .
next
  case False
  note N = numbersD [OF invD(2) [OF inv]] and P = protocolD [OF invD(4) [OF inv]]
  let ?g = "rq_session (request_of w t)" and ?t = "request_of w t" and ?u = "request_of w u"
  have fits: "fits_reply (K ?g) ?u bs" "correlated ?u \<Longrightarrow> rq_id ?u \<noteq> 0"
    using invD(6) [OF inv] bs(1) unfolding inv_frames_def by blast+
  have v2: "K ?g = Helper_V2" "correlated ?u" "rq_kind ?u = Request_Apply \<Longrightarrow> ss_protocol (session_of w ?g) = Proto_V2"
    using False P(1) [of ?g] by (cases "K ?g"; auto simp: confusable_def proto_fits_def)+
  have tag: "response_request_id bs = Some (rq_id ?u)" and kind: "rq_kind ?u = rq_kind ?t"
    using fits(1) v2(1,2) bs(2) by (auto simp: fits_reply_def takes_def reply_type_def split: request_kind.splits)
  have pts: "knows_protocol ?t" "awaits ?t" using at by (simp_all add: point_defs)
  have "rq_id ?u = rq_id ?t"
  proof (cases "rq_kind ?t")
    case Request_Apply
    then have known: "ss_protocol (session_of w ?g) = Proto_V2" using v2(3) kind by simp
    with P(2) [of t] P(4) [of t] Request_Apply cur pts have "rq_protocol ?t = Proto_V2"
      by (cases "rq_protocol ?t") (simp_all add: current_def)
    with bs(2) Request_Apply tag show ?thesis by (auto simp: takes_def v2_accepts)
  next
    case Request_Refresh
    with bs(2) tag show ?thesis
      by (auto simp: takes_def matches_refresh_response_def expected_refresh_def split: if_splits)
  qed
  with N(7) [of u t] kind fits(2) v2(2) show ?thesis by simp
qed

lemma own_protocol_fits:
  assumes inv: "inv K w" and at: "rq_at (request_of w t) = At_Wait" and known: "rq_protocol (request_of w t) \<noteq> Proto_Unknown"
  shows "ss_protocol (session_of w (rq_session (request_of w t))) = rq_protocol (request_of w t)"
    "rq_protocol (request_of w t) = (case K (rq_session (request_of w t)) of Helper_Legacy \<Rightarrow> Proto_Legacy | Helper_V2 \<Rightarrow> Proto_V2)"
proof -
  note P = protocolD [OF invD(4) [OF inv]]
  have "knows_protocol (request_of w t)" using at by (simp add: point_defs)
  from P(2) [OF this known] show s: "ss_protocol (session_of w (rq_session (request_of w t))) = rq_protocol (request_of w t)" .
  from P(1) [of "rq_session (request_of w t)"] known
  show "rq_protocol (request_of w t) = (case K (rq_session (request_of w t)) of Helper_Legacy \<Rightarrow> Proto_Legacy | Helper_V2 \<Rightarrow> Proto_V2)"
    unfolding proto_fits_def s by blast
qed

text \<open>The decoding of one's own reply.\<close>

lemma own_apply_decodes:
  assumes inv: "inv K w" and at: "rq_at (request_of w t) = At_Wait" and kind: "rq_kind (request_of w t) = Request_Apply"
    and fits: "fits_reply (K (rq_session (request_of w t))) (request_of w t) bs"
  shows "decode_apply_response (cl_issued (wd_client w)) bs (rq_id (request_of w t)) (rq_protocol (request_of w t)) =
    Some \<lparr>ares_success = response_success bs,
          ares_protocol = (case K (rq_session (request_of w t)) of Helper_Legacy \<Rightarrow> Proto_Legacy | Helper_V2 \<Rightarrow> Proto_V2)\<rparr>"
proof -
  note N = numbersD [OF invD(2) [OF inv]] and C = inv_clientD [OF invD(1) [OF inv]]
  let ?rq = "request_of w t"
  have small: "unat (rq_id ?rq) < 2 ^ 32"
    using N(3) [OF kind] C(7) by (meson order_less_trans word_less_nat_alt)
  have foreign: "v \<noteq> rq_id ?rq" "v \<notin> set (cl_issued (wd_client w))" if "2 ^ 32 \<le> unat v" for v
    using that small C(9) [of v] by auto
  show ?thesis
  proof (cases "rq_protocol ?rq = Proto_Unknown")
    case True
    show ?thesis
    proof (cases "K (rq_session ?rq)")
      case Helper_V2
      with fits True kind show ?thesis by (simp add: fits_reply_def correlated_def decode_apply_response_def Let_def)
    next
      case Helper_Legacy
      with fits consider "response_request_id bs = None"
        | v where "response_request_id bs = Some v" "bs ! 1 = 0" "2 ^ 32 \<le> unat v"
        by (auto simp: fits_reply_def)
      then show ?thesis
        using fits True Helper_Legacy foreign
        by cases (simp_all add: fits_reply_def decode_apply_response_def Let_def was_issued_apply_request_id_def response_success_def)
    qed
  next
    case False
    with own_protocol_fits(2) [OF inv at False] fits kind show ?thesis
      by (cases "K (rq_session ?rq)") (simp_all add: fits_reply_def correlated_def decode_apply_response_def Let_def)
  qed
qed

lemma own_is_taken:
  assumes inv: "inv K w" and at: "rq_at (request_of w t) = At_Wait"
    and fits: "fits_reply (K (rq_session (request_of w t))) (request_of w t) bs"
  shows "takes (cl_issued (wd_client w)) (request_of w t) bs"
proof (cases "rq_kind (request_of w t)")
  case Request_Apply
  with own_apply_decodes [OF inv at _ fits] fits show ?thesis by (simp add: takes_def fits_reply_def)
next
  case Request_Refresh
  have "rq_protocol (request_of w t) = Proto_V2 \<Longrightarrow> K (rq_session (request_of w t)) = Helper_V2"
    using own_protocol_fits(2) [OF inv at] by (cases "K (rq_session (request_of w t))") auto
  with Request_Refresh fits show ?thesis
    by (cases "K (rq_session (request_of w t))")
      (auto simp: takes_def fits_reply_def matches_refresh_response_def expected_refresh_def correlated_def)
qed


definition verdict :: "u64 list \<Rightarrow> request \<Rightarrow> bytes \<Rightarrow> bool" where
  "verdict issued rq bs \<longleftrightarrow>
     (case rq_kind rq of
        Request_Apply \<Rightarrow> ares_success (the (decode_apply_response issued bs (rq_id rq) (rq_protocol rq)))
      | Request_Refresh \<Rightarrow> response_success bs)"

definition answered :: "u64 list \<Rightarrow> request \<Rightarrow> bytes \<Rightarrow> session \<Rightarrow> session" where
  "answered issued rq bs s =
     (case rq_kind rq of
        Request_Apply \<Rightarrow> settled issued (rq_id rq) (rq_protocol rq) bs s
      | Request_Refresh \<Rightarrow> s\<lparr>ss_untagged_pending := False\<rparr>)"

lemma next_round_simps [simp]:
  "next_round [] = idle_round" "next_round ((owner, bs) # frames) = reading_round bs"
  by (simp_all add: next_round_def)

lemma round_fields [simp]:
  "\<not> wr_cancelled idle_round" "undisturbed idle_round" "wr_result idle_round = Pipe_Timeout"
  "\<not> wr_cancelled (reading_round bs)" "undisturbed (reading_round bs)" "wr_result (reading_round bs) = Pipe_Success"
  "wr_frame (reading_round bs) = bs"
  by (simp_all add: idle_round_def reading_round_def undisturbed_def)

lemma round_cases [consumes 2, case_names buffered idle own other]:
  assumes round: "request_round rq issued (next_round frames) s = (res, s', rest)"
    and frame: "frames \<noteq> [] \<longrightarrow> snd (hd frames) \<noteq> []"
  obtains (buffered) before bs after where "ss_inbox s = before @ bs # after" "takes issued rq bs"
      "res = Some (verdict issued rq bs)" "s' = answered issued rq bs (s\<lparr>ss_inbox := before @ after\<rparr>)" "rest \<noteq> []"
  | (idle) "frames = []" "res = None" "s' = s"
  | (own) owner bs fs where "frames = (owner, bs) # fs" "takes issued rq bs"
      "res = Some (verdict issued rq bs)" "s' = answered issued rq bs s" "rest = []"
  | (other) owner bs fs where "frames = (owner, bs) # fs" "\<not> takes issued rq bs" "res = None" "rest = []"
      "s' = s \<or> s' = buffer_response bs s"
proof -
  let ?r = "next_round frames"
  have r: "\<not> wr_cancelled ?r" "undisturbed ?r" "wr_result ?r = Pipe_Timeout \<or> wr_result ?r = Pipe_Success \<and> wr_frame ?r \<noteq> []"
    using frame by (cases frames; force)+
  have timeout: "frames = []" if "wr_result ?r = Pipe_Timeout" using that by (cases frames) auto
  have read: "\<exists>owner fs. frames = (owner, wr_frame ?r) # fs" if "wr_result ?r = Pipe_Success" using that by (cases frames) auto
  show ?thesis
  proof (cases "rq_kind rq")
    case Request_Apply
    obtain res1 s1 rest1 where w: "wait_for_apply_result_locked issued (rq_id rq) (rq_protocol rq) [?r] s = (res1, s1, rest1)"
      using prod_cases3 by blast
    with round Request_Apply have eq: "res = map_option ares_success res1" "s' = s1" "rest = rest1"
      by (auto simp add: request_round_def simp del: wait_for_apply_result_locked.simps wait_for_refresh_rate_result_locked.simps)
    have t: "takes issued rq bs \<longleftrightarrow> hd bs = msg_type_code Msg_ApplyResult \<and>
        decode_apply_response issued bs (rq_id rq) (rq_protocol rq) \<noteq> None" for bs
      using Request_Apply by (simp add: takes_def reply_type_def)
    from w r show ?thesis
    proof (cases rule: apply_wait.one_round)
      case (buffered before bs after)
      with eq Request_Apply t show ?thesis by (intro that(1)) (auto simp: verdict_def answered_def)
    next
      case idle
      with eq timeout show ?thesis by (intro that(2)) simp_all
    next
      case own
      with eq Request_Apply t read show ?thesis by (auto simp: verdict_def answered_def intro: that(3))
    next
      case other
      with eq Request_Apply t read show ?thesis by (auto intro: that(4))
    qed
  next
    case Request_Refresh
    obtain res1 s1 rest1 where w: "wait_for_refresh_rate_result_locked (expected_refresh rq) [?r] s = (res1, s1, rest1)"
      using prod_cases3 by blast
    with round Request_Refresh have eq: "res = res1" "s' = (if res1 = None then s1 else s1\<lparr>ss_untagged_pending := False\<rparr>)" "rest = rest1"
      by (auto simp add: request_round_def simp del: wait_for_apply_result_locked.simps wait_for_refresh_rate_result_locked.simps)
    have t: "takes issued rq bs \<longleftrightarrow> hd bs = msg_type_code Msg_RefreshRateResult \<and>
        matches_refresh_response bs (expected_refresh rq)" for bs
      using Request_Refresh by (simp add: takes_def reply_type_def)
    from w r show ?thesis
    proof (cases rule: refresh_wait.one_round)
      case (buffered before bs after)
      with eq Request_Refresh t show ?thesis by (intro that(1)) (simp_all add: verdict_def answered_def)
    next
      case idle
      with eq timeout show ?thesis by (intro that(2)) simp_all
    next
      case own
      with eq Request_Refresh t read show ?thesis by (auto simp: verdict_def answered_def intro: that(3))
    next
      case other
      with eq Request_Refresh t read show ?thesis by (auto intro: that(4))
    qed
  qed
qed

lemma own_verdict:
  assumes "inv K w" "rq_at (request_of w t) = At_Wait" "fits_reply (K (rq_session (request_of w t))) (request_of w t) bs"
  shows "verdict (cl_issued (wd_client w)) (request_of w t) bs = response_success bs"
  using own_apply_decodes [OF assms(1,2) _ assms(3)] by (cases "rq_kind (request_of w t)") (simp_all add: verdict_def)

text \<open>A request that takes its reply.\<close>

lemma keeps_answer:
  assumes inv: "inv K w" and at: "rq_at (request_of w t) = At_Wait" and g: "rq_session (request_of w t) = g"
    and cur: "current w g" and bs: "(g, t, bs) \<in> wd_replied w"
    and off: "t \<in> set (open_at w g) \<Longrightarrow> \<not> confusable K (wd_client w) g (request_of w t)"
    and inbox: "set xs \<subseteq> set (ss_inbox (session_of w g))"
  shows "inv K (w\<lparr>wd_client := (wd_client w)\<lparr>cl_sessions := (cl_sessions (wd_client w))
        (g := answered (cl_issued (wd_client w)) (request_of w t) bs ((session_of w g)\<lparr>ss_inbox := xs\<rparr>))\<rparr>,
      wd_requests := (wd_requests w)(t := (request_of w t)\<lparr>rq_at := At_End,
        rq_result := Some (verdict (cl_issued (wd_client w)) (request_of w t) bs)\<rparr>),
      wd_reader := (wd_reader w)(g := None)\<rparr>)"
proof -
  note D = invD [OF inv] and N = numbersD [OF invD(2) [OF inv]] and P = protocolD [OF invD(4) [OF inv]]
  let ?t = "request_of w t" and ?issued = "cl_issued (wd_client w)"
  let ?rq = "?t\<lparr>rq_at := At_End, rq_result := Some (verdict ?issued ?t bs)\<rparr>"
  let ?R = "(wd_reader w)(g := None)" and ?Q = "(wd_requests w)(t := ?rq)"
  let ?s = "answered ?issued ?t bs ((session_of w g)\<lparr>ss_inbox := xs\<rparr>)"
  have pts: "reading ?t" "was_sent ?t" "awaits ?t" "has_session ?t" "underway ?t" using at by (simp_all add: point_defs)
  have fits: "fits_reply (K (rq_session ?t)) ?t bs" using D(6) bs g unfolding inv_frames_def by blast
  have W: "inv K (w\<lparr>wd_requests := ?Q, wd_reader := ?R\<rparr>)" (is "inv K ?w")
  proof (rule inv_request_sent [OF inv pts(2)])
    show "rq_at ?rq = At_End \<and> (\<exists>bs. (rq_session ?rq, t, bs) \<in> wd_replied w \<and> ok = response_success bs)"
      if "rq_result ?rq = Some ok" for ok
      using that own_verdict [OF inv at fits] bs g by auto
    show "inv_numbers (wd_client w) ?Q"
      using at pts by (intro numbers_move [OF D(2)]) (simp_all add: point_defs)
    show "inv_reader ?Q ?R" using reader_set(4) [OF D(3) pts(1), of ?rq] g by (simp add: point_defs)
    show "inv_protocol K (wd_client w) ?Q" by (intro protocol_set [OF D(4)]) (simp_all add: point_defs)
    show "?R h = Some u" if "u \<noteq> t" "wd_reader w h = Some u" for h u
      using that reader_unique [OF D(3) pts(1)] g by auto
    show "?R h = Some t" if "t \<in> set (open_at w h)" "confusable K (wd_client w) h ?rq" for h
    proof -
      from that(1) D(5) g have "h = g" unfolding inv_open_def by blast
      moreover from that(2) have "confusable K (wd_client w) h ?t" by (simp add: confusable_def correlated_def)
      ultimately show ?thesis using off that(1) by simp
    qed
  qed (simp_all add: point_defs)
  note D1 = invD [OF W] and P1 = protocolD [OF invD(4) [OF W]]
  have proto: "ss_protocol ?s = (if rq_kind ?t = Request_Apply \<and> ss_protocol (session_of w g) = Proto_Unknown
      then (case K g of Helper_Legacy \<Rightarrow> Proto_Legacy | Helper_V2 \<Rightarrow> Proto_V2) else ss_protocol (session_of w g))"
    using own_apply_decodes [OF inv at _ fits] g
    by (cases "rq_kind ?t"; cases "K g") (simp_all add: answered_def remember_apply_response_protocol_def)
  have frame: "ss_generation ?s = ss_generation (session_of w g)" "ss_inbox ?s = xs"
    by (simp_all add: answered_def remember_apply_response_protocol_def split: request_kind.split)
  have "inv K (?w\<lparr>wd_client := (wd_client ?w)\<lparr>cl_sessions := (cl_sessions (wd_client ?w))(g := ?s)\<rparr>\<rparr>)"
  proof (rule inv_session [OF W])
    show "ss_generation ?s = g" using frame inv_clientD(1) [OF D(1)] by simp
    show "g < cl_next_connection_generation (wd_client ?w)" using N(9) [OF pts(4)] g by simp
    show "proto_fits (K g) (ss_protocol ?s)" using P(1) [of g] unfolding proto by (simp add: proto_fits_def)
    show "ss_protocol (session_of ?w g) \<noteq> Proto_Unknown \<Longrightarrow> ss_protocol ?s = ss_protocol (session_of ?w g)"
      unfolding proto by simp
    show "ss_protocol ?s = Proto_Unknown"
      if "rq_kind (request_of ?w u) = Request_Apply" "rq_protocol (request_of ?w u) = Proto_Unknown"
        "rq_session (request_of ?w u) = g" "may_send (request_of ?w u)"
        "cl_wait_generation (wd_client ?w) = rq_wait (request_of ?w u)" for u
    proof -
      have u: "u \<noteq> t" using that(4) by (auto simp: point_defs)
      then have s: "ss_protocol (session_of w g) = Proto_Unknown"
        using P(3) [of u] that cur by (simp add: current_def)
      have "rq_kind ?t \<noteq> Request_Apply"
      proof
        assume kind: "rq_kind ?t = Request_Apply"
        with s own_protocol_fits [OF inv at] g P(4) [OF kind _ _ pts(3)] cur
        have "cl_wait_generation (wd_client w) = rq_wait ?t" by (auto simp: current_def)
        with N(8) [of t u] N(4) [OF kind pts(5)] that kind u show False by simp
      qed
      with s show ?thesis unfolding proto by simp
    qed
    show "ss_protocol ?s = Proto_Unknown \<and> ss_untagged_pending ?s"
      if "rq_session (request_of ?w u) = g" "awaits (request_of ?w u)" for u
    proof -
      have "u \<noteq> t" using that(2) by (auto simp: point_defs)
      with that have "wd_reader w g = Some u" using D(3) unfolding inv_reader_def by auto
      with reader_unique [OF D(3) pts(1)] g \<open>u \<noteq> t\<close> show ?thesis by simp
    qed
    show "\<exists>u. (g, u, b) \<in> wd_replied ?w \<and> \<not> confusable K (wd_client ?w) g (request_of ?w u)"
      if "b \<in> set (ss_inbox ?s)" "\<not> unrelated b" for b
    proof -
      have "current ?w g" "b \<in> set (ss_inbox (session_of ?w g))" using that(1) cur inbox frame(2) by (auto simp: current_def)
      with D1(7) that(2) show ?thesis unfolding inv_inbox_def by blast
    qed
  qed
  then show ?thesis by (cases w) simp
qed


lemma wire_first: "w\<lparr>wd_client := c, wd_wire := W\<rparr> = w\<lparr>wd_wire := W, wd_client := c\<rparr>"
  by simp

lemma keeps_waits:
  assumes inv: "inv K w" and at: "rq_at (request_of w t) = At_Wait"
    and live: "\<not> wait_cancelled (request_of w t) (wd_client w)"
  shows "inv K (round_step t w)"
proof -
  note D = invD [OF inv] and N = numbersD [OF invD(2) [OF inv]]
  let ?t = "request_of w t" and ?g = "rq_session (request_of w t)" and ?issued = "cl_issued (wd_client w)"
  have pts: "has_session ?t" "reading ?t" using at by (simp_all add: point_defs)
  note g = N(9) [OF pts(1)]
  have cur: "current w ?g"
    using live g session_is_current_iff [OF D(1)] by (auto simp: wait_cancelled_def current_def)
  obtain res s' rest where round: "request_round ?t ?issued (next_round (wd_wire w ?g)) (session_of w ?g) = (res, s', rest)"
    using prod_cases3 by blast
  have step: "round_step t w = (let v = w\<lparr>wd_client := (wd_client w)\<lparr>cl_sessions := (cl_sessions (wd_client w))(?g := s')\<rparr>,
      wd_wire := (wd_wire w)(?g := (if rest = [] then tl (wd_wire w ?g) else wd_wire w ?g))\<rparr>
    in if res = None then v else set_reader ?g None (set_request t (?t\<lparr>rq_at := At_End, rq_result := res\<rparr>) v))"
    by (simp add: round_step_def round Let_def)
  have nonempty: "bs \<noteq> []" if "wd_wire w ?g = (owner, bs) # fs" for owner bs fs
  proof -
    from that have "(owner, bs) \<in> set (wd_wire w ?g)" by simp
    from frame_owner [OF inv this] show ?thesis
    proof
      assume "\<exists>u. owner = Some u \<and> (?g, u, bs) \<in> wd_replied w \<and>
        (current w ?g \<longrightarrow> confusable K (wd_client w) ?g (request_of w u) \<longrightarrow> wd_reader w ?g = Some u)"
      then obtain u where "(?g, u, bs) \<in> wd_replied w" by blast
      with D(6) have "fits_reply (K ?g) (request_of w u) bs" unfolding inv_frames_def by blast
      then show ?thesis by (auto simp: fits_reply_def)
    qed (simp add: unrelated_def)
  qed
  have off: "\<not> takes issued ?t bs" if "unrelated bs" for issued bs
    using that by (cases "rq_kind ?t") (auto simp: takes_def unrelated_def)
  have frame: "wd_wire w ?g \<noteq> [] \<longrightarrow> snd (hd (wd_wire w ?g)) \<noteq> []"
    using nonempty by (cases "wd_wire w ?g") auto
  from round frame show ?thesis
  proof (cases rule: round_cases)
    case (buffered before bs after)
    then have "\<not> unrelated bs" using off by blast
    with D(7) cur buffered(1) obtain u where u: "(?g, u, bs) \<in> wd_replied w" "\<not> confusable K (wd_client w) ?g (request_of w u)"
      unfolding inv_inbox_def by (metis in_set_conv_decomp)
    with taken_is_own [OF inv at cur u(1) buffered(2)] have "u = t" by blast
    moreover have "set (before @ after) \<subseteq> set (ss_inbox (session_of w ?g))" using buffered(1) by auto
    ultimately show ?thesis using keeps_answer [OF inv at refl cur, of bs "before @ after"] u buffered(3-5)
      by (simp add: step set_reader_def set_request_def)
  next
    case idle
    have "(cl_sessions (wd_client w))(?g := session_of w ?g) = cl_sessions (wd_client w)" by simp
    with inv idle show ?thesis by (simp add: step fun_upd_idem)
  next
    case (own owner bs fs)
    with off have "\<not> unrelated bs" by blast
    with frame_owner [OF inv, of owner bs ?g] own(1) obtain u where u: "owner = Some u" "(?g, u, bs) \<in> wd_replied w"
      "current w ?g \<longrightarrow> confusable K (wd_client w) ?g (request_of w u) \<longrightarrow> wd_reader w ?g = Some u" by auto
    with taken_is_own [OF inv at cur u(2) own(2)] cur have "u = t" by blast
    with keeps_answer [OF inv_pop(1) [OF inv own(1)], of t ?g bs "ss_inbox (session_of w ?g)"] inv_pop(2) [OF inv own(1), of t]
      u at cur own show ?thesis
      by (simp add: step set_reader_def set_request_def current_def wire_first)
  next
    case (other owner bs fs)
    have clear: "\<not> confusable K (wd_client w) ?g (request_of w u)"
      if "owner = Some u" "(?g, u, bs) \<in> wd_replied w" "wd_reader w ?g = Some u \<or> \<not> confusable K (wd_client w) ?g (request_of w u)" for u
    proof
      assume "confusable K (wd_client w) ?g (request_of w u)"
      with that(3) reader_unique [OF D(3) pts(2)] have "u = t" by blast
      with that(2) D(6) have "fits_reply (K ?g) ?t bs" unfolding inv_frames_def by blast
      with own_is_taken [OF inv at] other(2) show False by blast
    qed
    have "unrelated bs \<or> (\<exists>u. (?g, u, bs) \<in> wd_replied w \<and> (current w ?g \<longrightarrow> \<not> confusable K (wd_client w) ?g (request_of w u)))"
      using frame_owner [OF inv, of owner bs ?g] other(1) clear cur by auto
    with inv_buffer [OF inv_pop(1) [OF inv other(1)], of ?g bs] g
    have "inv K (w\<lparr>wd_wire := (wd_wire w)(?g := fs),
        wd_client := (wd_client w)\<lparr>cl_sessions := (cl_sessions (wd_client w))(?g := buffer_response bs (session_of w ?g))\<rparr>\<rparr>)"
      by (simp add: current_def)
    with inv_pop(1) [OF inv other(1)] other show ?thesis by (auto simp: step fun_upd_idem wire_first)
  qed
qed

section \<open>Every step\<close>

theorem client_step_inv:
  assumes "client_step K w w'" "inv K w"
  shows "inv K w'"
  using assms
proof (induction rule: client_step.induct)
  case (begins w t got_lock k)
  then show ?case by (intro keeps_begins)
next
  case (connects w t refused alive made)
  then show ?case by (intro keeps_connects)
next
  case (reads_protocol w t)
  then show ?case by (intro keeps_reads_protocol)
next
  case (locks w t)
  then show ?case by (intro keeps_locks)
next
  case (aborts w t)
  then show ?case by (intro keeps_aborts)
next
  case (sends w t got_lock sent rq c)
  then show ?case by (intro keeps_sends)
next
  case (send_fails w t got_lock sent rq c)
  then show ?case by (intro keeps_send_fails)
next
  case (waits w t)
  then show ?case by (intro keeps_waits)
next
  case (gives_up w t)
  then show ?case by (intro keeps_gives_up)
next
  case (misses w t)
  then show ?case by (intro keeps_misses)
next
  case (control w got_lock)
  then show ?case by (intro inv_evolves evolves_begin invD(1))
next
  case (reconnects w refused alive made)
  then show ?case by (intro inv_evolves evolves_connected invD(1))
next
  case (resets w got_lock)
  then show ?case by (intro inv_evolves evolves_reset invD(1))
next
  case (drops w g)
  then show ?case by (intro inv_evolves evolves_drop invD(1))
next
  case (replies w g before t after bs)
  then show ?case by (intro keeps_replies)
next
  case (announces bs g w)
  then show ?case by (intro keeps_announces)
next
  case (others_take w g before bs after)
  then show ?case by (intro keeps_others_take)
next
  case (others_read w g owner bs frames keep)
  then show ?case by (intro keeps_others_read)
qed

lemma client_reachable_inv: "client_reachable K w \<Longrightarrow> inv K w"
  unfolding client_reachable_def
proof (elim exE conjE)
  fix w0
  assume "idle_world w0" "(client_step K)\<^sup>*\<^sup>* w0 w"
  from this(2,1) show "inv K w" by (induction rule: rtranclp_induct) (auto intro: inv_idle client_step_inv)
qed

end
