(* ===== verification/Client_Properties.thy ===== *)
theory Client_Properties
  imports Client_Steps
begin

text \<open>
  What the client promises to the callers of its requests, and a run of the system that shows it at work.
\<close>

section \<open>Runs\<close>

text \<open>The steps of a run, by name; a step that is not enabled ends the run.\<close>

datatype action =
    Begin nat request_kind
  | Connect nat
  | Read_Protocol nat
  | Lock nat
  | Send nat
  | Wait nat
  | Give_Up nat
  | Miss nat
  | Reply u64 nat bytes

fun act :: "(u64 \<Rightarrow> helper_kind) \<Rightarrow> action \<Rightarrow> world \<Rightarrow> world option" where
  "act K (Begin t k) w =
     (if rq_at (request_of w t) = At_Start \<and> roomy (wd_client w)
      then Some (at_step t (request_begin True ((request_of w t)\<lparr>rq_kind := k\<rparr>) (wd_client w)) w) else None)"
| "act K (Connect t) w =
     (if rq_at (request_of w t) = At_Connect \<and> roomy (wd_client w)
      then Some (at_step t (request_connect False True True (request_of w t) (wd_client w)) w) else None)"
| "act K (Read_Protocol t) w =
     (if rq_at (request_of w t) = At_Protocol \<and> roomy (wd_client w)
      then Some (at_step t (request_protocol (request_of w t) (wd_client w)) w) else None)"
| "act K (Lock t) w =
     (if rq_at (request_of w t) = At_Lock \<and> \<not> lock_cancelled (request_of w t) (wd_client w) \<and>
         wd_reader w (rq_session (request_of w t)) = None
      then Some (set_reader (rq_session (request_of w t)) (Some t) (set_request t ((request_of w t)\<lparr>rq_at := At_Send\<rparr>) w))
      else None)"
| "act K (Send t) w =
     (let (rq, c) = request_send True True (request_of w t) (wd_client w)
      in if rq_at (request_of w t) = At_Send \<and> rq_at rq = At_Wait
         then Some (at_step t (rq, c)
           (w\<lparr>wd_unanswered := (wd_unanswered w)(rq_session rq := wd_unanswered w (rq_session rq) @ [t])\<rparr>))
         else None)"
| "act K (Wait t) w =
     (if rq_at (request_of w t) = At_Wait \<and> \<not> wait_cancelled (request_of w t) (wd_client w) then Some (round_step t w) else None)"
| "act K (Give_Up t) w =
     (if rq_at (request_of w t) = At_Wait then Some (set_request t ((request_of w t)\<lparr>rq_at := At_Missing\<rparr>) w) else None)"
| "act K (Miss t) w =
     (if rq_at (request_of w t) = At_Missing
      then Some (set_reader (rq_session (request_of w t)) None
        (at_step t ((request_of w t)\<lparr>rq_at := At_End\<rparr>, request_missing True (request_of w t) (wd_client w)) w))
      else None)"
| "act K (Reply g t bs) w =
     (case List.extract ((=) t) (wd_unanswered w g) of
        None \<Rightarrow> None
      | Some (before, _, after) \<Rightarrow>
          if fits_reply (K g) (request_of w t) bs
          then Some (w\<lparr>wd_unanswered := (wd_unanswered w)(g := before @ after),
            wd_wire := (wd_wire w)(g := wd_wire w g @ [(Some t, bs)]), wd_replied := insert (g, t, bs) (wd_replied w)\<rparr>)
          else None)"

lemma act_step: "act K a w = Some w' \<Longrightarrow> client_step K w w'"
proof (cases a)
  case (Begin t k)
  assume "act K a w = Some w'"
  with Begin show ?thesis by (auto intro: client_step.begins split: if_splits)
next
  case (Connect t)
  assume "act K a w = Some w'"
  with Connect show ?thesis by (auto intro: client_step.connects split: if_splits)
next
  case (Read_Protocol t)
  assume "act K a w = Some w'"
  with Read_Protocol show ?thesis by (auto intro: client_step.reads_protocol split: if_splits)
next
  case (Lock t)
  assume "act K a w = Some w'"
  with Lock show ?thesis by (auto intro: client_step.locks split: if_splits)
next
  case (Send t)
  assume "act K a w = Some w'"
  with Send show ?thesis by (auto intro: client_step.sends simp: Let_def split: if_splits prod.splits)
next
  case (Wait t)
  assume "act K a w = Some w'"
  with Wait show ?thesis by (auto intro: client_step.waits split: if_splits)
next
  case (Give_Up t)
  assume "act K a w = Some w'"
  with Give_Up show ?thesis by (auto intro: client_step.gives_up split: if_splits)
next
  case (Miss t)
  assume "act K a w = Some w'"
  with Miss show ?thesis by (auto intro: client_step.misses split: if_splits)
next
  case (Reply g t bs)
  assume "act K a w = Some w'"
  with Reply show ?thesis
    by (auto intro: client_step.replies simp: extract_Some_iff split: if_splits option.splits prod.splits)
qed

fun run :: "(u64 \<Rightarrow> helper_kind) \<Rightarrow> action list \<Rightarrow> world \<Rightarrow> world option" where
  "run K [] w = Some w"
| "run K (a # as) w = (case act K a w of None \<Rightarrow> None | Some w' \<Rightarrow> run K as w')"

lemma run_append: "run K (as @ bs) w = (case run K as w of None \<Rightarrow> None | Some w' \<Rightarrow> run K bs w')"
  by (induction as arbitrary: w) (simp_all split: option.split)

lemma run_steps: "run K as w = Some w' \<Longrightarrow> (client_step K)\<^sup>*\<^sup>* w w'"
  by (induction as arbitrary: w) (auto split: option.splits dest: act_step intro: converse_rtranclp_into_rtranclp)

definition start_world :: world where
  "start_world =
     \<lparr>wd_client = initial_client,
      wd_requests = (\<lambda>_. \<lparr>rq_kind = Request_Apply, rq_at = At_Start, rq_wait = 0, rq_id = 0, rq_session = 0,
        rq_protocol = Proto_Unknown, rq_result = None\<rparr>),
      wd_reader = (\<lambda>_. None), wd_unanswered = (\<lambda>_. []), wd_wire = (\<lambda>_. []), wd_replied = {}\<rparr>"

lemma run_reachable: "run K as start_world = Some w \<Longrightarrow> client_reachable K w"
  unfolding client_reachable_def
  by (rule exI [of _ start_world]) (simp add: run_steps idle_world_def start_world_def)

text \<open>
  Three APPLY requests to a v2 helper: the first is answered, the second is superseded by the third, and its
  late reply, a failure, arrives before the third's.
\<close>

definition until_sent :: "nat \<Rightarrow> action list" where
  "until_sent t = [Begin t Request_Apply, Connect t, Read_Protocol t, Lock t, Send t]"

definition apply_reply :: "bool \<Rightarrow> byte \<Rightarrow> bytes" where
  "apply_reply ok req = [6, of_bool ok, req, 0, 0, 0, 0, 0, 0, 0]"

definition late_reply_run :: "action list" where
  "late_reply_run =
     until_sent 0 @ [Reply 1 0 (apply_reply True 1), Wait 0] @ until_sent 1 @
     [Begin 2 Request_Apply, Connect 2, Read_Protocol 2, Give_Up 1, Miss 1, Lock 2, Send 2,
      Reply 1 1 (apply_reply False 2), Reply 1 2 (apply_reply True 3), Wait 2, Wait 2]"

lemmas run_simps = late_reply_run_def until_sent_def start_world_def initial_client_def roomy_def
  at_step_def set_request_def set_reader_def request_begin_def cancel_or_begin_apply_wait_cancellable_def
  retire_untagged_response_session_if_needed_locked_def request_connect_def connected_session_def ensure_connected_locked_def
  request_protocol_def lock_cancelled_def session_is_current_def new_session_def request_send_def send_serialized_def
  begins_untagged_def update_session_def remember_issued_apply_request_id_def push_bounded_def kMaxIssuedApplyRequestIds_def
  wait_cancelled_def round_step_def request_round_def reading_round_def take_buffered_response_def
  decode_apply_response_def  response_success_def fits_reply_def reply_type_def correlated_def
   List.extract_def buffer_response_def kMaxBufferedResponses_def is_bufferable_response_def remember_apply_response_protocol_def request_missing_def
  drop_connection_if_current_within_def

lemma apply_reply_simps [simp]:
  "hd (apply_reply ok req) = 6" "length (apply_reply ok req) = 10" "apply_reply ok req \<noteq> []"
  "apply_reply ok req ! Suc 0 = of_bool ok" "response_request_id (apply_reply ok req) = Some (ucast req)"
  by (simp_all add: apply_reply_def response_request_id_def read_u64_le_def upt_rec)

section \<open>The promise\<close>



text \<open>
  What the deadline of an APPLY costs: when the locks are not free for 250 ms after a missing result, the
  connection to a known legacy helper stays, and the next APPLY takes the late reply to the previous one. Here
  the helper has answered the first two requests, and the third returns a result.
\<close>

definition miss_without_locks :: "nat \<Rightarrow> world \<Rightarrow> world" where
  "miss_without_locks t w =
     set_reader (rq_session (request_of w t)) None
       (at_step t ((request_of w t)\<lparr>rq_at := At_End\<rparr>, request_missing False (request_of w t) (wd_client w)) w)"

definition legacy_reply :: "bool \<Rightarrow> bytes" where
  "legacy_reply ok = [6, of_bool ok]"

lemma legacy_reply_simps [simp]:
  "hd (legacy_reply ok) = 6" "length (legacy_reply ok) = 2" "legacy_reply ok \<noteq> []"
  "legacy_reply ok ! Suc 0 = of_bool ok" "response_request_id (legacy_reply ok) = None"
  by (simp_all add: legacy_reply_def response_request_id_def read_u64_le_def)

lemma surviving_connection_confuses:
  "\<exists>w1 w2. run (\<lambda>_. Helper_Legacy) (until_sent 0 @ [Reply 1 0 (legacy_reply True), Wait 0] @ until_sent 1 @ [Give_Up 1]) start_world =
        Some w1 \<and>
     run (\<lambda>_. Helper_Legacy) (until_sent 2 @ [Reply 1 1 (legacy_reply True), Wait 2]) (miss_without_locks 1 w1) = Some w2 \<and>
     rq_result (request_of w2 2) = Some True \<and> (\<forall>bs. (1, 2, bs) \<notin> wd_replied w2)"
  by (simp add: run_simps miss_without_locks_def)

text \<open>
  On the current connection to a legacy helper at most one request is unanswered or answered but unread, and
  it is the one that holds the response mutex.
\<close>

lemma legacy_helper_has_one_request:
  assumes "client_reachable K w" "K g = Helper_Legacy" "cl_session (wd_client w) = Some g"
    and "t \<in> set (open_at w g)" "u \<in> set (open_at w g)"
  shows "t = u \<and> wd_reader w g = Some t"
  using invD(5) [OF client_reachable_inv [OF assms(1)]] assms(2-5)
  unfolding inv_open_def confusable_def current_def by (metis option.inject)

text \<open>Two requests never read replies of one connection at the same time.\<close>

lemma one_reader:
  assumes "client_reachable K w" "reading (request_of w t)" "reading (request_of w u)"
    "rq_session (request_of w t) = rq_session (request_of w u)"
  shows "t = u"
  using invD(3) [OF client_reachable_inv [OF assms(1)]] assms(2-4) unfolding inv_reader_def by (metis option.inject)

end
