(* ===== verification/Client_Commands.thy ===== *)
theory Client_Commands
  imports Client_Sessions
begin

text \<open>
  The other commands of the client (\<open>ipc/display_settings_client.cpp\<close>): the control commands, which begin a
  new wait generation, the commands that are only sent while no control command has come in between, the pings,
  and the two commands that wait for a tagged reply. A command is a few steps under locks; what other threads
  do to the client between them is an argument.
\<close>

section \<open>What goes on around a command\<close>

text \<open>
  \<open>ar_lock\<close>, \<open>ar_write_lock\<close> and \<open>ar_reader_lock\<close>: the mutexes were obtained before a deadline or a
  cancellation; \<open>ar_refused\<close>, \<open>ar_alive\<close>, \<open>ar_made\<close>: see \<open>ensure_connected_locked\<close>; \<open>ar_sent\<close>: the pipe
  took the frame; \<open>ar_first\<close>, \<open>ar_second\<close>, \<open>ar_third\<close>: other threads.
\<close>

record around =
  ar_lock :: bool
  ar_first :: "client \<Rightarrow> client"
  ar_refused :: bool
  ar_alive :: bool
  ar_made :: bool
  ar_second :: "client \<Rightarrow> client"
  ar_reader_lock :: bool
  ar_third :: "client \<Rightarrow> client"
  ar_write_lock :: bool
  ar_sent :: bool
  ar_last :: "client \<Rightarrow> client"

definition connected_around :: "around \<Rightarrow> client \<Rightarrow> u64 option \<times> client" where
  "connected_around a c = connected_session (ar_refused a) (ar_alive a) (ar_made a) c"

definition connected_session_within :: "bool \<Rightarrow> around \<Rightarrow> client \<Rightarrow> u64 option \<times> client" where
  "connected_session_within got_lock a c = (if got_lock then connected_around a c else (None, c))"

definition cached_connected_session_within :: "bool \<Rightarrow> around \<Rightarrow> client \<Rightarrow> u64 option" where
  "cached_connected_session_within got_lock a c = (if got_lock \<and> ar_alive a then cl_session c else None)"

definition current_apply_response_protocol :: "u64 option \<Rightarrow> client \<Rightarrow> response_protocol" where
  "current_apply_response_protocol session c =
     (case session of None \<Rightarrow> Proto_Unknown | Some g \<Rightarrow> ss_protocol (cl_sessions c g))"

definition uses_v2_response_protocol :: "client \<Rightarrow> bool" where
  "uses_v2_response_protocol c \<longleftrightarrow> current_apply_response_protocol (cl_session c) c = Proto_V2"

text \<open>The frame a command writes, if it does.\<close>

definition write_command ::
  "msg_type \<Rightarrow> bytes \<Rightarrow> u64 option \<Rightarrow> u64 option \<Rightarrow> around \<Rightarrow> client \<Rightarrow> bytes option \<times> client" where
  "write_command t payload session expected a c =
     (case session of
        None \<Rightarrow> (None, c)
      | Some g \<Rightarrow>
          let (ok, c) = send_serialized g expected False (ar_write_lock a) (ar_sent a) c
          in (if ok then Some (message_bytes t payload) else None, c))"

section \<open>Control commands\<close>

definition cancel_or_begin_apply_wait :: "client \<Rightarrow> u64 \<times> client" where
  "cancel_or_begin_apply_wait c = (let (w, c) = cancel_or_begin_apply_wait_cancellable True c in (the w, c))"

definition cancel_or_begin_apply_wait_within :: "bool \<Rightarrow> client \<Rightarrow> u64 option \<times> client" where
  "cancel_or_begin_apply_wait_within got_lock c =
     (if \<not> got_lock then (None, c)
      else let (retired, c) = retire_untagged_response_session_if_needed_locked c;
               gen = cl_wait_generation c + 1;
               c = c\<lparr>cl_wait_generation := gen\<rparr>
           in (Some gen, if retired = None then c else reset_log_level_cache c))"

definition send_revert :: "string \<Rightarrow> around \<Rightarrow> client \<Rightarrow> bytes option \<times> client" where
  "send_revert json a c =
     (let (w, c) = cancel_or_begin_apply_wait c;
          (session, c) = connected_around a (ar_first a c)
      in if session = None then (None, c)
         else write_command Msg_Revert (string_bytes json) session (Some w) a (ar_second a c))"

definition send_revert_within :: "string \<Rightarrow> bool \<Rightarrow> around \<Rightarrow> client \<Rightarrow> bytes option \<times> client" where
  "send_revert_within json late a c =
     (if late then (None, c)
      else case cancel_or_begin_apply_wait_within (ar_lock a) c of
        (None, c) \<Rightarrow> (None, c)
      | (Some w, c) \<Rightarrow>
          let (session, c) = connected_session_within (ar_reader_lock a) a (ar_first a c)
          in if session = None then (None, c)
             else write_command Msg_Revert (string_bytes json) session (Some w) a (ar_second a c))"

definition send_reset :: "around \<Rightarrow> client \<Rightarrow> bytes option \<times> client" where
  "send_reset a c =
     (let (w, c) = cancel_or_begin_apply_wait c;
          (session, c) = connected_around a (ar_first a c)
      in if session = None then (None, c)
         else write_command Msg_Reset [] session (Some w) a (ar_second a c))"

definition send_disarm_restore :: "around \<Rightarrow> client \<Rightarrow> bytes option \<times> client" where
  "send_disarm_restore a c =
     (let (w, c) = cancel_or_begin_apply_wait c;
          (session, c) = connected_around a (ar_first a c)
      in if session = None then (None, c)
         else write_command Msg_Disarm [] session (Some w) a (ar_second a c))"

text \<open>The fast variants never connect.\<close>

definition send_disarm_restore_fast :: "int \<Rightarrow> around \<Rightarrow> client \<Rightarrow> bytes option \<times> client" where
  "send_disarm_restore_fast timeout_ms a c =
     (if timeout_ms \<le> 0 then (None, c)
      else case cancel_or_begin_apply_wait_within (ar_lock a) c of
        (None, c) \<Rightarrow> (None, c)
      | (Some w, c) \<Rightarrow>
          let c = ar_first a c;
              session = cached_connected_session_within (ar_reader_lock a) a c
          in write_command Msg_Disarm [] session (Some w) a (ar_second a c))"

definition send_stop :: "around \<Rightarrow> client \<Rightarrow> bytes option \<times> client" where
  "send_stop a c =
     (let (w, c) = cancel_or_begin_apply_wait c;
          (session, c) = connected_around a (ar_first a c)
      in if session = None then (None, c)
         else write_command Msg_Stop [] session None a (ar_second a c))"

section \<open>Commands that leave the wait generation alone\<close>

definition send_export_golden :: "string \<Rightarrow> around \<Rightarrow> client \<Rightarrow> bytes option \<times> client" where
  "send_export_golden json a c =
     (let w = cl_wait_generation c;
          (session, c) = connected_around a (ar_first a c)
      in if session = None then (None, c)
         else write_command Msg_ExportGolden (string_bytes json) session (Some w) a (ar_second a c))"

definition send_snapshot_current :: "string \<Rightarrow> around \<Rightarrow> client \<Rightarrow> bytes option \<times> client" where
  "send_snapshot_current json a c =
     (let w = cl_wait_generation c;
          (session, c) = connected_around a (ar_first a c)
      in if session = None then (None, c)
         else write_command Msg_SnapshotCurrent (string_bytes json) session (Some w) a (ar_second a c))"

definition send_ping :: "around \<Rightarrow> client \<Rightarrow> bytes option \<times> client" where
  "send_ping a c =
     (let (session, c) = connected_around a c in write_command Msg_Ping [] session None a (ar_second a c))"

definition send_ping_cancellable :: "int \<Rightarrow> bool \<Rightarrow> around \<Rightarrow> client \<Rightarrow> bytes option \<times> client" where
  "send_ping_cancellable timeout_ms cancelled a c =
     (if timeout_ms \<le> 0 \<or> cancelled then (None, c)
      else let (session, c) = connected_session_within (ar_lock a) a c
           in write_command Msg_Ping [] session None a (ar_second a c))"

definition send_ping_fast :: "int \<Rightarrow> around \<Rightarrow> client \<Rightarrow> bytes option \<times> client" where
  "send_ping_fast timeout_ms a c =
     (if timeout_ms \<le> 0 then (None, c)
      else write_command Msg_Ping [] (cached_connected_session_within (ar_lock a) a c) None a (ar_second a c))"

section \<open>Commands that wait for a tagged reply\<close>

text \<open>
  The wait of a command on session \<open>g\<close> under the response mutex, other threads apart: they do not touch the
  inbox while the mutex is held.
\<close>

definition on_session :: "u64 \<Rightarrow> (session \<Rightarrow> 'a \<times> session \<times> wait_round list) \<Rightarrow> client \<Rightarrow> 'a \<times> client" where
  "on_session g f c = (let (res, s, _) = f (cl_sessions c g) in (res, c\<lparr>cl_sessions := (cl_sessions c)(g := s)\<rparr>))"

definition superseded :: "u64 \<Rightarrow> u64 \<Rightarrow> client \<Rightarrow> bool" where
  "superseded g w c \<longleftrightarrow> \<not> session_is_current g c \<or> cl_wait_generation c \<noteq> w"

definition wait_for_verification_result ::
  "u64 \<Rightarrow> u64 \<Rightarrow> u64 \<Rightarrow> around \<Rightarrow> wait_round list \<Rightarrow> client \<Rightarrow> bool option \<times> client" where
  "wait_for_verification_result req gen conn a rounds c =
     (if req = 0 \<or> gen = 0 \<or> conn = 0 \<or> cl_wait_generation c \<noteq> gen \<or> cl_connection_generation c \<noteq> conn then (None, c)
      else let c = ar_first a c
           in if \<not> ar_lock a \<or> cl_wait_generation c \<noteq> gen \<or> cl_connection_generation c \<noteq> conn then (None, c)
              else case cl_session c of
                None \<Rightarrow> (None, c)
              | Some g \<Rightarrow>
                  if \<not> session_is_current g c then (None, c)
                  else let c = ar_second a c
                       in if \<not> ar_reader_lock a \<or> superseded g gen c then (None, c)
                          else on_session g (wait_for_verification_result_locked req rounds) c)"

text \<open>
  The request of a snapshot with a confirmation: \<open>tokenised\<close> is the JSON library, which puts the id into the
  payload, or nothing if the payload is no object. \<open>got_lock\<close>: see \<open>request_missing\<close>.
\<close>

definition send_snapshot_current_and_wait ::
  "(string \<Rightarrow> u64 \<Rightarrow> bytes option) \<Rightarrow> string \<Rightarrow> int \<Rightarrow> around \<Rightarrow> wait_round list \<Rightarrow> client \<Rightarrow> bool \<times> client" where
  "send_snapshot_current_and_wait tokenised json timeout_ms a rounds c =
     (if timeout_ms \<le> 0 then (False, c)
      else let w = cl_wait_generation c
           in case connected_around a (ar_first a c) of
        (None, c) \<Rightarrow> (False, c)
      | (Some g, c) \<Rightarrow>
          if current_apply_response_protocol (Some g) c \<noteq> Proto_V2 then (False, c)
          else let req = cl_next_auxiliary_request_id c;
                   c = ar_second a (c\<lparr>cl_next_auxiliary_request_id := req + 1\<rparr>)
               in if \<not> ar_reader_lock a \<or> superseded g w c then (False, c)
                  else case tokenised (if json = [] then ''{}'' else json) req of
                    None \<Rightarrow> (False, c)
                  | Some payload \<Rightarrow>
                      case write_command Msg_SnapshotCurrent payload (Some g) (Some w) a (ar_third a c) of
                        (None, c) \<Rightarrow> (False, c)
                      | (Some _, c) \<Rightarrow>
                          case on_session g (wait_for_snapshot_result_locked req rounds) c of
                            (Some ok, c) \<Rightarrow> (ok, c)
                          | (None, c) \<Rightarrow>
                              let c = ar_last a c
                              in (False, if superseded g w c then c else drop_connection_if_current g c))"

definition send_snapshot_current_within ::
  "(string \<Rightarrow> u64 \<Rightarrow> bytes option) \<Rightarrow> string \<Rightarrow> bool \<Rightarrow> bool \<Rightarrow> bool \<Rightarrow> around \<Rightarrow> wait_round list \<Rightarrow> client \<Rightarrow> bool \<times> client" where
  "send_snapshot_current_within tokenised json late cancelled got_lock a rounds c =
     (if late then (False, c)
      else let w = cl_wait_generation c
           in case connected_session_within (ar_lock a) a (ar_first a c) of
        (None, c) \<Rightarrow> (False, c)
      | (Some g, c) \<Rightarrow>
          if current_apply_response_protocol (Some g) c \<noteq> Proto_V2
          then let (frame, c) = write_command Msg_SnapshotCurrent (string_bytes json) (Some g) (Some w) a (ar_third a c)
               in (frame \<noteq> None, c)
          else let req = cl_next_auxiliary_request_id c;
                   c = c\<lparr>cl_next_auxiliary_request_id := req + 1\<rparr>
               in case tokenised (if json = [] then ''{}'' else json) req of
                    None \<Rightarrow> (False, c)
                  | Some payload \<Rightarrow>
                      let c = ar_second a c
                      in if \<not> ar_reader_lock a \<or> superseded g w c then (False, c)
                         else case write_command Msg_SnapshotCurrent payload (Some g) (Some w) a (ar_third a c) of
                           (None, c) \<Rightarrow> (False, c)
                         | (Some _, c) \<Rightarrow>
                             case on_session g (wait_for_snapshot_result_locked req rounds) c of
                               (Some ok, c) \<Rightarrow> (ok, c)
                             | (None, c) \<Rightarrow>
                                 let c = ar_last a c
                                 in (False, if cancelled \<or> superseded g w c then c
                                            else drop_connection_if_current_within g got_lock c))"


section \<open>What they keep to\<close>

lemma write_command_sent:
  assumes "write_command t payload session expected a c = (Some frame, c')"
  shows "frame = message_bytes t payload" "c' = c" "expected = Some w \<Longrightarrow> cl_wait_generation c' = w"
    "\<exists>g. session = Some g \<and> cl_session c' = Some g \<and> session_is_current g c'"
  using assms by (auto simp: write_command_def send_serialized_def Let_def split: option.splits if_splits)

lemma cancel_or_begin_fields:
  assumes "cancel_or_begin_apply_wait c = (w, d)"
  shows "w = cl_wait_generation c + 1" "cl_wait_generation d = cl_wait_generation c + 1"
    "cl_session d = Some g \<Longrightarrow> ss_protocol (cl_sessions d g) = Proto_V2 \<or> \<not> ss_untagged_pending (cl_sessions d g)"
  using assms
  by (auto simp: cancel_or_begin_apply_wait_def cancel_or_begin_apply_wait_cancellable_def
      retire_untagged_response_session_if_needed_locked_def retire_session_locked_def update_session_def
      reset_log_level_cache_def Let_def split: option.splits if_splits)

lemma connected_around_fields:
  assumes "connected_around a c = (session, d)"
  shows "session = Some g \<Longrightarrow> cl_session d = Some g"
    "session = Some g \<Longrightarrow> cl_session c = Some g \<and> d = c \<or> cl_sessions d g = new_session g"
  using assms
  by (auto simp: connected_around_def connected_session_def ensure_connected_locked_def retire_session_locked_def
      reset_log_level_cache_def Let_def split: if_splits)

text \<open>What a control command sends, behind its fence.\<close>

lemma control_command:
  assumes "(let (w, c) = cancel_or_begin_apply_wait c; (session, c) = connected_around a (ar_first a c)
      in if session = None then (None, c) else write_command t payload session (Some w) a (ar_second a c)) = (Some frame, c')"
  shows "frame = message_bytes t payload \<and> cl_wait_generation c' = cl_wait_generation c + 1 \<and>
    (\<exists>g. cl_session c' = Some g \<and> session_is_current g c' \<and>
      (ar_first a = id \<and> ar_second a = id \<longrightarrow>
        ss_protocol (cl_sessions c' g) = Proto_V2 \<or> \<not> ss_untagged_pending (cl_sessions c' g)))"
proof -
  obtain w d where w: "cancel_or_begin_apply_wait c = (w, d)" by fastforce
  obtain session e where e: "connected_around a (ar_first a d) = (session, e)" by fastforce
  from assms w e have sent: "write_command t payload session (Some w) a (ar_second a e) = (Some frame, c')"
    by (simp split: if_splits)
  note W = write_command_sent [OF sent] and B = cancel_or_begin_fields [OF w] and C = connected_around_fields [OF e]
  obtain g where g: "session = Some g" "cl_session c' = Some g" "session_is_current g c'" using W(4) by blast
  have "ss_protocol (cl_sessions c' g) = Proto_V2 \<or> \<not> ss_untagged_pending (cl_sessions c' g)"
    if "ar_first a = id" "ar_second a = id"
    using C(2) [OF g(1)] B(3) [of g] that W(2) by (auto simp: new_session_def)
  with W(1) W(3) [OF refl] B(1) g show ?thesis by blast
qed


text \<open>A connection whose helper has not been identified, with a reply reserved, is replaced.\<close>

definition quiet :: around where
  "quiet = \<lparr>ar_lock = True, ar_first = id, ar_refused = False, ar_alive = True, ar_made = True, ar_second = id,
     ar_reader_lock = True, ar_third = id, ar_write_lock = True, ar_sent = True, ar_last = id\<rparr>"

definition reserved_client :: client where
  "reserved_client = initial_client\<lparr>cl_session := Some 1, cl_connection_generation := 1, cl_next_connection_generation := 2,
     cl_sessions := (cl_sessions initial_client)(1 := (new_session 1)\<lparr>ss_untagged_pending := True\<rparr>)\<rparr>"

lemmas command_simps =
  cancel_or_begin_apply_wait_def cancel_or_begin_apply_wait_cancellable_def
  retire_untagged_response_session_if_needed_locked_def retire_session_locked_def update_session_def reset_log_level_cache_def
  connected_around_def connected_session_def ensure_connected_locked_def write_command_def send_serialized_def
  session_is_current_def new_session_def initial_client_def quiet_def reserved_client_def


text \<open>On a connection already known as legacy no reply is ever reserved, so a control command keeps it.\<close>

lemma legacy_is_not_reserved:
  assumes "ss_protocol (cl_sessions c g) = Proto_Legacy"
  shows "send_serialized g expected untagged got_lock sent c = (ok, c') \<Longrightarrow> c' = c"
    "cl_session c = Some g \<Longrightarrow> \<not> ss_untagged_pending (cl_sessions c g) \<Longrightarrow>
      cl_session (snd (cancel_or_begin_apply_wait c)) = Some g"
  using assms by (auto simp: send_serialized_def cancel_or_begin_apply_wait_def cancel_or_begin_apply_wait_cancellable_def
      retire_untagged_response_session_if_needed_locked_def Let_def split: if_splits)

section \<open>A confirmation is the helper's own\<close>

lemma snapshot_answer:
  assumes "on_session g (wait_for_snapshot_result_locked req rounds) c = (Some ok, c')"
  shows "\<exists>bs \<in> set (ss_inbox (cl_sessions c g)) \<union> set (frames_read rounds).
    hd bs = msg_type_code Msg_SnapshotResult \<and> response_request_id bs = Some req \<and> ok = response_success bs"
proof -
  from assms obtain s rest where "snapshot_result_rounds req rounds (cl_sessions c g) = (Some ok, s, rest)"
    by (auto simp: on_session_def wait_for_snapshot_result_locked_def split: if_splits prod.splits)
  from snapshot_wait.answer_origin [OF this] show ?thesis by (auto simp: matches_snapshot_response_def)
qed

text \<open>
  A snapshot request that reports success was answered with success under its own id, by a helper known to
  speak v2, on the connection it was sent on.
\<close>

lemma snapshot_confirmation_is_its_own:
  assumes "send_snapshot_current_and_wait tokenised json timeout_ms a rounds c = (True, c')"
    and quiet: "ar_first a = id" "ar_second a = id" "ar_third a = id"
  shows "\<exists>g. cl_session c = Some g \<and> ss_protocol (cl_sessions c g) = Proto_V2 \<and>
    (\<exists>bs \<in> set (ss_inbox (cl_sessions c g)) \<union> set (frames_read rounds).
      hd bs = msg_type_code Msg_SnapshotResult \<and> response_request_id bs = Some (cl_next_auxiliary_request_id c) \<and>
      response_success bs)"
proof -
  obtain session d where d: "connected_around a c = (session, d)" by fastforce
  from assms d obtain g where g: "session = Some g" "ss_protocol (cl_sessions d g) = Proto_V2"
    by (auto simp: send_snapshot_current_and_wait_def current_apply_response_protocol_def Let_def split: option.splits if_splits)
  with connected_around_fields [OF d] have same: "d = c" "cl_session c = Some g" by (auto simp: new_session_def)
  let ?e = "c\<lparr>cl_next_auxiliary_request_id := cl_next_auxiliary_request_id c + 1\<rparr>"
  from assms d g same
  have "on_session g (wait_for_snapshot_result_locked (cl_next_auxiliary_request_id c) rounds) ?e = (Some True, c')"
    by (auto simp: send_snapshot_current_and_wait_def Let_def split: option.splits if_splits prod.splits
        dest!: write_command_sent(2))
  from snapshot_answer [OF this] g(2) same show ?thesis by auto
qed

text \<open>The same for the wait for a verification, whatever other threads do.\<close>

lemma verification_is_its_own:
  assumes "wait_for_verification_result req gen conn a rounds c = (Some ok, c')"
  shows "\<exists>g bs. cl_wait_generation c = gen \<and> cl_connection_generation c = conn \<and>
    cl_session (ar_first a c) = Some g \<and>
    bs \<in> set (ss_inbox (cl_sessions (ar_second a (ar_first a c)) g)) \<union> set (frames_read rounds) \<and>
    response_request_id bs = Some req \<and> ok = response_success bs"
proof -
  from assms obtain g s rest where g: "cl_session (ar_first a c) = Some g" "cl_wait_generation c = gen"
      "cl_connection_generation c = conn"
      "wait_for_verification_result_locked req rounds (cl_sessions (ar_second a (ar_first a c)) g) = (Some ok, s, rest)"
    by (auto simp: wait_for_verification_result_def on_session_def Let_def split: option.splits if_splits prod.splits)
  from verification_wait.answer_origin [OF g(4)] g(1-3) show ?thesis unfolding matches_verification_response_def by blast
qed

end
