(* ===== verification/Stream_Rates.thy ===== *)
theory Stream_Rates
  imports Helper_Types
begin

text \<open>
  The rates of a stream: the frame-generation policy of \<open>framegen_policy.h\<close> and the session's accessors
  of \<open>rtsp.h\<close>. A C++ \<open>int\<close> is an integer within its bounds, a \<open>std::uint32_t\<close> a 32-bit word.
\<close>

section \<open>Saturating rates\<close>

definition int_max :: int where "int_max = 2 ^ 31 - 1"
definition int_min :: int where "int_min = - (2 ^ 31)"

definition u32_max :: u32 where "u32_max = - 1"

definition saturating_refresh_fps :: "int \<Rightarrow> int \<Rightarrow> int" where
  "saturating_refresh_fps fps multiplier =
     (if fps \<le> 0 \<or> multiplier \<le> 1 then fps
      else if int_max div multiplier < fps then int_max
      else fps * multiplier)"

definition saturating_refresh_millihz :: "u32 \<Rightarrow> int \<Rightarrow> u32" where
  "saturating_refresh_millihz millihz multiplier =
     (if millihz = 0 \<or> multiplier \<le> 1 then millihz
      else if u32_max div word_of_int multiplier < millihz then u32_max
      else millihz * word_of_int multiplier)"

definition normalize_refresh_millihz :: "int \<Rightarrow> u32" where
  "normalize_refresh_millihz value =
     (if value \<le> 0 then 0
      else let raw = word_of_int value
           in if 1000 \<le> raw then raw else saturating_refresh_millihz raw 1000)"

definition rounded_fps_from_millihz :: "u32 \<Rightarrow> int" where
  "rounded_fps_from_millihz millihz =
     (let rounded = ((ucast millihz :: u64) + 1000 div 2) div 1000
      in if word_of_int int_max < rounded then int_max else uint rounded)"

lemma int_div_less_iff:
  assumes "0 < (m :: int)"
  shows "a div m < f \<longleftrightarrow> a < f * m"
proof
  assume "a div m < f"
  then have "m * (a div m + 1) \<le> m * f" using assms by (intro mult_left_mono) simp_all
  then have "m * (a div m) + m \<le> f * m" by (simp add: algebra_simps)
  then show "a < f * m" using mult_div_mod_eq [of m a] pos_mod_bound [OF assms, of a] by linarith
next
  assume *: "a < f * m"
  show "a div m < f"
  proof (rule ccontr)
    assume "\<not> a div m < f"
    then have "m * f \<le> m * (a div m)" using assms by (intro mult_left_mono) simp_all
    then have "f * m \<le> m * (a div m)" by (simp add: mult.commute)
    with * show False using mult_div_mod_eq [of m a] pos_mod_sign [OF assms, of a] by linarith
  qed
qed

lemma saturating_refresh_fps_min:
  assumes "0 < fps" "1 \<le> multiplier" "fps \<le> int_max"
  shows "saturating_refresh_fps fps multiplier = min int_max (fps * multiplier)"
proof (cases "multiplier = 1")
  case False
  with assms have m: "1 < multiplier" by simp
  have "int_max div multiplier < fps \<longleftrightarrow> int_max < fps * multiplier"
    using m by (simp add: int_div_less_iff)
  with assms m show ?thesis by (auto simp: saturating_refresh_fps_def)
qed (use assms in \<open>simp add: saturating_refresh_fps_def\<close>)

text \<open>The product in unbounded integers, cut off at the largest rate.\<close>

lemma saturating_refresh_millihz_min:
  assumes "1 \<le> multiplier" "multiplier \<le> int_max"
  shows "uint (saturating_refresh_millihz millihz multiplier) = min (2 ^ 32 - 1) (uint millihz * multiplier)"
proof (cases "millihz = 0 \<or> multiplier = 1")
  case True
  then show ?thesis
    using assms uint_lt2p [of millihz] by (auto simp: saturating_refresh_millihz_def)
next
  case False
  then have m: "1 < multiplier" "millihz \<noteq> 0" using assms by auto
  have u: "uint (word_of_int multiplier :: u32) = multiplier"
    using m assms by (simp add: int_max_def uint_word_of_int_eq take_bit_int_eq_self)
  have mx: "uint (u32_max div word_of_int multiplier) = (2 ^ 32 - 1) div multiplier"
    by (simp add: uint_div_distrib u u32_max_def uint_word_ariths unsigned_minus_1_eq_mask mask_eq_exp_minus_1)
  have "(2 ^ 32 - 1) div multiplier < uint millihz \<longleftrightarrow> 2 ^ 32 - 1 < uint millihz * multiplier"
    using m by (simp add: int_div_less_iff)
  moreover have "uint (millihz * word_of_int multiplier) = uint millihz * multiplier"
    if "uint millihz * multiplier \<le> 2 ^ 32 - 1"
    using that m by (simp add: uint_mult_lem [THEN iffD1] u)
  ultimately show ?thesis
    using m by (simp add: saturating_refresh_millihz_def word_less_def mx [unfolded u32_max_def] u32_max_def unsigned_minus_1_eq_mask mask_eq_exp_minus_1)
qed

text \<open>A rate below 1000 counts hertz, any other millihertz; the result is positive for a positive rate.\<close>

lemma normalize_refresh_millihz_value:
  assumes "0 < v" "v \<le> int_max"
  shows "uint (normalize_refresh_millihz v) = (if v < 1000 then v * 1000 else v)"
proof -
  have u: "uint (word_of_int v :: u32) = v"
    using assms by (simp add: int_max_def uint_word_of_int_eq take_bit_int_eq_self)
  have "(1000 :: u32) \<le> word_of_int v \<longleftrightarrow> 1000 \<le> v" by (simp add: word_le_def u)
  moreover have "uint (saturating_refresh_millihz (word_of_int v) 1000) = min (2 ^ 32 - 1) (v * 1000)"
    by (subst saturating_refresh_millihz_min) (simp_all add: u int_max_def)
  ultimately show ?thesis using assms by (auto simp: normalize_refresh_millihz_def u)
qed

lemma normalize_refresh_millihz_pos: "0 < v \<Longrightarrow> v \<le> int_max \<Longrightarrow> normalize_refresh_millihz v \<noteq> 0"
  using normalize_refresh_millihz_value [of v] by (auto split: if_splits)

lemma rounded_fps_value: "rounded_fps_from_millihz millihz = (uint millihz + 500) div 1000"
proof -
  have b: "uint millihz < 2 ^ 32" using uint_lt2p [of millihz] by simp
  have u: "uint (((ucast millihz :: u64) + 500) div 1000) = (uint millihz + 500) div 1000"
    using b by (simp add: uint_div_distrib uint_word_ariths unsigned_ucast_eq take_bit_int_eq_self)
  have "(uint millihz + 500) div 1000 \<le> int_max" using b by (simp add: int_max_def)
  then show ?thesis
    by (simp add: rounded_fps_from_millihz_def Let_def word_less_def u uint_word_of_int_eq int_max_def take_bit_int_eq_self)
qed

section \<open>The policy at the start of a stream\<close>

definition isalnum :: "char \<Rightarrow> bool" where
  "isalnum c \<longleftrightarrow> (let n = (of_char c :: nat) in (48 \<le> n \<and> n \<le> 57) \<or> (65 \<le> n \<and> n \<le> 90) \<or> (97 \<le> n \<and> n \<le> 122))"

definition normalize_provider :: "string \<Rightarrow> string" where
  "normalize_provider value =
     (let normalized = map tolower (filter isalnum value)
      in if normalized \<in> {''nvidia'', ''smoothmotion'', ''nvidiasmoothmotion''} then ''nvidia-smooth-motion''
         else if normalized \<in> {''game'', ''gameprovided'', ''gameprovider''} then ''game-provided''
         else ''lossless-scaling'')"

definition normalize_capture_mode :: "string \<Rightarrow> string" where
  "normalize_capture_mode value = map tolower (filter (\<lambda>c. \<not> isspace c) value)"

definition provider_implies_frame_generation :: "string \<Rightarrow> bool \<Rightarrow> bool" where
  "provider_implies_frame_generation provider lossless_scaling_framegen \<longleftrightarrow>
     (let normalized = normalize_provider provider
      in if normalized = ''lossless-scaling'' then lossless_scaling_framegen
         else normalized = ''game-provided'' \<or> normalized = ''nvidia-smooth-motion'')"

record stream_start_policy_input =
  spi_fps :: int
  spi_fps_scaled :: int
  spi_display_refresh_millihz :: u32
  spi_frame_generation_enabled :: bool
  spi_lossless_scaling_framegen :: bool
  spi_lossless_rtss_limit :: "int option"
  spi_frame_generation_provider :: string
  spi_uses_virtual_display :: bool
  spi_capture_mode :: string
  spi_auto_capture_uses_wgc :: bool
  spi_auto_virtual_framegen_limiter :: bool
  spi_virtual_display_refresh_multiplier :: int

record stream_start_policy =
  ssp_fps :: int
  ssp_fps_scaled :: int
  ssp_frame_limit_millihz :: u32
  ssp_frame_generation_provider :: string
  ssp_lossless_rtss_limit :: "int option"
  ssp_smooth_motion :: bool
  ssp_capture_fix_enabled :: bool
  ssp_uses_virtual_display :: bool
  ssp_requires_virtual_display :: bool
  ssp_effective_wgc_capture :: bool
  ssp_physical_framegen_capture :: bool
  ssp_auto_virtual_framegen_limiter :: bool
  ssp_frame_generation_enabled :: bool
  ssp_framegen_refresh_rate :: "int option"
  ssp_framegen_refresh_millihz :: "u32 option"
  ssp_refresh_multiplier :: int

definition make_stream_start_policy :: "stream_start_policy_input \<Rightarrow> stream_start_policy" where
  "make_stream_start_policy i =
     (let provider = normalize_provider (spi_frame_generation_provider i);
          game_provided = (provider = ''game-provided'');
          enabled = spi_frame_generation_enabled i \<or>
            provider_implies_frame_generation provider (spi_lossless_scaling_framegen i);
          virtual = spi_uses_virtual_display i;
          capture_mode = normalize_capture_mode (spi_capture_mode i);
          hard_wgc_capture = (virtual \<and> game_provided);
          explicit_dxgi_capture = (capture_mode = ''ddx'' \<and> \<not> hard_wgc_capture);
          explicit_wgc_capture = (capture_mode = ''wgc'' \<or> capture_mode = ''wgcc'');
          auto_wgc_capture = (capture_mode = [] \<and> spi_auto_capture_uses_wgc i);
          policy = \<lparr>ssp_fps = spi_fps i, ssp_fps_scaled = spi_fps_scaled i,
            ssp_frame_limit_millihz = spi_display_refresh_millihz i, ssp_frame_generation_provider = provider,
            ssp_lossless_rtss_limit = spi_lossless_rtss_limit i, ssp_smooth_motion = (provider = ''nvidia-smooth-motion''),
            ssp_capture_fix_enabled = False, ssp_uses_virtual_display = virtual, ssp_requires_virtual_display = False,
            ssp_effective_wgc_capture = (virtual \<and> \<not> explicit_dxgi_capture \<and>
              (explicit_wgc_capture \<or> auto_wgc_capture \<or> hard_wgc_capture)),
            ssp_physical_framegen_capture = (enabled \<and> \<not> virtual), ssp_auto_virtual_framegen_limiter = False,
            ssp_frame_generation_enabled = enabled, ssp_framegen_refresh_rate = None, ssp_framegen_refresh_millihz = None,
            ssp_refresh_multiplier = 1\<rparr>
      in if \<not> virtual then policy
         else let multiplier = max 1 (spi_virtual_display_refresh_multiplier i);
                  policy = policy\<lparr>ssp_auto_virtual_framegen_limiter := spi_auto_virtual_framegen_limiter i,
                    ssp_refresh_multiplier := multiplier\<rparr>
              in if \<not> (1 < multiplier \<and> 0 < ssp_fps policy) then policy
                 else let base = (if 0 < spi_display_refresh_millihz i then spi_display_refresh_millihz i
                        else if 0 < spi_fps_scaled i then word_of_int (spi_fps_scaled i)
                        else normalize_refresh_millihz (ssp_fps policy));
                        refresh = saturating_refresh_millihz base multiplier
                      in if 0 < refresh
                         then policy\<lparr>ssp_framegen_refresh_millihz := Some refresh,
                           ssp_framegen_refresh_rate := Some (rounded_fps_from_millihz refresh)\<rparr>
                         else policy)"

text \<open>Normalizing twice is normalizing once: the second call inside the policy sees the same provider.\<close>

lemma normalize_provider_cases:
  "normalize_provider v \<in> {''nvidia-smooth-motion'', ''game-provided'', ''lossless-scaling''}"
  by (simp add: normalize_provider_def Let_def)

lemma normalize_provider_idem [simp]: "normalize_provider (normalize_provider v) = normalize_provider v"
  using normalize_provider_cases [of v] by (auto simp: normalize_provider_def isalnum_def tolower_def)

text \<open>
  A virtual display that runs at a multiple of the stream's rate runs at exactly that multiple, as far as 32
  bits reach, and the integer rate next to it is that rate rounded to hertz.
\<close>

lemma framegen_rate_is_the_multiple:
  assumes "ssp_framegen_refresh_millihz (make_stream_start_policy i) = Some r"
    and range: "spi_virtual_display_refresh_multiplier i \<le> int_max"
  shows "\<exists>base. base \<noteq> 0 \<and> uint r = min (2 ^ 32 - 1) (uint base * ssp_refresh_multiplier (make_stream_start_policy i)) \<and>
      (spi_display_refresh_millihz i \<noteq> 0 \<longrightarrow> base = spi_display_refresh_millihz i) \<and>
      ssp_framegen_refresh_rate (make_stream_start_policy i) = Some ((uint r + 500) div 1000) \<and>
      1 < ssp_refresh_multiplier (make_stream_start_policy i) \<and> spi_uses_virtual_display i"
proof -
  define base where "base = (if 0 < spi_display_refresh_millihz i then spi_display_refresh_millihz i
      else if 0 < spi_fps_scaled i then word_of_int (spi_fps_scaled i) else normalize_refresh_millihz (spi_fps i))"
  define m where "m = max 1 (spi_virtual_display_refresh_multiplier i)"
  have p: "spi_uses_virtual_display i" "1 < m" "saturating_refresh_millihz base m = r" "0 < r"
    "ssp_refresh_multiplier (make_stream_start_policy i) = m"
    "ssp_framegen_refresh_rate (make_stream_start_policy i) = Some (rounded_fps_from_millihz r)"
    using assms(1) by (auto simp: make_stream_start_policy_def Let_def base_def m_def split: if_splits)
  have "m \<le> int_max" using range by (simp add: m_def int_max_def)
  with p(2) have "uint r = min (2 ^ 32 - 1) (uint base * m)"
    using saturating_refresh_millihz_min [of m base] p(3) by simp
  moreover from p have "base \<noteq> 0" by (auto simp: saturating_refresh_millihz_def)
  ultimately show ?thesis
    using p by (intro exI [of _ base]) (auto simp: rounded_fps_value base_def word_gt_0)
qed

end
