(* ===== verification/Session_Configuration.thy ===== *)
theory Session_Configuration
  imports Stream_Rates Snapshot_Text
begin

text \<open>
  What the host asks of a display for a session: the settings of \<open>config.h\<close>, the members of
  \<open>rtsp_stream::launch_session_t\<close> that matter here, and \<open>parse_configuration\<close> of \<open>display_device.cpp\<close>,
  which turns both into a \<open>SingleDisplayConfiguration\<close>. Log statements are left out.
\<close>

section \<open>Settings and sessions\<close>

datatype config_option = Config_Disabled | Config_VerifyOnly | Config_EnsureActive | Config_EnsurePrimary | Config_EnsureOnlyDisplay
datatype resolution_option = Resolution_Disabled | Resolution_Automatic | Resolution_Manual
datatype refresh_rate_option = Rate_Disabled | Rate_Automatic | Rate_Manual | Rate_PreferHighest
datatype hdr_option = HdrOption_Disabled | HdrOption_Automatic
datatype virtual_display_mode = Mode_Disabled | Mode_PerClient | Mode_Shared
datatype virtual_display_layout =
  Layout_Exclusive | Layout_Extended | Layout_ExtendedPrimary | Layout_ExtendedIsolated | Layout_ExtendedPrimaryIsolated

record mode_remapping_entry =
  mre_requested_resolution :: string
  mre_requested_fps :: string
  mre_final_resolution :: string
  mre_final_refresh_rate :: string

record video_config =
  vc_configuration_option :: config_option
  vc_resolution_option :: resolution_option
  vc_manual_resolution :: string
  vc_refresh_rate_option :: refresh_rate_option
  vc_manual_refresh_rate :: string
  vc_hdr_option :: hdr_option
  vc_mixed :: "mode_remapping_entry list"
  vc_resolution_only :: "mode_remapping_entry list"
  vc_refresh_rate_only :: "mode_remapping_entry list"
  vc_dummy_plug_hdr10 :: bool
  vc_rtx_hdr_enabled :: bool
  vc_virtual_display_mode :: virtual_display_mode
  vc_virtual_display_layout :: virtual_display_layout
  vc_output_name :: string

record launch_session =
  ls_id :: u32
  ls_client_uuid :: string
  ls_unique_id :: string
  ls_client_name :: string
  ls_appid :: int
  ls_app_virtual_screen :: "bool option"
  ls_width :: int
  ls_height :: int
  ls_fps :: int
  ls_enable_hdr :: bool
  ls_prefer_sdr_10bit :: bool
  ls_force_sdr :: bool
  ls_enable_sops :: bool
  ls_client_virtual_display_override :: "bool option"
  ls_client_display_mode_override :: bool
  ls_client_display_refresh_millihz :: u32
  ls_virtual_display :: bool
  ls_resolution_override :: "(int \<times> int) option"
  ls_virtual_display_failed :: bool
  ls_virtual_display_mode_override :: "virtual_display_mode option"
  ls_virtual_display_layout_override :: "virtual_display_layout option"
  ls_dd_config_option_override :: "config_option option"
  ls_output_name_override :: "string option"
  ls_virtual_display_device_id :: string
  ls_virtual_display_ready_since :: "time_ns option"
  ls_virtual_display_hdr_enabled :: "bool option"
  ls_virtual_display_topology_snapshot :: "topology option"
  ls_pre_virtual_display_refresh_rates :: "(u32 \<times> u32) smap option"
  ls_gen1_framegen_fix :: bool
  ls_gen2_framegen_fix :: bool
  ls_framegen_refresh_rate :: "int option"
  ls_framegen_refresh_millihz :: "u32 option"
  ls_framegen_refresh_multiplier :: int

text \<open>A device as the host enumerates it; \<open>dev_has_info\<close> guards the members added here.\<close>

record host_device = enumerated_device +
  hd_primary :: bool
  hd_origin :: point
  hd_resolution :: resolution

text \<open>
  What the code takes from outside. \<open>he_available_devices\<close> and \<open>he_coordinator_devices\<close> are the two
  enumerations (\<open>None\<close>: an exception), \<open>he_fp_equal\<close> and \<open>he_at_least\<close> the comparisons of
  libdisplaydevice's \<open>FloatingPoint\<close> and of a rate with a whole or thousandth rate as doubles,
  \<open>he_wide_denominator\<close> what the conversion of a power of ten beyond 32 bits gives (undefined in C++).
\<close>

record host_env =
  he_runtime_output_override :: "string option"
  he_runtime_rtx_hdr :: bool
  he_available_devices :: "host_device list option"
  he_coordinator_devices :: "host_device list option"
  he_fp_equal :: "floating_point \<Rightarrow> floating_point \<Rightarrow> bool"
  he_at_least :: "floating_point \<Rightarrow> int \<Rightarrow> bool"
  he_wide_denominator :: "nat \<Rightarrow> u32"
  he_is_virtual_output :: "string \<Rightarrow> bool"
  he_resolve_virtual :: "string \<Rightarrow> string \<Rightarrow> string \<Rightarrow> device_id option"
  he_any_virtual :: "device_id option"
  he_targets_desktop :: "int \<Rightarrow> bool"
  he_best_effort_refresh :: bool

section \<open>Accessors of a session\<close>

definition effective_hdr_requested :: "launch_session \<Rightarrow> bool" where
  "effective_hdr_requested s \<longleftrightarrow> ls_enable_hdr s \<and> \<not> ls_prefer_sdr_10bit s \<and> \<not> ls_force_sdr s"

definition rtx_hdr_enabled :: "host_env \<Rightarrow> video_config \<Rightarrow> bool" where
  "rtx_hdr_enabled E v \<longleftrightarrow> he_runtime_rtx_hdr E \<and> vc_rtx_hdr_enabled v"

definition rtx_hdr_conversion_requested :: "host_env \<Rightarrow> launch_session \<Rightarrow> video_config \<Rightarrow> bool" where
  "rtx_hdr_conversion_requested E s v \<longleftrightarrow> effective_hdr_requested s \<and> rtx_hdr_enabled E v"

definition effective_10bit_sdr_requested :: "launch_session \<Rightarrow> bool" where
  "effective_10bit_sdr_requested s \<longleftrightarrow> ls_prefer_sdr_10bit s \<and> ls_enable_hdr s \<and> \<not> ls_force_sdr s"

definition positive_int :: "int option \<Rightarrow> bool" where
  "positive_int v \<longleftrightarrow> (case v of None \<Rightarrow> False | Some n \<Rightarrow> 0 < n)"

definition positive_u32 :: "u32 option \<Rightarrow> bool" where
  "positive_u32 v \<longleftrightarrow> (case v of None \<Rightarrow> False | Some n \<Rightarrow> 0 < n)"

definition framegen_refresh_multiplier :: "launch_session \<Rightarrow> int" where
  "framegen_refresh_multiplier s =
     (if \<not> positive_int (ls_framegen_refresh_rate s) \<and> \<not> positive_u32 (ls_framegen_refresh_millihz s) then 1
      else if 1 < ls_framegen_refresh_multiplier s then ls_framegen_refresh_multiplier s else 1)"

definition effective_display_refresh_millihz :: "launch_session \<Rightarrow> u32" where
  "effective_display_refresh_millihz s =
     (if positive_u32 (ls_framegen_refresh_millihz s) then the (ls_framegen_refresh_millihz s)
      else if 0 < ls_client_display_refresh_millihz s then ls_client_display_refresh_millihz s
      else if positive_int (ls_framegen_refresh_rate s) then normalize_refresh_millihz (the (ls_framegen_refresh_rate s))
      else normalize_refresh_millihz (ls_fps s))"

definition get_active_output_name :: "host_env \<Rightarrow> video_config \<Rightarrow> string" where
  "get_active_output_name E v = (case he_runtime_output_override E of Some n \<Rightarrow> n | None \<Rightarrow> vc_output_name v)"

section \<open>Numbers in the settings\<close>

text \<open>The result of a parser: \<open>None\<close> is false, \<open>Some None\<close> an empty setting.\<close>

fun replace_times :: "string \<Rightarrow> string" where
  "replace_times (a # b # s) =
     (if a = CHR 0xC3 \<and> b = CHR 0x97 then CHR ''x'' # replace_times s else a # replace_times (b # s))"
| "replace_times s = s"

text \<open>The two regular expressions: the matched groups.\<close>

definition all_digits :: "string \<Rightarrow> bool" where
  "all_digits s \<longleftrightarrow> s \<noteq> [] \<and> list_all is_digit s"

definition match_resolution :: "string \<Rightarrow> (string \<times> string) option" where
  "match_resolution s =
     (let a = takeWhile is_digit s
      in case dropWhile is_digit s of
           c # b \<Rightarrow> if a \<noteq> [] \<and> c = CHR ''x'' \<and> all_digits b then Some (a, b) else None
         | [] \<Rightarrow> None)"

definition match_refresh_rate :: "bool \<Rightarrow> string \<Rightarrow> (string \<times> string option) option" where
  "match_refresh_rate allow_decimal_point s =
     (let a = takeWhile is_digit s
      in if a = [] then None
         else case dropWhile is_digit s of
           [] \<Rightarrow> Some (a, None)
         | c # b \<Rightarrow> if allow_decimal_point \<and> c = CHR ''.'' \<and> all_digits b then Some (a, Some b) else None)"

definition parse_resolution_string :: "string \<Rightarrow> resolution option option" where
  "parse_resolution_string input =
     (let s = replace_times (trim_space input)
      in case match_resolution s of
           Some (w, h) \<Rightarrow>
             (case (stoul w, stoul h) of
                (Some w, Some h) \<Rightarrow> Some (Some \<lparr>res_width = w, res_height = h\<rparr>)
              | _ \<Rightarrow> None)
         | None \<Rightarrow> if s = [] then Some None else None)"

definition decimal_denominator :: "host_env \<Rightarrow> nat \<Rightarrow> u32" where
  "decimal_denominator E places = (if places \<le> 9 then 10 ^ places else he_wide_denominator E places)"

definition trim_left_zeros :: "string \<Rightarrow> string" where
  "trim_left_zeros s = dropWhile (\<lambda>c. c = CHR ''0'') s"

definition trim_right_zeros :: "string \<Rightarrow> string" where
  "trim_right_zeros s = rev (dropWhile (\<lambda>c. c = CHR ''0'') (rev s))"

definition parse_refresh_rate_string :: "host_env \<Rightarrow> bool \<Rightarrow> string \<Rightarrow> floating_point option option" where
  "parse_refresh_rate_string E allow_decimal_point input =
     (let s = trim_space input
      in case match_refresh_rate allow_decimal_point s of
           Some (whole, fraction) \<Rightarrow>
             (let whole = (case trim_left_zeros whole of [] \<Rightarrow> ''0'' | w \<Rightarrow> w);
                  fraction = (case fraction of None \<Rightarrow> [] | Some f \<Rightarrow> trim_right_zeros f)
              in if fraction \<noteq> []
                 then (case stoul (whole @ fraction) of
                         None \<Rightarrow> None
                       | Some n \<Rightarrow> Some (Some (Fp_Rational
                           \<lparr>rat_numerator = n, rat_denominator = decimal_denominator E (length fraction)\<rparr>)))
                 else (case stoul whole of
                         None \<Rightarrow> None
                       | Some n \<Rightarrow> Some (Some (Fp_Rational \<lparr>rat_numerator = n, rat_denominator = 1\<rparr>))))
         | None \<Rightarrow> if s = [] then Some None else None)"

section \<open>The configuration of a display\<close>

definition parse_device_prep_option :: "video_config \<Rightarrow> device_preparation option" where
  "parse_device_prep_option v =
     (case vc_configuration_option v of
        Config_VerifyOnly \<Rightarrow> Some VerifyOnly
      | Config_EnsureActive \<Rightarrow> Some EnsureActive
      | Config_EnsurePrimary \<Rightarrow> Some EnsurePrimary
      | Config_EnsureOnlyDisplay \<Rightarrow> Some EnsureOnlyDisplay
      | Config_Disabled \<Rightarrow> None)"

text \<open>The parsers that modify the configuration on success: \<open>None\<close> is false.\<close>

definition parse_resolution_option ::
  "video_config \<Rightarrow> launch_session \<Rightarrow> single_display_configuration \<Rightarrow> single_display_configuration option" where
  "parse_resolution_option v s cfg =
     (case ls_resolution_override s of
        Some (w, h) \<Rightarrow>
          if 0 < w \<and> 0 < h
          then Some (cfg\<lparr>cfg_resolution := Some \<lparr>res_width = word_of_int w, res_height = word_of_int h\<rparr>\<rparr>) else None
      | None \<Rightarrow>
          let requested = (if 0 \<le> ls_width s \<and> 0 \<le> ls_height s
            then Some (cfg\<lparr>cfg_resolution := Some \<lparr>res_width = word_of_int (ls_width s), res_height = word_of_int (ls_height s)\<rparr>\<rparr>)
            else None)
          in if ls_client_display_mode_override s then requested
             else case vc_resolution_option v of
               Resolution_Automatic \<Rightarrow> requested
             | Resolution_Manual \<Rightarrow>
                 (case parse_resolution_string (vc_manual_resolution v) of
                    Some (Some r) \<Rightarrow> Some (cfg\<lparr>cfg_resolution := Some r\<rparr>)
                  | _ \<Rightarrow> None)
             | Resolution_Disabled \<Rightarrow> Some cfg)"

definition millihz_rate :: "u32 \<Rightarrow> floating_point" where
  "millihz_rate target = Fp_Rational \<lparr>rat_numerator = target, rat_denominator = 1000\<rparr>"

definition parse_refresh_rate_option ::
  "host_env \<Rightarrow> video_config \<Rightarrow> launch_session \<Rightarrow> single_display_configuration \<Rightarrow> single_display_configuration option" where
  "parse_refresh_rate_option E v s cfg =
     (let target = effective_display_refresh_millihz s;
          requested = (if 0 < target then Some (cfg\<lparr>cfg_refresh_rate := Some (millihz_rate target)\<rparr>) else None)
      in if ls_client_display_mode_override s then requested
         else case vc_refresh_rate_option v of
           Rate_Automatic \<Rightarrow> requested
         | Rate_Manual \<Rightarrow>
             (case parse_refresh_rate_string E True (vc_manual_refresh_rate v) of
                Some (Some r) \<Rightarrow> Some (cfg\<lparr>cfg_refresh_rate := Some r\<rparr>)
              | _ \<Rightarrow> None)
         | Rate_PreferHighest \<Rightarrow>
             Some (cfg\<lparr>cfg_refresh_rate := Some (Fp_Rational \<lparr>rat_numerator = 10000, rat_denominator = 1\<rparr>)\<rparr>)
         | Rate_Disabled \<Rightarrow> Some cfg)"

definition parse_hdr_option :: "host_env \<Rightarrow> video_config \<Rightarrow> launch_session \<Rightarrow> hdr_state option" where
  "parse_hdr_option E v s =
     (if rtx_hdr_enabled E v then Some Hdr_Disabled
      else if vc_dummy_plug_hdr10 v then Some Hdr_Enabled
      else case vc_hdr_option v of
        HdrOption_Automatic \<Rightarrow> Some (if effective_hdr_requested s then Hdr_Enabled else Hdr_Disabled)
      | HdrOption_Disabled \<Rightarrow> None)"

datatype remapping_type = Remap_Mixed | Remap_ResolutionOnly | Remap_RefreshRateOnly

definition determine_remapping_type :: "video_config \<Rightarrow> remapping_type option" where
  "determine_remapping_type v =
     (let auto_resolution = (vc_resolution_option v = Resolution_Automatic);
          auto_refresh_rate = (vc_refresh_rate_option v = Rate_Automatic)
      in if auto_resolution \<and> auto_refresh_rate then Some Remap_Mixed
         else if auto_resolution then Some Remap_ResolutionOnly
         else if auto_refresh_rate then Some Remap_RefreshRateOnly
         else None)"

record parsed_remapping_entry =
  pre_requested_resolution :: "resolution option"
  pre_requested_fps :: "floating_point option"
  pre_final_resolution :: "resolution option"
  pre_final_refresh_rate :: "floating_point option"

definition is_resolution_mapped :: "remapping_type \<Rightarrow> bool" where
  "is_resolution_mapped t \<longleftrightarrow> t = Remap_ResolutionOnly \<or> t = Remap_Mixed"

definition is_fps_mapped :: "remapping_type \<Rightarrow> bool" where
  "is_fps_mapped t \<longleftrightarrow> t = Remap_RefreshRateOnly \<or> t = Remap_Mixed"

definition parse_remapping_entry :: "host_env \<Rightarrow> mode_remapping_entry \<Rightarrow> remapping_type \<Rightarrow> parsed_remapping_entry option" where
  "parse_remapping_entry E e t =
     (let res = (if is_resolution_mapped t
            then (case (parse_resolution_string (mre_requested_resolution e), parse_resolution_string (mre_final_resolution e)) of
                    (Some a, Some b) \<Rightarrow> Some (a, b) | _ \<Rightarrow> None)
            else Some (None, None));
          fps = (if is_fps_mapped t
            then (case (parse_refresh_rate_string E False (mre_requested_fps e),
                        parse_refresh_rate_string E True (mre_final_refresh_rate e)) of
                    (Some a, Some b) \<Rightarrow> Some (a, b) | _ \<Rightarrow> None)
            else Some (None, None))
      in case (res, fps) of
           (Some (rr, fr), Some (rf, ff)) \<Rightarrow>
             Some \<lparr>pre_requested_resolution = rr, pre_requested_fps = rf, pre_final_resolution = fr, pre_final_refresh_rate = ff\<rparr>
         | _ \<Rightarrow> None)"

definition remapping_list :: "video_config \<Rightarrow> remapping_type \<Rightarrow> mode_remapping_entry list" where
  "remapping_list v t =
     (case t of
        Remap_ResolutionOnly \<Rightarrow> vc_resolution_only v
      | Remap_RefreshRateOnly \<Rightarrow> vc_refresh_rate_only v
      | Remap_Mixed \<Rightarrow> vc_mixed v)"

text \<open>Equality of an optional rate with an optional requested one that is present.\<close>

definition same_rate :: "host_env \<Rightarrow> floating_point \<Rightarrow> floating_point option \<Rightarrow> bool" where
  "same_rate E f r \<longleftrightarrow> (case r of None \<Rightarrow> False | Some g \<Rightarrow> he_fp_equal E f g)"

definition entry_matches :: "host_env \<Rightarrow> parsed_remapping_entry \<Rightarrow> single_display_configuration \<Rightarrow> bool" where
  "entry_matches E p cfg \<longleftrightarrow>
     (pre_requested_resolution p = None \<or> pre_requested_resolution p = cfg_resolution cfg) \<and>
     (case pre_requested_fps p of None \<Rightarrow> True | Some f \<Rightarrow> same_rate E f (cfg_refresh_rate cfg))"

definition remapped :: "parsed_remapping_entry \<Rightarrow> single_display_configuration \<Rightarrow> single_display_configuration" where
  "remapped p cfg =
     (let cfg = (case pre_final_resolution p of None \<Rightarrow> cfg | Some r \<Rightarrow> cfg\<lparr>cfg_resolution := Some r\<rparr>)
      in case pre_final_refresh_rate p of None \<Rightarrow> cfg | Some f \<Rightarrow> cfg\<lparr>cfg_refresh_rate := Some f\<rparr>)"

fun remap_entries ::
  "host_env \<Rightarrow> remapping_type \<Rightarrow> mode_remapping_entry list \<Rightarrow> single_display_configuration \<Rightarrow> single_display_configuration option" where
  "remap_entries E t [] cfg = Some cfg"
| "remap_entries E t (e # es) cfg =
     (case parse_remapping_entry E e t of
        None \<Rightarrow> None
      | Some p \<Rightarrow>
          if pre_final_resolution p = None \<and> pre_final_refresh_rate p = None then None
          else if entry_matches E p cfg then Some (remapped p cfg)
          else remap_entries E t es cfg)"

definition remap_display_mode_if_needed ::
  "host_env \<Rightarrow> video_config \<Rightarrow> launch_session \<Rightarrow> single_display_configuration \<Rightarrow> single_display_configuration option" where
  "remap_display_mode_if_needed E v s cfg =
     (if ls_client_display_mode_override s then Some cfg
      else case determine_remapping_type v of
        None \<Rightarrow> Some cfg
      | Some t \<Rightarrow> remap_entries E t (remapping_list v t) cfg)"

section \<open>Output names\<close>

definition names_device :: "string \<Rightarrow> host_device \<Rightarrow> bool" where
  "names_device name d \<longleftrightarrow>
     (dev_device_id d \<noteq> [] \<and> iequals (dev_device_id d) name) \<or>
     (dev_display_name d \<noteq> [] \<and> iequals (dev_display_name d) name) \<or>
     (dev_friendly_name d \<noteq> [] \<and> iequals (dev_friendly_name d) name)"

definition resolve_device_id :: "host_env \<Rightarrow> string \<Rightarrow> string" where
  "resolve_device_id E name =
     (if name = [] then name
      else case he_available_devices E of
        None \<Rightarrow> name
      | Some ds \<Rightarrow>
          (case List.find (\<lambda>d. dev_device_id d \<noteq> [] \<and> names_device name d) ds of
             Some d \<Rightarrow> dev_device_id d
           | None \<Rightarrow> name))"

definition is_win_display_name :: "string \<Rightarrow> bool" where
  "is_win_display_name name \<longleftrightarrow> lower (take 11 name) = lower (CHR 92 # CHR 92 # CHR ''.'' # CHR 92 # ''DISPLAY'')"

definition map_output_name :: "host_env \<Rightarrow> string \<Rightarrow> string" where
  "map_output_name E name =
     (if name = [] \<or> is_win_display_name name then name
      else case he_available_devices E of
        None \<Rightarrow> name
      | Some ds \<Rightarrow>
          (case List.find (names_device name) ds of
             Some d \<Rightarrow> if dev_display_name d \<noteq> [] then dev_display_name d else name
           | None \<Rightarrow> name))"

definition output_exists :: "host_env \<Rightarrow> string \<Rightarrow> bool" where
  "output_exists E name \<longleftrightarrow>
     name = [] \<or> (case he_available_devices E of None \<Rightarrow> True | Some ds \<Rightarrow> list_ex (names_device name) ds)"

definition output_is_active :: "host_env \<Rightarrow> string \<Rightarrow> bool" where
  "output_is_active E name \<longleftrightarrow>
     name = [] \<or>
     (case he_available_devices E of
        None \<Rightarrow> True
      | Some ds \<Rightarrow> (case List.find (names_device name) ds of Some d \<Rightarrow> dev_display_name d \<noteq> [] | None \<Rightarrow> False))"

section \<open>The whole\<close>

fun overriding_entry :: "host_env \<Rightarrow> remapping_type \<Rightarrow> floating_point \<Rightarrow> mode_remapping_entry list \<Rightarrow> bool" where
  "overriding_entry E t requested [] = False"
| "overriding_entry E t requested (e # es) =
     (case parse_remapping_entry E e t of
        None \<Rightarrow> False
      | Some p \<Rightarrow>
          if pre_final_refresh_rate p = None then overriding_entry E t requested es
          else if (case pre_requested_fps p of None \<Rightarrow> False | Some f \<Rightarrow> \<not> he_fp_equal E f requested)
          then overriding_entry E t requested es
          else True)"

definition refresh_rate_override_active :: "host_env \<Rightarrow> video_config \<Rightarrow> launch_session \<Rightarrow> bool" where
  "refresh_rate_override_active E v s \<longleftrightarrow>
     (if vc_refresh_rate_option v = Rate_Manual then True
      else if ls_client_display_mode_override s then False
      else case determine_remapping_type v of
        None \<Rightarrow> False
      | Some t \<Rightarrow>
          if \<not> is_fps_mapped t then False
          else let target = effective_display_refresh_millihz s
               in target \<noteq> 0 \<and> overriding_entry E t (millihz_rate target) (remapping_list v t))"

datatype parsed_configuration = Failed_To_Parse | Configuration_Disabled | Parsed single_display_configuration

definition parse_configuration :: "host_env \<Rightarrow> video_config \<Rightarrow> video_config \<Rightarrow> launch_session \<Rightarrow> parsed_configuration" where
  "parse_configuration E globals v s =
     (case parse_device_prep_option v of
        None \<Rightarrow> Configuration_Disabled
      | Some prep \<Rightarrow>
          let cfg = \<lparr>cfg_device_id = resolve_device_id E (get_active_output_name E globals), cfg_device_prep = prep,
                     cfg_resolution = None, cfg_refresh_rate = None, cfg_hdr_state = parse_hdr_option E v s\<rparr>
          in case Option.bind (parse_resolution_option v s cfg)
                    (\<lambda>cfg. Option.bind (parse_refresh_rate_option E v s cfg) (remap_display_mode_if_needed E v s)) of
               None \<Rightarrow> Failed_To_Parse
             | Some cfg \<Rightarrow> Parsed cfg)"


section \<open>What the numbers mean\<close>

lemma trim_space_digits:
  assumes "s \<noteq> []" "is_digit (hd s)" "is_digit (last s)"
  shows "trim_space s = s"
proof -
  have *: "dropWhile isspace t = t" if "t \<noteq> []" "is_digit (hd t)" for t
    using that is_digit_not_space [of "hd t"] by (cases t) auto
  have "hd (rev s) = last s" using assms(1) by (simp add: hd_rev)
  with assms show ?thesis by (simp add: trim_space_def *)
qed

lemma nat_of_dec_append: "nat_of_dec (a @ b) = nat_of_dec a * 10 ^ length b + nat_of_dec b"
proof (induction b rule: rev_induct)
  case (snoc c b)
  have "nat_of_dec (a @ b @ [c]) = nat_of_dec (a @ b) * 10 + digit_val c"
    by (subst append_assoc [symmetric]) (rule nat_of_dec_snoc)
  with snoc show ?case by (simp add: nat_of_dec_snoc algebra_simps)
qed (simp add: nat_of_dec_def)

lemma takeWhile_all_digits: "list_all is_digit s \<Longrightarrow> takeWhile is_digit s = s \<and> dropWhile is_digit s = []"
  by (induction s) auto

lemma stoul_digits:
  assumes "s \<noteq> []" "list_all is_digit s"
  shows "stoul s = (if nat_of_dec s < 2 ^ 32 then Some (of_nat (nat_of_dec s)) else None)"
proof -
  obtain c r where s: "s = c # r" using assms(1) by (cases s) auto
  have "\<not> isspace c \<and> c \<noteq> CHR ''-'' \<and> c \<noteq> CHR ''+''" using assms(2) is_digit_not_space [of c] by (simp add: s)
  then have "scan_number s = Some (False, nat_of_dec s)"
    using takeWhile_all_digits [OF assms(2)] by (simp add: scan_number_def s)
  then show ?thesis by (simp add: stoul_def not_le)
qed

lemma digit_val_zero: "is_digit c \<Longrightarrow> digit_val c = 0 \<longleftrightarrow> c = CHR ''0''"
proof -
  assume d: "is_digit c"
  have "digit_val c = 0 \<longleftrightarrow> (of_char c :: nat) = 48" using d by (auto simp: is_digit_def digit_val_def Let_def)
  moreover have "(of_char c :: nat) = 48 \<longleftrightarrow> c = char_of (48 :: nat)"
  proof
    assume "(of_char c :: nat) = 48"
    then have "char_of (of_char c :: nat) = (char_of (48 :: nat) :: char)" by simp
    then show "c = char_of (48 :: nat)" by simp
  qed simp
  moreover have "char_of (48 :: nat) = CHR ''0''" by code_simp
  ultimately show ?thesis by simp
qed

lemma hd_dec_of_nat: "0 < n \<Longrightarrow> hd (dec_of_nat n) \<noteq> CHR ''0''"
proof (induction n rule: dec_of_nat.induct)
  case (1 n)
  show ?case
  proof (cases "n < 10")
    case True
    with "1.prems" have "digit_val (digit_char n) \<noteq> 0" by simp
    with True digit_val_zero [of "digit_char n"] show ?thesis by (simp add: dec_of_nat.simps [of n])
  next
    case False
    with 1 have "hd (dec_of_nat (n div 10)) \<noteq> CHR ''0''" by simp
    with False dec_of_nat_digits(2) [of "n div 10"] show ?thesis by (simp add: dec_of_nat.simps [of n] hd_append2)
  qed
qed

lemma trim_left_dec: "0 < n \<Longrightarrow> trim_left_zeros (dec_of_nat n) = dec_of_nat n"
  using hd_dec_of_nat [of n] by (cases "dec_of_nat n") (simp_all add: trim_left_zeros_def)

lemma trim_right_last: "s \<noteq> [] \<Longrightarrow> last s \<noteq> CHR ''0'' \<Longrightarrow> trim_right_zeros s = s"
proof -
  assume s: "s \<noteq> []" "last s \<noteq> CHR ''0''"
  then obtain c r where r: "rev s = c # r" by (cases "rev s") auto
  with s have "c \<noteq> CHR ''0''" by (metis hd_rev list.sel(1))
  with r have "dropWhile (\<lambda>c. c = CHR ''0'') (rev s) = rev s" by simp
  then show ?thesis by (simp add: trim_right_zeros_def)
qed

text \<open>
  A refresh rate in the settings, a whole number of hertz with decimals, is read as exactly the rational it
  denotes, as long as its digits fit into 32 bits. From one hertz up the decimals are then at most nine, so the
  conversion of the power of ten, undefined for more, is never reached.
\<close>

theorem refresh_rate_read_exactly:
  assumes "0 < n" "fs \<noteq> []" "list_all is_digit fs" "last fs \<noteq> CHR ''0''"
    and "n * 10 ^ length fs + nat_of_dec fs < 2 ^ 32"
  shows "parse_refresh_rate_string E True (dec_of_nat n @ ''.'' @ fs) =
    Some (Some (Fp_Rational \<lparr>rat_numerator = of_nat (n * 10 ^ length fs + nat_of_dec fs), rat_denominator = 10 ^ length fs\<rparr>))"
proof -
  let ?s = "dec_of_nat n @ ''.'' @ fs"
  have digits: "list_all is_digit (dec_of_nat n)" "dec_of_nat n \<noteq> []"
    using dec_of_nat_digits [of n] by (auto simp: list_all_iff)
  have "is_digit (hd ?s)" "is_digit (last ?s)"
    using digits assms(2,3) by (auto simp: list_all_iff)
  then have trim: "trim_space ?s = ?s" by (intro trim_space_digits) simp_all
  have dot: "\<not> is_digit (CHR ''.'')" by (simp add: is_digit_def)
  have "takeWhile is_digit ?s = dec_of_nat n" "dropWhile is_digit ?s = ''.'' @ fs"
    using takeWhile_append2 [of "dec_of_nat n" is_digit "''.'' @ fs"] dropWhile_append2 [of "dec_of_nat n" is_digit "''.'' @ fs"]
      digits dot by (simp_all add: list_all_iff)
  then have match: "match_refresh_rate True ?s = Some (dec_of_nat n, Some fs)"
    using digits assms(2,3) by (simp add: match_refresh_rate_def all_digits_def)
  have number: "nat_of_dec (dec_of_nat n @ fs) = n * 10 ^ length fs + nat_of_dec fs"
    by (simp add: nat_of_dec_append)
  have "stoul (dec_of_nat n @ fs) = Some (of_nat (n * 10 ^ length fs + nat_of_dec fs))"
    using stoul_digits [of "dec_of_nat n @ fs"] digits assms(3,5) by (simp add: number)
  moreover have "length fs \<le> 9"
  proof (rule ccontr)
    assume "\<not> length fs \<le> 9"
    then have "(10 :: nat) ^ 10 \<le> 10 ^ length fs" by (intro power_increasing) simp_all
    also have "\<dots> \<le> n * 10 ^ length fs" using assms(1) by simp
    finally show False using assms(5) by simp
  qed
  moreover have "(case dec_of_nat n of [] \<Rightarrow> ''0'' | w \<Rightarrow> w) = dec_of_nat n" using digits(2) by (cases "dec_of_nat n") simp_all
  ultimately show ?thesis
    using assms trim match
    by (simp add: parse_refresh_rate_string_def trim_left_dec trim_right_last decimal_denominator_def)
qed

definition plain_host :: host_env where
  "plain_host =
     \<lparr>he_runtime_output_override = None, he_runtime_rtx_hdr = False, he_available_devices = Some [],
      he_coordinator_devices = Some [], he_fp_equal = (=), he_at_least = (\<lambda>_ _. False), he_wide_denominator = (\<lambda>_. 0),
      he_is_virtual_output = (\<lambda>_. False), he_resolve_virtual = (\<lambda>_ _ _. None), he_any_virtual = None,
      he_targets_desktop = (\<lambda>_. False), he_best_effort_refresh = False\<rparr>"

theorem refresh_rate_read_exactly_witness:
  "parse_refresh_rate_string plain_host True ''59.94'' =
    Some (Some (Fp_Rational \<lparr>rat_numerator = 5994, rat_denominator = 100\<rparr>))"
proof -
  have d: "dec_of_nat 59 = ''59''" by code_simp
  have v: "nat_of_dec ''94'' = 94" by (simp add: nat_of_dec_def digit_val_def)
  have "list_all is_digit ''94''" by (simp add: is_digit_def)
  from refresh_rate_read_exactly [of 59 "''94''" plain_host, OF _ _ this] show ?thesis by (simp add: d v)
qed

text \<open>Below one hertz ten decimals reach it.\<close>

lemma wide_denominator_reached:
  "parse_refresh_rate_string E True ''0.1234567891'' =
    Some (Some (Fp_Rational \<lparr>rat_numerator = 1234567891, rat_denominator = he_wide_denominator E 10\<rparr>))"
  by (simp add: parse_refresh_rate_string_def trim_space_def isspace_def match_refresh_rate_def all_digits_def is_digit_def
      trim_left_zeros_def trim_right_zeros_def stoul_def scan_number_def nat_of_dec_def digit_val_def decimal_denominator_def)
    (simp add: numeral_eq_Suc)

section \<open>Whose wishes count\<close>

text \<open>The first entry that matches decides, and every entry before it must have been readable.\<close>

lemma remap_first_match:
  "remap_entries E t es cfg = Some cfg' \<Longrightarrow>
     (cfg' = cfg \<and> (\<forall>e \<in> set es. \<exists>p. parse_remapping_entry E e t = Some p \<and> \<not> entry_matches E p cfg)) \<or>
     (\<exists>before e after p. es = before @ e # after \<and> parse_remapping_entry E e t = Some p \<and> entry_matches E p cfg \<and>
        cfg' = remapped p cfg \<and>
        (\<forall>b \<in> set before. \<exists>q. parse_remapping_entry E b t = Some q \<and> \<not> entry_matches E q cfg))"
proof (induction es)
  case (Cons e es)
  then obtain p where p: "parse_remapping_entry E e t = Some p" by (auto split: option.splits)
  show ?case
  proof (cases "entry_matches E p cfg")
    case True
    with Cons.prems p have "cfg' = remapped p cfg" by (simp split: if_splits)
    with True p show ?thesis by (intro disjI2 exI [of _ "[]"]) auto
  next
    case False
    with Cons.prems p have "remap_entries E t es cfg = Some cfg'" by (simp split: if_splits)
    from Cons.IH [OF this] show ?thesis
    proof (elim disjE exE conjE)
      fix before e' after q
      assume *: "es = before @ e' # after" "parse_remapping_entry E e' t = Some q" "entry_matches E q cfg" "cfg' = remapped q cfg"
        "\<forall>b \<in> set before. \<exists>q. parse_remapping_entry E b t = Some q \<and> \<not> entry_matches E q cfg"
      with False p show ?thesis
        by (intro disjI2 exI [of _ "e # before"] exI [of _ e'] exI [of _ after] exI [of _ q]) simp
    qed (use False p in simp)
  qed
qed simp

lemma remapped_keeps [simp]: "cfg_device_id (remapped p cfg) = cfg_device_id cfg" "cfg_device_prep (remapped p cfg) = cfg_device_prep cfg"
  "cfg_hdr_state (remapped p cfg) = cfg_hdr_state cfg"
  by (simp_all add: remapped_def split: option.split)

lemma remap_keeps:
  assumes "remap_entries E t es cfg = Some cfg'"
  shows "cfg_hdr_state cfg' = cfg_hdr_state cfg" "cfg_device_prep cfg' = cfg_device_prep cfg" "cfg_device_id cfg' = cfg_device_id cfg"
  using remap_first_match [OF assms] by auto

end
