(* ===== verification/Session_Request.thy ===== *)
theory Session_Request
  imports Session_Configuration Apply_Operation
begin

text \<open>
  The request the host builds for a session: \<open>display_helper_builder.h\<close> and
  \<open>display_helper_request_helpers.cpp\<close>. The builder and the request it builds have the same members, so
  they are one record. Log statements are left out.
\<close>

section \<open>Requests\<close>

datatype display_apply_action = Request_Skip | Request_Configure | Request_Revert

datatype virtual_display_arrangement =
  Exclusive | Extended | ExtendedPrimary | ExtendedIsolated | ExtendedPrimaryIsolated

record active_session_state =
  ass_device_id_override :: "string option"
  ass_fps_override :: "int option"
  ass_width_override :: "int option"
  ass_height_override :: "int option"
  ass_virtual_display_override :: "bool option"
  ass_framegen_refresh_override :: "int option"

record topology_definition =
  td_topology :: topology
  td_monitor_positions :: "point smap"
  td_refresh_rate_overrides :: "(u32 \<times> u32) smap"

record display_request =
  dr_action :: display_apply_action
  dr_configuration :: "single_display_configuration option"
  dr_session_overrides :: active_session_state
  dr_virtual_display_watchdog :: bool
  dr_attach_hdr_toggle :: bool
  dr_session :: "launch_session option"
  dr_topology :: topology_definition
  dr_virtual_display_arrangement :: "virtual_display_arrangement option"

definition empty_request :: display_request where
  "empty_request =
     \<lparr>dr_action = Request_Skip, dr_configuration = None,
      dr_session_overrides = \<lparr>ass_device_id_override = None, ass_fps_override = None, ass_width_override = None,
        ass_height_override = None, ass_virtual_display_override = None, ass_framegen_refresh_override = None\<rparr>,
      dr_virtual_display_watchdog = False, dr_attach_hdr_toggle = False, dr_session = None,
      dr_topology = \<lparr>td_topology = [], td_monitor_positions = [], td_refresh_rate_overrides = []\<rparr>,
      dr_virtual_display_arrangement = None\<rparr>"

abbreviation change_overrides :: "(active_session_state \<Rightarrow> active_session_state) \<Rightarrow> display_request \<Rightarrow> display_request" where
  "change_overrides f b \<equiv> b\<lparr>dr_session_overrides := f (dr_session_overrides b)\<rparr>"

section \<open>Small helpers\<close>

definition kIsolatedVirtualDisplayOffset :: int where "kIsolatedVirtualDisplayOffset = 64000"

definition safe_add_int :: "int \<Rightarrow> int \<Rightarrow> int" where
  "safe_add_int v delta = (let r = v + delta in if int_max < r then int_max else if r < int_min then int_min else r)"

definition describe_layout :: "virtual_display_layout \<Rightarrow> virtual_display_arrangement \<times> device_preparation \<times> bool" where
  "describe_layout layout =
     (case layout of
        Layout_Extended \<Rightarrow> (Extended, EnsureActive, False)
      | Layout_ExtendedPrimary \<Rightarrow> (ExtendedPrimary, EnsurePrimary, False)
      | Layout_ExtendedIsolated \<Rightarrow> (ExtendedIsolated, EnsureActive, True)
      | Layout_ExtendedPrimaryIsolated \<Rightarrow> (ExtendedPrimaryIsolated, EnsurePrimary, True)
      | Layout_Exclusive \<Rightarrow> (Exclusive, EnsureOnlyDisplay, False))"

definition session_has_physical_output_override :: "host_env \<Rightarrow> launch_session \<Rightarrow> bool" where
  "session_has_physical_output_override E s \<longleftrightarrow>
     (case ls_output_name_override s of None \<Rightarrow> False | Some n \<Rightarrow> n = [] \<or> \<not> he_is_virtual_output E n)"

definition resolve_virtual_device_id :: "host_env \<Rightarrow> video_config \<Rightarrow> launch_session \<Rightarrow> device_id option" where
  "resolve_virtual_device_id E v s =
     (let mode = (case ls_virtual_display_mode_override s of Some m \<Rightarrow> m | None \<Rightarrow> vc_virtual_display_mode v);
          stable = (if mode \<noteq> Mode_Shared \<and> ls_client_uuid s \<noteq> [] then ls_client_uuid s else ls_unique_id s);
          name = ls_client_name s;
          by_device = (if ls_virtual_display_device_id s \<noteq> []
                       then he_resolve_virtual E stable (ls_virtual_display_device_id s) name else None);
          by_name = (if name \<noteq> [] then he_resolve_virtual E stable [] name else None)
      in if by_device \<noteq> None then by_device
         else if by_name \<noteq> None then by_name
         else case he_resolve_virtual E stable (vc_output_name v) name of
           Some d \<Rightarrow> Some d
         | None \<Rightarrow>
             if vc_output_name v \<noteq> [] \<and> \<not> he_is_virtual_output E (vc_output_name v) then Some (vc_output_name v)
             else if name = [] then he_any_virtual E
             else None)"

definition fps_to_refresh_rate :: "int \<Rightarrow> floating_point" where
  "fps_to_refresh_rate fps =
     Fp_Rational \<lparr>rat_numerator = word_of_int fps, rat_denominator = (if 1000 \<le> fps then 1000 else 1)\<rparr>"

definition size_of :: "int \<Rightarrow> int \<Rightarrow> resolution" where
  "size_of w h = \<lparr>res_width = word_of_int w, res_height = word_of_int h\<rparr>"

definition apply_resolution_refresh_overrides ::
  "int \<Rightarrow> int \<Rightarrow> int \<Rightarrow> bool \<Rightarrow> bool \<Rightarrow> single_display_configuration \<Rightarrow> single_display_configuration" where
  "apply_resolution_refresh_overrides w h fps resolution_disabled refresh_rate_disabled cfg =
     (let cfg = (if \<not> resolution_disabled \<and> cfg_resolution cfg = None \<and> 0 < w \<and> 0 < h
                 then cfg\<lparr>cfg_resolution := Some (size_of w h)\<rparr> else cfg)
      in if \<not> refresh_rate_disabled \<and> cfg_refresh_rate cfg = None \<and> 0 < fps
         then cfg\<lparr>cfg_refresh_rate := Some (fps_to_refresh_rate fps)\<rparr> else cfg)"

definition positive_dimension_to_int :: "u32 \<Rightarrow> int option" where
  "positive_dimension_to_int d = (if d = 0 then None else Some (min (uint d) int_max))"

definition ensure_minimum_refresh_if_present :: "host_env \<Rightarrow> int \<Rightarrow> floating_point option \<Rightarrow> floating_point option" where
  "ensure_minimum_refresh_if_present E minimum_fps r =
     (case r of
        None \<Rightarrow> None
      | Some f \<Rightarrow> if minimum_fps \<le> 0 \<or> he_at_least E f minimum_fps then Some f else Some (fps_to_refresh_rate minimum_fps))"

text \<open>The settings a session sees: its overrides, and a display prepared alone for an exclusive virtual one.\<close>

definition effective_layout :: "video_config \<Rightarrow> launch_session \<Rightarrow> virtual_display_layout" where
  "effective_layout v s = (case ls_virtual_display_layout_override s of Some l \<Rightarrow> l | None \<Rightarrow> vc_virtual_display_layout v)"

definition effective_video_config :: "host_env \<Rightarrow> video_config \<Rightarrow> launch_session \<Rightarrow> bool \<Rightarrow> video_config" where
  "effective_video_config E v s virtual_display_intended =
     (let v = (case ls_dd_config_option_override s of None \<Rightarrow> v | Some c \<Rightarrow> v\<lparr>vc_configuration_option := c\<rparr>);
          v = (case ls_virtual_display_mode_override s of None \<Rightarrow> v | Some m \<Rightarrow> v\<lparr>vc_virtual_display_mode := m\<rparr>);
          v = (case he_runtime_output_override E of None \<Rightarrow> v | Some n \<Rightarrow> v\<lparr>vc_output_name := n\<rparr>)
      in if (ls_virtual_display s \<or> virtual_display_intended) \<and> vc_configuration_option v = Config_Disabled \<and>
            effective_layout v s = Layout_Exclusive
         then v\<lparr>vc_configuration_option := Config_EnsureOnlyDisplay\<rparr> else v)"

section \<open>The display's configuration\<close>

definition initial_virtual_display_configuration ::
  "host_env \<Rightarrow> video_config \<Rightarrow> video_config \<Rightarrow> launch_session \<Rightarrow> single_display_configuration option" where
  "initial_virtual_display_configuration E globals ev s =
     (case parse_configuration E globals ev s of Parsed cfg \<Rightarrow> Some cfg | _ \<Rightarrow> None)"

definition initial_virtual_display_resolution ::
  "host_env \<Rightarrow> video_config \<Rightarrow> video_config \<Rightarrow> launch_session \<Rightarrow> resolution option" where
  "initial_virtual_display_resolution E globals ev s =
     (case initial_virtual_display_configuration E globals ev s of
        None \<Rightarrow> None
      | Some cfg \<Rightarrow>
          (case cfg_resolution cfg of
             None \<Rightarrow> None
           | Some r \<Rightarrow> if res_width r = 0 \<or> res_height r = 0 then None else Some r))"

text \<open>The two halves of \<open>configure_virtual_display\<close>: the configuration it asks for and the overrides it records.\<close>

definition virtual_display_configuration ::
  "host_env \<Rightarrow> video_config \<Rightarrow> device_id \<Rightarrow> device_preparation \<Rightarrow> int \<Rightarrow> int \<Rightarrow> int \<Rightarrow> int \<Rightarrow>
   single_display_configuration \<Rightarrow> single_display_configuration" where
  "virtual_display_configuration E ev target prep w h display_fps minimum_fps cfg =
     (let cfg = cfg\<lparr>cfg_device_id := target, cfg_device_prep := prep\<rparr>;
          cfg = (if 0 < minimum_fps
                 then cfg\<lparr>cfg_refresh_rate := ensure_minimum_refresh_if_present E minimum_fps (cfg_refresh_rate cfg)\<rparr>
                 else cfg)
      in apply_resolution_refresh_overrides w h display_fps (vc_resolution_option ev = Resolution_Disabled)
           (vc_refresh_rate_option ev = Rate_Disabled) cfg)"

definition virtual_display_overrides ::
  "launch_session \<Rightarrow> device_id \<Rightarrow> int \<Rightarrow> int \<Rightarrow> int \<Rightarrow> single_display_configuration \<Rightarrow> active_session_state \<Rightarrow>
   active_session_state" where
  "virtual_display_overrides s target w h display_fps cfg a =
     (let a = a\<lparr>ass_device_id_override := (if target = [] then None else Some target), ass_virtual_display_override := Some True\<rparr>;
          a = (case cfg_resolution cfg of
                 None \<Rightarrow> a
               | Some r \<Rightarrow> a\<lparr>ass_width_override := positive_dimension_to_int (res_width r),
                              ass_height_override := positive_dimension_to_int (res_height r)\<rparr>);
          a = (if ass_width_override a = None \<and> 0 < w then a\<lparr>ass_width_override := Some w\<rparr> else a);
          a = (if ass_height_override a = None \<and> 0 < h then a\<lparr>ass_height_override := Some h\<rparr> else a);
          a = (if 0 < display_fps then a\<lparr>ass_fps_override := Some display_fps\<rparr> else a)
      in a\<lparr>ass_framegen_refresh_override := ls_framegen_refresh_rate s\<rparr>)"

definition configure_virtual_display ::
  "host_env \<Rightarrow> video_config \<Rightarrow> video_config \<Rightarrow> launch_session \<Rightarrow> virtual_display_layout \<Rightarrow> int \<Rightarrow> int \<Rightarrow> int \<Rightarrow> int \<Rightarrow>
   display_request \<Rightarrow> bool \<times> display_request" where
  "configure_virtual_display E globals ev s layout w h display_fps minimum_fps b =
     (case parse_configuration E globals ev s of
        Parsed cfg \<Rightarrow>
          (let target = (case resolve_virtual_device_id E ev s of Some d \<Rightarrow> d | None \<Rightarrow> []);
               prep = fst (snd (describe_layout layout));
               cfg = virtual_display_configuration E ev target prep w h display_fps minimum_fps cfg
           in (True, change_overrides (virtual_display_overrides s target w h display_fps cfg) b
                 \<lparr>dr_configuration := Some cfg, dr_virtual_display_watchdog := True, dr_action := Request_Configure\<rparr>))
      | _ \<Rightarrow> (False, b\<lparr>dr_action := Request_Skip\<rparr>))"

definition rate :: "u32 \<Rightarrow> floating_point" where
  "rate hz = Fp_Rational \<lparr>rat_numerator = hz, rat_denominator = 1\<rparr>"

definition standard_configuration ::
  "video_config \<Rightarrow> launch_session \<Rightarrow> virtual_display_layout \<Rightarrow> bool \<Rightarrow> bool \<Rightarrow> bool \<Rightarrow> bool \<Rightarrow> bool \<Rightarrow> bool \<Rightarrow>
   int \<Rightarrow> int \<Rightarrow> int \<Rightarrow> single_display_configuration \<Rightarrow> single_display_configuration" where
  "standard_configuration ev s layout dummy framegen rtx_hdr virtual_sdr desktop force_refresh w h display_fps cfg =
     (let cfg = (if ls_virtual_display s \<and> ls_virtual_display_device_id s \<noteq> []
                 then cfg\<lparr>cfg_device_id := ls_virtual_display_device_id s\<rparr> else cfg);
          cfg = (if ls_virtual_display s then cfg\<lparr>cfg_device_prep := fst (snd (describe_layout layout))\<rparr> else cfg);
          cfg = (if dummy \<and> \<not> framegen \<and> \<not> desktop
                 then cfg\<lparr>cfg_refresh_rate := Some (rate 30), cfg_hdr_state := Some Hdr_Enabled\<rparr> else cfg);
          cfg = (if dummy \<and> framegen \<and> \<not> desktop then cfg\<lparr>cfg_hdr_state := Some Hdr_Enabled\<rparr> else cfg);
          cfg = (if rtx_hdr then cfg\<lparr>cfg_hdr_state := Some Hdr_Disabled\<rparr> else cfg);
          cfg = (if virtual_sdr \<and> cfg_hdr_state cfg = Some Hdr_Enabled then cfg\<lparr>cfg_hdr_state := Some Hdr_Disabled\<rparr> else cfg);
          cfg = (if force_refresh
                 then (let cfg = cfg\<lparr>cfg_refresh_rate := Some (rate 10000)\<rparr>
                       in if vc_resolution_option ev \<noteq> Resolution_Disabled \<and> cfg_resolution cfg = None \<and> 0 \<le> w \<and> 0 \<le> h
                          then cfg\<lparr>cfg_resolution := Some (size_of w h)\<rparr> else cfg)
                 else cfg)
      in apply_resolution_refresh_overrides w h display_fps (vc_resolution_option ev = Resolution_Disabled)
           (vc_refresh_rate_option ev = Rate_Disabled) cfg)"

definition configure_standard ::
  "host_env \<Rightarrow> video_config \<Rightarrow> video_config \<Rightarrow> launch_session \<Rightarrow> virtual_display_layout \<Rightarrow> int \<Rightarrow> int \<Rightarrow> int \<Rightarrow>
   display_request \<Rightarrow> bool \<times> display_request" where
  "configure_standard E globals ev s layout w h display_fps b =
     (let dummy = vc_dummy_plug_hdr10 ev;
          rtx_hdr = rtx_hdr_enabled E ev;
          virtual_sdr = (ls_virtual_display s \<and> ls_virtual_display_hdr_enabled s = Some False);
          desktop = he_targets_desktop E (ls_appid s);
          framegen = (ls_gen1_framegen_fix s \<or> ls_gen2_framegen_fix s);
          force_refresh = ((framegen \<or> he_best_effort_refresh E) \<and> \<not> (dummy \<and> \<not> framegen))
      in case parse_configuration E globals ev s of
        Parsed cfg \<Rightarrow>
          (let cfg = standard_configuration ev s layout dummy framegen rtx_hdr virtual_sdr desktop force_refresh w h display_fps cfg
           in (True, b\<lparr>dr_configuration := Some cfg, dr_virtual_display_watchdog := False, dr_action := Request_Configure\<rparr>))
      | Configuration_Disabled \<Rightarrow>
          if dummy \<and> \<not> framegen \<and> \<not> desktop
          then let cfg = \<lparr>cfg_device_id = (if ls_virtual_display_device_id s = [] then vc_output_name ev else ls_virtual_display_device_id s),
                 cfg_device_prep = VerifyOnly,
                 cfg_resolution = (if 0 \<le> w \<and> 0 \<le> h then Some (size_of w h) else None),
                 cfg_refresh_rate = Some (rate 30),
                 cfg_hdr_state = Some (if rtx_hdr \<or> virtual_sdr then Hdr_Disabled else Hdr_Enabled)\<rparr>
               in (True, b\<lparr>dr_configuration := Some cfg, dr_action := Request_Configure\<rparr>)
          else (True, b\<lparr>dr_configuration := None, dr_action := Request_Revert, dr_virtual_display_watchdog := False\<rparr>)
      | Failed_To_Parse \<Rightarrow> (False, b\<lparr>dr_action := Request_Skip\<rparr>))"

definition as_int :: "u32 \<Rightarrow> int" where
  "as_int w = min (uint w) int_max"

definition session_overrides :: "launch_session \<Rightarrow> int \<Rightarrow> int \<Rightarrow> int \<Rightarrow> active_session_state \<Rightarrow> active_session_state" where
  "session_overrides s w h display_fps a =
     (let a = (if 0 < w then a\<lparr>ass_width_override := Some w\<rparr> else a);
          a = (if 0 < h then a\<lparr>ass_height_override := Some h\<rparr> else a);
          a = (if 0 < display_fps
               then a\<lparr>ass_framegen_refresh_override := ls_framegen_refresh_rate s, ass_fps_override := Some display_fps\<rparr> else a)
      in a\<lparr>ass_virtual_display_override := Some (ls_virtual_display s)\<rparr>)"

definition configure_display ::
  "host_env \<Rightarrow> video_config \<Rightarrow> video_config \<Rightarrow> launch_session \<Rightarrow> display_request \<Rightarrow> bool \<times> display_request" where
  "configure_display E globals ev s b =
     (if ls_virtual_display_failed s then (False, b)
      else let layout = effective_layout ev s;
               (arrangement, prep, isolated) = describe_layout layout;
               b = b\<lparr>dr_session := Some s, dr_virtual_display_arrangement := Some arrangement\<rparr>;
               (w, h) = (case ls_resolution_override s of Some r \<Rightarrow> r | None \<Rightarrow> (ls_width s, ls_height s));
               display_fps = as_int (effective_display_refresh_millihz s);
               b = change_overrides (session_overrides s w h display_fps) b;
               base_fps = as_int (normalize_refresh_millihz (ls_fps s));
               framegen_active = (positive_u32 (ls_framegen_refresh_millihz s) \<or> positive_int (ls_framegen_refresh_rate s));
               framegen_fps = (if framegen_active then display_fps else 0);
               requested_fps = (if 0 < framegen_fps then framegen_fps else base_fps);
               requests_virtual = (ls_virtual_display s \<or>
                 vc_virtual_display_mode ev = Mode_PerClient \<or> vc_virtual_display_mode ev = Mode_Shared \<or>
                 ls_app_virtual_screen s = Some True);
               multiplier = (if framegen_active then framegen_refresh_multiplier s else 1);
               minimum_fps = (if 1 < multiplier then saturating_refresh_fps base_fps multiplier else base_fps)
           in if requests_virtual
              then configure_virtual_display E globals ev s layout w h (max requested_fps minimum_fps) minimum_fps b
              else configure_standard E globals ev s layout w h requested_fps b)"

end
