(* ===== verification/Session_Positions.thy ===== *)
theory Session_Positions
  imports Session_Request
begin

text \<open>
  Where the host asks for the monitors of a session: \<open>SessionMonitorPositionHelper\<close> and
  \<open>build_request_from_session\<close> of \<open>display_helper_request_helpers.cpp\<close>. The device enumeration is
  \<open>he_coordinator_devices\<close>; the code enumerates at most once in a run. Origins are far from the bounds of
  \<open>int\<close>, so the differences \<open>dx\<close> and \<open>dy\<close> are integers.
\<close>

section \<open>The steps of the helper\<close>

definition default_device_id :: "video_config \<Rightarrow> launch_session \<Rightarrow> device_id" where
  "default_device_id ev s = (if ls_virtual_display_device_id s \<noteq> [] then ls_virtual_display_device_id s else vc_output_name ev)"

definition positioned_device_id :: "host_env \<Rightarrow> video_config \<Rightarrow> launch_session \<Rightarrow> device_id" where
  "positioned_device_id E ev s =
     (case resolve_virtual_device_id E ev s of
        None \<Rightarrow> default_device_id ev s
      | Some d \<Rightarrow> if d \<noteq> [] then d else default_device_id ev s)"

definition placed :: "host_device \<Rightarrow> bool" where
  "placed d \<longleftrightarrow> dev_device_id d \<noteq> [] \<and> dev_has_info d"

definition other_device :: "device_id \<Rightarrow> host_device \<Rightarrow> bool" where
  "other_device v d \<longleftrightarrow> placed d \<and> \<not> iequals (dev_device_id d) v"

definition the_devices :: "host_env \<Rightarrow> host_device list" where
  "the_devices E = (case he_coordinator_devices E of None \<Rightarrow> [] | Some ds \<Rightarrow> ds)"

text \<open>The topology captured before the virtual display, with the display added when it is not in it.\<close>

definition merged_topology :: "device_id \<Rightarrow> topology \<Rightarrow> topology" where
  "merged_topology v t = (if list_ex (list_ex (\<lambda>d. iequals d v)) t then t else t @ [[v]])"

definition configure_topology ::
  "host_env \<Rightarrow> video_config \<Rightarrow> launch_session \<Rightarrow> virtual_display_arrangement \<Rightarrow> topology \<Rightarrow> topology" where
  "configure_topology E ev s arrangement t =
     (let v = (if ls_virtual_display_device_id s \<noteq> [] then ls_virtual_display_device_id s else positioned_device_id E ev s);
          merged = (case ls_virtual_display_topology_snapshot s of
             Some snap \<Rightarrow>
               if arrangement \<noteq> Exclusive \<and> v \<noteq> [] \<and> merged_topology v snap \<noteq> [] then Some (merged_topology v snap) else None
           | None \<Rightarrow> None)
      in case merged of
           Some m \<Rightarrow> m
         | None \<Rightarrow>
             if arrangement = Exclusive \<and> t = [] \<and> default_device_id ev s \<noteq> []
             then [[default_device_id ev s]] else t)"

text \<open>An extended virtual display that Windows made the primary one: the first other display gets its place.\<close>

definition restore_physical_primary :: "host_device list \<Rightarrow> device_id \<Rightarrow> point smap \<Rightarrow> point smap" where
  "restore_physical_primary ds v m =
     (let virtual_is_primary = (case List.find (\<lambda>d. placed d \<and> iequals (dev_device_id d) v) ds of
            None \<Rightarrow> False | Some d \<Rightarrow> hd_primary d)
      in if virtual_is_primary
         then (case List.find (other_device v) ds of
                 None \<Rightarrow> m
               | Some d \<Rightarrow> smap_set v \<lparr>pt_x = sint (res_width (hd_resolution d)), pt_y = 0\<rparr>
                             (smap_set (dev_device_id d) \<lparr>pt_x = 0, pt_y = 0\<rparr> m))
         else m)"

definition record_refresh_rates ::
  "device_id \<Rightarrow> (u32 \<times> u32) smap \<Rightarrow> (u32 \<times> u32) smap \<Rightarrow> (u32 \<times> u32) smap" where
  "record_refresh_rates v rates m =
     fold (\<lambda>(d, r) m. if v \<noteq> [] \<and> iequals d v then m else smap_set d r m) rates m"

definition shifted_origin :: "int \<Rightarrow> int \<Rightarrow> point \<Rightarrow> point" where
  "shifted_origin dx dy p = \<lparr>pt_x = safe_add_int (pt_x p) dx, pt_y = safe_add_int (pt_y p) dy\<rparr>"

definition place_others :: "(point \<Rightarrow> point) \<Rightarrow> device_id \<Rightarrow> host_device list \<Rightarrow> point smap \<Rightarrow> point smap" where
  "place_others f v ds m = fold (\<lambda>d m. if other_device v d then smap_set (dev_device_id d) (f (hd_origin d)) m else m) ds m"

text \<open>The smallest coordinate of the other displays.\<close>

definition min_coordinate :: "(point \<Rightarrow> int) \<Rightarrow> device_id \<Rightarrow> host_device list \<Rightarrow> int option" where
  "min_coordinate c v ds =
     fold (\<lambda>d m. if other_device v d
                 then Some (case m of None \<Rightarrow> c (hd_origin d) | Some x \<Rightarrow> min x (c (hd_origin d))) else m) ds None"

definition isolate_others :: "host_device list \<Rightarrow> device_id \<Rightarrow> point smap \<Rightarrow> point smap" where
  "isolate_others ds v m =
     (case (min_coordinate pt_x v ds, min_coordinate pt_y v ds) of
        (Some min_x, Some min_y) \<Rightarrow>
          place_others (shifted_origin (kIsolatedVirtualDisplayOffset - min_x) (kIsolatedVirtualDisplayOffset - min_y)) v ds m
      | _ \<Rightarrow> m)"

definition configure_positions ::
  "host_env \<Rightarrow> video_config \<Rightarrow> launch_session \<Rightarrow> virtual_display_arrangement \<Rightarrow> point smap \<Rightarrow> point smap" where
  "configure_positions E ev s arrangement m =
     (let v = positioned_device_id E ev s
      in if v = [] then m
         else case arrangement of
           Extended \<Rightarrow> restore_physical_primary (the_devices E) v m
         | ExtendedPrimaryIsolated \<Rightarrow> isolate_others (the_devices E) v (smap_set v \<lparr>pt_x = 0, pt_y = 0\<rparr> m)
         | ExtendedIsolated \<Rightarrow>
             smap_set v \<lparr>pt_x = kIsolatedVirtualDisplayOffset, pt_y = kIsolatedVirtualDisplayOffset\<rparr>
               (place_others id v (the_devices E) m)
         | _ \<Rightarrow> m)"

definition configure_refresh_rates ::
  "host_env \<Rightarrow> video_config \<Rightarrow> launch_session \<Rightarrow> bool \<Rightarrow> (u32 \<times> u32) smap \<Rightarrow> (u32 \<times> u32) smap" where
  "configure_refresh_rates E ev s isolated m =
     (case ls_pre_virtual_display_refresh_rates s of
        Some rates \<Rightarrow> if isolated then m else record_refresh_rates (positioned_device_id E ev s) rates m
      | None \<Rightarrow> m)"

definition configure_monitors ::
  "host_env \<Rightarrow> video_config \<Rightarrow> launch_session \<Rightarrow> topology_definition \<Rightarrow> topology_definition" where
  "configure_monitors E ev s t =
     (if \<not> ls_virtual_display s
      then if vc_configuration_option ev = Config_EnsureOnlyDisplay \<and> td_topology t = [] \<and> default_device_id ev s \<noteq> []
           then t\<lparr>td_topology := [[default_device_id ev s]]\<rparr> else t
      else let (arrangement, prep, isolated) = describe_layout (effective_layout ev s)
           in t\<lparr>td_topology := configure_topology E ev s arrangement (td_topology t),
                td_monitor_positions := configure_positions E ev s arrangement (td_monitor_positions t),
                td_refresh_rate_overrides := configure_refresh_rates E ev s isolated (td_refresh_rate_overrides t)\<rparr>)"

definition build_request_from_session ::
  "host_env \<Rightarrow> video_config \<Rightarrow> video_config \<Rightarrow> launch_session \<Rightarrow> display_request option" where
  "build_request_from_session E globals v s =
     (let option = (case ls_dd_config_option_override s of Some c \<Rightarrow> c | None \<Rightarrow> vc_configuration_option v)
      in if \<not> ls_virtual_display s \<and> session_has_physical_output_override E s \<and> option = Config_Disabled then None
         else let ev = effective_video_config E v s False;
                  (ok, b) = configure_display E globals ev s empty_request
              in if ok then Some (b\<lparr>dr_topology := configure_monitors E ev s (dr_topology b)\<rparr>) else None)"


section \<open>Where the others go\<close>

definition smap_all :: "(string \<Rightarrow> 'v \<Rightarrow> bool) \<Rightarrow> 'v smap \<Rightarrow> bool" where
  "smap_all Q m \<longleftrightarrow> list_all (\<lambda>(k, x). Q k x) m"

lemma smap_all_Nil [simp]: "smap_all Q []"
  by (simp add: smap_all_def)

lemma smap_all_set [intro]: "smap_all Q m \<Longrightarrow> Q k x \<Longrightarrow> smap_all Q (smap_set k x m)"
  by (induction k x m rule: smap_set.induct) (auto simp: smap_all_def)

lemma smap_allD: "smap_all Q m \<Longrightarrow> (k, x) \<in> set m \<Longrightarrow> Q k x"
  by (auto simp: smap_all_def list_all_iff)

lemma place_others_all:
  assumes "\<And>d. d \<in> set ds \<Longrightarrow> other_device v d \<Longrightarrow> Q (dev_device_id d) (f (hd_origin d))" "smap_all Q m"
  shows "smap_all Q (place_others f v ds m)"
  using assms
proof (induction ds arbitrary: m)
  case (Cons d ds)
  have "smap_all Q (if other_device v d then smap_set (dev_device_id d) (f (hd_origin d)) m else m)"
    using Cons.prems by auto
  with Cons.IH Cons.prems(1) show ?case by (simp add: place_others_def)
qed (simp add: place_others_def)

lemma min_coordinate_fold:
  fixes c :: "point \<Rightarrow> int"
  shows "other_device v d \<Longrightarrow> d \<in> set ds \<or> m = Some x \<and> x \<le> c (hd_origin d) \<Longrightarrow>
   fold (\<lambda>d m. if other_device v d then Some (case m of None \<Rightarrow> c (hd_origin d) | Some x \<Rightarrow> min x (c (hd_origin d))) else m) ds m
     = Some y \<Longrightarrow> y \<le> c (hd_origin d)"
proof (induction ds arbitrary: m x)
  case (Cons e ds)
  let ?m = "if other_device v e then Some (case m of None \<Rightarrow> c (hd_origin e) | Some x \<Rightarrow> min x (c (hd_origin e))) else m"
  have "d \<in> set ds \<or> ?m = Some (the ?m) \<and> the ?m \<le> c (hd_origin d)"
    using Cons.prems(1,2) by (auto split: option.split)
  from Cons.IH [OF Cons.prems(1) this] Cons.prems(3) show ?case by simp
qed auto

lemma min_coordinate_le:
  "min_coordinate c v ds = Some y \<Longrightarrow> d \<in> set ds \<Longrightarrow> other_device v d \<Longrightarrow> y \<le> c (hd_origin d)"
  unfolding min_coordinate_def by (rule min_coordinate_fold) auto

definition far_away :: "point \<Rightarrow> bool" where
  "far_away p \<longleftrightarrow> kIsolatedVirtualDisplayOffset \<le> pt_x p \<and> kIsolatedVirtualDisplayOffset \<le> pt_y p"

lemma shifted_far_away:
  "a \<le> pt_x p \<Longrightarrow> b \<le> pt_y p \<Longrightarrow>
   far_away (shifted_origin (kIsolatedVirtualDisplayOffset - a) (kIsolatedVirtualDisplayOffset - b) p)"
  by (simp add: far_away_def shifted_origin_def safe_add_int_def Let_def kIsolatedVirtualDisplayOffset_def int_max_def int_min_def)

lemma isolate_others_far_away:
  assumes "smap_all (\<lambda>k p. iequals k v \<or> far_away p) m"
  shows "smap_all (\<lambda>k p. iequals k v \<or> far_away p) (isolate_others ds v m)"
  using assms unfolding isolate_others_def
  by (auto split: option.split intro!: place_others_all shifted_far_away dest: min_coordinate_le)

lemma far_away_in_corner:
  assumes "far_away p" "0 < uint (res_width r)" "uint (res_width r) \<le> 65536" "0 < uint (res_height r)" "uint (res_height r) \<le> 65536"
  shows "clamped_origin (Some r) p = \<lparr>pt_x = 32768 - uint (res_width r), pt_y = 32768 - uint (res_height r)\<rparr>"
proof -
  have s: "sint (x :: u32) = uint x" if "uint x \<le> 65536" for x
    using that signed_take_bit_int_eq_self [of 31 "uint x"] order_trans [OF _ uint_ge_0, of "-2147483648" x]
    by (simp add: sint_uint)
  show ?thesis
    using assms s [OF assms(3)] s [OF assms(5)]
    by (auto simp: far_away_def kIsolatedVirtualDisplayOffset_def clamped_origin_def clamp_def max_origin_def
        kMinDisplayOrigin_def kMaxDisplayOrigin_def Let_def)
qed

text \<open>
  C32: when the virtual display is the isolated primary one, the request shifts every other display to at least
  64000 in both directions, and the helper bounds an origin by 32767: it puts every other display of a request
  into the lower right corner of the desktop, over one another, whatever their arrangement was.
\<close>

theorem isolated_displays_meet_in_the_corner:
  assumes "ls_virtual_display s" "effective_layout ev s = Layout_ExtendedPrimaryIsolated" "td_monitor_positions t = []"
    and "(a, p) \<in> set (td_monitor_positions (configure_monitors E ev s t))" "\<not> iequals a (positioned_device_id E ev s)"
    and "0 < uint (res_width r)" "uint (res_width r) \<le> 65536" "0 < uint (res_height r)" "uint (res_height r) \<le> 65536"
  shows "clamped_origin (Some r) p = \<lparr>pt_x = 32768 - uint (res_width r), pt_y = 32768 - uint (res_height r)\<rparr>"
proof -
  let ?v = "positioned_device_id E ev s"
  have "smap_all (\<lambda>k p. iequals k ?v \<or> far_away p) (td_monitor_positions (configure_monitors E ev s t))"
    using assms(1-3)
    by (simp add: configure_monitors_def describe_layout_def configure_positions_def Let_def smap_all_def isolate_others_far_away [unfolded smap_all_def])
  from smap_allD [OF this assms(4)] assms(5) have "far_away p" by simp
  from far_away_in_corner [OF this assms(6-9)] show ?thesis .
qed


text \<open>Two monitors of 1920 by 1080, the second to the right of the first.\<close>

definition monitor_at :: "string \<Rightarrow> int \<Rightarrow> host_device" where
  "monitor_at d x =
     \<lparr>dev_device_id = d, dev_display_name = d, dev_friendly_name = d, dev_edid_manufacturer = None, dev_has_info = True,
      hd_primary = (x = 0), hd_origin = \<lparr>pt_x = x, pt_y = 0\<rparr>, hd_resolution = \<lparr>res_width = 1920, res_height = 1080\<rparr>\<rparr>"

definition two_monitors :: host_env where
  "two_monitors = plain_host\<lparr>he_coordinator_devices := Some [monitor_at ''L'' 0, monitor_at ''R'' 1920]\<rparr>"

definition plain_settings :: "virtual_display_layout \<Rightarrow> video_config" where
  "plain_settings layout =
     \<lparr>vc_configuration_option = Config_VerifyOnly, vc_resolution_option = Resolution_Automatic, vc_manual_resolution = [],
      vc_refresh_rate_option = Rate_Automatic, vc_manual_refresh_rate = [], vc_hdr_option = HdrOption_Automatic,
      vc_mixed = [], vc_resolution_only = [], vc_refresh_rate_only = [], vc_dummy_plug_hdr10 = False,
      vc_rtx_hdr_enabled = False, vc_virtual_display_mode = Mode_PerClient, vc_virtual_display_layout = layout,
      vc_output_name = []\<rparr>"

definition plain_session :: "bool \<Rightarrow> launch_session" where
  "plain_session virtual =
     \<lparr>ls_id = 1, ls_client_uuid = ''c'', ls_unique_id = ''u'', ls_client_name = ''n'', ls_appid = 0, ls_app_virtual_screen = None,
      ls_width = 1920, ls_height = 1080, ls_fps = 60, ls_enable_hdr = False, ls_prefer_sdr_10bit = False,
      ls_force_sdr = False, ls_enable_sops = False, ls_client_virtual_display_override = None,
      ls_client_display_mode_override = False, ls_client_display_refresh_millihz = 0,
      ls_virtual_display = virtual, ls_resolution_override = None, ls_virtual_display_failed = False,
      ls_virtual_display_mode_override = None, ls_virtual_display_layout_override = None,
      ls_dd_config_option_override = None, ls_output_name_override = None,
      ls_virtual_display_device_id = (if virtual then ''V'' else []), ls_virtual_display_ready_since = None,
      ls_virtual_display_hdr_enabled = None,
      ls_virtual_display_topology_snapshot = None, ls_pre_virtual_display_refresh_rates = None,
      ls_gen1_framegen_fix = False, ls_gen2_framegen_fix = False, ls_framegen_refresh_rate = None,
      ls_framegen_refresh_millihz = None, ls_framegen_refresh_multiplier = 1\<rparr>"

lemma positioned_sim: "positioned_device_id two_monitors (plain_settings l) (plain_session True) = ''V''"
  by (simp add: positioned_device_id_def resolve_virtual_device_id_def two_monitors_def plain_host_def default_device_id_def
      plain_settings_def plain_session_def)

lemma sim_letters [simp]: "tolower (CHR ''L'') \<noteq> tolower (CHR ''V'')" "tolower (CHR ''R'') \<noteq> tolower (CHR ''V'')"
  by code_simp+

lemma two_monitors_far_away:
  "td_monitor_positions (configure_monitors two_monitors (plain_settings Layout_ExtendedPrimaryIsolated) (plain_session True)
     (dr_topology empty_request)) =
   [(''L'', \<lparr>pt_x = 64000, pt_y = 64000\<rparr>), (''R'', \<lparr>pt_x = 65920, pt_y = 64000\<rparr>), (''V'', \<lparr>pt_x = 0, pt_y = 0\<rparr>)]"
proof -
  have o: "other_device ''V'' (monitor_at ''L'' x)" "other_device ''V'' (monitor_at ''R'' x)" for x
    by (simp_all add: other_device_def placed_def monitor_at_def iequals_def lower_def)
  show ?thesis
    by (simp add: configure_monitors_def configure_positions_def positioned_sim)
      (simp add: effective_layout_def plain_settings_def plain_session_def describe_layout_def empty_request_def the_devices_def
        two_monitors_def isolate_others_def min_coordinate_def place_others_def o, simp add: monitor_at_def shifted_origin_def
        safe_add_int_def kIsolatedVirtualDisplayOffset_def int_max_def int_min_def)
qed

theorem isolated_displays_meet_in_the_corner_witness:
  "clamped_origin (Some \<lparr>res_width = 1920, res_height = 1080\<rparr>) \<lparr>pt_x = 64000, pt_y = 64000\<rparr> =
     \<lparr>pt_x = 30848, pt_y = 31688\<rparr> \<and>
   clamped_origin (Some \<lparr>res_width = 1920, res_height = 1080\<rparr>) \<lparr>pt_x = 65920, pt_y = 64000\<rparr> =
     \<lparr>pt_x = 30848, pt_y = 31688\<rparr>"
  using isolated_displays_meet_in_the_corner [of "plain_session True" "plain_settings Layout_ExtendedPrimaryIsolated"
      "dr_topology empty_request" "''L''" _ two_monitors "\<lparr>res_width = 1920, res_height = 1080\<rparr>"]
    isolated_displays_meet_in_the_corner [of "plain_session True" "plain_settings Layout_ExtendedPrimaryIsolated"
      "dr_topology empty_request" "''R''" _ two_monitors "\<lparr>res_width = 1920, res_height = 1080\<rparr>"]
  unfolding two_monitors_far_away positioned_sim
  by (simp add: plain_session_def effective_layout_def plain_settings_def empty_request_def iequals_def lower_def)

section \<open>What a request asks for\<close>

definition requests_virtual_display :: "video_config \<Rightarrow> launch_session \<Rightarrow> bool" where
  "requests_virtual_display ev s \<longleftrightarrow>
     ls_virtual_display s \<or> vc_virtual_display_mode ev \<noteq> Mode_Disabled \<or> ls_app_virtual_screen s = Some True"

lemma requests_virtual_cases:
  "ls_virtual_display s \<or> vc_virtual_display_mode ev = Mode_PerClient \<or> vc_virtual_display_mode ev = Mode_Shared \<or>
     ls_app_virtual_screen s = Some True \<longleftrightarrow> requests_virtual_display ev s"
  by (cases "vc_virtual_display_mode ev") (auto simp: requests_virtual_display_def)

lemma apply_overrides_keep [simp]:
  "cfg_device_prep (apply_resolution_refresh_overrides w h fps a b cfg) = cfg_device_prep cfg"
  "cfg_device_id (apply_resolution_refresh_overrides w h fps a b cfg) = cfg_device_id cfg"
  by (simp_all add: apply_resolution_refresh_overrides_def Let_def)

lemma virtual_display_configuration_prep [simp]:
  "cfg_device_prep (virtual_display_configuration E ev target prep w h f m cfg) = prep"
  by (simp add: virtual_display_configuration_def Let_def)

lemma configure_virtual_display_asks:
  assumes "configure_virtual_display E g ev s layout w h fps mfps b = (True, b')"
  shows "dr_action b' = Request_Configure \<and> dr_virtual_display_watchdog b' \<and>
    (\<exists>cfg. dr_configuration b' = Some cfg \<and> cfg_device_prep cfg = fst (snd (describe_layout layout)))"
  using assms unfolding configure_virtual_display_def
  by (auto simp: Let_def split: parsed_configuration.splits prod.splits)

lemma configure_standard_asks:
  assumes "configure_standard E g ev s layout w h fps b = (True, b')"
  shows "dr_action b' = Request_Configure \<and> dr_configuration b' \<noteq> None \<or>
    dr_action b' = Request_Revert \<and> dr_configuration b' = None \<and> parse_configuration E g ev s = Configuration_Disabled"
  using assms unfolding configure_standard_def
  by (cases "parse_configuration E g ev s") (auto simp: Let_def split: if_splits)

lemma configuration_disabled:
  "parse_configuration E g v s = Configuration_Disabled \<Longrightarrow> vc_configuration_option v = Config_Disabled"
  by (cases "vc_configuration_option v")
    (auto simp: parse_configuration_def parse_device_prep_option_def Let_def split: option.splits)

lemma configure_display_asks:
  assumes "configure_display E g ev s b = (True, b')"
  shows "if requests_virtual_display ev s
    then dr_action b' = Request_Configure \<and> dr_virtual_display_watchdog b' \<and>
      (\<exists>cfg. dr_configuration b' = Some cfg \<and> cfg_device_prep cfg = fst (snd (describe_layout (effective_layout ev s))))
    else dr_action b' = Request_Configure \<and> dr_configuration b' \<noteq> None \<or>
      dr_action b' = Request_Revert \<and> dr_configuration b' = None \<and> vc_configuration_option ev = Config_Disabled"
proof (cases "requests_virtual_display ev s")
  case True
  with assms obtain w h f m b0 where "configure_virtual_display E g ev s (effective_layout ev s) w h f m b0 = (True, b')"
    unfolding configure_display_def requests_virtual_cases by (auto simp: Let_def split: if_splits prod.splits)
  from configure_virtual_display_asks [OF this] True show ?thesis by simp
next
  case False
  with assms obtain w h f b0 where "configure_standard E g ev s (effective_layout ev s) w h f b0 = (True, b')"
    unfolding configure_display_def requests_virtual_cases by (auto simp: Let_def split: if_splits prod.splits)
  from configure_standard_asks [OF this] False configuration_disabled [of E g ev s] show ?thesis by auto
qed

lemma effective_video_config_keeps:
  "vc_virtual_display_layout (effective_video_config E v s i) = vc_virtual_display_layout v"
  "effective_layout (effective_video_config E v s i) s = effective_layout v s"
  "vc_virtual_display_mode (effective_video_config E v s i) =
     (case ls_virtual_display_mode_override s of Some m \<Rightarrow> m | None \<Rightarrow> vc_virtual_display_mode v)"
  by (auto simp: effective_video_config_def effective_layout_def Let_def split: option.split)



lemma sim_request_built:
  "build_request_from_session two_monitors (plain_settings Layout_ExtendedPrimaryIsolated) (plain_settings Layout_ExtendedPrimaryIsolated)
     (plain_session True) \<noteq> None"
  by code_simp


section \<open>The other layouts\<close>

text \<open>An isolated display that is not the primary one leaves the others where they are.\<close>

lemma isolated_keeps_the_others:
  assumes "ls_virtual_display s" "effective_layout ev s = Layout_ExtendedIsolated" "td_monitor_positions t = []"
    and "(a, p) \<in> set (td_monitor_positions (configure_monitors E ev s t))" "\<not> iequals a (positioned_device_id E ev s)"
  shows "\<exists>d \<in> set (the_devices E). dev_device_id d = a \<and> hd_origin d = p"
proof -
  let ?v = "positioned_device_id E ev s"
  let ?Q = "\<lambda>k p. iequals k ?v \<or> (\<exists>d \<in> set (the_devices E). dev_device_id d = k \<and> hd_origin d = p)"
  have "smap_all ?Q (place_others id ?v (the_devices E) [])"
    by (rule place_others_all) (auto simp: smap_all_def)
  then have "smap_all ?Q (td_monitor_positions (configure_monitors E ev s t))"
    using assms(1-3)
    by (auto simp: configure_monitors_def describe_layout_def configure_positions_def Let_def smap_all_set)
  from smap_allD [OF this assms(4)] assms(5) show ?thesis by simp
qed

text \<open>A physical session never moves a monitor.\<close>

lemma physical_session_moves_nothing:
  "\<not> ls_virtual_display s \<Longrightarrow> td_monitor_positions (configure_monitors E ev s t) = td_monitor_positions t"
  by (simp add: configure_monitors_def)

text \<open>A merged topology keeps every group of the one captured before the virtual display, and has that display in it.\<close>

lemma merged_topology_complete:
  "set t \<subseteq> set (merged_topology v t) \<and> (\<exists>g \<in> set (merged_topology v t). \<exists>d \<in> set g. iequals d v)"
  by (auto simp: merged_topology_def list_ex_iff)

end
