(* ===== verification/Request_Payload.thy ===== *)
theory Request_Payload
  imports Session_Positions Helper_Wire
begin

text \<open>
  The payloads the host sends to the helper (\<open>display_helper_integration.cpp\<close>) and how the helper reads
  them back (\<open>parse_apply_payload\<close> of \<open>Helper_Wire\<close>). The JSON library, \<open>toJson\<close> and \<open>fromJson\<close> are parameters.
\<close>

section \<open>The payloads\<close>

fun virtual_layout_to_string :: "virtual_display_arrangement \<Rightarrow> string" where
  "virtual_layout_to_string Extended = ''extended''"
| "virtual_layout_to_string ExtendedPrimary = ''extended_primary''"
| "virtual_layout_to_string ExtendedIsolated = ''extended_isolated''"
| "virtual_layout_to_string ExtendedPrimaryIsolated = ''extended_primary_isolated''"
| "virtual_layout_to_string Exclusive = ''exclusive''"

datatype apply_retry_policy = Policy_Full | Policy_StreamStart

text \<open>
  The settings the payloads carry and the libraries: \<open>ps_virtual_displays\<close> is the state file's list
  (\<open>None\<close>: reading it threw), \<open>ps_to_json\<close> is \<open>display_device::toJson\<close> (\<open>None\<close>: not ok).
\<close>

record payload_settings =
  ps_always_restore_from_golden :: bool
  ps_config_revert_on_disconnect :: bool
  ps_snapshot_exclude_devices :: "string list"
  ps_virtual_displays :: "string list option"
  ps_to_json :: "single_display_configuration \<Rightarrow> string option"

definition add_excluded :: "string \<Rightarrow> string list \<Rightarrow> string list" where
  "add_excluded v ids = (if list_ex (\<lambda>e. iequals e v) ids then ids else ids @ [v])"

definition effective_snapshot_exclude_devices :: "payload_settings \<Rightarrow> string list option" where
  "effective_snapshot_exclude_devices S =
     map_option (\<lambda>vds. fold add_excluded vds (ps_snapshot_exclude_devices S)) (ps_virtual_displays S)"

definition build_snapshot_exclude_payload :: "json_lib \<Rightarrow> payload_settings \<Rightarrow> string" where
  "build_snapshot_exclude_payload L S =
     (case effective_snapshot_exclude_devices S of
        Some ids \<Rightarrow> jl_dump L (J_Array (map J_String ids))
      | None \<Rightarrow> [])"

definition build_revert_fields :: "payload_settings \<Rightarrow> bool \<Rightarrow> json smap" where
  "build_revert_fields S prefer =
     smap_set ''sunshine_always_restore_from_golden'' (J_Bool (ps_always_restore_from_golden S))
       (smap_set ''sunshine_prefer_golden_if_current_missing'' (J_Bool prefer) [])"

definition build_revert_payload :: "json_lib \<Rightarrow> payload_settings \<Rightarrow> bool \<Rightarrow> string" where
  "build_revert_payload L S prefer = jl_dump L (J_Object (build_revert_fields S prefer))"

text \<open>An optional member of an object.\<close>

definition put :: "string \<Rightarrow> json option \<Rightarrow> json smap \<Rightarrow> json smap" where
  "put k v m = (case v of None \<Rightarrow> m | Some j \<Rightarrow> smap_set k j m)"

definition json_object_of :: "('v \<Rightarrow> json) \<Rightarrow> 'v smap \<Rightarrow> json" where
  "json_object_of f m = J_Object (fold (\<lambda>(k, v) o'. smap_set k (f v) o') m [])"

definition member_if :: "bool \<Rightarrow> 'a \<Rightarrow> 'a option" where
  "member_if b v = (if b then Some v else None)"

definition topology_json :: "topology \<Rightarrow> json" where
  "topology_json t = J_Array (map (\<lambda>g. J_Array (map J_String g)) t)"

definition point_json :: "point \<Rightarrow> json" where
  "point_json p = J_Object [(''x'', J_Int (pt_x p)), (''y'', J_Int (pt_y p))]"

definition rate_json :: "u32 \<times> u32 \<Rightarrow> json" where
  "rate_json r = J_Object [(''den'', J_Int (uint (snd r))), (''num'', J_Int (uint (fst r)))]"

text \<open>The members the host sets, in the order of the code; \<open>None\<close> is a member left out.\<close>

definition request_members :: "payload_settings \<Rightarrow> display_request \<Rightarrow> apply_retry_policy \<Rightarrow> (string \<times> json option) list" where
  "request_members S r policy =
     (let t = dr_topology r
      in [(''wa_hdr_toggle'', member_if (dr_attach_hdr_toggle r) (J_Bool True)),
          (''sunshine_virtual_layout'', map_option (\<lambda>a. J_String (virtual_layout_to_string a)) (dr_virtual_display_arrangement r)),
          (''sunshine_topology'', member_if (td_topology t \<noteq> []) (topology_json (td_topology t))),
          (''sunshine_monitor_positions'',
             member_if (td_monitor_positions t \<noteq> []) (json_object_of point_json (td_monitor_positions t))),
          (''sunshine_device_refresh_rate_overrides'',
             member_if (td_refresh_rate_overrides t \<noteq> []) (json_object_of rate_json (td_refresh_rate_overrides t))),
          (''sunshine_always_restore_from_golden'', member_if (ps_always_restore_from_golden S) (J_Bool True)),
          (''sunshine_restore_on_disconnect'', Some (J_Bool (ps_config_revert_on_disconnect S))),
          (''sunshine_omit_final_initial_hdr_reapply'', member_if (policy = Policy_StreamStart) (J_Bool True)),
          (''sunshine_snapshot_exclude_devices'',
             map_option (\<lambda>ids. J_Array (map J_String ids)) (effective_snapshot_exclude_devices S))])"

definition apply_payload_fields ::
  "payload_settings \<Rightarrow> display_request \<Rightarrow> apply_retry_policy \<Rightarrow> json smap \<Rightarrow> json smap" where
  "apply_payload_fields S r policy j = fold (\<lambda>(k, v). put k v) (request_members S r policy) j"

text \<open>
  \<open>build_helper_apply_payload\<close>. The value of \<open>toJson\<close> is an object; indexing another one by a name would throw.
\<close>

datatype built_payload = Payload_None | Payload_Throws | Payload string

definition build_helper_apply_payload ::
  "json_lib \<Rightarrow> payload_settings \<Rightarrow> display_request \<Rightarrow> apply_retry_policy \<Rightarrow> built_payload" where
  "build_helper_apply_payload L S r policy =
     (case Option.bind (dr_configuration r) (ps_to_json S) of
        None \<Rightarrow> Payload_None
      | Some json \<Rightarrow>
          (case jl_parse L json of
             None \<Rightarrow> Payload_None
           | Some (J_Object j) \<Rightarrow> Payload (jl_dump L (J_Object (apply_payload_fields S r policy j)))
           | Some _ \<Rightarrow> Payload_Throws))"

text \<open>The client's part in \<open>send_apply_json\<close>: the token of the request.\<close>

definition tag_apply_payload :: "json_lib \<Rightarrow> string \<Rightarrow> u64 \<Rightarrow> string option" where
  "tag_apply_payload L json request_id =
     (case jl_parse L json of
        Some (J_Object j) \<Rightarrow> Some (jl_dump L (J_Object (smap_set ''sunshine_apply_id'' (J_Int (uint request_id)) j)))
      | _ \<Rightarrow> None)"

section \<open>Objects\<close>

lemma map_of_smap_set [simp]: "smap_wf m \<Longrightarrow> map_of (smap_set k v m) = (map_of m)(k \<mapsto> v)"
proof (induction k v m rule: smap_set.induct)
  case (2 k v k' v' m)
  then show ?case by (auto simp: smap_wf_Cons fun_eq_iff)
qed simp

lemma map_of_smap_keys: "map_of m k = None \<longleftrightarrow> k \<notin> smap_keys m"
  by (simp add: map_of_eq_None_iff smap_keys_def)

lemma smap_ext: "smap_wf m \<Longrightarrow> smap_wf n \<Longrightarrow> map_of m = map_of n \<Longrightarrow> m = n"
proof (induction m arbitrary: n)
  case Nil
  have "map_of n k = None" for k using fun_cong [OF Nil.prems(3), of k] by simp
  note none = this
  show ?case
  proof (cases n)
    case (Cons kv n')
    then have "map_of n (fst kv) \<noteq> None" by (cases kv) simp
    with none show ?thesis by simp
  qed simp
next
  case (Cons kv m)
  obtain k v where kv: "kv = (k, v)" by (cases kv)
  from Cons.prems(3) have same: "map_of n k = Some v" by (simp add: kv flip: Cons.prems(3))
  then have "n \<noteq> []" by auto
  then obtain k' v' n' where n: "n = (k', v') # n'" by (cases n) auto
  have less: "\<And>x. x \<in> smap_keys m \<Longrightarrow> k < x" "\<And>x. x \<in> smap_keys n' \<Longrightarrow> k' < x" and wf: "smap_wf m" "smap_wf n'"
    using Cons.prems(1,2) by (auto simp: kv n smap_wf_Cons)
  have "map_of (kv # m) k' \<noteq> None" "map_of n k \<noteq> None"
    using fun_cong [OF Cons.prems(3), of k'] same by (simp_all add: n)
  then have "k' = k \<or> k' \<in> smap_keys m" "k = k' \<or> k \<in> smap_keys n'"
    unfolding map_of_smap_keys by (auto simp: kv n)
  with less have kk: "k = k'" using order.asym by blast
  have v: "v = v'" using same by (simp add: n kk)
  have "map_of m = map_of n'"
  proof
    fix x
    have "map_of (kv # m) x = map_of n x" by (rule fun_cong [OF Cons.prems(3)])
    moreover have "map_of m k = None" "map_of n' k = None"
      using less kk by (auto simp: map_of_smap_keys)
    ultimately show "map_of m x = map_of n' x" by (auto simp: kv n kk split: if_splits)
  qed
  with Cons.IH wf have "m = n'" by simp
  with kk v show ?case by (simp add: kv n)
qed

lemma map_of_erase [simp]: "map_of (erase k m) = (map_of m)(k := None)"
  by (induction m) (auto simp: erase_def fun_eq_iff)

lemma smap_wf_erase [simp]: "smap_wf m \<Longrightarrow> smap_wf (erase k m)"
  using smap_wf_retain [of m "\<lambda>x. x \<noteq> k"] by (simp add: erase_def smap_retain_def)

lemma erase_absent: "map_of m k = None \<Longrightarrow> erase k m = m"
  by (induction m) (auto simp: erase_def split: if_splits)

lemma smap_wf_put [simp]: "smap_wf m \<Longrightarrow> smap_wf (put k v m)"
  by (auto simp: put_def split: option.split)

lemma map_of_put [simp]:
  "smap_wf m \<Longrightarrow> map_of (put k v m) = (\<lambda>x. if x = k \<and> v \<noteq> None then v else map_of m x)"
  by (auto simp: put_def fun_eq_iff split: option.split)

lemma fold_smap_set_snoc:
  "smap_wf (o' @ map (\<lambda>(k, v). (k, f v)) m) \<Longrightarrow> smap_wf o' \<Longrightarrow>
   fold (\<lambda>(k, v) o'. smap_set k (f v) o') m o' = o' @ map (\<lambda>(k, v). (k, f v)) m"
proof (induction m arbitrary: o')
  case (Cons kv m)
  obtain k v where kv: "kv = (k, v)" by (cases kv)
  have "smap_set k (f v) o' = o' @ [(k, f v)]"
    using Cons.prems by (intro smap_set_snoc) (auto simp: kv smap_wf_def sorted_wrt_append smap_keys_def)
  moreover have "smap_wf (o' @ [(k, f v)])"
    using Cons.prems by (auto simp: kv smap_wf_def sorted_wrt_append)
  ultimately show ?case using Cons.IH [of "o' @ [(k, f v)]"] Cons.prems by (simp add: kv)
qed simp

lemma json_object_of: "smap_wf m \<Longrightarrow> json_object_of f m = J_Object (map (\<lambda>(k, v). (k, f v)) m)"
  using fold_smap_set_snoc [of "[]" f m] by (simp add: json_object_of_def smap_wf_def case_prod_beta' comp_def)


section \<open>What the helper reads\<close>

text \<open>Each step of the helper's parser on a payload of the host: the member is removed and its value taken.\<close>

lemma map_filter_Some: "(\<And>x. x \<in> set xs \<Longrightarrow> f x = Some (g x)) \<Longrightarrow> List.map_filter f xs = map g xs"
  by (induction xs) (simp_all add: map_filter_simps)

lemma map_filter_inverse: "(\<And>x. f (g x) = Some x) \<Longrightarrow> List.map_filter f (map g xs) = xs"
  by (induction xs) (simp_all add: map_filter_simps)

lemma json_strings_inverse [simp]: "json_strings (map J_String ids) = ids"
  by (simp add: map_filter_inverse)

lemma exclude_inverse [simp]: "parse_snapshot_exclude_json_node (J_Array (map J_String ids)) = ids"
  by (simp add: parse_snapshot_exclude_json_node_def map_filter_inverse)

lemma topology_inverse: "[] \<notin> set t \<Longrightarrow> List.map_filter topology_group (map (\<lambda>g. J_Array (map J_String g)) t) = t"
proof -
  assume t: "[] \<notin> set t"
  have "List.map_filter topology_group (map (\<lambda>g. J_Array (map J_String g)) t) =
    map (\<lambda>j. case j of J_Array vs \<Rightarrow> json_strings vs | _ \<Rightarrow> []) (map (\<lambda>g. J_Array (map J_String g)) t)"
    by (rule map_filter_Some) (use t in \<open>auto simp: Let_def simp del: json_strings.simps\<close>)
  then show ?thesis by (simp add: comp_def del: json_strings.simps)
qed

definition int_range :: "point \<Rightarrow> bool" where
  "int_range p \<longleftrightarrow> int_min \<le> pt_x p \<and> pt_x p \<le> int_max \<and> int_min \<le> pt_y p \<and> pt_y p \<le> int_max"

lemma json_get_int_id: "int_min \<le> v \<Longrightarrow> v \<le> int_max \<Longrightarrow> json_get_int v = v"
  by (simp add: json_get_int_def int_min_def int_max_def signed_take_bit_int_eq_self)

lemma positions_inverse:
  "list_all (\<lambda>(d, p). int_range p) m \<Longrightarrow> List.map_filter position_entry (map (\<lambda>(k, v). (k, point_json v)) m) = m"
  by (induction m) (auto simp: map_filter_simps point_json_def int_range_def json_get_int_id)

lemma overrides_inverse: "List.map_filter override_entry (map (\<lambda>(k, v). (k, rate_json v)) m) = m"
  by (induction m) (auto simp: map_filter_simps rate_json_def)

lemma takes:
  "map_of j ''sunshine_apply_id'' = Some (J_Int (uint i)) \<Longrightarrow>
     take_apply_id (j, r) = (erase ''sunshine_apply_id'' j, r\<lparr>ar_request_id := i\<rparr>)"
  "map_of j ''sunshine_omit_final_initial_hdr_reapply'' = member_if b (J_Bool True) \<Longrightarrow> \<not> ar_omit_final_initial_hdr_reapply r \<Longrightarrow>
     take_omit_reapply (j, r) = (erase ''sunshine_omit_final_initial_hdr_reapply'' j, r\<lparr>ar_omit_final_initial_hdr_reapply := b\<rparr>)"
  "map_of j ''wa_hdr_toggle'' = member_if b (J_Bool True) \<Longrightarrow> \<not> ar_hdr_blank r \<Longrightarrow>
     take_hdr_blank (j, r) = Some (erase ''wa_hdr_toggle'' j, r\<lparr>ar_hdr_blank := b\<rparr>)"
  "map_of j ''sunshine_virtual_layout'' = map_option J_String layout \<Longrightarrow> ar_virtual_layout r = None \<Longrightarrow>
     take_virtual_layout (j, r) = (erase ''sunshine_virtual_layout'' j, r\<lparr>ar_virtual_layout := layout\<rparr>)"
  "map_of j ''sunshine_always_restore_from_golden'' = member_if b (J_Bool True) \<Longrightarrow> \<not> ar_prefer_golden_first r \<Longrightarrow>
     take_prefer_golden (j, r) = (erase ''sunshine_always_restore_from_golden'' j, r\<lparr>ar_prefer_golden_first := b\<rparr>)"
  "map_of j ''sunshine_restore_on_disconnect'' = Some (J_Bool b) \<Longrightarrow>
     take_restore_on_disconnect (j, r) = (erase ''sunshine_restore_on_disconnect'' j, r\<lparr>ar_restore_on_disconnect := b\<rparr>)"
  "map_of j ''sunshine_snapshot_exclude_devices'' = map_option (\<lambda>ids. J_Array (map J_String ids)) e \<Longrightarrow>
   ar_snapshot_exclusions r = None \<Longrightarrow>
     take_snapshot_exclusions (j, r) = (erase ''sunshine_snapshot_exclude_devices'' j, r\<lparr>ar_snapshot_exclusions := e\<rparr>)"
  "map_of j ''sunshine_topology'' = member_if (t \<noteq> []) (topology_json t) \<Longrightarrow> [] \<notin> set t \<Longrightarrow> ar_topology r = None \<Longrightarrow>
     take_topology (j, r) = (erase ''sunshine_topology'' j, r\<lparr>ar_topology := (if t = [] then None else Some t)\<rparr>)"
  "map_of j ''sunshine_monitor_positions'' = member_if (m \<noteq> []) (json_object_of point_json m) \<Longrightarrow> smap_wf m \<Longrightarrow>
   list_all (\<lambda>(d, p). int_range p) m \<Longrightarrow> ar_monitor_positions r = [] \<Longrightarrow>
     take_monitor_positions (j, r) = (erase ''sunshine_monitor_positions'' j, r\<lparr>ar_monitor_positions := m\<rparr>)"
  "map_of j ''sunshine_device_refresh_rate_overrides'' = member_if (o' \<noteq> []) (json_object_of rate_json o') \<Longrightarrow> smap_wf o' \<Longrightarrow>
   ar_refresh_rate_overrides r = [] \<Longrightarrow>
     take_refresh_overrides (j, r) = (erase ''sunshine_device_refresh_rate_overrides'' j, r\<lparr>ar_refresh_rate_overrides := o'\<rparr>)"
  by (auto simp: member_if_def erase_absent json_object_of positions_inverse overrides_inverse topology_json_def topology_inverse
      Let_def split: option.split if_splits)

lemma smap_ext_lookup: "smap_wf m \<Longrightarrow> smap_wf n \<Longrightarrow> (\<And>k. map_of m k = map_of n k) \<Longrightarrow> m = n"
  by (rule smap_ext) auto

text \<open>The members of a request and its token, in the order in which the helper reads them.\<close>

definition request_keys :: "string list" where
  "request_keys =
     [''sunshine_apply_id'', ''sunshine_omit_final_initial_hdr_reapply'', ''wa_hdr_toggle'', ''sunshine_virtual_layout'',
      ''sunshine_monitor_positions'', ''sunshine_snapshot_exclude_devices'', ''sunshine_topology'',
      ''sunshine_always_restore_from_golden'', ''sunshine_restore_on_disconnect'',
      ''sunshine_device_refresh_rate_overrides'']"

definition tagged_fields :: "payload_settings \<Rightarrow> display_request \<Rightarrow> apply_retry_policy \<Rightarrow> u64 \<Rightarrow> json smap \<Rightarrow> json smap" where
  "tagged_fields S r policy i c = smap_set ''sunshine_apply_id'' (J_Int (uint i)) (apply_payload_fields S r policy c)"

lemma fold_put_wf: "smap_wf m \<Longrightarrow> smap_wf (fold (\<lambda>(k, v). put k v) es m)"
  by (induction es arbitrary: m) auto

lemma map_of_fold_put:
  "smap_wf m \<Longrightarrow> distinct (map fst es) \<Longrightarrow> map_of (fold (\<lambda>(k, v). put k v) es m) k =
     (case map_of es k of Some (Some v) \<Rightarrow> Some v | _ \<Rightarrow> map_of m k)"
proof (induction es arbitrary: m)
  case (Cons kv es)
  obtain k' v where kv: "kv = (k', v)" by (cases kv)
  have "map_of es k' = None" using Cons.prems(2) by (simp add: kv map_of_eq_None_iff)
  with Cons kv show ?case by (auto split: option.split)
qed simp

lemma apply_payload_fields_wf: "smap_wf c \<Longrightarrow> smap_wf (apply_payload_fields S r policy c)"
  by (simp add: apply_payload_fields_def fold_put_wf)

lemma tagged_fields_wf: "smap_wf c \<Longrightarrow> smap_wf (tagged_fields S r policy i c)"
  by (auto simp: tagged_fields_def apply_payload_fields_wf)

lemma request_members_distinct: "distinct (map fst (request_members S r policy))"
  by (simp add: request_members_def Let_def)

lemma request_keys_are: "set request_keys = insert ''sunshine_apply_id'' (fst ` set (request_members S r policy))"
  by (simp add: request_members_def request_keys_def Let_def insert_commute)

lemma map_of_tagged:
  assumes "smap_wf c"
  shows "map_of (tagged_fields S r policy i c) k =
    (if k = ''sunshine_apply_id'' then Some (J_Int (uint i))
     else case map_of (request_members S r policy) k of Some (Some v) \<Rightarrow> Some v | _ \<Rightarrow> map_of c k)"
  using assms unfolding tagged_fields_def apply_payload_fields_def
  by (simp add: map_of_fold_put request_members_distinct fold_put_wf)

lemma map_of_tagged_member:
  assumes "smap_wf c" "list_all (\<lambda>k. map_of c k = None) request_keys"
    and "map_of (request_members S r policy) k = Some v" "k \<noteq> ''sunshine_apply_id''"
  shows "map_of (tagged_fields S r policy i c) k = v"
proof -
  have "k \<in> set request_keys"
    using map_of_SomeD [OF assms(3)] unfolding request_keys_are [of S r policy] by force
  with assms(2) have "map_of c k = None" by (auto simp: list_all_iff)
  with assms show ?thesis by (auto simp: map_of_tagged split: option.split)
qed

lemma map_of_tagged_other:
  assumes "smap_wf c" "k \<notin> set request_keys"
  shows "map_of (tagged_fields S r policy i c) k = map_of c k"
proof -
  have "k \<noteq> ''sunshine_apply_id''" "map_of (request_members S r policy) k = None"
    using assms(2) unfolding request_keys_are [of S r policy] map_of_eq_None_iff by auto
  with assms(1) show ?thesis by (simp add: map_of_tagged)
qed

lemma map_of_fold_erase: "map_of (fold erase ks m) k = (if k \<in> set ks then None else map_of m k)"
  by (induction ks arbitrary: m) auto

lemma smap_wf_fold_erase: "smap_wf m \<Longrightarrow> smap_wf (fold erase ks m)"
  by (induction ks arbitrary: m) auto

text \<open>Nothing of the request is left in the object that \<open>fromJson\<close> reads.\<close>

lemma nothing_left:
  assumes "smap_wf c" "list_all (\<lambda>k. map_of c k = None) request_keys"
  shows "fold erase request_keys (tagged_fields S r policy i c) = c"
proof (rule smap_ext_lookup)
  show "smap_wf (fold erase request_keys (tagged_fields S r policy i c))" "smap_wf c"
    using assms(1) by (simp_all add: smap_wf_fold_erase tagged_fields_wf)
  show "map_of (fold erase request_keys (tagged_fields S r policy i c)) k = map_of c k" for k
  proof (cases "k \<in> set request_keys")
    case True
    with assms(2) show ?thesis by (simp add: map_of_fold_erase list_all_iff)
  qed (simp add: map_of_fold_erase map_of_tagged_other assms(1))
qed

text \<open>The request the helper should have.\<close>

definition requested_apply ::
  "payload_settings \<Rightarrow> display_request \<Rightarrow> apply_retry_policy \<Rightarrow> u64 \<Rightarrow> single_display_configuration \<Rightarrow> apply_request" where
  "requested_apply S r policy i cfg =
     (let t = dr_topology r
      in \<lparr>ar_configuration = Some cfg,
          ar_topology = (if td_topology t = [] then None else Some (td_topology t)),
          ar_monitor_positions = td_monitor_positions t,
          ar_refresh_rate_overrides = td_refresh_rate_overrides t,
          ar_hdr_blank = dr_attach_hdr_toggle r,
          ar_prefer_golden_first = ps_always_restore_from_golden S,
          ar_restore_on_disconnect = ps_config_revert_on_disconnect S,
          ar_omit_final_initial_hdr_reapply = (policy = Policy_StreamStart),
          ar_virtual_layout = map_option virtual_layout_to_string (dr_virtual_display_arrangement r),
          ar_snapshot_exclusions = effective_snapshot_exclude_devices S,
          ar_request_id = i\<rparr>)"

definition request_wf :: "display_request \<Rightarrow> bool" where
  "request_wf r \<longleftrightarrow> [] \<notin> set (td_topology (dr_topology r)) \<and> smap_wf (td_monitor_positions (dr_topology r)) \<and>
     smap_wf (td_refresh_rate_overrides (dr_topology r)) \<and>
     list_all (\<lambda>(d, p). int_range p) (td_monitor_positions (dr_topology r))"

text \<open>The library reads back the text it wrote for an object.\<close>

definition json_faithful :: "json_lib \<Rightarrow> json smap \<Rightarrow> bool" where
  "json_faithful L m \<longleftrightarrow> jl_parse L (jl_dump L (J_Object m)) = Some (J_Object m)"

declare take_apply_id.simps [simp del] take_omit_reapply.simps [simp del] take_hdr_blank.simps [simp del]
  take_virtual_layout.simps [simp del] take_monitor_positions.simps [simp del] take_snapshot_exclusions.simps [simp del]
  take_topology.simps [simp del] take_prefer_golden.simps [simp del] take_restore_on_disconnect.simps [simp del]
  take_refresh_overrides.simps [simp del]

lemma request_keys_distinct: "distinct request_keys" "length request_keys = 10"
  by (simp_all add: request_keys_def)

text \<open>The object after \<open>n\<close> members have been read, and the member that is read next.\<close>

definition unread :: "json smap \<Rightarrow> nat \<Rightarrow> json smap" where
  "unread j n = fold erase (take n request_keys) j"

lemma unread_0: "unread j 0 = j"
  by (simp add: unread_def)

lemma unread_Suc: "n < 10 \<Longrightarrow> erase (request_keys ! n) (unread j n) = unread j (Suc n)"
  by (simp add: unread_def take_Suc_conv_app_nth request_keys_distinct)

lemma map_of_unread: "n < 10 \<Longrightarrow> map_of (unread j n) (request_keys ! n) = map_of j (request_keys ! n)"
proof -
  assume n: "n < 10"
  have "request_keys ! n \<notin> set (take n request_keys)"
    using request_keys_distinct n by (auto simp: in_set_conv_nth nth_eq_iff_index_eq)
  then show ?thesis by (simp add: unread_def map_of_fold_erase)
qed

lemma request_key_nths:
  "request_keys ! 0 = ''sunshine_apply_id''" "request_keys ! 1 = ''sunshine_omit_final_initial_hdr_reapply''"
  "request_keys ! 2 = ''wa_hdr_toggle''" "request_keys ! 3 = ''sunshine_virtual_layout''"
  "request_keys ! 4 = ''sunshine_monitor_positions''" "request_keys ! 5 = ''sunshine_snapshot_exclude_devices''"
  "request_keys ! 6 = ''sunshine_topology''" "request_keys ! 7 = ''sunshine_always_restore_from_golden''"
  "request_keys ! 8 = ''sunshine_restore_on_disconnect''" "request_keys ! 9 = ''sunshine_device_refresh_rate_overrides''"
  by (simp_all add: request_keys_def)

lemma read_next:
  "erase ''sunshine_apply_id'' (unread j 0) = unread j 1"
  "erase ''sunshine_omit_final_initial_hdr_reapply'' (unread j 1) = unread j 2"
  "erase ''wa_hdr_toggle'' (unread j 2) = unread j 3"
  "erase ''sunshine_virtual_layout'' (unread j 3) = unread j 4"
  "erase ''sunshine_monitor_positions'' (unread j 4) = unread j 5"
  "erase ''sunshine_snapshot_exclude_devices'' (unread j 5) = unread j 6"
  "erase ''sunshine_topology'' (unread j 6) = unread j 7"
  "erase ''sunshine_always_restore_from_golden'' (unread j 7) = unread j 8"
  "erase ''sunshine_restore_on_disconnect'' (unread j 8) = unread j 9"
  "erase ''sunshine_device_refresh_rate_overrides'' (unread j 9) = unread j 10"
  using unread_Suc [of 0 j] unread_Suc [of 1 j] unread_Suc [of 2 j] unread_Suc [of 3 j] unread_Suc [of 4 j]
    unread_Suc [of 5 j] unread_Suc [of 6 j] unread_Suc [of 7 j] unread_Suc [of 8 j] unread_Suc [of 9 j]
  by (simp_all add: request_key_nths del: One_nat_def flip: One_nat_def)

lemma unread_members:
  fixes S r policy i
  assumes "smap_wf c" "list_all (\<lambda>k. map_of c k = None) request_keys"
  defines "j \<equiv> tagged_fields S r policy i c"
  shows "map_of (unread j 0) ''sunshine_apply_id'' = Some (J_Int (uint i))"
    and "map_of (unread j 1) ''sunshine_omit_final_initial_hdr_reapply'' = member_if (policy = Policy_StreamStart) (J_Bool True)"
    and "map_of (unread j 2) ''wa_hdr_toggle'' = member_if (dr_attach_hdr_toggle r) (J_Bool True)"
    and "map_of (unread j 3) ''sunshine_virtual_layout'' =
      map_option J_String (map_option virtual_layout_to_string (dr_virtual_display_arrangement r))"
    and "map_of (unread j 4) ''sunshine_monitor_positions'' =
      member_if (td_monitor_positions (dr_topology r) \<noteq> []) (json_object_of point_json (td_monitor_positions (dr_topology r)))"
    and "map_of (unread j 5) ''sunshine_snapshot_exclude_devices'' =
      map_option (\<lambda>ids. J_Array (map J_String ids)) (effective_snapshot_exclude_devices S)"
    and "map_of (unread j 6) ''sunshine_topology'' =
      member_if (td_topology (dr_topology r) \<noteq> []) (topology_json (td_topology (dr_topology r)))"
    and "map_of (unread j 7) ''sunshine_always_restore_from_golden'' = member_if (ps_always_restore_from_golden S) (J_Bool True)"
    and "map_of (unread j 8) ''sunshine_restore_on_disconnect'' = Some (J_Bool (ps_config_revert_on_disconnect S))"
    and "map_of (unread j 9) ''sunshine_device_refresh_rate_overrides'' =
      member_if (td_refresh_rate_overrides (dr_topology r) \<noteq> []) (json_object_of rate_json (td_refresh_rate_overrides (dr_topology r)))"
proof -
  have m: "map_of (unread j n) (request_keys ! n) = v"
    if "n < 10" "map_of (request_members S r policy) (request_keys ! n) = Some v" "request_keys ! n \<noteq> ''sunshine_apply_id''" for n v
    unfolding map_of_unread [OF that(1)] j_def by (rule map_of_tagged_member [OF assms(1,2) that(2,3)])
  show "map_of (unread j 0) ''sunshine_apply_id'' = Some (J_Int (uint i))"
    using assms(1) by (simp add: unread_0 j_def map_of_tagged)
  note R = request_members_def Let_def option.map_comp comp_def
  show "map_of (unread j 1) ''sunshine_omit_final_initial_hdr_reapply'' = member_if (policy = Policy_StreamStart) (J_Bool True)"
    by (rule m [of 1, unfolded request_key_nths]) (simp_all add: R)
  show "map_of (unread j 2) ''wa_hdr_toggle'' = member_if (dr_attach_hdr_toggle r) (J_Bool True)"
    by (rule m [of 2, unfolded request_key_nths]) (simp_all add: R)
  show "map_of (unread j 3) ''sunshine_virtual_layout'' =
      map_option J_String (map_option virtual_layout_to_string (dr_virtual_display_arrangement r))"
    by (rule m [of 3, unfolded request_key_nths]) (simp_all add: R)
  show "map_of (unread j 4) ''sunshine_monitor_positions'' =
      member_if (td_monitor_positions (dr_topology r) \<noteq> []) (json_object_of point_json (td_monitor_positions (dr_topology r)))"
    by (rule m [of 4, unfolded request_key_nths]) (simp_all add: R)
  show "map_of (unread j 5) ''sunshine_snapshot_exclude_devices'' =
      map_option (\<lambda>ids. J_Array (map J_String ids)) (effective_snapshot_exclude_devices S)"
    by (rule m [of 5, unfolded request_key_nths]) (simp_all add: R)
  show "map_of (unread j 6) ''sunshine_topology'' =
      member_if (td_topology (dr_topology r) \<noteq> []) (topology_json (td_topology (dr_topology r)))"
    by (rule m [of 6, unfolded request_key_nths]) (simp_all add: R)
  show "map_of (unread j 7) ''sunshine_always_restore_from_golden'' = member_if (ps_always_restore_from_golden S) (J_Bool True)"
    by (rule m [of 7, unfolded request_key_nths]) (simp_all add: R)
  show "map_of (unread j 8) ''sunshine_restore_on_disconnect'' = Some (J_Bool (ps_config_revert_on_disconnect S))"
    by (rule m [of 8, unfolded request_key_nths]) (simp_all add: R)
  show "map_of (unread j 9) ''sunshine_device_refresh_rate_overrides'' =
      member_if (td_refresh_rate_overrides (dr_topology r) \<noteq> []) (json_object_of rate_json (td_refresh_rate_overrides (dr_topology r)))"
    by (rule m [of 9, unfolded request_key_nths]) (simp_all add: R)
qed

lemma sanitize_tagged:
  assumes "smap_wf c" "list_all (\<lambda>k. map_of c k = None) request_keys" "request_wf r"
    and "jl_parse L json = Some (J_Object (tagged_fields S r policy i c))"
  shows "sanitize_apply L json default_apply_request =
    (jl_dump L (J_Object c), (requested_apply S r policy i cfg)\<lparr>ar_configuration := None\<rparr>)"
proof -
  define j where "j = tagged_fields S r policy i c"
  note m = unread_members [OF assms(1,2), where S = S and r = r and policy = policy and i = i, folded j_def]
  have wf: "[] \<notin> set (td_topology (dr_topology r))" "smap_wf (td_monitor_positions (dr_topology r))"
      "smap_wf (td_refresh_rate_overrides (dr_topology r))" "list_all (\<lambda>(d, p). int_range p) (td_monitor_positions (dr_topology r))"
    using assms(3) by (auto simp: request_wf_def)
  have left: "unread j 10 = c"
    using nothing_left [OF assms(1,2), of S r policy i] by (simp add: unread_def j_def request_keys_def)
  let ?r1 = "default_apply_request\<lparr>ar_request_id := i, ar_omit_final_initial_hdr_reapply := policy = Policy_StreamStart\<rparr>"
  let ?r2 = "?r1\<lparr>ar_hdr_blank := dr_attach_hdr_toggle r\<rparr>"
  have 1: "take_omit_reapply (take_apply_id (unread j 0, default_apply_request)) = (unread j 2, ?r1)"
    by (simp only: takes(1) [OF m(1)] read_next, subst takes(2) [OF m(2)]) (simp_all add: read_next default_apply_request_def del: One_nat_def)
  have 2: "take_hdr_blank (unread j 2, ?r1) = Some (unread j 3, ?r2)"
    by (subst takes(3) [OF m(3)]) (simp_all add: read_next default_apply_request_def)
  let ?r3 = "?r2\<lparr>ar_virtual_layout := map_option virtual_layout_to_string (dr_virtual_display_arrangement r)\<rparr>"
  let ?r4 = "?r3\<lparr>ar_monitor_positions := td_monitor_positions (dr_topology r)\<rparr>"
  let ?r5 = "?r4\<lparr>ar_snapshot_exclusions := effective_snapshot_exclude_devices S\<rparr>"
  let ?r6 = "?r5\<lparr>ar_topology := (if td_topology (dr_topology r) = [] then None else Some (td_topology (dr_topology r)))\<rparr>"
  let ?r7 = "?r6\<lparr>ar_prefer_golden_first := ps_always_restore_from_golden S\<rparr>"
  let ?r8 = "?r7\<lparr>ar_restore_on_disconnect := ps_config_revert_on_disconnect S\<rparr>"
  let ?r9 = "?r8\<lparr>ar_refresh_rate_overrides := td_refresh_rate_overrides (dr_topology r)\<rparr>"
  have "take_virtual_layout (unread j 3, ?r2) = (unread j 4, ?r3)"
    by (subst takes(4) [OF m(4)]) (simp_all add: read_next default_apply_request_def)
  moreover have "take_monitor_positions (unread j 4, ?r3) = (unread j 5, ?r4)"
    by (subst takes(9) [OF m(5) wf(2,4)]) (simp_all add: read_next default_apply_request_def)
  moreover have "take_snapshot_exclusions (unread j 5, ?r4) = (unread j 6, ?r5)"
    by (subst takes(7) [OF m(6)]) (simp_all add: read_next default_apply_request_def)
  moreover have "take_topology (unread j 6, ?r5) = (unread j 7, ?r6)"
    by (subst takes(8) [OF m(7) wf(1)]) (simp_all add: read_next default_apply_request_def)
  moreover have "take_prefer_golden (unread j 7, ?r6) = (unread j 8, ?r7)"
    by (subst takes(5) [OF m(8)]) (simp_all add: read_next default_apply_request_def)
  moreover have "take_restore_on_disconnect (unread j 8, ?r7) = (unread j 9, ?r8)"
    by (subst takes(6) [OF m(9)]) (simp_all add: read_next default_apply_request_def)
  moreover have "take_refresh_overrides (unread j 9, ?r8) = (unread j 10, ?r9)"
    by (subst takes(10) [OF m(10) wf(3)]) (simp_all add: read_next default_apply_request_def)
  ultimately have 3: "take_after_hdr (unread j 3, ?r2) = (unread j 10, ?r9)" by (simp only: take_after_hdr_def)
  have "sanitize_apply L json default_apply_request = (jl_dump L (J_Object (unread j 10)), ?r9)"
    unfolding sanitize_apply_def assms(4) option.case json.case j_def [symmetric]
    by (simp only: 1 [unfolded unread_0] 2 3 Let_def option.case prod.case)
  also have "?r9 = (requested_apply S r policy i cfg)\<lparr>ar_configuration := None\<rparr>"
    by (simp add: requested_apply_def default_apply_request_def Let_def)
  finally show ?thesis by (simp only: left)
qed

text \<open>
  C8: a request the host serializes and the client tags is the request the helper decodes: topology, positions, rates,
  flags, exclusions and token are what the session asked for, and \<open>fromJson\<close> reads what \<open>toJson\<close> wrote. It
  rests on the library reading back the three objects it wrote, on the object of a configuration having no member
  of the protocol's, and on \<open>fromJson\<close> being the inverse of \<open>toJson\<close>.
\<close>

theorem request_survives_the_wire:
  assumes "dr_configuration r = Some cfg" "ps_to_json S cfg = Some json"
    and "jl_parse L json = Some (J_Object c)" "smap_wf c" "list_all (\<lambda>k. map_of c k = None) request_keys"
    and "json_faithful L (apply_payload_fields S r policy c)" "json_faithful L (tagged_fields S r policy i c)"
    and "jl_configuration L (jl_dump L (J_Object c)) = Inr cfg"
    and "request_wf r"
  shows "\<exists>text' tagged. build_helper_apply_payload L S r policy = Payload text' \<and> tag_apply_payload L text' i = Some tagged \<and>
    parse_apply_payload L (string_bytes tagged) default_apply_request = (None, requested_apply S r policy i cfg)"
proof -
  let ?text = "jl_dump L (J_Object (apply_payload_fields S r policy c))"
  let ?tagged = "jl_dump L (J_Object (tagged_fields S r policy i c))"
  have "build_helper_apply_payload L S r policy = Payload ?text"
    using assms(1-3) by (simp add: build_helper_apply_payload_def)
  moreover have "tag_apply_payload L ?text i = Some ?tagged"
    using assms(6) by (simp add: tag_apply_payload_def json_faithful_def tagged_fields_def)
  moreover have "parse_apply_payload L (string_bytes ?tagged) default_apply_request = (None, requested_apply S r policy i cfg)"
    using sanitize_tagged [OF assms(4,5,9), of L ?tagged S policy i cfg] assms(7,8)
    by (simp add: parse_apply_payload_def json_faithful_def) (simp add: requested_apply_def Let_def)
  ultimately show ?thesis by blast
qed

text \<open>A request with a topology and a position, and a library that knows the three texts of its way.\<close>

definition plain_configuration :: single_display_configuration where
  "plain_configuration =
     \<lparr>cfg_device_id = ''V'', cfg_device_prep = EnsurePrimary, cfg_resolution = None, cfg_refresh_rate = None, cfg_hdr_state = None\<rparr>"

definition plain_request :: display_request where
  "plain_request = empty_request\<lparr>dr_action := Request_Configure, dr_configuration := Some plain_configuration,
     dr_virtual_display_arrangement := Some ExtendedPrimary,
     dr_topology := \<lparr>td_topology = [[''V'', ''L'']], td_monitor_positions = [(''L'', \<lparr>pt_x = 1920, pt_y = 0\<rparr>)],
       td_refresh_rate_overrides = [(''L'', (240, 1))]\<rparr>\<rparr>"

definition plain_payload_settings :: payload_settings where
  "plain_payload_settings =
     \<lparr>ps_always_restore_from_golden = False, ps_config_revert_on_disconnect = True, ps_snapshot_exclude_devices = [''X''],
      ps_virtual_displays = Some [''V'', ''x''], ps_to_json = (\<lambda>_. Some ''cfg'')\<rparr>"

definition plain_fields :: "json smap" where
  "plain_fields = [(''device_id'', J_String ''V'')]"

definition plain_lib :: json_lib where
  "plain_lib =
     \<lparr>jl_parse = (\<lambda>s. if s = ''cfg'' then Some (J_Object plain_fields)
                      else if s = ''host''
                      then Some (J_Object (apply_payload_fields plain_payload_settings plain_request Policy_StreamStart plain_fields))
                      else if s = ''tagged''
                      then Some (J_Object (tagged_fields plain_payload_settings plain_request Policy_StreamStart 7 plain_fields))
                      else None),
      jl_dump = (\<lambda>j. case j of
                     J_Object m \<Rightarrow> if map_of m ''sunshine_apply_id'' \<noteq> None then ''tagged''
                                   else if map_of m ''sunshine_restore_on_disconnect'' \<noteq> None then ''host'' else ''cfg''
                   | _ \<Rightarrow> []),
      jl_configuration = (\<lambda>s. if s = ''cfg'' then Inr plain_configuration else Inl [])\<rparr>"

lemma plain_fields_wf: "smap_wf plain_fields" "list_all (\<lambda>k. map_of plain_fields k = None) request_keys"
  by (simp_all add: plain_fields_def smap_wf_Cons request_keys_def)

lemma plain_host_members:
  "map_of (apply_payload_fields S r policy plain_fields) ''sunshine_apply_id'' = None"
  "map_of (apply_payload_fields S r policy plain_fields) ''sunshine_restore_on_disconnect'' \<noteq> None"
  using plain_fields_wf(1)
  by (simp_all add: apply_payload_fields_def map_of_fold_put request_members_distinct)
    (simp_all add: request_members_def Let_def plain_fields_def)

theorem request_survives_the_wire_witness:
  "\<exists>text' tagged. build_helper_apply_payload plain_lib plain_payload_settings plain_request Policy_StreamStart = Payload text' \<and>
    tag_apply_payload plain_lib text' 7 = Some tagged \<and>
    parse_apply_payload plain_lib (string_bytes tagged) default_apply_request =
      (None, requested_apply plain_payload_settings plain_request Policy_StreamStart 7 plain_configuration)"
proof (rule request_survives_the_wire [OF _ _ _ plain_fields_wf])
  show "dr_configuration plain_request = Some plain_configuration" by (simp add: plain_request_def)
  show "ps_to_json plain_payload_settings plain_configuration = Some ''cfg''" by (simp add: plain_payload_settings_def)
  show "jl_parse plain_lib ''cfg'' = Some (J_Object plain_fields)" by (simp add: plain_lib_def)
  show "json_faithful plain_lib (apply_payload_fields plain_payload_settings plain_request Policy_StreamStart plain_fields)"
    by (simp add: json_faithful_def plain_lib_def plain_host_members)
  show "json_faithful plain_lib (tagged_fields plain_payload_settings plain_request Policy_StreamStart 7 plain_fields)"
    using plain_fields_wf(1) by (simp add: json_faithful_def plain_lib_def map_of_tagged)
  show "jl_configuration plain_lib (jl_dump plain_lib (J_Object plain_fields)) = Inr plain_configuration"
    by (simp add: plain_lib_def) (simp add: plain_fields_def)
  show "request_wf plain_request"
    by (simp add: request_wf_def plain_request_def smap_wf_Cons int_range_def int_min_def int_max_def)
qed

section \<open>The other payloads\<close>

lemma revert_payload_read:
  assumes "json_faithful L (build_revert_fields S prefer)" "build_revert_payload L S prefer \<noteq> []"
  shows "parse_revert_payload L (string_bytes (build_revert_payload L S prefer)) out =
    out\<lparr>rc_prefer_golden_if_current_missing := prefer,
        rc_always_restore_from_golden := Some (ps_always_restore_from_golden S)\<rparr>"
proof -
  have "map_of (build_revert_fields S prefer) ''sunshine_prefer_golden_if_current_missing'' = Some (J_Bool prefer)"
    "map_of (build_revert_fields S prefer) ''sunshine_always_restore_from_golden'' = Some (J_Bool (ps_always_restore_from_golden S))"
    by (simp_all add: build_revert_fields_def smap_wf_set)
  moreover have "string_bytes (build_revert_payload L S prefer) \<noteq> []" using assms(2) by (simp add: string_bytes_def)
  ultimately show ?thesis
    using assms(1) by (simp add: parse_revert_payload_def build_revert_payload_def json_faithful_def)
qed

lemma exclude_payload_read:
  assumes "effective_snapshot_exclude_devices S = Some ids" "build_snapshot_exclude_payload L S \<noteq> []"
    and "jl_parse L (jl_dump L (J_Array (map J_String ids))) = Some (J_Array (map J_String ids))"
  shows "parse_snapshot_exclude_payload L (string_bytes (build_snapshot_exclude_payload L S)) = Some ids"
proof -
  have "string_bytes (build_snapshot_exclude_payload L S) \<noteq> []" using assms(2) by (simp add: string_bytes_def)
  with assms show ?thesis by (simp add: parse_snapshot_exclude_payload_def build_snapshot_exclude_payload_def)
qed

text \<open>Every device of the settings and of the state file is excluded, under some spelling.\<close>

lemma add_excluded_covers:
  "list_ex (\<lambda>e. iequals e d) ids \<or> (\<exists>v \<in> set vds. iequals v d) \<Longrightarrow> list_ex (\<lambda>e. iequals e d) (fold add_excluded vds ids)"
proof (induction vds arbitrary: ids)
  case (Cons v vds)
  have "list_ex (\<lambda>e. iequals e d) (add_excluded v ids) \<or> (\<exists>v \<in> set vds. iequals v d)"
    using Cons.prems iequals_trans by (auto simp: add_excluded_def list_ex_iff)
  from Cons.IH [OF this] show ?case by simp
qed simp

end
