(* ===== verification/Host_Operations.thy ===== *)
theory Host_Operations
  imports Request_Payload
begin

text \<open>
  The host's operations on the helper (\<open>display_helper_integration.cpp\<close>): APPLY, REVERT, DISARM and the
  verification of an APPLY, over the file's global variables as one record. An operation holds
  \<open>pending_apply_execution_mutex\<close> from its start to its end, so a call is one step. What it learns from
  outside (the helper process and its pipe, the clock, the session, its canceller) are the answers it is given;
  \<open>aa_stop n\<close> is the n-th place at which the code asks whether to stop. Log statements are left out.
\<close>

section \<open>State\<close>

record active_session =
  as_generation :: u64
  as_launch_session_id :: u32
  as_unique_id :: string
  as_client_uuid :: string
  as_width :: int
  as_height :: int
  as_fps :: int
  as_refresh_millihz :: u32
  as_enable_hdr :: bool
  as_enable_sops :: bool
  as_virtual_display :: bool
  as_virtual_display_device_id :: string
  as_framegen_refresh_rate :: "int option"
  as_framegen_refresh_millihz :: "u32 option"
  as_framegen_refresh_multiplier :: int
  as_gen1_framegen_fix :: bool
  as_gen2_framegen_fix :: bool

text \<open>
  \<open>PendingApplyState\<close>. The members of the session that its snapshot holds are those of a session; the
  others have their initial values.
\<close>

record pending_apply =
  pa_request :: display_request
  pa_session_snapshot :: launch_session
  pa_session_id :: u32
  pa_has_session :: bool
  pa_attempts :: nat
  pa_ready_since :: "time_ns option"
  pa_next_attempt :: time_ns

text \<open>The calls that reach the helper or the displays, in order.\<close>

datatype host_call =
  Call_Apply string | Call_Revert | Call_Disarm | Call_Terminate | Call_InProcess display_request

record host_state =
  hs_pending :: "pending_apply option"
  hs_resolution_deferral_armed :: bool
  hs_active_session :: "active_session option"
  hs_next_session_generation :: u64
  hs_restore_expected :: bool
  hs_restore_generation :: u64
  hs_disarm_generation_sent :: u64
  hs_last_revert_us :: int
  hs_last_disarm_attempt_us :: int
  hs_last_disarm_success_us :: int
  hs_last_apply_completed_us :: int
  hs_apply_generation :: u64
  hs_verified_generation :: u64
  hs_capture_stable_generation :: u64
  hs_hdr_requested_generation :: u64
  hs_stream_start_deadline_us :: int
  hs_virtual_watchdog :: bool
  hs_remembered_devices :: "string list"
  hs_calls :: "host_call list"

definition log_call :: "host_call \<Rightarrow> host_state \<Rightarrow> host_state" where
  "log_call c h = h\<lparr>hs_calls := hs_calls h @ [c]\<rparr>"

section \<open>Deferred requests\<close>

definition kDeferredApplyInitialDelay :: time_ns where "kDeferredApplyInitialDelay = ms 2000"
definition kDeferredApplyRetryBase :: time_ns where "kDeferredApplyRetryBase = ms 500"
definition kDeferredApplyRetryMax :: time_ns where "kDeferredApplyRetryMax = ms 10000"
definition kMaxDeferredApplyAttempts :: nat where "kMaxDeferredApplyAttempts = 6"

definition default_launch_session :: launch_session where
  "default_launch_session =
     \<lparr>ls_id = 0, ls_client_uuid = [], ls_unique_id = [], ls_client_name = [], ls_appid = 0, ls_app_virtual_screen = None,
      ls_width = 0, ls_height = 0, ls_fps = 0, ls_enable_hdr = False, ls_prefer_sdr_10bit = False, ls_force_sdr = False,
      ls_enable_sops = False, ls_client_virtual_display_override = None, ls_client_display_mode_override = False,
      ls_client_display_refresh_millihz = 0, ls_virtual_display = False, ls_resolution_override = None,
      ls_virtual_display_failed = False, ls_virtual_display_mode_override = None, ls_virtual_display_layout_override = None,
      ls_dd_config_option_override = None, ls_output_name_override = None, ls_virtual_display_device_id = [],
      ls_virtual_display_ready_since = None, ls_virtual_display_hdr_enabled = None,
      ls_virtual_display_topology_snapshot = None, ls_pre_virtual_display_refresh_rates = None,
      ls_gen1_framegen_fix = False, ls_gen2_framegen_fix = False, ls_framegen_refresh_rate = None,
      ls_framegen_refresh_millihz = None, ls_framegen_refresh_multiplier = 1\<rparr>"

definition session_snapshot_of :: "launch_session \<Rightarrow> launch_session" where
  "session_snapshot_of s = default_launch_session
     \<lparr>ls_id := ls_id s, ls_unique_id := ls_unique_id s, ls_client_uuid := ls_client_uuid s, ls_width := ls_width s,
      ls_height := ls_height s, ls_fps := ls_fps s, ls_client_display_mode_override := ls_client_display_mode_override s,
      ls_client_display_refresh_millihz := ls_client_display_refresh_millihz s,
      ls_client_virtual_display_override := ls_client_virtual_display_override s,
      ls_enable_hdr := effective_hdr_requested s, ls_enable_sops := ls_enable_sops s,
      ls_virtual_display := ls_virtual_display s, ls_resolution_override := ls_resolution_override s,
      ls_virtual_display_device_id := ls_virtual_display_device_id s,
      ls_virtual_display_ready_since := ls_virtual_display_ready_since s,
      ls_virtual_display_hdr_enabled := ls_virtual_display_hdr_enabled s,
      ls_framegen_refresh_rate := ls_framegen_refresh_rate s, ls_framegen_refresh_millihz := ls_framegen_refresh_millihz s,
      ls_framegen_refresh_multiplier := ls_framegen_refresh_multiplier s,
      ls_gen1_framegen_fix := ls_gen1_framegen_fix s, ls_gen2_framegen_fix := ls_gen2_framegen_fix s\<rparr>"

text \<open>The session a deferred request is applied with: the snapshot's members in a fresh session.\<close>

definition restored_session :: "launch_session \<Rightarrow> launch_session" where
  "restored_session n = default_launch_session
     \<lparr>ls_id := ls_id n, ls_unique_id := ls_unique_id n, ls_client_uuid := ls_client_uuid n, ls_width := ls_width n,
      ls_height := ls_height n, ls_fps := ls_fps n, ls_client_display_mode_override := ls_client_display_mode_override n,
      ls_client_display_refresh_millihz := ls_client_display_refresh_millihz n,
      ls_client_virtual_display_override := ls_client_virtual_display_override n,
      ls_enable_hdr := ls_enable_hdr n, ls_enable_sops := ls_enable_sops n,
      ls_virtual_display := ls_virtual_display n, ls_resolution_override := ls_resolution_override n,
      ls_virtual_display_device_id := ls_virtual_display_device_id n,
      ls_virtual_display_ready_since := ls_virtual_display_ready_since n,
      ls_virtual_display_hdr_enabled := ls_virtual_display_hdr_enabled n,
      ls_framegen_refresh_rate := ls_framegen_refresh_rate n, ls_framegen_refresh_millihz := ls_framegen_refresh_millihz n,
      ls_framegen_refresh_multiplier := ls_framegen_refresh_multiplier n,
      ls_gen1_framegen_fix := ls_gen1_framegen_fix n, ls_gen2_framegen_fix := ls_gen2_framegen_fix n\<rparr>"

definition make_pending_apply_state :: "display_request \<Rightarrow> pending_apply" where
  "make_pending_apply_state r =
     \<lparr>pa_request = r\<lparr>dr_session := None\<rparr>,
      pa_session_snapshot = (case dr_session r of None \<Rightarrow> default_launch_session | Some s \<Rightarrow> session_snapshot_of s),
      pa_session_id = (case dr_session r of None \<Rightarrow> 0 | Some s \<Rightarrow> ls_id s),
      pa_has_session = (dr_session r \<noteq> None), pa_attempts = 0, pa_ready_since = None, pa_next_attempt = 0\<rparr>"

definition request_includes_resolution :: "display_request \<Rightarrow> bool" where
  "request_includes_resolution r \<longleftrightarrow> (case dr_configuration r of None \<Rightarrow> False | Some cfg \<Rightarrow> cfg_resolution cfg \<noteq> None)"

definition queue_deferred_resolution_apply :: "display_request \<Rightarrow> host_state \<Rightarrow> host_state" where
  "queue_deferred_resolution_apply r h = h\<lparr>hs_pending := Some (make_pending_apply_state r)\<rparr>"

definition maybe_queue_on_api_unavailable :: "display_request \<Rightarrow> host_state \<Rightarrow> host_state" where
  "maybe_queue_on_api_unavailable r h =
     (if dr_session r = None \<or> \<not> request_includes_resolution r then h else queue_deferred_resolution_apply r h)"

definition should_defer_resolution_apply :: "bool \<Rightarrow> bool \<Rightarrow> display_request \<Rightarrow> bool" where
  "should_defer_resolution_apply running_as_system user_session_ready r \<longleftrightarrow>
     dr_session r \<noteq> None \<and> request_includes_resolution r \<and> running_as_system \<and> \<not> user_session_ready"

definition maybe_queue_deferred_resolution_apply ::
  "bool \<Rightarrow> bool \<Rightarrow> display_request \<Rightarrow> bool \<Rightarrow> host_state \<Rightarrow> host_state" where
  "maybe_queue_deferred_resolution_apply running_as_system user_session_ready r allow h =
     (if \<not> allow \<or> \<not> should_defer_resolution_apply running_as_system user_session_ready r \<or> \<not> hs_resolution_deferral_armed h then h
      else queue_deferred_resolution_apply r (h\<lparr>hs_resolution_deferral_armed := False\<rparr>))"

definition deferred_apply_retry_delay :: "nat \<Rightarrow> time_ns" where
  "deferred_apply_retry_delay attempts =
     (if attempts = 0 then kDeferredApplyRetryBase
      else min (kDeferredApplyRetryBase * 2 ^ min (attempts - 1) 5) kDeferredApplyRetryMax)"

section \<open>The active session\<close>

definition same_session :: "launch_session \<Rightarrow> active_session \<Rightarrow> bool" where
  "same_session s a \<longleftrightarrow> as_launch_session_id a = ls_id s \<and> as_unique_id a = ls_unique_id s \<and> as_client_uuid a = ls_client_uuid s"

definition remember_virtual_display_device :: "string \<Rightarrow> host_state \<Rightarrow> host_state" where
  "remember_virtual_display_device d h = h\<lparr>hs_remembered_devices := hs_remembered_devices h @ [d]\<rparr>"

definition value_or :: "'a option \<Rightarrow> 'a \<Rightarrow> 'a" where
  "value_or x d = (case x of None \<Rightarrow> d | Some v \<Rightarrow> v)"

definition set_active_session :: "launch_session \<Rightarrow> active_session_state \<Rightarrow> host_state \<Rightarrow> host_state" where
  "set_active_session s ov h =
     (let same = (case hs_active_session h of None \<Rightarrow> False | Some a \<Rightarrow> same_session s a);
          h = (if same then h else h\<lparr>hs_next_session_generation := hs_next_session_generation h + 1\<rparr>);
          generation = (if same then as_generation (the (hs_active_session h)) else hs_next_session_generation h);
          refresh = effective_display_refresh_millihz s;
          device = value_or (ass_device_id_override ov) (ls_virtual_display_device_id s);
          a = \<lparr>as_generation = generation, as_launch_session_id = ls_id s, as_unique_id = ls_unique_id s,
               as_client_uuid = ls_client_uuid s,
               as_width = value_or (ass_width_override ov) (ls_width s),
               as_height = value_or (ass_height_override ov) (ls_height s),
               as_fps = value_or (ass_fps_override ov) (as_int refresh),
               as_refresh_millihz = refresh, as_enable_hdr = effective_hdr_requested s, as_enable_sops = ls_enable_sops s,
               as_virtual_display = value_or (ass_virtual_display_override ov) (ls_virtual_display s),
               as_virtual_display_device_id = device,
               as_framegen_refresh_rate =
                 (if ass_framegen_refresh_override ov \<noteq> None then ass_framegen_refresh_override ov else ls_framegen_refresh_rate s),
               as_framegen_refresh_millihz = ls_framegen_refresh_millihz s,
               as_framegen_refresh_multiplier = ls_framegen_refresh_multiplier s,
               as_gen1_framegen_fix = ls_gen1_framegen_fix s, as_gen2_framegen_fix = ls_gen2_framegen_fix s\<rparr>;
          h = h\<lparr>hs_active_session := Some a\<rparr>
      in if device = [] then h else remember_virtual_display_device device h)"

definition clear_active_session :: "host_state \<Rightarrow> host_state" where
  "clear_active_session h = h\<lparr>hs_active_session := None\<rparr>"

definition active_session_generation_for :: "launch_session \<Rightarrow> host_state \<Rightarrow> u64 option" where
  "active_session_generation_for s h =
     (case hs_active_session h of None \<Rightarrow> None | Some a \<Rightarrow> if same_session s a then Some (as_generation a) else None)"

definition invalidate_apply_verification :: "host_state \<Rightarrow> host_state" where
  "invalidate_apply_verification h = h\<lparr>hs_apply_generation := hs_apply_generation h + 1, hs_verified_generation := 0,
     hs_capture_stable_generation := 0, hs_hdr_requested_generation := 0\<rparr>"

text \<open>Both read the generation before and after; nothing is between them here.\<close>

definition last_apply_is_capture_stable :: "host_state \<Rightarrow> bool" where
  "last_apply_is_capture_stable h \<longleftrightarrow> hs_apply_generation h \<noteq> 0 \<and>
     hs_verified_generation h = hs_apply_generation h \<and> hs_capture_stable_generation h = hs_apply_generation h"

definition last_apply_requested_hdr :: "host_state \<Rightarrow> bool" where
  "last_apply_requested_hdr h \<longleftrightarrow> hs_apply_generation h \<noteq> 0 \<and> hs_hdr_requested_generation h = hs_apply_generation h"

definition remaining_stream_start_budget :: "int \<Rightarrow> host_state \<Rightarrow> int option" where
  "remaining_stream_start_budget now_us h =
     (if hs_stream_start_deadline_us h = 0 then None
      else let remaining = hs_stream_start_deadline_us h - now_us in Some (if 0 < remaining then remaining div 1000 else 0))"


section \<open>APPLY\<close>

datatype in_process_result = InProcess_Ok | InProcess_ApiTemporarilyUnavailable | InProcess_Failed

text \<open>
  What one APPLY learns. \<open>aa_helper_ready n\<close> is the result of its n-th call of \<open>ensure_helper_started\<close>,
  \<open>aa_helper_running\<close> and \<open>aa_query_given_up\<close> those of \<open>helper_process_running\<close> and of the test after it,
  \<open>aa_settings_manager\<close> whether \<open>make_settings_manager\<close> gave a context.
\<close>

record apply_answers =
  aa_stop :: "nat \<Rightarrow> bool"
  aa_has_predicate :: bool
  aa_deadline_us :: int
  aa_helper_ready :: "nat \<Rightarrow> bool"
  aa_helper_running :: bool
  aa_query_given_up :: bool
  aa_system_no_user_session :: bool
  aa_budget_left :: bool
  aa_apply_ok :: bool
  aa_request_id :: u64
  aa_wait_generation :: u64
  aa_connection_generation :: u64
  aa_revert_ok :: bool
  aa_lock_screen :: bool
  aa_settings_manager :: bool
  aa_in_process :: in_process_result
  aa_running_as_system :: bool
  aa_user_session_ready :: bool
  aa_now_us :: int

record apply_ticket =
  at_generation :: u64
  at_helper_request_id :: u64
  at_client_wait_generation :: u64
  at_connection_generation :: u64
  at_uses_v2_helper :: bool
  at_startup_deadline_us :: int

definition restore_expected_with_live_helper :: "bool \<Rightarrow> bool \<Rightarrow> host_state \<Rightarrow> bool \<times> host_state" where
  "restore_expected_with_live_helper running given_up h =
     (if \<not> hs_restore_expected h then (False, h)
      else if running then (True, h)
      else if given_up then (False, h)
      else (False, h\<lparr>hs_restore_expected := False\<rparr>))"

text \<open>The new generation and what capture may conclude from it.\<close>

definition begin_apply_generation :: "display_request \<Rightarrow> host_state \<Rightarrow> host_state" where
  "begin_apply_generation r h =
     (let g = hs_apply_generation h + 1;
          hdr = Option.bind (dr_configuration r) cfg_hdr_state
      in h\<lparr>hs_apply_generation := g,
           hs_capture_stable_generation :=
             (if dr_virtual_display_arrangement r = Some Exclusive \<and> hdr = Some Hdr_Disabled then g else 0),
           hs_hdr_requested_generation := (if hdr = Some Hdr_Enabled then g else 0)\<rparr>)"

text \<open>The three attempts to have a helper: \<open>None\<close> when the operation was stopped between them.\<close>

definition start_helper_for_apply :: "apply_answers \<Rightarrow> bool \<Rightarrow> bool option" where
  "start_helper_for_apply A hard_restart =
     (let ready = aa_helper_ready A 0
      in if \<not> ready \<and> hard_restart \<and> aa_stop A 1 then None
         else let ready = (if \<not> ready \<and> hard_restart then aa_helper_ready A 1 else ready)
              in if \<not> ready \<and> aa_stop A 2 then None
                 else let ready = (if ready then True else aa_helper_ready A 2)
                      in if aa_stop A 3 then None else Some ready)"

definition publish_active_session :: "apply_answers \<Rightarrow> display_request \<Rightarrow> launch_session \<Rightarrow> host_state \<Rightarrow> host_state" where
  "publish_active_session A r s h =
     (let h = set_active_session s (dr_session_overrides r) (h\<lparr>hs_last_apply_completed_us := aa_now_us A\<rparr>)
      in if dr_virtual_display_watchdog r then h\<lparr>hs_virtual_watchdog := True\<rparr> else h)"

text \<open>An exception of the payload's builder ends the call; the caller sees no success, so it is given as false.\<close>

definition helper_apply ::
  "json_lib \<Rightarrow> payload_settings \<Rightarrow> apply_answers \<Rightarrow> display_request \<Rightarrow> apply_retry_policy \<Rightarrow> bool \<Rightarrow> apply_ticket \<Rightarrow>
   host_state \<Rightarrow> bool \<times> apply_ticket \<times> host_state" where
  "helper_apply L S A r policy allow t h =
     (case build_helper_apply_payload L S r policy of
        Payload payload \<Rightarrow>
          if \<not> aa_budget_left A then (False, t, h)
          else let h = log_call (Call_Apply payload) h; ok = aa_apply_ok A
               in if ok \<and> aa_stop A 4 then (False, t, h)
                  else let t = (if ok \<and> aa_request_id A \<noteq> 0
                                then t\<lparr>at_uses_v2_helper := True, at_helper_request_id := aa_request_id A,
                                       at_client_wait_generation := aa_wait_generation A,
                                       at_connection_generation := aa_connection_generation A\<rparr>
                                else t)
                       in if ok
                          then (case dr_session r of
                                  None \<Rightarrow> (True, t, h)
                                | Some s \<Rightarrow> if aa_stop A 5 then (False, t, h)
                                            else (True, t, publish_active_session A r s (h\<lparr>hs_restore_expected := False\<rparr>)))
                          else if aa_stop A 6 then (False, t, h)
                          else if allow \<and> dr_session r \<noteq> None \<and> aa_lock_screen A
                          then (False, t, queue_deferred_resolution_apply r h)
                          else (False, t, h)
      | _ \<Rightarrow> (False, t, h))"

text \<open>\<open>apply_in_process\<close>; its calls after a success have no result that is looked at.\<close>

definition apply_in_process :: "apply_answers \<Rightarrow> display_request \<Rightarrow> host_state \<Rightarrow> in_process_result \<times> host_state" where
  "apply_in_process A r h =
     (if dr_configuration r = None \<or> \<not> aa_settings_manager A then (InProcess_Failed, h)
      else (aa_in_process A, log_call (Call_InProcess r) h))"

definition fallback_apply ::
  "apply_answers \<Rightarrow> display_request \<Rightarrow> apply_retry_policy \<Rightarrow> bool \<Rightarrow> host_state \<Rightarrow> bool \<times> host_state" where
  "fallback_apply A r policy allow h =
     (if aa_system_no_user_session A
      then (False, maybe_queue_deferred_resolution_apply (aa_running_as_system A) (aa_user_session_ready A) r allow h)
      else if aa_has_predicate A then (False, h)
      else if policy = Policy_StreamStart then (False, h)
      else case dr_session r of
        None \<Rightarrow> (False, h)
      | Some s \<Rightarrow>
          let (result, h) = apply_in_process A r h
          in if result \<noteq> InProcess_Ok
             then (False, if result = InProcess_ApiTemporarilyUnavailable then maybe_queue_on_api_unavailable r h else h)
             else (True, maybe_queue_deferred_resolution_apply (aa_running_as_system A) (aa_user_session_ready A) r allow
                           (publish_active_session A r s h)))"

definition internal_configure ::
  "json_lib \<Rightarrow> payload_settings \<Rightarrow> apply_answers \<Rightarrow> display_request \<Rightarrow> apply_retry_policy \<Rightarrow> bool \<Rightarrow> apply_ticket \<Rightarrow>
   host_state \<Rightarrow> bool \<times> apply_ticket \<times> host_state" where
  "internal_configure L S A r policy allow t h =
     (let h = begin_apply_generation r h;
          t = t\<lparr>at_generation := hs_apply_generation h\<rparr>;
          (restore_expected, h) = restore_expected_with_live_helper (aa_helper_running A) (aa_query_given_up A) h;
          hard_restart = (dr_session r \<noteq> None \<and> \<not> restore_expected)
      in case start_helper_for_apply A hard_restart of
           None \<Rightarrow> (False, t, h)
         | Some True \<Rightarrow> helper_apply L S A r policy allow t h
         | Some False \<Rightarrow> let (ok, h) = fallback_apply A r policy allow h in (ok, t, h))"

definition internal_revert :: "apply_answers \<Rightarrow> host_state \<Rightarrow> bool \<times> host_state" where
  "internal_revert A h =
     (let h = invalidate_apply_verification h
      in if \<not> aa_helper_ready A 0 then (False, clear_active_session h)
         else (aa_revert_ok A, clear_active_session (log_call Call_Revert h)))"

definition apply_internal ::
  "json_lib \<Rightarrow> payload_settings \<Rightarrow> apply_answers \<Rightarrow> display_request \<Rightarrow> bool \<Rightarrow> apply_retry_policy \<Rightarrow> host_state \<Rightarrow>
   bool \<times> apply_ticket \<times> host_state" where
  "apply_internal L S A r allow policy h =
     (let h = h\<lparr>hs_stream_start_deadline_us := (if policy = Policy_StreamStart then aa_deadline_us A else 0)\<rparr>;
          t = \<lparr>at_generation = 0, at_helper_request_id = 0, at_client_wait_generation = 0, at_connection_generation = 0,
               at_uses_v2_helper = False, at_startup_deadline_us = aa_deadline_us A\<rparr>
      in if aa_stop A 0 then (False, t, h)
         else case dr_action r of
           Request_Skip \<Rightarrow> (False, t, h)
         | Request_Revert \<Rightarrow> let (ok, h) = internal_revert A h in (ok, t, h)
         | Request_Configure \<Rightarrow> internal_configure L S A r policy allow t h)"

section \<open>The operations\<close>

text \<open>
  \<open>apply\<close>: \<open>entered\<close> is that it was not stopped before it held the execution mutex. The queue is
  cleared; the display of the session is remembered before the payload is built.
\<close>

definition apply_display ::
  "json_lib \<Rightarrow> payload_settings \<Rightarrow> bool \<Rightarrow> apply_answers \<Rightarrow> display_request \<Rightarrow> apply_retry_policy \<Rightarrow> host_state \<Rightarrow>
   bool \<times> apply_ticket option \<times> host_state" where
  "apply_display L S entered A r policy h =
     (if \<not> entered then (False, None, h)
      else let h = h\<lparr>hs_pending := None\<rparr>;
               h = (case dr_session r of
                      None \<Rightarrow> h
                    | Some s \<Rightarrow>
                        let d = value_or (ass_device_id_override (dr_session_overrides r)) (ls_virtual_display_device_id s)
                        in if d = [] then h else remember_virtual_display_device d h);
               (ok, t, h) = apply_internal L S A r True policy h
           in (ok, Some t, h))"

definition revert_display :: "bool \<Rightarrow> bool \<Rightarrow> int \<Rightarrow> host_state \<Rightarrow> bool \<times> host_state" where
  "revert_display helper_ready ok now_us h =
     (let h = (invalidate_apply_verification h)\<lparr>hs_pending := None\<rparr>
      in if \<not> helper_ready then (False, h)
         else let h = log_call Call_Revert h;
                  h = (if ok then h\<lparr>hs_restore_expected := True, hs_last_revert_us := now_us,
                                    hs_restore_generation := hs_restore_generation h + 1\<rparr> else h)
              in (ok, clear_active_session h))"

definition reset_persistence :: "bool \<Rightarrow> bool \<Rightarrow> host_state \<Rightarrow> bool \<times> host_state" where
  "reset_persistence helper_ready ok h = (helper_ready \<and> ok, invalidate_apply_verification h)"

definition clear_pending_apply :: "host_state \<Rightarrow> host_state" where
  "clear_pending_apply h = h\<lparr>hs_pending := None\<rparr>"

definition has_pending_apply :: "host_state \<Rightarrow> bool" where
  "has_pending_apply h \<longleftrightarrow> hs_pending h \<noteq> None"

definition ms_since_last_apply :: "int \<Rightarrow> host_state \<Rightarrow> int option" where
  "ms_since_last_apply now_us h =
     (if hs_last_apply_completed_us h = 0 then None else Some ((now_us - hs_last_apply_completed_us h) div 1000))"

text \<open>
  The verification of an APPLY: \<open>None\<close> as \<open>left_ms\<close> is a startup deadline that was not given,
  \<open>result\<close> what the client's wait gave, \<open>superseded\<close> whether a newer generation began during the wait.
\<close>

datatype verification_status = Verification_Verified | Verification_Failed | Verification_Unknown

definition wait_for_apply_verification ::
  "apply_ticket \<Rightarrow> int option \<Rightarrow> bool option \<Rightarrow> host_state \<Rightarrow> verification_status \<times> host_state" where
  "wait_for_apply_verification t left_ms result h =
     (if \<not> at_uses_v2_helper t \<or> at_generation t = 0 \<or> at_helper_request_id t = 0 \<or>
         at_client_wait_generation t = 0 \<or> at_connection_generation t = 0 then (Verification_Unknown, h)
      else if (case left_ms of None \<Rightarrow> False | Some left \<Rightarrow> left \<le> 0) then (Verification_Unknown, h)
      else case result of
        None \<Rightarrow> (Verification_Unknown, h)
      | Some True \<Rightarrow>
          if hs_apply_generation h = at_generation t
          then (Verification_Verified, h\<lparr>hs_verified_generation := at_generation t\<rparr>) else (Verification_Unknown, h)
      | Some False \<Rightarrow> (Verification_Failed, h))"

end
