(* ===== verification/Deferred_Apply.thy ===== *)
theory Deferred_Apply
  imports Host_Operations
begin

text \<open>
  An APPLY that has to wait for the user's session: \<open>apply_pending_if_ready\<close> of
  \<open>display_helper_integration.cpp\<close>, and \<open>SessionDeferralManager\<close>
  (\<open>display_helper_session_deferral.cpp\<close>), the same policy as a class of its own. Log statements are left out.
\<close>

section \<open>The queue of the host\<close>

text \<open>
  What one call learns. \<open>pe_stopped n\<close> is the n-th answer of the canceller, \<open>pe_locked\<close> whether it
  got the execution mutex, \<open>pe_now\<close> and \<open>pe_later\<close> the clock before and after the APPLY.
\<close>

record pending_answers =
  pe_stopped :: "nat \<Rightarrow> bool"
  pe_locked :: bool
  pe_session_unready :: bool
  pe_live :: bool
  pe_now :: time_ns
  pe_later :: time_ns
  pe_apply :: apply_answers

datatype claim_result = Claim_None | Claim_Ready pending_apply

text \<open>The part under the queue's mutex: what is to be applied now, and the queue it leaves.\<close>

definition claim_pending :: "time_ns \<Rightarrow> bool \<Rightarrow> pending_apply option \<Rightarrow> claim_result \<times> pending_apply option" where
  "claim_pending now live q =
     (case q of
        None \<Rightarrow> (Claim_None, q)
      | Some p \<Rightarrow>
          if pa_ready_since p = None
          then (Claim_None, Some (p\<lparr>pa_ready_since := Some now, pa_next_attempt := now + kDeferredApplyInitialDelay\<rparr>))
          else if now < pa_next_attempt p then (Claim_None, q)
          else if kMaxDeferredApplyAttempts \<le> pa_attempts p then (Claim_None, None)
          else if \<not> live then (Claim_None, q)
          else (Claim_Ready p, None))"

text \<open>A claim that is given back because its caller was stopped: a newer request keeps its place.\<close>

definition give_back :: "pending_apply \<Rightarrow> host_state \<Rightarrow> host_state" where
  "give_back p h =
     (if hs_pending h = None then h\<lparr>hs_pending := Some (p\<lparr>pa_request := (pa_request p)\<lparr>dr_session := None\<rparr>\<rparr>)\<rparr> else h)"

definition requeue_failed :: "time_ns \<Rightarrow> pending_apply \<Rightarrow> host_state \<Rightarrow> host_state" where
  "requeue_failed now p h =
     (let attempts = pa_attempts p + 1;
          p = p\<lparr>pa_attempts := attempts, pa_request := (pa_request p)\<lparr>dr_session := None\<rparr>,
                pa_next_attempt := now + deferred_apply_retry_delay attempts\<rparr>
      in if hs_pending h = None then h\<lparr>hs_pending := Some p\<rparr> else h)"

definition claimed_request :: "pending_apply \<Rightarrow> display_request" where
  "claimed_request p =
     (pa_request p)\<lparr>dr_session := (if pa_has_session p then Some (restored_session (pa_session_snapshot p)) else None)\<rparr>"

text \<open>
  The whole call: its result, whether an APPLY was made, and the generation the watchdog is given
  (\<open>adopt_watchdog_session_generation\<close>).
\<close>

definition apply_pending_if_ready ::
  "json_lib \<Rightarrow> payload_settings \<Rightarrow> pending_answers \<Rightarrow> host_state \<Rightarrow> bool \<times> bool \<times> u64 option \<times> host_state" where
  "apply_pending_if_ready L S P h =
     (if pe_stopped P 0 \<or> \<not> pe_locked P \<or> pe_stopped P 1 \<or> hs_pending h = None \<or> pe_stopped P 2 \<or> pe_session_unready P \<or>
         pe_stopped P 3
      then (False, False, None, h)
      else let (claim, q) = claim_pending (pe_now P) (pe_live P) (hs_pending h); h = h\<lparr>hs_pending := q\<rparr>
           in case claim of
                Claim_None \<Rightarrow> (False, False, None, h)
              | Claim_Ready p \<Rightarrow>
                  if pe_stopped P 4 then (False, False, None, give_back p h)
                  else let r = claimed_request p;
                           (ok, t, h) = apply_internal L S (pe_apply P) r False Policy_Full h
                       in if ok
                          then (True, True, Option.bind (dr_session r) (\<lambda>s. active_session_generation_for s h), h)
                          else if pe_stopped P 5 then (False, True, None, give_back p h)
                          else (False, True, None, requeue_failed (pe_later P) p h))"

text \<open>A sequence of calls, and how many of them made an APPLY.\<close>

fun pending_run :: "json_lib \<Rightarrow> payload_settings \<Rightarrow> pending_answers list \<Rightarrow> host_state \<Rightarrow> nat \<times> host_state" where
  "pending_run L S [] h = (0, h)"
| "pending_run L S (P # Ps) h =
     (let (ok, tried, gen, h) = apply_pending_if_ready L S P h; (n, h) = pending_run L S Ps h
      in (n + of_bool tried, h))"

section \<open>Retries end\<close>

text \<open>An APPLY that is not to defer queues nothing, unless the display API was not available in process.\<close>

lemma set_active_session_pending [simp]: "hs_pending (set_active_session s ov h) = hs_pending h"
  by (simp add: set_active_session_def Let_def remember_virtual_display_device_def)

lemma publish_pending [simp]: "hs_pending (publish_active_session A r s h) = hs_pending h"
  by (simp add: publish_active_session_def Let_def)

lemma helper_apply_pending [simp]: "hs_pending (snd (snd (helper_apply L S A r policy False t h))) = hs_pending h"
  by (simp add: helper_apply_def Let_def log_call_def split: built_payload.split option.split)

lemma fallback_apply_pending:
  "aa_in_process A \<noteq> InProcess_ApiTemporarilyUnavailable \<Longrightarrow> hs_pending (snd (fallback_apply A r policy False h)) = hs_pending h"
  by (simp add: fallback_apply_def apply_in_process_def maybe_queue_deferred_resolution_apply_def log_call_def Let_def
      split: option.split)

lemma restore_expected_pending [simp]: "hs_pending (snd (restore_expected_with_live_helper a b h)) = hs_pending h"
  by (simp add: restore_expected_with_live_helper_def)

lemma begin_apply_pending [simp]: "hs_pending (begin_apply_generation r h) = hs_pending h"
  by (simp add: begin_apply_generation_def Let_def)

lemma internal_configure_pending:
  "aa_in_process A \<noteq> InProcess_ApiTemporarilyUnavailable \<Longrightarrow>
   hs_pending (snd (snd (internal_configure L S A r policy False t h))) = hs_pending h"
  by (simp add: internal_configure_def Let_def case_prod_beta' fallback_apply_pending split: option.split bool.split)

lemma internal_revert_pending [simp]: "hs_pending (snd (internal_revert A h)) = hs_pending h"
  by (simp add: internal_revert_def Let_def clear_active_session_def log_call_def invalidate_apply_verification_def)

lemma apply_internal_pending:
  "aa_in_process A \<noteq> InProcess_ApiTemporarilyUnavailable \<Longrightarrow>
   hs_pending (snd (snd (apply_internal L S A r False policy h))) = hs_pending h"
  by (simp add: apply_internal_def Let_def case_prod_beta' internal_configure_pending split: display_apply_action.split)

text \<open>How many tries a queue has left: none beyond the sixth, whoever holds the request.\<close>

definition tries_left :: "pending_apply option \<Rightarrow> nat" where
  "tries_left q = (case q of None \<Rightarrow> 0 | Some p \<Rightarrow> kMaxDeferredApplyAttempts - pa_attempts p)"

lemma claim_tries:
  "claim_pending now live q = (Claim_None, q') \<Longrightarrow> tries_left q' \<le> tries_left q"
  "claim_pending now live q = (Claim_Ready p, q') \<Longrightarrow>
     q = Some p \<and> q' = None \<and> pa_attempts p < kMaxDeferredApplyAttempts \<and> pa_ready_since p \<noteq> None \<and> pa_next_attempt p \<le> now \<and> live"
  by (auto simp: claim_pending_def tries_left_def split: option.splits if_splits)

lemma one_pending_call:
  assumes "aa_in_process (pe_apply P) \<noteq> InProcess_ApiTemporarilyUnavailable" "\<not> pe_stopped P 5"
    and "apply_pending_if_ready L S P h = (ok, tried, gen, h')"
  shows "of_bool tried + tries_left (hs_pending h') \<le> tries_left (hs_pending h)"
proof -
  obtain c q where c: "claim_pending (pe_now P) (pe_live P) (hs_pending h) = (c, q)" by fastforce
  show ?thesis
  proof (cases c)
    case Claim_None
    with assms c claim_tries(1) show ?thesis by (auto simp: apply_pending_if_ready_def split: if_splits)
  next
    case (Claim_Ready p)
    note claim = claim_tries(2) [OF c [unfolded Claim_Ready]]
    obtain ok' t h1 where ai: "apply_internal L S (pe_apply P) (claimed_request p) False Policy_Full (h\<lparr>hs_pending := q\<rparr>) = (ok', t, h1)"
      using prod_cases3 by blast
    with apply_internal_pending [OF assms(1), of L S "claimed_request p" Policy_Full "h\<lparr>hs_pending := q\<rparr>"] claim
    have "hs_pending h1 = None" by simp
    with assms(2,3) c Claim_Ready claim ai show ?thesis
      by (auto simp: apply_pending_if_ready_def Let_def give_back_def requeue_failed_def tries_left_def split: if_splits)
  qed
qed



text \<open>A host with a request that waits, and a call whose APPLY fails.\<close>

definition waiting_request :: pending_apply where
  "waiting_request = make_pending_apply_state (plain_request\<lparr>dr_session := Some (plain_session True),
     dr_configuration := Some (plain_configuration\<lparr>cfg_resolution := Some \<lparr>res_width = 1920, res_height = 1080\<rparr>\<rparr>)\<rparr>)"

definition waiting_host :: host_state where
  "waiting_host =
     \<lparr>hs_pending = Some waiting_request, hs_resolution_deferral_armed = False, hs_active_session = None,
      hs_next_session_generation = 0, hs_restore_expected = False, hs_restore_generation = 0, hs_disarm_generation_sent = 0,
      hs_last_revert_us = 0, hs_last_disarm_attempt_us = 0, hs_last_disarm_success_us = 0, hs_last_apply_completed_us = 0,
      hs_apply_generation = 0, hs_verified_generation = 0, hs_capture_stable_generation = 0,
      hs_hdr_requested_generation = 0, hs_stream_start_deadline_us = 0, hs_virtual_watchdog = False,
      hs_remembered_devices = [], hs_calls = []\<rparr>"

definition failing_apply :: "in_process_result \<Rightarrow> apply_answers" where
  "failing_apply result =
     \<lparr>aa_stop = (\<lambda>_. False), aa_has_predicate = False, aa_deadline_us = 0, aa_helper_ready = (\<lambda>_. False),
      aa_helper_running = False, aa_query_given_up = False, aa_system_no_user_session = False, aa_budget_left = True,
      aa_apply_ok = False, aa_request_id = 0, aa_wait_generation = 0, aa_connection_generation = 0, aa_revert_ok = False,
      aa_lock_screen = False, aa_settings_manager = True, aa_in_process = result, aa_running_as_system = False,
      aa_user_session_ready = True, aa_now_us = 0\<rparr>"

definition pending_call :: "in_process_result \<Rightarrow> time_ns \<Rightarrow> pending_answers" where
  "pending_call result now =
     \<lparr>pe_stopped = (\<lambda>_. False), pe_locked = True, pe_session_unready = False, pe_live = True, pe_now = now, pe_later = now,
      pe_apply = failing_apply result\<rparr>"

lemma failing_start [simp]: "start_helper_for_apply (failing_apply result) hard = Some False"
  by (simp add: start_helper_for_apply_def failing_apply_def)

lemma restore_expected_failing [simp]:
  "fst (restore_expected_with_live_helper (aa_helper_running (failing_apply result)) g h) = False"
  by (simp add: restore_expected_with_live_helper_def failing_apply_def)


section \<open>Retries that do not end\<close>

definition retriable :: "pending_apply \<Rightarrow> bool" where
  "retriable p \<longleftrightarrow> pa_has_session p \<and> request_includes_resolution (pa_request p) \<and> dr_action (pa_request p) = Request_Configure \<and>
     pa_ready_since p = None \<and> pa_attempts p = 0"

lemma fallback_unavailable:
  assumes "dr_session r \<noteq> None" "request_includes_resolution r"
  shows "fallback_apply (failing_apply InProcess_ApiTemporarilyUnavailable) r Policy_Full False h =
    (False, queue_deferred_resolution_apply r (log_call (Call_InProcess r) h))"
  using assms by (auto simp: fallback_apply_def failing_apply_def apply_in_process_def maybe_queue_on_api_unavailable_def
      request_includes_resolution_def split: option.splits)

lemma unavailable_requeues:
  assumes "dr_session r \<noteq> None" "request_includes_resolution r" "dr_action r = Request_Configure"
  shows "\<exists>t h'. apply_internal L S (failing_apply InProcess_ApiTemporarilyUnavailable) r False Policy_Full h = (False, t, h') \<and>
    hs_pending h' = Some (make_pending_apply_state r)"
proof -
  have *: "\<exists>t' h'. internal_configure L S (failing_apply InProcess_ApiTemporarilyUnavailable) r Policy_Full False t h = (False, t', h') \<and>
      hs_pending h' = Some (make_pending_apply_state r)" for t h
    by (simp add: internal_configure_def Let_def case_prod_beta' fallback_unavailable [OF assms(1,2)])
      (simp add: queue_deferred_resolution_apply_def)
  have "\<not> aa_stop (failing_apply InProcess_ApiTemporarilyUnavailable) 0" by (simp add: failing_apply_def)
  with assms(3) show ?thesis by (simp add: apply_internal_def Let_def *)
qed

lemma requeued_retriable:
  assumes "retriable p" shows "retriable (make_pending_apply_state (claimed_request p))"
  using assms by (simp add: retriable_def make_pending_apply_state_def claimed_request_def request_includes_resolution_def)

definition unavailable_call :: "time_ns \<Rightarrow> pending_answers" where
  "unavailable_call now = pending_call InProcess_ApiTemporarilyUnavailable now"

fun unavailable_calls :: "nat \<Rightarrow> time_ns \<Rightarrow> pending_answers list" where
  "unavailable_calls 0 now = []"
| "unavailable_calls (Suc n) now =
     unavailable_call now # unavailable_call (now + ms 2000) # unavailable_calls n (now + ms 2000)"

lemma unavailable_round:
  assumes "hs_pending h = Some p" "retriable p"
  shows "\<exists>h1 h2. apply_pending_if_ready L S (unavailable_call now) h = (False, False, None, h1) \<and>
    apply_pending_if_ready L S (unavailable_call (now + ms 2000)) h1 = (False, True, None, h2) \<and>
    hs_pending h2 = Some (make_pending_apply_state (claimed_request p))"
proof -
  let ?p = "p\<lparr>pa_ready_since := Some now, pa_next_attempt := now + ms 2000\<rparr>"
  let ?h1 = "h\<lparr>hs_pending := Some ?p\<rparr>"
  have 1: "apply_pending_if_ready L S (unavailable_call now) h = (False, False, None, ?h1)"
    using assms by (simp add: apply_pending_if_ready_def unavailable_call_def pending_call_def claim_pending_def retriable_def
        kDeferredApplyInitialDelay_def)
  have r: "claimed_request ?p = claimed_request p" by (simp add: claimed_request_def)
  have "dr_session (claimed_request p) \<noteq> None" "request_includes_resolution (claimed_request p)"
      "dr_action (claimed_request p) = Request_Configure"
    using assms(2) by (simp_all add: retriable_def claimed_request_def request_includes_resolution_def)
  from unavailable_requeues [OF this, of L S "?h1\<lparr>hs_pending := None\<rparr>"]
  obtain t h2 where h2: "apply_internal L S (failing_apply InProcess_ApiTemporarilyUnavailable) (claimed_request p) False Policy_Full
      (?h1\<lparr>hs_pending := None\<rparr>) = (False, t, h2)" "hs_pending h2 = Some (make_pending_apply_state (claimed_request p))"
    by blast
  have "claim_pending (now + ms 2000) True (hs_pending ?h1) = (Claim_Ready ?p, None)"
    using assms(2) by (simp add: claim_pending_def retriable_def kMaxDeferredApplyAttempts_def)
  then have 2: "apply_pending_if_ready L S (unavailable_call (now + ms 2000)) ?h1 = (False, True, None, h2)"
    using h2 r by (simp add: apply_pending_if_ready_def unavailable_call_def pending_call_def requeue_failed_def Let_def)
  from 1 2 h2(2) show ?thesis by blast
qed

text \<open>
  C30: the limit of six does not hold when the display API of the host's own process stays unavailable: the failed
  APPLY queues itself afresh, with no attempts counted, and the retry that would have counted finds a newer
  request in its place. Two calls two seconds apart make one APPLY each round, for ever.
\<close>

theorem unavailable_api_retries_for_ever:
  assumes "hs_pending h = Some p" "retriable p"
  shows "\<exists>h' p'. pending_run L S (unavailable_calls n now) h = (n, h') \<and> hs_pending h' = Some p' \<and> pa_attempts p' = 0"
  using assms
proof (induction n arbitrary: h p now)
  case 0
  then show ?case by (simp add: retriable_def)
next
  case (Suc n)
  obtain h1 h2 where r: "apply_pending_if_ready L S (unavailable_call now) h = (False, False, None, h1)"
      "apply_pending_if_ready L S (unavailable_call (now + ms 2000)) h1 = (False, True, None, h2)"
      "hs_pending h2 = Some (make_pending_apply_state (claimed_request p))"
    using unavailable_round [OF Suc.prems] by blast
  from Suc.IH [OF r(3) requeued_retriable [OF Suc.prems(2)], of "now + ms 2000"] r(1,2) show ?case by auto
qed

theorem unavailable_api_retries_for_ever_witness:
  "fst (pending_run plain_lib plain_payload_settings (unavailable_calls 1000 0) waiting_host) = 1000"
proof -
  have "hs_pending waiting_host = Some waiting_request" "retriable waiting_request"
    by (simp_all add: waiting_host_def waiting_request_def retriable_def make_pending_apply_state_def plain_request_def
        plain_configuration_def request_includes_resolution_def)
  from unavailable_api_retries_for_ever [OF this, of plain_lib plain_payload_settings 1000 0] show ?thesis by auto
qed

section \<open>The class\<close>

datatype take_status = Take_NoPending | Take_SessionNotReady | Take_DelayStarted | Take_DelayPending | Take_Ready | Take_DroppedMaxAttempts

definition take_ready ::
  "bool \<Rightarrow> time_ns \<Rightarrow> pending_apply option \<Rightarrow> take_status \<times> pending_apply option \<times> pending_apply option" where
  "take_ready session_ready now q =
     (case q of
        None \<Rightarrow> (Take_NoPending, None, q)
      | Some p \<Rightarrow>
          if \<not> session_ready then (Take_SessionNotReady, None, q)
          else if pa_ready_since p = None
          then (Take_DelayStarted, None, Some (p\<lparr>pa_ready_since := Some now, pa_next_attempt := now + kDeferredApplyInitialDelay\<rparr>))
          else if now < pa_next_attempt p then (Take_DelayPending, None, q)
          else if kMaxDeferredApplyAttempts \<le> pa_attempts p then (Take_DroppedMaxAttempts, None, None)
          else (Take_Ready, Some p, None))"

record reschedule_result =
  rs_requeued :: bool
  rs_dropped_for_newer :: bool
  rs_dropped_max_attempts :: bool
  rs_attempts :: nat
  rs_delay :: time_ns

definition reschedule :: "time_ns \<Rightarrow> time_ns \<Rightarrow> pending_apply \<Rightarrow> pending_apply option \<Rightarrow> reschedule_result \<times> pending_apply option" where
  "reschedule now now' p q =
     (let result = \<lparr>rs_requeued = False, rs_dropped_for_newer = False, rs_dropped_max_attempts = False, rs_attempts = 0, rs_delay = 0\<rparr>
      in if kMaxDeferredApplyAttempts \<le> pa_attempts p then (result\<lparr>rs_dropped_max_attempts := True\<rparr>, q)
         else let attempts = pa_attempts p + 1; delay = deferred_apply_retry_delay attempts;
                  result = result\<lparr>rs_attempts := attempts, rs_delay := delay\<rparr>;
                  p = p\<lparr>pa_attempts := attempts, pa_next_attempt := now + delay,
                        pa_ready_since := (if pa_ready_since p = None then Some now' else pa_ready_since p)\<rparr>
              in if q \<noteq> None then (result\<lparr>rs_dropped_for_newer := True\<rparr>, q)
                 else (result\<lparr>rs_requeued := True\<rparr>, Some p))"



lemma retry_delay_bounds: "kDeferredApplyRetryBase \<le> deferred_apply_retry_delay n \<and> deferred_apply_retry_delay n \<le> kDeferredApplyRetryMax"
proof -
  have "(1 :: int) \<le> 2 ^ k" for k by simp
  then have "ms 500 \<le> ms 500 * 2 ^ k" for k by (simp add: ms_def)
  then show ?thesis
    by (auto simp: deferred_apply_retry_delay_def kDeferredApplyRetryBase_def kDeferredApplyRetryMax_def ms_def)
qed

end
