(* ===== verification/Host_Supervision.thy ===== *)
theory Host_Supervision
  imports Deferred_Apply
begin

text \<open>
  Calling off a restore (\<open>disarm_helper_restore_if_running\<close> of \<open>display_helper_integration.cpp\<close>), the
  watchdog of the helper (\<open>display_helper_watchdog.cpp\<close>), and what holds in every state the host's
  operations can reach: the fence of a restore and the gate of the capture. Log statements are left out.
\<close>

section \<open>Calling off a restore\<close>

text \<open>
  What one call learns: \<open>da_stop n\<close> is the n-th test of the canceller and the deadline,
  \<open>da_helper_locked\<close> whether it got the helper's mutex before it had to stop.
\<close>

record disarm_answers =
  da_shutdown :: bool
  da_stop :: "nat \<Rightarrow> bool"
  da_helper_running :: bool
  da_now_us :: int
  da_sent :: bool
  da_helper_locked :: bool

definition kDisarmRetryThrottle_us :: int where "kDisarmRetryThrottle_us = 150 * 1000"
definition kDisarmRestoreGrace_us :: int where "kDisarmRestoreGrace_us = 5000 * 1000"
definition revert_recent_us :: int where "revert_recent_us = 30 * 1000 * 1000"

definition recently_disarmed :: "int \<Rightarrow> host_state \<Rightarrow> bool" where
  "recently_disarmed now_us h \<longleftrightarrow> now_us - hs_last_disarm_success_us h < kDisarmRetryThrottle_us"

definition disarm_undelivered :: "disarm_answers \<Rightarrow> host_state \<Rightarrow> bool \<times> host_state" where
  "disarm_undelivered D h =
     (if da_now_us D - hs_last_revert_us h < revert_recent_us \<and> da_helper_locked D
      then (False, (log_call Call_Terminate h)\<lparr>hs_restore_expected := False\<rparr>) else (False, h))"

definition disarm_helper_restore_if_running :: "disarm_answers \<Rightarrow> host_state \<Rightarrow> bool \<times> host_state" where
  "disarm_helper_restore_if_running D h =
     (let now = da_now_us D
      in if da_shutdown D \<or> da_stop D 0 \<or> da_stop D 1 then (False, h)
         else if \<not> da_helper_running D then (False, h\<lparr>hs_restore_expected := False\<rparr>)
         else if hs_restore_expected h \<and> 0 < hs_last_revert_us h \<and> kDisarmRestoreGrace_us \<le> now - hs_last_revert_us h then (False, h)
         else if now - hs_last_disarm_attempt_us h < kDisarmRetryThrottle_us then (recently_disarmed now h, h)
         else if hs_restore_expected h \<and> hs_restore_generation h \<le> hs_disarm_generation_sent h then (recently_disarmed now h, h)
         else let generation = hs_restore_generation h; h = log_call Call_Disarm (h\<lparr>hs_last_disarm_attempt_us := now\<rparr>)
              in if da_stop D 2 then (False, h)
                 else if da_sent D
                 then (True, h\<lparr>hs_last_disarm_success_us := now, hs_disarm_generation_sent := generation, hs_restore_expected := False\<rparr>)
                 else disarm_undelivered D h)"

definition disarm_pending_restore :: "bool \<Rightarrow> disarm_answers \<Rightarrow> host_state \<Rightarrow> bool \<times> host_state" where
  "disarm_pending_restore stopped D h =
     (if stopped then (False, h) else disarm_helper_restore_if_running D (invalidate_apply_verification h))"

section \<open>The watchdog\<close>

text \<open>
  \<open>DisplayHelperWatchdog\<close>: its hooks answer (\<open>None\<close>: the hook is not set); each hook is called at
  most twice in a tick.
\<close>

record watchdog_hooks =
  wh_session_count :: "int option"
  wh_running_processes :: "int option"
  wh_feature_enabled :: "bool option"
  wh_has_reset :: bool
  wh_ensure_started :: "bool option"
  wh_ping :: "(nat \<Rightarrow> bool) option"

datatype watchdog_call = Watchdog_Reset | Watchdog_Start | Watchdog_Ping

definition active_interval :: time_ns where "active_interval = ms 10000"
definition suspended_interval :: time_ns where "suspended_interval = ms 20000"

definition watchdog_interval :: "watchdog_hooks \<Rightarrow> time_ns" where
  "watchdog_interval W =
     (case (wh_session_count W, wh_running_processes W) of
        (Some n, Some k) \<Rightarrow> if n = 0 \<and> 0 < k then suspended_interval else active_interval
      | _ \<Rightarrow> active_interval)"

definition watchdog_reset_calls :: "watchdog_hooks \<Rightarrow> watchdog_call list" where
  "watchdog_reset_calls W = (if wh_has_reset W then [Watchdog_Reset] else [])"

definition watchdog_start_calls :: "watchdog_hooks \<Rightarrow> watchdog_call list" where
  "watchdog_start_calls W = (if wh_ensure_started W = None then [] else [Watchdog_Start])"

definition watchdog_ping_calls :: "watchdog_hooks \<Rightarrow> watchdog_call list" where
  "watchdog_ping_calls W = (if wh_ping W = None then [] else [Watchdog_Ping])"

text \<open>One tick: whether the helper is ready afterwards, the calls made, and the interval to the next.\<close>

definition watchdog_tick :: "watchdog_hooks \<Rightarrow> bool \<Rightarrow> bool \<times> watchdog_call list \<times> time_ns" where
  "watchdog_tick W helper_ready =
     (let interval = watchdog_interval W; started = (wh_ensure_started W = Some True)
      in if wh_feature_enabled W = Some False
         then (False, if helper_ready then watchdog_reset_calls W else [], interval)
         else if \<not> helper_ready
         then (started, watchdog_start_calls W @ (if started then watchdog_ping_calls W else []), interval)
         else case wh_ping W of
                None \<Rightarrow> (True, [], interval)
              | Some ping \<Rightarrow>
                  if ping 0 then (True, [Watchdog_Ping], interval)
                  else if started
                  then (ping 1, [Watchdog_Ping] @ watchdog_reset_calls W @ [Watchdog_Start, Watchdog_Ping], interval)
                  else (False, [Watchdog_Ping] @ watchdog_reset_calls W @ watchdog_start_calls W, interval))"

text \<open>The watchdog never thinks a helper ready that it has not started or that did not answer.\<close>

lemma watchdog_ready:
  "watchdog_tick W r = (True, calls, i) \<Longrightarrow>
     wh_feature_enabled W \<noteq> Some False \<and>
     (\<not> r \<longrightarrow> wh_ensure_started W = Some True) \<and>
     (r \<longrightarrow> (case wh_ping W of None \<Rightarrow> True | Some ping \<Rightarrow> ping 0 \<or> ping 1 \<and> wh_ensure_started W = Some True))"
  by (auto simp: watchdog_tick_def Let_def split: if_splits option.splits)

text \<open>A helper is started again only after its old connection was reset.\<close>

lemma watchdog_restart_resets:
  "watchdog_tick W True = (r, calls, i) \<Longrightarrow> Watchdog_Start \<in> set calls \<Longrightarrow> wh_has_reset W \<Longrightarrow>
     \<exists>rest. calls = Watchdog_Ping # Watchdog_Reset # rest"
  by (auto simp: watchdog_tick_def Let_def watchdog_reset_calls_def watchdog_start_calls_def split: if_splits option.splits)

section \<open>Generations\<close>

text \<open>
  In a state reached in n steps, with n below \<open>2 ^ 64\<close>, no counter has wrapped: a verification is of
  an APPLY that was begun, and while a restore is expected no DISARM has been sent for its generation.
\<close>

definition generations_ok :: "nat \<Rightarrow> host_state \<Rightarrow> bool" where
  "generations_ok n h \<longleftrightarrow>
     unat (hs_apply_generation h) \<le> n \<and> hs_verified_generation h \<le> hs_apply_generation h \<and>
     hs_capture_stable_generation h \<le> hs_apply_generation h \<and> hs_hdr_requested_generation h \<le> hs_apply_generation h \<and>
     unat (hs_restore_generation h) \<le> n \<and> hs_disarm_generation_sent h \<le> hs_restore_generation h \<and>
     (hs_restore_expected h \<longrightarrow> hs_disarm_generation_sent h < hs_restore_generation h)"

lemma unat_suc: "unat (g :: u64) \<le> n \<Longrightarrow> n + 1 < 2 ^ 64 \<Longrightarrow> unat (g + 1) = unat g + 1"
  by (subst unat_add_lem [THEN iffD1]) simp_all

lemma next_generation:
  "unat (g :: u64) \<le> n \<Longrightarrow> n + 1 < 2 ^ 64 \<Longrightarrow> unat (g + 1) \<le> n + 1 \<and> g < g + 1 \<and> (v \<le> g \<longrightarrow> v < g + 1)"
  by (auto simp: word_less_nat_alt word_le_nat_alt unat_suc)

text \<open>What leaves the generations alone, and can only end a restore.\<close>

definition keeps_generations :: "host_state \<Rightarrow> host_state \<Rightarrow> bool" where
  "keeps_generations h h' \<longleftrightarrow>
     hs_apply_generation h' = hs_apply_generation h \<and> hs_verified_generation h' = hs_verified_generation h \<and>
     hs_capture_stable_generation h' = hs_capture_stable_generation h \<and>
     hs_hdr_requested_generation h' = hs_hdr_requested_generation h \<and> hs_restore_generation h' = hs_restore_generation h \<and>
     hs_disarm_generation_sent h' = hs_disarm_generation_sent h \<and> (hs_restore_expected h' \<longrightarrow> hs_restore_expected h)"

lemma keeps_refl [simp]: "keeps_generations h h"
  by (simp add: keeps_generations_def)

lemma keeps_trans [trans]: "keeps_generations h h' \<Longrightarrow> keeps_generations h' h'' \<Longrightarrow> keeps_generations h h''"
  by (simp add: keeps_generations_def)

lemma keeps_ok: "keeps_generations h h' \<Longrightarrow> generations_ok n h \<Longrightarrow> generations_ok n h'"
  by (auto simp: keeps_generations_def generations_ok_def)

lemma generations_ok_mono: "generations_ok n h \<Longrightarrow> n \<le> m \<Longrightarrow> generations_ok m h"
  by (auto simp: generations_ok_def)

lemma keeps_set_active [simp]: "keeps_generations h (set_active_session s ov h)"
  by (simp add: keeps_generations_def set_active_session_def Let_def remember_virtual_display_device_def)

lemma keeps_publish: "keeps_generations h (publish_active_session A r s h)"
proof -
  have "keeps_generations h (h\<lparr>hs_last_apply_completed_us := aa_now_us A\<rparr>)" by (simp add: keeps_generations_def)
  also have "keeps_generations \<dots> (set_active_session s (dr_session_overrides r) \<dots>)" by simp
  finally show ?thesis by (simp add: publish_active_session_def Let_def keeps_generations_def)
qed

lemma keeps_queue [simp]: "keeps_generations h (queue_deferred_resolution_apply r h)"
    "keeps_generations h (maybe_queue_deferred_resolution_apply a b r c h)" "keeps_generations h (maybe_queue_on_api_unavailable r h)"
    "keeps_generations h (log_call c' h)" "keeps_generations h (clear_active_session h)" "keeps_generations h (h\<lparr>hs_pending := q\<rparr>)"
  by (auto simp: keeps_generations_def queue_deferred_resolution_apply_def maybe_queue_deferred_resolution_apply_def
      maybe_queue_on_api_unavailable_def log_call_def clear_active_session_def)

lemma keeps_helper_apply: "keeps_generations h (snd (snd (helper_apply L S A r policy allow t h)))"
proof -
  have log: "keeps_generations h (log_call c h)" for c by simp
  have publish: "keeps_generations h (publish_active_session A r s ((log_call c h)\<lparr>hs_restore_expected := False\<rparr>))" for s c
    by (rule keeps_trans [OF _ keeps_publish]) (simp add: keeps_generations_def log_call_def)
  have queue: "keeps_generations h (queue_deferred_resolution_apply r (log_call c h))" for c
    by (rule keeps_trans [OF log [of c]]) simp
  show ?thesis
    by (simp add: helper_apply_def Let_def publish queue log split: built_payload.split option.split)
qed

lemma keeps_fallback: "keeps_generations h (snd (fallback_apply A r policy allow h))"
proof -
  have log: "keeps_generations h (log_call c h)" for c by simp
  have queue: "keeps_generations h (maybe_queue_on_api_unavailable r (log_call c h))" for c
    by (rule keeps_trans [OF log [of c]]) simp
  have publish: "keeps_generations h (maybe_queue_deferred_resolution_apply a b r d (publish_active_session A r s (log_call c h)))" for a b d s c
    by (rule keeps_trans [OF keeps_trans [OF log [of c] keeps_publish [of _ A r s]]]) simp
  show ?thesis
    by (simp add: fallback_apply_def Let_def apply_in_process_def publish queue log split: option.split)
qed

lemma keeps_restore_expected: "keeps_generations h (snd (restore_expected_with_live_helper a b h))"
  by (simp add: restore_expected_with_live_helper_def keeps_generations_def)

lemma begin_apply_ok:
  assumes "generations_ok n h" "n + 1 < 2 ^ 64"
  shows "generations_ok (n + 1) (begin_apply_generation r h) \<and>
    hs_verified_generation (begin_apply_generation r h) < hs_apply_generation (begin_apply_generation r h)"
  using assms next_generation [of "hs_apply_generation h" n]
  by (auto simp: generations_ok_def begin_apply_generation_def Let_def intro: order.strict_implies_order)

lemma invalidate_ok:
  assumes "generations_ok n h" "n + 1 < 2 ^ 64"
  shows "generations_ok (n + 1) (invalidate_apply_verification h)"
  using assms next_generation [of "hs_apply_generation h" n]
  by (auto simp: generations_ok_def invalidate_apply_verification_def)


lemma configure_ok:
  assumes "generations_ok n h" "n + 1 < 2 ^ 64"
  shows "generations_ok (n + 1) (snd (snd (internal_configure L S A r policy allow t h)))"
    and "hs_verified_generation (snd (snd (internal_configure L S A r policy allow t h))) <
      hs_apply_generation (snd (snd (internal_configure L S A r policy allow t h)))"
proof -
  let ?b = "begin_apply_generation r h"
  have k: "keeps_generations ?b (snd (snd (internal_configure L S A r policy allow t h)))"
    by (simp add: internal_configure_def Let_def case_prod_beta' keeps_restore_expected
        keeps_trans [OF keeps_restore_expected keeps_helper_apply] keeps_trans [OF keeps_restore_expected keeps_fallback]
        split: option.split bool.split)
  note b = begin_apply_ok [OF assms, of r]
  show "generations_ok (n + 1) (snd (snd (internal_configure L S A r policy allow t h)))"
    using keeps_ok [OF k] b by blast
  show "hs_verified_generation (snd (snd (internal_configure L S A r policy allow t h))) <
      hs_apply_generation (snd (snd (internal_configure L S A r policy allow t h)))"
    using k b by (auto simp: keeps_generations_def)
qed

lemma internal_revert_ok:
  assumes "generations_ok n h" "n + 1 < 2 ^ 64"
  shows "generations_ok (n + 1) (snd (internal_revert A h))"
proof -
  note i = invalidate_ok [OF assms]
  have "keeps_generations (invalidate_apply_verification h) (clear_active_session (log_call Call_Revert (invalidate_apply_verification h)))"
    by (rule keeps_trans [of _ "log_call Call_Revert (invalidate_apply_verification h)"]) simp_all
  from keeps_ok [OF this i] keeps_ok [OF _ i, of "clear_active_session (invalidate_apply_verification h)"]
  show ?thesis by (simp add: internal_revert_def Let_def)
qed

lemma apply_internal_ok:
  assumes "generations_ok n h" "n + 1 < 2 ^ 64"
  shows "generations_ok (n + 1) (snd (snd (apply_internal L S A r allow policy h)))"
proof -
  have d: "generations_ok n (h\<lparr>hs_stream_start_deadline_us := d\<rparr>)" for d using assms(1) by (simp add: generations_ok_def)
  show ?thesis
    using configure_ok(1) [OF d assms(2)] internal_revert_ok [OF d assms(2)] generations_ok_mono [OF d, of "n + 1"]
    by (simp add: apply_internal_def Let_def case_prod_beta' split: display_apply_action.split)
qed

section \<open>The host's steps\<close>

inductive host_step :: "json_lib \<Rightarrow> payload_settings \<Rightarrow> host_state \<Rightarrow> host_state \<Rightarrow> bool" for L S where
  step_apply: "host_step L S h (snd (snd (apply_display L S entered A r policy h)))"
| step_revert: "host_step L S h (snd (revert_display ready ok now h))"
| step_disarm: "host_step L S h (snd (disarm_pending_restore stopped D h))"
| step_reset: "host_step L S h (snd (reset_persistence ready ok h))"
| step_pending: "host_step L S h (snd (snd (snd (apply_pending_if_ready L S P h))))"
| step_snapshot: "host_step L S h (snd (restore_expected_with_live_helper running given_up h))"
| step_verification: "host_step L S h (snd (wait_for_apply_verification t left_ms result h))"
| step_clear: "host_step L S h (clear_pending_apply h)"

text \<open>Reachable in n steps from a host that has just started.\<close>

definition host_started :: "host_state \<Rightarrow> bool" where
  "host_started h \<longleftrightarrow> hs_apply_generation h = 0 \<and> hs_verified_generation h = 0 \<and> hs_capture_stable_generation h = 0 \<and>
     hs_hdr_requested_generation h = 0 \<and> hs_restore_generation h = 0 \<and> hs_disarm_generation_sent h = 0 \<and> \<not> hs_restore_expected h"

inductive host_reachable :: "json_lib \<Rightarrow> payload_settings \<Rightarrow> nat \<Rightarrow> host_state \<Rightarrow> bool" for L S where
  host_start: "host_started h \<Longrightarrow> host_reachable L S 0 h"
| host_next: "host_reachable L S n h \<Longrightarrow> host_step L S h h' \<Longrightarrow> host_reachable L S (n + 1) h'"

lemma apply_display_ok:
  assumes "generations_ok n h" "n + 1 < 2 ^ 64"
  shows "generations_ok (n + 1) (snd (snd (apply_display L S entered A r policy h)))"
proof -
  have q: "generations_ok n (h\<lparr>hs_pending := None\<rparr>)" "generations_ok n (remember_virtual_display_device d (h\<lparr>hs_pending := None\<rparr>))" for d
    using assms(1) by (simp_all add: generations_ok_def remember_virtual_display_device_def)
  show ?thesis
    using apply_internal_ok [OF q(1) assms(2)] apply_internal_ok [OF q(2) assms(2)] generations_ok_mono [OF assms(1), of "n + 1"]
    by (simp add: apply_display_def Let_def case_prod_beta' split: option.split)
qed

lemma revert_display_ok:
  assumes "generations_ok n h" "n + 1 < 2 ^ 64"
  shows "generations_ok (n + 1) (snd (revert_display ready ok now h))"
proof -
  note i = invalidate_ok [OF assms]
  have "unat (hs_restore_generation (invalidate_apply_verification h)) \<le> n"
    "hs_disarm_generation_sent (invalidate_apply_verification h) \<le> hs_restore_generation (invalidate_apply_verification h)"
    using assms(1) by (simp_all add: generations_ok_def invalidate_apply_verification_def)
  with i next_generation [OF this(1) assms(2)] show ?thesis
    by (auto simp: revert_display_def Let_def generations_ok_def clear_active_session_def log_call_def
        intro: order.strict_implies_order)
qed

lemma disarm_ok:
  assumes "generations_ok n h"
  shows "generations_ok n (snd (disarm_helper_restore_if_running D h))"
  using assms
  by (auto simp: disarm_helper_restore_if_running_def disarm_undelivered_def Let_def generations_ok_def log_call_def)

lemma verification_ok: "generations_ok n h \<Longrightarrow> generations_ok n (snd (wait_for_apply_verification t left_ms result h))"
  by (auto simp: wait_for_apply_verification_def generations_ok_def split: option.split bool.split)

lemma pending_ok:
  assumes "generations_ok n h" "n + 1 < 2 ^ 64"
  shows "generations_ok (n + 1) (snd (snd (snd (apply_pending_if_ready L S P h))))"
proof -
  have q: "generations_ok n (h\<lparr>hs_pending := q\<rparr>)" for q using assms(1) by (simp add: generations_ok_def)
  have kept: "generations_ok m (give_back p h)" "generations_ok m (requeue_failed now p h)" if "generations_ok m h" for m p h now
    using that by (simp_all add: give_back_def requeue_failed_def Let_def generations_ok_def)
  show ?thesis
    using generations_ok_mono [OF assms(1), of "n + 1"] generations_ok_mono [OF q, of "n + 1"]
      apply_internal_ok [OF q assms(2)] kept
    by (simp add: apply_pending_if_ready_def Let_def case_prod_beta' split: claim_result.split)
qed

lemma disarm_pending_ok:
  assumes "generations_ok n h" "n + 1 < 2 ^ 64"
  shows "generations_ok (n + 1) (snd (disarm_pending_restore stopped D h))"
  using disarm_ok [OF invalidate_ok [OF assms], of D] generations_ok_mono [OF assms(1), of "n + 1"]
  by (simp add: disarm_pending_restore_def)

lemma host_step_ok:
  assumes "host_step L S h h'" "generations_ok n h" "n + 1 < 2 ^ 64"
  shows "generations_ok (n + 1) h'"
proof -
  have later: "generations_ok (n + 1) k" if "generations_ok n k" for k using that by (rule generations_ok_mono) simp
  show ?thesis
    using assms(1)
  proof (cases rule: host_step.cases)
    case (step_snapshot running given_up)
    with later [OF keeps_ok [OF keeps_restore_expected assms(2)]] show ?thesis by simp
  next
    case (step_verification t left_ms result)
    with later [OF verification_ok [OF assms(2)]] show ?thesis by simp
  next
    case step_clear
    with later [OF keeps_ok [OF keeps_queue(6) assms(2)]] show ?thesis by (simp add: clear_pending_apply_def)
  next
    case (step_reset ready ok)
    with invalidate_ok [OF assms(2,3)] show ?thesis by (simp add: reset_persistence_def)
  qed (use apply_display_ok [OF assms(2,3)] revert_display_ok [OF assms(2,3)] disarm_pending_ok [OF assms(2,3)]
      pending_ok [OF assms(2,3)] in simp_all)
qed

lemma host_reachable_ok: "host_reachable L S n h \<Longrightarrow> n < 2 ^ 64 \<Longrightarrow> generations_ok n h"
proof (induction rule: host_reachable.induct)
  case (host_start h)
  then show ?case by (simp add: host_started_def generations_ok_def)
next
  case (host_next n h h')
  then show ?case using host_step_ok [OF host_next.hyps(2), of n] by simp
qed


section \<open>The fence of a restore\<close>

text \<open>The function without its test of the generation.\<close>

definition disarm_untested :: "disarm_answers \<Rightarrow> host_state \<Rightarrow> bool \<times> host_state" where
  "disarm_untested D h =
     (let now = da_now_us D
      in if da_shutdown D \<or> da_stop D 0 \<or> da_stop D 1 then (False, h)
         else if \<not> da_helper_running D then (False, h\<lparr>hs_restore_expected := False\<rparr>)
         else if hs_restore_expected h \<and> 0 < hs_last_revert_us h \<and> kDisarmRestoreGrace_us \<le> now - hs_last_revert_us h then (False, h)
         else if now - hs_last_disarm_attempt_us h < kDisarmRetryThrottle_us then (recently_disarmed now h, h)
         else let generation = hs_restore_generation h; h = log_call Call_Disarm (h\<lparr>hs_last_disarm_attempt_us := now\<rparr>)
              in if da_stop D 2 then (False, h)
                 else if da_sent D
                 then (True, h\<lparr>hs_last_disarm_success_us := now, hs_disarm_generation_sent := generation, hs_restore_expected := False\<rparr>)
                 else disarm_undelivered D h)"


definition plain_disarm :: disarm_answers where
  "plain_disarm = \<lparr>da_shutdown = False, da_stop = (\<lambda>_. False), da_helper_running = True, da_now_us = 1000000, da_sent = True,
     da_helper_locked = True\<rparr>"

definition reverted_host :: host_state where
  "reverted_host = snd (revert_display True True 500000 waiting_host)"

lemma reverted_reachable: "host_reachable L S 1 reverted_host"
proof -
  have "host_reachable L S 0 waiting_host" by (rule host_start) (simp add: host_started_def waiting_host_def)
  from host_next [OF this step_revert [of L S waiting_host True True 500000]] show ?thesis by (simp add: reverted_host_def)
qed


section \<open>The gate of the capture\<close>

lemma configure_sets_stable:
  "hs_capture_stable_generation (snd (snd (internal_configure L S A r policy allow t h))) \<noteq> 0 \<Longrightarrow>
     dr_virtual_display_arrangement r = Some Exclusive \<and> Option.bind (dr_configuration r) cfg_hdr_state = Some Hdr_Disabled"
proof -
  let ?b = "begin_apply_generation r h"
  have "keeps_generations ?b (snd (snd (internal_configure L S A r policy allow t h)))"
    by (simp add: internal_configure_def Let_def case_prod_beta' keeps_restore_expected
        keeps_trans [OF keeps_restore_expected keeps_helper_apply] keeps_trans [OF keeps_restore_expected keeps_fallback]
        split: option.split bool.split)
  then have "hs_capture_stable_generation (snd (snd (internal_configure L S A r policy allow t h))) = hs_capture_stable_generation ?b"
    by (simp add: keeps_generations_def)
  moreover assume "hs_capture_stable_generation (snd (snd (internal_configure L S A r policy allow t h))) \<noteq> 0"
  ultimately show ?thesis by (simp add: begin_apply_generation_def Let_def split: if_splits)
qed

text \<open>
  C9: an APPLY that has begun closes the capture's gate, whatever became of earlier ones; it opens again only when a
  verification of this very APPLY succeeds, and only for an exclusive virtual display without HDR.
\<close>

theorem capture_waits_for_its_own_apply:
  assumes "host_reachable L S n h" "n + 1 < 2 ^ 64" "dr_action r = Request_Configure" "\<not> aa_stop A 0"
    and "apply_internal L S A r allow policy h = (ok, t, h')"
  shows "\<not> last_apply_is_capture_stable h' \<and>
    (last_apply_is_capture_stable (snd (wait_for_apply_verification t' left_ms result h')) \<longrightarrow>
       result = Some True \<and> at_generation t' = hs_apply_generation h' \<and>
       dr_virtual_display_arrangement r = Some Exclusive \<and>
       Option.bind (dr_configuration r) cfg_hdr_state = Some Hdr_Disabled)"
proof -
  let ?h = "h\<lparr>hs_stream_start_deadline_us := (if policy = Policy_StreamStart then aa_deadline_us A else 0)\<rparr>"
  have "generations_ok n ?h" using host_reachable_ok [OF assms(1)] assms(2) by (simp add: generations_ok_def)
  obtain t0 where "internal_configure L S A r policy allow t0 ?h = (ok, t, h')"
    using assms(3-5) by (auto simp: apply_internal_def Let_def)
  then have h': "h' = snd (snd (internal_configure L S A r policy allow t0 ?h))" by simp
  from configure_ok(2) [OF \<open>generations_ok n ?h\<close> assms(2)] have fresh: "hs_verified_generation h' < hs_apply_generation h'"
    by (simp add: h')
  then have "hs_verified_generation h' \<noteq> hs_apply_generation h'" by (rule order.strict_implies_not_eq)
  then have closed: "\<not> last_apply_is_capture_stable h'" by (simp add: last_apply_is_capture_stable_def)
  moreover have "result = Some True \<and> at_generation t' = hs_apply_generation h' \<and> hs_capture_stable_generation h' \<noteq> 0"
    if "last_apply_is_capture_stable (snd (wait_for_apply_verification t' left_ms result h'))"
    using that closed
    by (auto simp: wait_for_apply_verification_def last_apply_is_capture_stable_def split: if_splits option.splits bool.splits)
  ultimately show ?thesis using configure_sets_stable [of L S A r policy allow t0 ?h] by (simp add: h')
qed

definition exclusive_request :: display_request where
  "exclusive_request = plain_request\<lparr>dr_virtual_display_arrangement := Some Exclusive,
     dr_configuration := Some (plain_configuration\<lparr>cfg_hdr_state := Some Hdr_Disabled\<rparr>)\<rparr>"

definition own_ticket :: apply_ticket where
  "own_ticket = \<lparr>at_generation = 2, at_helper_request_id = 7, at_client_wait_generation = 1, at_connection_generation = 1,
     at_uses_v2_helper = True, at_startup_deadline_us = 0\<rparr>"

theorem capture_waits_for_its_own_apply_witness:
  "\<exists>ok t h'. apply_internal plain_lib plain_payload_settings (failing_apply InProcess_Ok) exclusive_request True Policy_Full
       reverted_host = (ok, t, h') \<and> \<not> last_apply_is_capture_stable h' \<and>
     \<not> last_apply_is_capture_stable (snd (wait_for_apply_verification own_ticket None (Some False) h'))"
proof -
  obtain ok t h' where a: "apply_internal plain_lib plain_payload_settings (failing_apply InProcess_Ok) exclusive_request True
      Policy_Full reverted_host = (ok, t, h')" using prod_cases3 by blast
  have "dr_action exclusive_request = Request_Configure" "\<not> aa_stop (failing_apply InProcess_Ok) 0"
    by (simp_all add: exclusive_request_def plain_request_def failing_apply_def)
  from capture_waits_for_its_own_apply [OF reverted_reachable _ this a, of own_ticket None "Some False"] a
  show ?thesis by auto
qed

section \<open>What is published\<close>

lemma set_active_session_publishes:
  "\<exists>a. hs_active_session (set_active_session s ov h) = Some a \<and> same_session s a \<and>
     as_generation a = (case active_session_generation_for s h of Some g \<Rightarrow> g | None \<Rightarrow> hs_next_session_generation h + 1)"
  by (auto simp: set_active_session_def Let_def remember_virtual_display_device_def same_session_def
      active_session_generation_for_def split: option.split)

lemma queue_keeps_session [simp]:
  "hs_active_session (maybe_queue_deferred_resolution_apply a b r c h) = hs_active_session h"
  "hs_active_session (queue_deferred_resolution_apply r h) = hs_active_session h"
  "hs_active_session (maybe_queue_on_api_unavailable r h) = hs_active_session h"
  "hs_active_session (log_call c' h) = hs_active_session h"
  "hs_active_session (snd (restore_expected_with_live_helper x y h)) = hs_active_session h"
  "hs_active_session (begin_apply_generation r h) = hs_active_session h"
  "hs_next_session_generation (log_call c' h) = hs_next_session_generation h"
  "hs_next_session_generation (snd (restore_expected_with_live_helper x y h)) = hs_next_session_generation h"
  "hs_next_session_generation (begin_apply_generation r h) = hs_next_session_generation h"
  by (simp_all add: maybe_queue_deferred_resolution_apply_def queue_deferred_resolution_apply_def maybe_queue_on_api_unavailable_def
      log_call_def restore_expected_with_live_helper_def begin_apply_generation_def Let_def)

text \<open>The session is published with a success and only then; a session that is still the same keeps its generation.\<close>

definition published :: "launch_session \<Rightarrow> host_state \<Rightarrow> bool \<Rightarrow> host_state \<Rightarrow> bool" where
  "published s h ok h' \<longleftrightarrow>
     (if ok
      then (case hs_active_session h' of
              None \<Rightarrow> False
            | Some a \<Rightarrow> same_session s a \<and>
                as_generation a = (case active_session_generation_for s h of Some g \<Rightarrow> g | None \<Rightarrow> hs_next_session_generation h + 1))
      else hs_active_session h' = hs_active_session h)"

lemma published_publish:
  assumes "hs_active_session h1 = hs_active_session h" "hs_next_session_generation h1 = hs_next_session_generation h"
  shows "published s h True (publish_active_session A r s h1)"
proof -
  let ?h2 = "h1\<lparr>hs_last_apply_completed_us := aa_now_us A\<rparr>"
  obtain a where a: "hs_active_session (set_active_session s (dr_session_overrides r) ?h2) = Some a" "same_session s a"
      "as_generation a = (case active_session_generation_for s ?h2 of Some g \<Rightarrow> g | None \<Rightarrow> hs_next_session_generation ?h2 + 1)"
    using set_active_session_publishes [of s "dr_session_overrides r" ?h2] by blast
  have "active_session_generation_for s ?h2 = active_session_generation_for s h"
    using assms(1) by (simp add: active_session_generation_for_def)
  with a assms(2) show ?thesis
    by (cases "active_session_generation_for s h") (simp_all add: published_def publish_active_session_def Let_def)
qed

lemma published_helper:
  assumes "dr_session r = Some s"
    and "hs_active_session h1 = hs_active_session h" "hs_next_session_generation h1 = hs_next_session_generation h"
  shows "published s h (fst (helper_apply L S A r policy allow t h1)) (snd (snd (helper_apply L S A r policy allow t h1)))"
proof -
  have "published s h True (publish_active_session A r s ((log_call c h1)\<lparr>hs_restore_expected := False\<rparr>))" for c
    by (rule published_publish) (simp_all add: assms(2,3))
  with assms show ?thesis
    by (simp add: helper_apply_def Let_def split: built_payload.split) (simp add: published_def)
qed

lemma published_fallback:
  assumes "dr_session r = Some s"
    and "hs_active_session h1 = hs_active_session h" "hs_next_session_generation h1 = hs_next_session_generation h"
  shows "published s h (fst (fallback_apply A r policy allow h1)) (snd (fallback_apply A r policy allow h1))"
proof -
  have "published s h True (publish_active_session A r s (log_call c h1))" for c
    by (rule published_publish) (simp_all add: assms(2,3))
  then have "published s h True (maybe_queue_deferred_resolution_apply a b r d (publish_active_session A r s (log_call c h1)))" for a b d c
    by (simp add: published_def)
  with assms show ?thesis
    by (simp add: fallback_apply_def apply_in_process_def Let_def) (simp add: published_def)
qed

lemma published_configure:
  assumes "dr_session r = Some s"
  shows "published s h (fst (internal_configure L S A r policy allow t h)) (snd (snd (internal_configure L S A r policy allow t h)))"
proof -
  let ?h1 = "snd (restore_expected_with_live_helper (aa_helper_running A) (aa_query_given_up A) (begin_apply_generation r h))"
  have "hs_active_session ?h1 = hs_active_session h" "hs_next_session_generation ?h1 = hs_next_session_generation h" by simp_all
  note h1 = this
  from published_helper [OF assms h1] published_fallback [OF assms h1] h1(1) show ?thesis
    by (simp add: internal_configure_def Let_def case_prod_beta' split: option.split bool.split) (simp add: published_def)
qed

text \<open>
  C10: an APPLY of a session makes it the active session exactly when it reports success: under its own identity, with
  the generation it already had or a new one. An APPLY that fails, is stopped or is deferred leaves the active
  session as it was.
\<close>

theorem apply_publishes_on_success:
  assumes "apply_internal L S A r allow policy h = (ok, t, h')" "dr_action r = Request_Configure" "dr_session r = Some s"
  shows "published s h ok h'"
proof -
  let ?h = "h\<lparr>hs_stream_start_deadline_us := (if policy = Policy_StreamStart then aa_deadline_us A else 0)\<rparr>"
  have same: "published s ?h ok' k \<longleftrightarrow> published s h ok' k" for ok' k
    by (simp add: published_def active_session_generation_for_def split: option.split)
  show ?thesis
  proof (cases "aa_stop A 0")
    case True
    with assms(1) have "ok = False" "h' = ?h" by (auto simp: apply_internal_def Let_def)
    then show ?thesis by (simp add: published_def)
  next
    case False
    then obtain t0 where "internal_configure L S A r policy allow t0 ?h = (ok, t, h')"
      using assms(1,2) by (auto simp: apply_internal_def Let_def)
    with published_configure [OF assms(3), of ?h L S A policy allow t0] same show ?thesis by simp
  qed
qed

theorem apply_publishes_on_success_witness:
  "published (plain_session True) reverted_host True (snd (snd (apply_internal plain_lib plain_payload_settings
     (failing_apply InProcess_Ok) (exclusive_request\<lparr>dr_session := Some (plain_session True)\<rparr>) True Policy_Full reverted_host)))"
proof -
  let ?r = "exclusive_request\<lparr>dr_session := Some (plain_session True)\<rparr>"
  obtain ok t h' where a: "apply_internal plain_lib plain_payload_settings (failing_apply InProcess_Ok) ?r True Policy_Full
      reverted_host = (ok, t, h')" using prod_cases3 by blast
  have act: "dr_action ?r = Request_Configure" by (simp add: exclusive_request_def plain_request_def)
  have "fst (fallback_apply (failing_apply InProcess_Ok) ?r Policy_Full True h)" for h
    by (simp add: fallback_apply_def failing_apply_def apply_in_process_def exclusive_request_def plain_request_def)
  moreover have "\<not> aa_stop (failing_apply InProcess_Ok) 0" by (simp add: failing_apply_def)
  ultimately have "fst (apply_internal plain_lib plain_payload_settings (failing_apply InProcess_Ok) ?r True Policy_Full reverted_host)"
    using act by (simp add: apply_internal_def internal_configure_def Let_def case_prod_beta')
  with a have ok by simp
  from apply_publishes_on_success [OF a act, of "plain_session True"] a this show ?thesis by simp
qed

text \<open>
  A REVERT that a request asks for is not recorded: the APPLY after it restarts the helper, where one after
  \<open>revert\<close> would leave the restore to the helper that is running.
\<close>

lemma requested_revert_is_not_expected:
  "hs_restore_expected (snd (internal_revert A h)) = hs_restore_expected h \<and>
   hs_restore_generation (snd (internal_revert A h)) = hs_restore_generation h"
  by (simp add: internal_revert_def Let_def clear_active_session_def log_call_def invalidate_apply_verification_def)

end
