(* ===== verification/Spec2Isabelle.thy ===== *)
theory Spec2Isabelle
  imports Golden_Health Wire_Properties Client_Properties Client_Commands Host_Supervision
begin

text \<open>
  Verification of the display control of Vibepollo, the Windows streaming host in \<open>src/\<close>: the display helper,
  version 2, which changes the displays for a stream and puts them back afterwards, the client through which the
  host speaks to it, and the host's own side, which decides what to ask. Paths are relative to
  \<open>src/src/platform/windows/\<close> unless they start with \<open>src/\<close> or \<open>tools/\<close>.

  \<^bold>\<open>The program.\<close> For a session the host builds a request (a configuration, a topology, positions, rates), writes
  it as JSON into a frame of a named pipe and waits for the reply (\<open>display_helper_integration.cpp\<close>,
  \<open>ipc/display_settings_client.cpp\<close>, \<open>ipc/pipes.cpp\<close>). The helper is a process of its own
  (\<open>src/tools/display_settings_helper_v2.cpp\<close>): it turns frames into messages of one mailbox, and its main thread
  gives each to the state machine (\<open>display_helper_v2/state_machine.cpp\<close>). The machine starts operations
  (\<open>operations.cpp\<close>) on a worker thread (\<open>async_dispatcher.cpp\<close>); their completions come back through the
  mailbox. Snapshots of the displays are the way back; they are files (\<open>snapshot.cpp\<close>, \<open>snapshot_codec.cpp\<close>).

  \<^bold>\<open>Theories, bottom up.\<close>
  \<^item> \<open>Prelude\<close>: words, time in nanoseconds, \<open>std::map\<close> and \<open>std::set\<close> as sorted lists, string comparison.
  \<^item> \<open>Helper_Types\<close>: the records and datatypes of \<open>types.h\<close>. \<open>Runtime_Support\<close>: \<open>runtime_support.h\<close>.
  \<^item> \<open>Snapshot_Codec\<close>, \<open>Snapshot_Text\<close>, \<open>Snapshot_Storage\<close>, \<open>Golden_Health\<close>: filters and comparison of
    snapshots, their text with its parser and serializer, atomic files with faults, the storage (locale
    \<open>snapshot_store\<close>, interpreted on the file and the memory storage), the health of the golden snapshot.
    They show that a saved snapshot loads unchanged, that a write is all or nothing and that a baseline is
    never destroyed; and which damaged files throw.
  \<^item> \<open>Display_Ports\<close>: what the operations call, as functions over an abstract world, with the trace of the
    calls. \<open>Topology_Transition\<close>, \<open>Apply_Operation\<close>, \<open>Recovery_Operation\<close>: \<open>operations.cpp\<close>. Weakest
    preconditions over traces (\<open>wp\<close>, \<open>returns\<close>) show that recovery is armed before the first change, that a
    cancellation stops the changes, that a restore counts only when confirmed, and that every run returns.
  \<^item> \<open>Async_Dispatcher\<close>, \<open>Snapshot_Ledger\<close>: the worker and timer passes (locale \<open>fifo\<close>, for both queues), the
    machine's captures. \<open>State_Machine\<close>, \<open>Message_Handlers\<close>: every member and handler of the machine.
    \<open>SM_Invariants\<close>, \<open>SM_Properties\<close>: the machine among its threads as a step relation, and its fences.
  \<^item> \<open>Helper_Host\<close>, \<open>Host_Properties\<close>: the loop of the process, epochs and exit, and that it refines the system of
    \<open>SM_Invariants\<close>. \<open>Pipe_Framing\<close>, \<open>Helper_Wire\<close>, \<open>Wire_Properties\<close>: frames, payloads, replies.
  \<^item> \<open>Response_Routing\<close> (locale \<open>reply_loop\<close>, for the four waits), \<open>Client_Sessions\<close>, \<open>Client_Requests\<close>,
    \<open>Client_Invariants\<close>, \<open>Client_Steps\<close>, \<open>Client_Properties\<close>, \<open>Client_Commands\<close>:
    \<open>display_settings_client.cpp\<close>. All interleavings of requests, commands, lost connections and replies: a result
    is the reply to the very request.
  \<^item> \<open>Stream_Rates\<close> (\<open>src/framegen_policy.h\<close>), \<open>Session_Configuration\<close> (\<open>src/display_device.cpp\<close>, accessors of
    \<open>src/rtsp.h\<close>), \<open>Session_Request\<close>, \<open>Session_Positions\<close> (\<open>display_helper_request_helpers.cpp\<close>): what the host asks
    for. \<open>Request_Payload\<close>: its JSON, and that the helper reads back what was asked.
  \<^item> \<open>Host_Operations\<close>, \<open>Deferred_Apply\<close>, \<open>Host_Supervision\<close>: APPLY, REVERT, DISARM, verification, the deferred
    APPLY and the watchdog's tick; the gate of the capture and the fence of a restore as invariants of \<open>host_step\<close>.

  \<^bold>\<open>Conventions.\<close> A class is a record, its methods are functions on it, in the order of the source. A block under a
  mutex is one step; where threads meet, the steps are an inductive relation and the properties hold in its reachable
  states. An exception or a run that does not return is \<open>None\<close>; termination is stated as such. Calls to code that is
  not in the repository (Win32, libdisplaydevice, the JSON library) are parameters or answers given to a step. The
  simulated platforms (\<open>sim_\<close> and \<open>plain_\<close> definitions) are for the witnesses only.

  \<^bold>\<open>Bounds.\<close> Counters keep their 64 bits. Where a theorem needs that they have not wrapped it says so: \<open>roomy\<close> in the
  client, fewer than \<open>2 ^ 64\<close> steps in the host. A wait with a deadline is given the list of its rounds, which ends at
  the deadline: any list is allowed, so no bound is chosen. Loops with a retry limit recurse on the limit of the
  source (15 position passes, 3 APPLY attempts, 6 deferred attempts), polling loops are \<open>partial_function\<close>s that are
  proved to return.

  \<^bold>\<open>Not modelled.\<close> Log statements; the Windows adapters of the ports, pipes and process start-up; the JSON library,
  \<open>toJson\<close> and \<open>fromJson\<close>; floating-point comparison of rates; starting, finding and killing the helper process; the
  threads of the watchdog; the legacy helper (\<open>tools/display_settings_helper.cpp\<close>). Outside the display control nothing
  is modelled: virtual display drivers, capture and encoding, streaming, web servers, input and audio are calls into
  drivers, encoders and sockets, or other subsystems of the host; the manifest lists them.
\<close>

end
